(* ===== verification/Prelude.thy ===== *)
theory Prelude
  imports Complex_Main "HOL-Library.AList" "HOL-Library.Product_Lexorder"
    "HOL-Library.List_Lexorder" "HOL-Library.Char_ord" "HOL-Library.Multiset"
begin

text \<open>
  Shared vocabulary of the development.

  \<^item> A Python \<^verbatim>\<open>dict\<close> is an association list in insertion order: \<open>dict_set\<close> overwrites a
    key in place or appends it, \<open>dict_pop\<close> removes it, \<open>map_of\<close> looks it up, so that iterating
    over the list is iterating over the dictionary.
  \<^item> Python's \<^verbatim>\<open>sorted(xs, key=f)\<close> is \<open>sort_key f xs\<close> (both are stable); tuples and strings
    are compared lexicographically, by the library's product and list orders.
  \<^item> A Python exception is a value of \<open>py_error\<close>, a fallible function returns
    \<open>py_error + 'a\<close>.
  \<^item> A Python \<^verbatim>\<open>float\<close> is a \<open>real\<close>: the arithmetic is exact, rounding is not modelled.
  \<^item> A Python \<^verbatim>\<open>int\<close> is an \<open>int\<close>; an index or a length that the code never makes negative is a
    \<open>nat\<close>.
\<close>

named_theorems dict_simps \<open>facts about dictionaries as association lists\<close>
named_theorems py_defs \<open>definitions of Python built-ins, unfolded by the evaluation proofs\<close>
named_theorems wf_intros \<open>introduction rules of the well-formedness invariants\<close>

datatype py_error =
    ValueError
  | KeyError
  | IndexError
  | TypeError
  | RuntimeError
  | TimeoutError
  | ApiError
  | AttributeError
  | ZeroDivisionError

section \<open>Dictionaries\<close>

type_synonym ('k, 'v) dict = "('k \<times> 'v) list"

abbreviation dict_set :: "'k \<Rightarrow> 'v \<Rightarrow> ('k, 'v) dict \<Rightarrow> ('k, 'v) dict" where
  "dict_set \<equiv> AList.update"

abbreviation dict_pop :: "'k \<Rightarrow> ('k, 'v) dict \<Rightarrow> ('k, 'v) dict" where
  "dict_pop \<equiv> AList.delete"

definition dict_keys :: "('k, 'v) dict \<Rightarrow> 'k list" where
  "dict_keys d = map fst d"

definition dict_values :: "('k, 'v) dict \<Rightarrow> 'v list" where
  "dict_values d = map snd d"

definition dict_has :: "'k \<Rightarrow> ('k, 'v) dict \<Rightarrow> bool" where
  "dict_has k d \<longleftrightarrow> map_of d k \<noteq> None"

definition dict_get :: "('k, 'v) dict \<Rightarrow> 'k \<Rightarrow> 'v \<Rightarrow> 'v" where
  "dict_get d k v0 = (case map_of d k of None \<Rightarrow> v0 | Some v \<Rightarrow> v)"

definition dict_setdefault :: "'k \<Rightarrow> 'v \<Rightarrow> ('k, 'v) dict \<Rightarrow> ('k, 'v) dict" where
  "dict_setdefault k v d = (if dict_has k d then d else dict_set k v d)"

definition dict_of :: "('k \<times> 'v) list \<Rightarrow> ('k, 'v) dict" where
  \<comment> \<open>a dict display or comprehension: later pairs overwrite earlier ones in place\<close>
  "dict_of ps = foldl (\<lambda>d p. dict_set (fst p) (snd p) d) [] ps"

lemma map_of_dict_set [dict_simps, simp]:
  "map_of (dict_set k v d) = (map_of d)(k \<mapsto> v)"
  by (rule update_conv')

lemma map_of_dict_pop [dict_simps, simp]:
  "map_of (dict_pop k d) = (map_of d)(k := None)"
  by (rule delete_conv')

lemma distinct_dict_set [dict_simps, simp]:
  "distinct (map fst d) \<Longrightarrow> distinct (map fst (dict_set k v d))"
  by (rule distinct_update)

lemma distinct_dict_pop [dict_simps, simp]:
  "distinct (map fst d) \<Longrightarrow> distinct (map fst (dict_pop k d))"
  by (rule distinct_delete)

lemma keys_dict_set [dict_simps]:
  "fst ` set (dict_set k v d) = insert k (fst ` set d)"
  by (simp add: dom_update)

lemma keys_dict_pop [dict_simps]:
  "fst ` set (dict_pop k d) = fst ` set d - {k}"
  by (induction d) auto

lemma dict_set_fresh [dict_simps]:
  "k \<notin> fst ` set d \<Longrightarrow> dict_set k v d = d @ [(k, v)]"
  by (induction d) auto

lemma dict_keys_set_same [dict_simps]:
  "k \<in> set (dict_keys d) \<Longrightarrow> dict_keys (dict_set k v d) = dict_keys d"
  unfolding dict_keys_def by (induction d) auto

lemma dict_keys_set_fresh [dict_simps]:
  "k \<notin> set (dict_keys d) \<Longrightarrow> dict_keys (dict_set k v d) = dict_keys d @ [k]"
  unfolding dict_keys_def by (induction d) auto

lemma map_of_SomeD_keys: "map_of d k = Some v \<Longrightarrow> k \<in> set (dict_keys d)"
  unfolding dict_keys_def by (induction d) (auto split: if_splits)

lemma map_of_keys_Some: "k \<in> set (dict_keys d) \<Longrightarrow> \<exists>v. map_of d k = Some v"
  unfolding dict_keys_def by (induction d) auto

lemma dict_pop_fresh [dict_simps]:
  "k \<notin> fst ` set d \<Longrightarrow> dict_pop k d = d"
  by (induction d) auto

lemma dict_pop_set_fresh [dict_simps]:
  "k \<notin> fst ` set d \<Longrightarrow> dict_pop k (dict_set k v d) = d"
  by (induction d) auto

lemma dict_has_iff [dict_simps]: "dict_has k d \<longleftrightarrow> k \<in> fst ` set d"
  by (simp add: dict_has_def map_of_eq_None_iff)

lemma dict_set_set [dict_simps]:
  "set (dict_set k v d) \<subseteq> insert (k, v) (set d)"
  by (induction d) auto

lemma distinct_dict_of: "distinct (map fst (dict_of ps))"
proof -
  have "distinct (map fst d) \<Longrightarrow>
      distinct (map fst (foldl (\<lambda>d p. dict_set (fst p) (snd p) d) d ps))" for d
    by (induction ps arbitrary: d) auto
  from this [of "[]"] show ?thesis
    by (simp add: dict_of_def)
qed

lemma keys_dict_of: "fst ` set (dict_of ps) = fst ` set ps"
proof -
  have "fst ` set (foldl (\<lambda>d p. dict_set (fst p) (snd p) d) d ps) = fst ` set d \<union> fst ` set ps" for d
    by (induction ps arbitrary: d) (auto simp add: keys_dict_set)
  from this [of "[]"] show ?thesis
    by (simp add: dict_of_def)
qed

lemma dict_of_distinct:
  assumes "distinct (map fst ps)"
  shows "dict_of ps = ps"
proof -
  have "distinct (map fst (d @ ps)) \<Longrightarrow> foldl (\<lambda>d p. dict_set (fst p) (snd p) d) d ps = d @ ps" for d
  proof (induction ps arbitrary: d)
    case Nil
    then show ?case by simp
  next
    case (Cons p ps)
    obtain k v where p: "p = (k, v)"
      by (cases p)
    with Cons.prems have "k \<notin> fst ` set d"
      by auto
    then have "dict_set k v d = d @ [(k, v)]"
      by (rule dict_set_fresh)
    with Cons.IH [of "d @ [(k, v)]"] Cons.prems p show ?case
      by simp
  qed
  from this [of "[]"] assms show ?thesis
    by (simp add: dict_of_def)
qed

section \<open>Lists\<close>

definition py_remove :: "'a \<Rightarrow> 'a list \<Rightarrow> 'a list" where
  \<comment> \<open>\<^verbatim>\<open>xs.remove(x)\<close> for an element that occurs\<close>
  "py_remove x xs = remove1 x xs"

definition set_union :: "'a list \<Rightarrow> 'a list \<Rightarrow> 'a list" where
  \<comment> \<open>Python sets as duplicate-free lists; the iteration order is the insertion order, one of
    the orders Python allows\<close>
  "set_union xs ys = xs @ filter (\<lambda>y. y \<notin> set xs) ys"

definition set_diff :: "'a list \<Rightarrow> 'a list \<Rightarrow> 'a list" where
  "set_diff xs ys = filter (\<lambda>x. x \<notin> set ys) xs"

lemma set_set_union [simp]: "set (set_union xs ys) = set xs \<union> set ys"
  by (auto simp: set_union_def)

lemma set_set_diff [simp]: "set (set_diff xs ys) = set xs - set ys"
  by (auto simp: set_diff_def)

lemma distinct_set_union: "distinct xs \<Longrightarrow> distinct ys \<Longrightarrow> distinct (set_union xs ys)"
  by (auto simp: set_union_def)

lemma set_sort_key [simp]: "set (sort_key f xs) = set xs"
  by (rule set_sort)

lemma length_filter_le_length: "length (filter P xs) \<le> length xs"
  by (rule length_filter_le)

lemma sum_list_update_int:
  fixes xs :: "int list"
  assumes "i < length xs"
  shows "sum_list (xs[i := x]) = sum_list xs + x - xs ! i"
  using assms by (induction xs arbitrary: i) (auto split: nat.splits)

lemma sum_list_map_const_zero: "(\<And>x. x \<in> set xs \<Longrightarrow> f x = (0::'a::comm_monoid_add)) \<Longrightarrow>
    sum_list (map f xs) = 0"
  by (induction xs) auto

lemma sorted_key_nth_le:
  "sorted (map f xs) \<Longrightarrow> i \<le> j \<Longrightarrow> j < length xs \<Longrightarrow> f (xs ! i) \<le> f (xs ! j)"
  using sorted_nth_mono [of "map f xs" i j] by simp

lemma distinct_map_fst_unique:
  "distinct (map fst d) \<Longrightarrow> (k, v) \<in> set d \<Longrightarrow> (k, w) \<in> set d \<Longrightarrow> v = w"
  using eq_key_imp_eq_value by fastforce

lemma find_mem: "List.find P xs = Some x \<Longrightarrow> x \<in> set xs \<and> P x"
  by (auto simp: find_Some_iff)

end
