(* ===== verification/SimJob.thy ===== *)
theory SimJob
  imports Prelude
begin

text \<open>
  The job record of the simulator (\<^verbatim>\<open>sim/loader.py\<close>): the frozen dataclass \<^verbatim>\<open>Job\<close> with its
  defaults, and the constants the loader shares with the cluster, the schedulers and the
  environment. The readers and generators of that file are in \<open>SimLoader\<close>.
\<close>

record job =
  job_id :: string
  user :: string
  gpu_count :: int
  gpu_type :: string
  submit_ts :: real
  runtime :: real
  mem_req :: real
  mps_req :: int
  latency_class :: string
  job_class :: string
  slo_s :: real
  ram_req :: real

definition MPS_PER_GPU :: int where
  "MPS_PER_GPU = 100"

text \<open>The constructor with the dataclass defaults of the last four fields.\<close>

definition mk_job :: "string \<Rightarrow> string \<Rightarrow> int \<Rightarrow> string \<Rightarrow> real \<Rightarrow> real \<Rightarrow> real \<Rightarrow> int \<Rightarrow> job" where
  "mk_job jid u gc gt sub rt mem mps =
     \<lparr>job_id = jid, user = u, gpu_count = gc, gpu_type = gt, submit_ts = sub, runtime = rt,
      mem_req = mem, mps_req = mps, latency_class = '''', job_class = ''batch'', slo_s = 0,
      ram_req = 0\<rparr>"

end
