(* ===== verification/SimCluster.thy ===== *)
theory SimCluster
  imports SimJob
begin

text \<open>
  The cluster model of the simulator (\<^verbatim>\<open>sim/cluster.py\<close>): nodes with GPUs that expose MPS
  slots and a host-RAM budget, the two planners \<open>plan_job\<close> (\<^verbatim>\<open>_plan\<close>) and \<open>plan_on\<close>
  (\<^verbatim>\<open>_plan_on\<close>), and the operations that commit and release a plan. Node and GPU indices are
  naturals (the callers only pass non-negative ones).

  Both committing operations are one \<open>commit_plan\<close>. The ledger invariant \<open>wf_cluster\<close> and its
  preservation are in \<open>SimLedger\<close>, the planners' properties and the locale \<open>planner\<close> (what a planner
  owes to \<open>commit_plan\<close>) in \<open>SimPlanner\<close>.
\<close>

record gpu =
  free_mps :: int

record node =
  node_id :: nat
  gpus :: "gpu list"
  speed :: real
  node_gpu_type :: string
  ram_gb :: real
  used_ram_gb :: real

record allocation =
  a_job_id :: string
  a_node_id :: nat
  a_gpu_indices :: "nat list"
  a_mps_per_gpu :: int

record cluster =
  n_nodes :: nat
  gpus_per_node :: nat
  mps_per_gpu :: int
  node_gpu_types :: "string list option"
  ram_overcommit :: real
  nodes :: "node list"
  active :: "(string, allocation list) dict"
  active_ram :: "(string, real) dict"

section \<open>Node and cluster operations\<close>

definition free_ram_gb :: "node \<Rightarrow> real" where
  "free_ram_gb n = ram_gb n - used_ram_gb n"

definition free_ram_ratio :: "node \<Rightarrow> real" where
  "free_ram_ratio n = (if ram_gb n > 0 then free_ram_gb n / ram_gb n else 1)"

definition free_whole_gpus :: "node \<Rightarrow> int \<Rightarrow> nat list" where
  "free_whole_gpus n cap = filter (\<lambda>i. free_mps (gpus n ! i) = cap) [0..<length (gpus n)]"

definition free_mps_total :: "node \<Rightarrow> int" where
  "free_mps_total n = sum_list (map free_mps (gpus n))"

text \<open>\<^verbatim>\<open>__post_init__\<close>: an absent or empty per-node list means the default for every node, a list
  shorter than the number of nodes raises.\<close>

definition or_default :: "'a list option \<Rightarrow> nat \<Rightarrow> 'a \<Rightarrow> 'a list" where
  "or_default xs n d = (case xs of None \<Rightarrow> replicate n d
     | Some ys \<Rightarrow> if ys = [] then replicate n d else ys)"

definition make_cluster ::
  "nat \<Rightarrow> nat \<Rightarrow> int \<Rightarrow> real list option \<Rightarrow> string list option \<Rightarrow> real list option \<Rightarrow> real \<Rightarrow>
   py_error + cluster" where
  "make_cluster n g cap speeds0 gtypes0 rams0 overcommit =
     (let speeds = or_default speeds0 n 1;
          gtypes = or_default gtypes0 n ''rtx4070'';
          rams = or_default rams0 n 1000000000
      in if length speeds < n \<or> length gtypes < n \<or> length rams < n then Inl IndexError
         else Inr \<lparr>n_nodes = n, gpus_per_node = g, mps_per_gpu = cap, node_gpu_types = gtypes0,
                   ram_overcommit = overcommit,
                   nodes = map (\<lambda>i. \<lparr>node_id = i, gpus = replicate g \<lparr>free_mps = cap\<rparr>,
                                      speed = speeds ! i, node_gpu_type = gtypes ! i,
                                      ram_gb = rams ! i, used_ram_gb = 0\<rparr>) [0..<n],
                   active = [], active_ram = []\<rparr>)"

definition ram_ok :: "cluster \<Rightarrow> nat \<Rightarrow> real \<Rightarrow> bool" where
  "ram_ok c ni req \<longleftrightarrow>
     used_ram_gb (nodes c ! ni) + req \<le> ram_gb (nodes c ! ni) * ram_overcommit c + 1 / 10 ^ 9"

definition total_gpus :: "cluster \<Rightarrow> int" where
  "total_gpus c = int (n_nodes c) * int (gpus_per_node c)"

definition total_mps :: "cluster \<Rightarrow> int" where
  "total_mps c = total_gpus c * mps_per_gpu c"

definition used_mps :: "cluster \<Rightarrow> int" where
  "used_mps c = total_mps c - sum_list (map free_mps_total (nodes c))"

definition utilization :: "cluster \<Rightarrow> real" where
  "utilization c = (if total_mps c \<noteq> 0 then of_int (used_mps c) / of_int (total_mps c) else 0)"

definition free_mps_per_node :: "cluster \<Rightarrow> int list" where
  "free_mps_per_node c = map free_mps_total (nodes c)"

section \<open>Planners\<close>

definition fractional :: "cluster \<Rightarrow> job \<Rightarrow> bool" where
  "fractional c j \<longleftrightarrow> gpu_count j = 1 \<and> mps_req j < mps_per_gpu c"

text \<open>The scan for the GPU with the smallest residual, with the running best.\<close>

fun best_fit :: "int \<Rightarrow> nat \<Rightarrow> gpu list \<Rightarrow> (nat \<times> int) option \<Rightarrow> (nat \<times> int) option" where
  "best_fit req gi [] best = best"
| "best_fit req gi (g # gs) best =
     best_fit req (Suc gi) gs
       (if req \<le> free_mps g then
          (let residual = free_mps g - req in
           case best of
             None \<Rightarrow> Some (gi, residual)
           | Some (bi, br) \<Rightarrow> if residual < br then Some (gi, residual) else best)
        else best)"

fun plan_fractional :: "cluster \<Rightarrow> job \<Rightarrow> node list \<Rightarrow> allocation list option" where
  "plan_fractional c j [] = None"
| "plan_fractional c j (n # ns) =
     (if \<not> ram_ok c (node_id n) (ram_req j) then plan_fractional c j ns
      else case best_fit (mps_req j) 0 (gpus n) None of
             Some (gi, _) \<Rightarrow> Some [\<lparr>a_job_id = job_id j, a_node_id = node_id n,
                                    a_gpu_indices = [gi], a_mps_per_gpu = mps_req j\<rparr>]
           | None \<Rightarrow> plan_fractional c j ns)"

text \<open>The greedy whole-GPU loop of both planners: \<open>cand ni\<close> lists the candidate GPUs of a node in
  the order they are taken, the result is the plan and the number of GPUs still needed.\<close>

fun fill_whole :: "cluster \<Rightarrow> job \<Rightarrow> (nat \<Rightarrow> nat list) \<Rightarrow> nat list \<Rightarrow> int \<Rightarrow> allocation list \<Rightarrow>
    allocation list \<times> int" where
  "fill_whole c j cand [] needed plan = (plan, needed)"
| "fill_whole c j cand (ni # nis) needed plan =
     (if needed \<le> 0 then (plan, needed)
      else if \<not> ram_ok c ni (ram_req j) then fill_whole c j cand nis needed plan
      else let taken = take (nat (min needed (int (length (cand ni))))) (cand ni) in
           if taken = [] then fill_whole c j cand nis needed plan
           else fill_whole c j cand nis (needed - int (length taken))
                  (plan @ [\<lparr>a_job_id = job_id j, a_node_id = ni, a_gpu_indices = taken,
                            a_mps_per_gpu = mps_per_gpu c\<rparr>]))"

definition ranked_nodes :: "cluster \<Rightarrow> nat list" where
  "ranked_nodes c =
     sort_key (\<lambda>i. - int (length (free_whole_gpus (nodes c ! i) (mps_per_gpu c)))) [0..<n_nodes c]"

definition plan_job :: "cluster \<Rightarrow> job \<Rightarrow> allocation list option" where
  "plan_job c j =
     (if fractional c j then plan_fractional c j (nodes c)
      else let (plan, needed) =
                 fill_whole c j (\<lambda>ni. free_whole_gpus (nodes c ! ni) (mps_per_gpu c))
                   (ranked_nodes c) (gpu_count j) []
           in if needed > 0 then None else Some plan)"

definition preferred_gpus :: "cluster \<Rightarrow> nat \<Rightarrow> nat \<Rightarrow> nat \<Rightarrow> nat list" where
  "preferred_gpus c node_i gpu_i ni =
     (let free = free_whole_gpus (nodes c ! ni) (mps_per_gpu c) in
      if ni = node_i \<and> gpu_i \<in> set free then gpu_i # filter (\<lambda>g. g \<noteq> gpu_i) free else free)"

definition plan_on :: "cluster \<Rightarrow> nat \<Rightarrow> nat \<Rightarrow> job \<Rightarrow> allocation list option" where
  "plan_on c node_i gpu_i j =
     (if n_nodes c \<le> node_i \<or> gpus_per_node c \<le> gpu_i then None
      else if fractional c j then
        (if mps_req j \<le> free_mps (gpus (nodes c ! node_i) ! gpu_i) \<and> ram_ok c node_i (ram_req j)
         then Some [\<lparr>a_job_id = job_id j, a_node_id = node_i, a_gpu_indices = [gpu_i],
                     a_mps_per_gpu = mps_req j\<rparr>]
         else None)
      else let (plan, needed) =
                 fill_whole c j (preferred_gpus c node_i gpu_i)
                   (node_i # filter (\<lambda>n. n \<noteq> node_i) [0..<n_nodes c]) (gpu_count j) []
           in if needed \<le> 0 then Some plan else None)"

definition can_allocate :: "cluster \<Rightarrow> job \<Rightarrow> bool" where
  "can_allocate c j \<longleftrightarrow> plan_job c j \<noteq> None"

definition can_allocate_on :: "cluster \<Rightarrow> job \<Rightarrow> nat \<Rightarrow> nat \<Rightarrow> bool" where
  "can_allocate_on c j node_i gpu_i \<longleftrightarrow> plan_on c node_i gpu_i j \<noteq> None"

section \<open>Committing and releasing a plan\<close>

fun take_slots :: "nat list \<Rightarrow> int \<Rightarrow> gpu list \<Rightarrow> gpu list" where
  "take_slots [] m gs = gs"
| "take_slots (gi # gis) m gs =
     take_slots gis m (gs[gi := (gs ! gi)\<lparr>free_mps := free_mps (gs ! gi) - m\<rparr>])"

fun give_slots :: "nat list \<Rightarrow> int \<Rightarrow> gpu list \<Rightarrow> gpu list" where
  "give_slots [] m gs = gs"
| "give_slots (gi # gis) m gs =
     give_slots gis m (gs[gi := (gs ! gi)\<lparr>free_mps := free_mps (gs ! gi) + m\<rparr>])"

definition on_node :: "nat \<Rightarrow> (node \<Rightarrow> node) \<Rightarrow> node list \<Rightarrow> node list" where
  "on_node ni f ns = ns[ni := f (ns ! ni)]"

fun take_plan :: "allocation list \<Rightarrow> node list \<Rightarrow> node list" where
  "take_plan [] ns = ns"
| "take_plan (a # as) ns =
     take_plan as (on_node (a_node_id a)
       (\<lambda>n. n\<lparr>gpus := take_slots (a_gpu_indices a) (a_mps_per_gpu a) (gpus n)\<rparr>) ns)"

fun give_plan :: "allocation list \<Rightarrow> node list \<Rightarrow> node list" where
  "give_plan [] ns = ns"
| "give_plan (a # as) ns =
     give_plan as (on_node (a_node_id a)
       (\<lambda>n. n\<lparr>gpus := give_slots (a_gpu_indices a) (a_mps_per_gpu a) (gpus n)\<rparr>) ns)"

text \<open>The distinct hosts of a plan; the code iterates over them as a set.\<close>

definition plan_hosts :: "allocation list \<Rightarrow> nat list" where
  "plan_hosts plan = remdups (map a_node_id plan)"

fun charge_ram :: "nat list \<Rightarrow> real \<Rightarrow> node list \<Rightarrow> node list" where
  "charge_ram [] r ns = ns"
| "charge_ram (ni # nis) r ns =
     charge_ram nis r (on_node ni (\<lambda>n. n\<lparr>used_ram_gb := used_ram_gb n + r\<rparr>) ns)"

fun refund_ram :: "nat list \<Rightarrow> real \<Rightarrow> node list \<Rightarrow> node list" where
  "refund_ram [] r ns = ns"
| "refund_ram (ni # nis) r ns =
     refund_ram nis r (on_node ni (\<lambda>n. n\<lparr>used_ram_gb := max 0 (used_ram_gb n - r)\<rparr>) ns)"

definition reserve_ram :: "string \<Rightarrow> allocation list \<Rightarrow> real \<Rightarrow> cluster \<Rightarrow> cluster" where
  "reserve_ram jid plan r c =
     c\<lparr>nodes := charge_ram (plan_hosts plan) r (nodes c),
       active_ram := dict_set jid r (active_ram c)\<rparr>"

definition commit_plan :: "job \<Rightarrow> allocation list \<Rightarrow> cluster \<Rightarrow> cluster" where
  "commit_plan j plan c =
     (let c1 = c\<lparr>nodes := take_plan plan (nodes c)\<rparr>;
          c2 = reserve_ram (job_id j) plan (ram_req j) c1
      in c2\<lparr>active := dict_set (job_id j) plan (active c2)\<rparr>)"

definition try_allocate :: "cluster \<Rightarrow> job \<Rightarrow> (allocation list \<times> cluster) option" where
  "try_allocate c j = (case plan_job c j of None \<Rightarrow> None | Some plan \<Rightarrow> Some (plan, commit_plan j plan c))"

definition try_allocate_on ::
  "cluster \<Rightarrow> job \<Rightarrow> nat \<Rightarrow> nat \<Rightarrow> (allocation list \<times> cluster) option" where
  "try_allocate_on c j node_i gpu_i =
     (case plan_on c node_i gpu_i j of None \<Rightarrow> None | Some plan \<Rightarrow> Some (plan, commit_plan j plan c))"

definition release :: "string \<Rightarrow> cluster \<Rightarrow> cluster" where
  "release jid c =
     (case map_of (active c) jid of
        None \<Rightarrow> c
      | Some plan \<Rightarrow>
          let ram = dict_get (active_ram c) jid 0 in
          c\<lparr>nodes := refund_ram (plan_hosts plan) ram (give_plan plan (nodes c)),
            active := dict_pop jid (active c),
            active_ram := dict_pop jid (active_ram c)\<rparr>)"

end
