(* ===== verification/SimLedger.thy ===== *)
theory SimLedger
  imports SimCluster
begin

text \<open>
  The ledger invariant of the cluster model and its preservation: what committing and releasing
  a plan do to every GPU and every node, the invariant \<open>wf_cluster\<close>, the contract \<open>planner\<close>
  that both planners meet, and the facts the runner and the environment rest on.
\<close>

section \<open>Point-wise effect of the list updates\<close>

definition alloc_ok :: "nat \<Rightarrow> nat \<Rightarrow> allocation \<Rightarrow> bool" where
  "alloc_ok n g a \<longleftrightarrow> a_node_id a < n \<and> distinct (a_gpu_indices a) \<and> set (a_gpu_indices a) \<subseteq> {..<g}"

definition plan_slots :: "allocation list \<Rightarrow> nat \<Rightarrow> nat \<Rightarrow> int" where
  "plan_slots p i k =
     sum_list (map (\<lambda>a. if a_node_id a = i \<and> k \<in> set (a_gpu_indices a) then a_mps_per_gpu a else 0) p)"

definition shape :: "nat \<Rightarrow> nat \<Rightarrow> node list \<Rightarrow> bool" where
  "shape n g ns \<longleftrightarrow> length ns = n \<and> (\<forall>i<n. node_id (ns ! i) = i \<and> length (gpus (ns ! i)) = g)"

definition free_at :: "node list \<Rightarrow> nat \<Rightarrow> nat \<Rightarrow> int" where
  "free_at ns i k = free_mps (gpus (ns ! i) ! k)"

definition node_card :: "node \<Rightarrow> real \<times> string \<times> real" where
  "node_card n = (speed n, node_gpu_type n, ram_gb n)"

named_theorems ledger \<open>effect of the cluster's list updates, point by point\<close>

lemma length_take_slots [ledger, simp]: "length (take_slots gis m gs) = length gs"
  by (induction gis arbitrary: gs) auto

lemma length_give_slots [ledger, simp]: "length (give_slots gis m gs) = length gs"
  by (induction gis arbitrary: gs) auto

lemma take_slots_nth [ledger]:
  assumes "distinct gis" "set gis \<subseteq> {..<length gs}" "k < length gs"
  shows "free_mps (take_slots gis m gs ! k) = free_mps (gs ! k) - (if k \<in> set gis then m else 0)"
  using assms by (induction gis arbitrary: gs) (auto simp: nth_list_update)

lemma give_slots_eq: "give_slots gis m gs = take_slots gis (- m) gs"
  by (induction gis arbitrary: gs) auto

lemma length_on_node [ledger, simp]: "length (on_node ni f ns) = length ns"
  by (simp add: on_node_def)

lemma on_node_nth [ledger]:
  "ni < length ns \<Longrightarrow> on_node ni f ns ! i = (if i = ni then f (ns ! ni) else ns ! i)"
  by (auto simp: on_node_def nth_list_update)

lemma length_take_plan [ledger, simp]: "length (take_plan p ns) = length ns"
  by (induction p arbitrary: ns) auto

lemma give_plan_eq:
  "give_plan p ns = take_plan (map (\<lambda>a. a\<lparr>a_mps_per_gpu := - a_mps_per_gpu a\<rparr>) p) ns"
  by (induction p arbitrary: ns) (auto simp: give_slots_eq)

lemma take_plan_keeps [ledger]:
  assumes "\<forall>a \<in> set p. a_node_id a < length ns"
  shows "node_id (take_plan p ns ! i) = node_id (ns ! i)"
    and "node_card (take_plan p ns ! i) = node_card (ns ! i)"
    and "used_ram_gb (take_plan p ns ! i) = used_ram_gb (ns ! i)"
    and "length (gpus (take_plan p ns ! i)) = length (gpus (ns ! i))"
  using assms by (induction p arbitrary: ns) (auto simp: on_node_nth node_card_def)

lemma shape_take_plan [ledger]:
  assumes "shape n g ns" "\<forall>a \<in> set p. alloc_ok n g a"
  shows "shape n g (take_plan p ns)"
  using assms take_plan_keeps [of p ns] by (auto simp: shape_def alloc_ok_def)

lemma take_plan_free [ledger]:
  assumes "shape n g ns" "\<forall>a \<in> set p. alloc_ok n g a" "i < n" "k < g"
  shows "free_at (take_plan p ns) i k = free_at ns i k - plan_slots p i k"
  using assms
proof (induction p arbitrary: ns)
  case Nil
  then show ?case by (simp add: plan_slots_def)
next
  case (Cons a p)
  let ?f = "\<lambda>n. n\<lparr>gpus := take_slots (a_gpu_indices a) (a_mps_per_gpu a) (gpus n)\<rparr>"
  let ?ns = "on_node (a_node_id a) ?f ns"
  have a: "a_node_id a < length ns" "distinct (a_gpu_indices a)" "set (a_gpu_indices a) \<subseteq> {..<g}"
    using Cons.prems by (auto simp: alloc_ok_def shape_def)
  have "shape n g ?ns"
    using Cons.prems a by (auto simp: shape_def on_node_nth)
  with Cons have "free_at (take_plan p ?ns) i k = free_at ?ns i k - plan_slots p i k"
    by auto
  moreover have "free_at ?ns i k =
      free_at ns i k - (if a_node_id a = i \<and> k \<in> set (a_gpu_indices a) then a_mps_per_gpu a else 0)"
    using Cons.prems a by (auto simp: free_at_def on_node_nth take_slots_nth shape_def)
  ultimately show ?case
    by (simp add: plan_slots_def)
qed

lemma plan_slots_negate [ledger]:
  "plan_slots (map (\<lambda>a. a\<lparr>a_mps_per_gpu := - a_mps_per_gpu a\<rparr>) p) i k = - plan_slots p i k"
  by (induction p) (auto simp: plan_slots_def)

lemma give_plan_free [ledger]:
  assumes "shape n g ns" "\<forall>a \<in> set p. alloc_ok n g a" "i < n" "k < g"
  shows "free_at (give_plan p ns) i k = free_at ns i k + plan_slots p i k"
proof -
  have "\<forall>a \<in> set (map (\<lambda>a. a\<lparr>a_mps_per_gpu := - a_mps_per_gpu a\<rparr>) p). alloc_ok n g a"
    using assms(2) by (auto simp: alloc_ok_def)
  with assms show ?thesis
    by (simp add: give_plan_eq take_plan_free plan_slots_negate)
qed

lemma length_give_plan [ledger, simp]: "length (give_plan p ns) = length ns"
  by (simp add: give_plan_eq)

lemma give_plan_keeps [ledger]:
  assumes "\<forall>a \<in> set p. a_node_id a < length ns"
  shows "node_id (give_plan p ns ! i) = node_id (ns ! i)"
    and "node_card (give_plan p ns ! i) = node_card (ns ! i)"
    and "used_ram_gb (give_plan p ns ! i) = used_ram_gb (ns ! i)"
    and "length (gpus (give_plan p ns ! i)) = length (gpus (ns ! i))"
  using assms by (simp_all add: give_plan_eq take_plan_keeps)

lemma length_charge_ram [ledger, simp]: "length (charge_ram his r ns) = length ns"
  by (induction his arbitrary: ns) auto

lemma length_refund_ram [ledger, simp]: "length (refund_ram his r ns) = length ns"
  by (induction his arbitrary: ns) auto

lemma charge_ram_keeps [ledger]:
  assumes "set his \<subseteq> {..<length ns}"
  shows "node_id (charge_ram his r ns ! i) = node_id (ns ! i)"
    and "node_card (charge_ram his r ns ! i) = node_card (ns ! i)"
    and "gpus (charge_ram his r ns ! i) = gpus (ns ! i)"
  using assms by (induction his arbitrary: ns) (auto simp: on_node_nth node_card_def)

lemma refund_ram_keeps [ledger]:
  assumes "set his \<subseteq> {..<length ns}"
  shows "node_id (refund_ram his r ns ! i) = node_id (ns ! i)"
    and "node_card (refund_ram his r ns ! i) = node_card (ns ! i)"
    and "gpus (refund_ram his r ns ! i) = gpus (ns ! i)"
  using assms by (induction his arbitrary: ns) (auto simp: on_node_nth node_card_def)

lemma charge_ram_used [ledger]:
  assumes "set his \<subseteq> {..<length ns}" "distinct his"
  shows "used_ram_gb (charge_ram his r ns ! i) = used_ram_gb (ns ! i) + (if i \<in> set his then r else 0)"
  using assms by (induction his arbitrary: ns) (auto simp: on_node_nth)

lemma refund_ram_used [ledger]:
  assumes "set his \<subseteq> {..<length ns}" "distinct his"
  shows "used_ram_gb (refund_ram his r ns ! i) =
    (if i \<in> set his then max 0 (used_ram_gb (ns ! i) - r) else used_ram_gb (ns ! i))"
  using assms by (induction his arbitrary: ns) (auto simp: on_node_nth)

lemma plan_hosts_set [simp]: "set (plan_hosts p) = a_node_id ` set p"
  by (simp add: plan_hosts_def)

lemma distinct_plan_hosts [simp]: "distinct (plan_hosts p)"
  by (simp add: plan_hosts_def)


section \<open>The ledger invariant\<close>

definition held_slots :: "cluster \<Rightarrow> nat \<Rightarrow> nat \<Rightarrow> int" where
  "held_slots c i k = sum_list (map (\<lambda>e. plan_slots (snd e) i k) (active c))"

definition ram_of :: "cluster \<Rightarrow> string \<Rightarrow> real" where
  "ram_of c jid = dict_get (active_ram c) jid 0"

definition held_ram :: "cluster \<Rightarrow> nat \<Rightarrow> real" where
  "held_ram c i =
     sum_list (map (\<lambda>e. if i \<in> a_node_id ` set (snd e) then ram_of c (fst e) else 0) (active c))"

definition ram_limit :: "node \<Rightarrow> real \<Rightarrow> real" where
  "ram_limit n overcommit = ram_gb n * overcommit + 1 / 10 ^ 9"

definition wf_cluster :: "cluster \<Rightarrow> bool" where
  "wf_cluster c \<longleftrightarrow>
     shape (n_nodes c) (gpus_per_node c) (nodes c) \<and>
     distinct (map fst (active c)) \<and>
     map fst (active_ram c) = map fst (active c) \<and>
     (\<forall>e \<in> set (active c). \<forall>a \<in> set (snd e).
        alloc_ok (n_nodes c) (gpus_per_node c) a \<and> 0 \<le> a_mps_per_gpu a) \<and>
     (\<forall>e \<in> set (active_ram c). 0 \<le> snd e) \<and>
     (\<forall>i<n_nodes c. \<forall>k<gpus_per_node c.
        free_at (nodes c) i k = mps_per_gpu c - held_slots c i k \<and> 0 \<le> free_at (nodes c) i k) \<and>
     (\<forall>i<n_nodes c. used_ram_gb (nodes c ! i) = held_ram c i \<and>
        used_ram_gb (nodes c ! i) \<le> ram_limit (nodes c ! i) (ram_overcommit c))"

lemma wf_clusterI:
  assumes "shape (n_nodes c) (gpus_per_node c) (nodes c)"
    and "distinct (map fst (active c))"
    and "map fst (active_ram c) = map fst (active c)"
    and "\<forall>e \<in> set (active c). \<forall>a \<in> set (snd e).
      alloc_ok (n_nodes c) (gpus_per_node c) a \<and> 0 \<le> a_mps_per_gpu a"
    and "\<forall>e \<in> set (active_ram c). 0 \<le> snd e"
    and "\<And>i k. i < n_nodes c \<Longrightarrow> k < gpus_per_node c \<Longrightarrow>
      free_at (nodes c) i k = mps_per_gpu c - held_slots c i k \<and> 0 \<le> free_at (nodes c) i k"
    and "\<And>i. i < n_nodes c \<Longrightarrow> used_ram_gb (nodes c ! i) = held_ram c i \<and>
      used_ram_gb (nodes c ! i) \<le> ram_limit (nodes c ! i) (ram_overcommit c)"
  shows "wf_cluster c"
  using assms unfolding wf_cluster_def by blast

text \<open>What a planner may be asked to place, and what it owes for it.\<close>

definition job_ok :: "job \<Rightarrow> bool" where
  "job_ok j \<longleftrightarrow> 0 \<le> mps_req j \<and> 0 \<le> ram_req j"

definition plan_fits :: "cluster \<Rightarrow> job \<Rightarrow> allocation list \<Rightarrow> bool" where
  "plan_fits c j p \<longleftrightarrow>
     distinct (map a_node_id p) \<and>
     (\<forall>a \<in> set p. alloc_ok (n_nodes c) (gpus_per_node c) a \<and> a_job_id a = job_id j \<and>
        0 \<le> a_mps_per_gpu a \<and> ram_ok c (a_node_id a) (ram_req j) \<and>
        (\<forall>k \<in> set (a_gpu_indices a). a_mps_per_gpu a \<le> free_at (nodes c) (a_node_id a) k))"

lemma plan_slots_nonneg: "(\<forall>a \<in> set p. 0 \<le> a_mps_per_gpu a) \<Longrightarrow> 0 \<le> plan_slots p i k"
  unfolding plan_slots_def by (induction p) auto

lemma plan_slots_no_node: "i \<notin> a_node_id ` set p \<Longrightarrow> plan_slots p i k = 0"
  unfolding plan_slots_def by (induction p) auto

lemma plan_slots_le_free:
  assumes "distinct (map a_node_id p)" "0 \<le> f"
    "\<forall>a \<in> set p. a_node_id a = i \<longrightarrow> k \<in> set (a_gpu_indices a) \<longrightarrow> a_mps_per_gpu a \<le> f"
  shows "plan_slots p i k \<le> f"
  using assms
proof (induction p)
  case Nil
  then show ?case by (simp add: plan_slots_def)
next
  case (Cons a p)
  show ?case
  proof (cases "a_node_id a = i")
    case True
    with Cons.prems have "plan_slots p i k = 0"
      by (intro plan_slots_no_node) auto
    with True Cons.prems show ?thesis
      by (simp add: plan_slots_def)
  next
    case False
    with Cons show ?thesis
      by (simp add: plan_slots_def)
  qed
qed

lemma plan_fits_slots:
  "plan_fits c j p \<Longrightarrow> 0 \<le> free_at (nodes c) i k \<Longrightarrow> plan_slots p i k \<le> free_at (nodes c) i k"
  by (rule plan_slots_le_free) (auto simp: plan_fits_def)

lemma held_ram_ge:
  assumes "wf_cluster c" "(jid, p) \<in> set (active c)" "i \<in> a_node_id ` set p"
  shows "ram_of c jid \<le> held_ram c i"
proof -
  have nonneg: "0 \<le> ram_of c j" for j
    using assms(1) by (auto simp: wf_cluster_def ram_of_def dict_get_def split: option.splits dest!: map_of_SomeD)
  have "ram_of c jid \<in> set (map (\<lambda>e. if i \<in> a_node_id ` set (snd e) then ram_of c (fst e) else 0) (active c))"
    using assms(2,3) by force
  then show ?thesis
    unfolding held_ram_def by (rule member_le_sum_list) (auto simp: nonneg)
qed

section \<open>Committing a plan\<close>

lemma commit_simps [simp]:
  "n_nodes (commit_plan j p c) = n_nodes c"
  "gpus_per_node (commit_plan j p c) = gpus_per_node c"
  "mps_per_gpu (commit_plan j p c) = mps_per_gpu c"
  "ram_overcommit (commit_plan j p c) = ram_overcommit c"
  "node_gpu_types (commit_plan j p c) = node_gpu_types c"
  "nodes (commit_plan j p c) = charge_ram (plan_hosts p) (ram_req j) (take_plan p (nodes c))"
  "active (commit_plan j p c) = dict_set (job_id j) p (active c)"
  "active_ram (commit_plan j p c) = dict_set (job_id j) (ram_req j) (active_ram c)"
  by (simp_all add: commit_plan_def reserve_ram_def Let_def)

lemma plan_fits_hosts: "plan_fits c j p \<Longrightarrow> wf_cluster c \<Longrightarrow> set (plan_hosts p) \<subseteq> {..<length (nodes c)}"
  by (auto simp: plan_fits_def alloc_ok_def wf_cluster_def shape_def)

lemma commit_free_at:
  assumes "wf_cluster c" "plan_fits c j p" "i < n_nodes c" "k < gpus_per_node c"
  shows "free_at (nodes (commit_plan j p c)) i k = free_at (nodes c) i k - plan_slots p i k"
proof -
  have "set (plan_hosts p) \<subseteq> {..<length (take_plan p (nodes c))}"
    using plan_fits_hosts [OF assms(2,1)] by simp
  then have "free_at (nodes (commit_plan j p c)) i k = free_at (take_plan p (nodes c)) i k"
    by (simp add: free_at_def charge_ram_keeps)
  also have "\<dots> = free_at (nodes c) i k - plan_slots p i k"
    using assms by (intro take_plan_free) (auto simp: wf_cluster_def plan_fits_def)
  finally show ?thesis .
qed

lemma commit_used_ram:
  assumes "wf_cluster c" "plan_fits c j p"
  shows "used_ram_gb (nodes (commit_plan j p c) ! i) =
    used_ram_gb (nodes c ! i) + (if i \<in> a_node_id ` set p then ram_req j else 0)"
  using plan_fits_hosts [OF assms(2,1)] by (simp add: charge_ram_used take_plan_keeps subset_iff)

lemma commit_keeps:
  assumes "wf_cluster c" "plan_fits c j p"
  shows "node_id (nodes (commit_plan j p c) ! i) = node_id (nodes c ! i)"
    and "node_card (nodes (commit_plan j p c) ! i) = node_card (nodes c ! i)"
    and "length (gpus (nodes (commit_plan j p c) ! i)) = length (gpus (nodes c ! i))"
    and "length (nodes (commit_plan j p c)) = length (nodes c)"
  using plan_fits_hosts [OF assms(2,1)]
  by (simp_all add: charge_ram_keeps take_plan_keeps subset_iff)

lemma commit_held_slots:
  assumes "job_id j \<notin> fst ` set (active c)"
  shows "held_slots (commit_plan j p c) i k = held_slots c i k + plan_slots p i k"
  using assms by (simp add: held_slots_def dict_set_fresh)

lemma commit_held_ram:
  assumes "wf_cluster c" "job_id j \<notin> fst ` set (active c)"
  shows "held_ram (commit_plan j p c) i = held_ram c i + (if i \<in> a_node_id ` set p then ram_req j else 0)"
proof -
  have old: "ram_of (commit_plan j p c) jid = (if jid = job_id j then ram_req j else ram_of c jid)" for jid
    by (simp add: ram_of_def dict_get_def)
  have "map (\<lambda>e. if i \<in> a_node_id ` set (snd e) then ram_of (commit_plan j p c) (fst e) else 0) (active c) =
        map (\<lambda>e. if i \<in> a_node_id ` set (snd e) then ram_of c (fst e) else 0) (active c)"
    using assms(2) by (intro map_cong) (auto simp: old image_iff)
  then have same: "(\<Sum>e\<leftarrow>active c. if i \<in> a_node_id ` set (snd e) then ram_of (commit_plan j p c) (fst e) else 0) =
      held_ram c i"
    unfolding held_ram_def by (rule arg_cong)
  have "held_ram (commit_plan j p c) i =
      (\<Sum>e\<leftarrow>active c. if i \<in> a_node_id ` set (snd e) then ram_of (commit_plan j p c) (fst e) else 0) +
      (if i \<in> a_node_id ` set p then ram_of (commit_plan j p c) (job_id j) else 0)"
    using assms(2) by (simp add: held_ram_def dict_set_fresh)
  then show ?thesis
    unfolding same by (simp add: old)
qed

lemma ram_limit_card: "node_card n = node_card m \<Longrightarrow> ram_limit n w = ram_limit m w"
  by (simp add: node_card_def ram_limit_def)

lemma commit_plan_wf [wf_intros]:
  assumes wf: "wf_cluster c" and fits: "plan_fits c j p" and fresh: "job_id j \<notin> fst ` set (active c)"
    and ok: "job_ok j"
  shows "wf_cluster (commit_plan j p c)"
proof -
  let ?c = "commit_plan j p c"
  have ids: "map fst (active_ram c) = map fst (active c)" "distinct (map fst (active c))"
    using wf by (auto simp: wf_cluster_def)
  from ids(1) fresh have fresh_ram: "job_id j \<notin> fst ` set (active_ram c)"
    by (metis set_map)
  have shape: "shape (n_nodes ?c) (gpus_per_node ?c) (nodes ?c)"
    using wf commit_keeps [OF wf fits] by (auto simp: wf_cluster_def shape_def)
  have free: "free_at (nodes ?c) i k = mps_per_gpu ?c - held_slots ?c i k \<and> 0 \<le> free_at (nodes ?c) i k"
    if ik: "i < n_nodes ?c" "k < gpus_per_node ?c" for i k
  proof -
    have that: "i < n_nodes c" "k < gpus_per_node c"
      using ik by simp_all
    have "0 \<le> free_at (nodes c) i k" "free_at (nodes c) i k = mps_per_gpu c - held_slots c i k"
      using wf that unfolding wf_cluster_def by blast+
    moreover have "plan_slots p i k \<le> free_at (nodes c) i k"
      using plan_fits_slots [OF fits calculation(1)] .
    ultimately show ?thesis
      using commit_free_at [OF wf fits that] commit_held_slots [OF fresh, of p i k] by simp
  qed
  have ram: "used_ram_gb (nodes ?c ! i) = held_ram ?c i \<and>
      used_ram_gb (nodes ?c ! i) \<le> ram_limit (nodes ?c ! i) (ram_overcommit ?c)"
    if ik: "i < n_nodes ?c" for i
  proof -
    have that: "i < n_nodes c"
      using ik by simp
    have "used_ram_gb (nodes c ! i) = held_ram c i"
      "used_ram_gb (nodes c ! i) \<le> ram_limit (nodes c ! i) (ram_overcommit c)"
      using wf that unfolding wf_cluster_def by blast+
    moreover have "i \<in> a_node_id ` set p \<Longrightarrow>
        used_ram_gb (nodes c ! i) + ram_req j \<le> ram_limit (nodes c ! i) (ram_overcommit c)"
      using fits by (auto simp: plan_fits_def ram_ok_def ram_limit_def)
    moreover have "ram_limit (nodes ?c ! i) (ram_overcommit ?c) = ram_limit (nodes c ! i) (ram_overcommit c)"
      using ram_limit_card [OF commit_keeps(2) [OF wf fits]] by simp
    ultimately show ?thesis
      using commit_used_ram [OF wf fits, of i] commit_held_ram [OF wf fresh, of p i] by auto
  qed
  have plans: "\<forall>e \<in> set (active ?c). \<forall>a \<in> set (snd e). alloc_ok (n_nodes ?c) (gpus_per_node ?c) a \<and> 0 \<le> a_mps_per_gpu a"
    using wf fits fresh by (auto simp: wf_cluster_def plan_fits_def dict_set_fresh)
  have rams: "\<forall>e \<in> set (active_ram ?c). 0 \<le> snd e"
    using wf ok fresh_ram by (auto simp: wf_cluster_def job_ok_def dict_set_fresh)
  have keys: "distinct (map fst (active ?c))" "map fst (active_ram ?c) = map fst (active ?c)"
    using ids fresh fresh_ram by (auto simp: dict_set_fresh)
  show ?thesis
    by (rule wf_clusterI; fact shape keys plans rams free ram)
qed


section \<open>Releasing a plan\<close>

lemma sum_list_dict_pop:
  fixes f :: "'k \<times> 'v \<Rightarrow> 'a::ab_group_add"
  assumes "distinct (map fst d)" "(k, v) \<in> set d"
  shows "sum_list (map f (dict_pop k d)) = sum_list (map f d) - f (k, v)"
  using assms
proof (induction d)
  case Nil
  then show ?case by simp
next
  case (Cons e d)
  show ?case
  proof (cases "fst e = k")
    case True
    with Cons.prems have "e = (k, v)" "k \<notin> fst ` set d"
      by (auto simp: rev_image_eqI)
    then show ?thesis
      by (simp add: dict_pop_fresh)
  next
    case False
    with Cons show ?thesis by auto
  qed
qed

lemma release_absent: "map_of (active c) jid = None \<Longrightarrow> release jid c = c"
  by (simp add: release_def)

lemma release_simps:
  assumes "map_of (active c) jid = Some p"
  shows "n_nodes (release jid c) = n_nodes c"
    "gpus_per_node (release jid c) = gpus_per_node c"
    "mps_per_gpu (release jid c) = mps_per_gpu c"
    "ram_overcommit (release jid c) = ram_overcommit c"
    "node_gpu_types (release jid c) = node_gpu_types c"
    "nodes (release jid c) = refund_ram (plan_hosts p) (ram_of c jid) (give_plan p (nodes c))"
    "active (release jid c) = dict_pop jid (active c)"
    "active_ram (release jid c) = dict_pop jid (active_ram c)"
  using assms by (simp_all add: release_def Let_def ram_of_def)

lemma active_plan_ok:
  assumes "wf_cluster c" "map_of (active c) jid = Some p"
  shows "\<forall>a \<in> set p. alloc_ok (n_nodes c) (gpus_per_node c) a \<and> 0 \<le> a_mps_per_gpu a"
    and "set (plan_hosts p) \<subseteq> {..<length (nodes c)}"
proof -
  from assms show ok: "\<forall>a \<in> set p. alloc_ok (n_nodes c) (gpus_per_node c) a \<and> 0 \<le> a_mps_per_gpu a"
    unfolding wf_cluster_def by (auto dest!: map_of_SomeD)
  with assms(1) show "set (plan_hosts p) \<subseteq> {..<length (nodes c)}"
    by (auto simp: alloc_ok_def wf_cluster_def shape_def)
qed

lemma release_keeps:
  assumes "wf_cluster c" "map_of (active c) jid = Some p"
  shows "node_id (nodes (release jid c) ! i) = node_id (nodes c ! i)"
    and "node_card (nodes (release jid c) ! i) = node_card (nodes c ! i)"
    and "length (gpus (nodes (release jid c) ! i)) = length (gpus (nodes c ! i))"
    and "length (nodes (release jid c)) = length (nodes c)"
  using active_plan_ok [OF assms]
  by (simp_all add: release_simps [OF assms(2)] refund_ram_keeps give_plan_keeps subset_iff)

lemma release_free_at:
  assumes "wf_cluster c" "map_of (active c) jid = Some p" "i < n_nodes c" "k < gpus_per_node c"
  shows "free_at (nodes (release jid c)) i k = free_at (nodes c) i k + plan_slots p i k"
proof -
  have "free_at (nodes (release jid c)) i k = free_at (give_plan p (nodes c)) i k"
    using active_plan_ok(2) [OF assms(1,2)]
    by (simp add: release_simps [OF assms(2)] free_at_def refund_ram_keeps)
  also have "\<dots> = free_at (nodes c) i k + plan_slots p i k"
    using assms active_plan_ok(1) [OF assms(1,2)]
    by (intro give_plan_free) (auto simp: wf_cluster_def)
  finally show ?thesis .
qed

lemma release_held_slots:
  assumes "wf_cluster c" "map_of (active c) jid = Some p"
  shows "held_slots (release jid c) i k = held_slots c i k - plan_slots p i k"
  using assms sum_list_dict_pop [of "active c" jid p "\<lambda>e. plan_slots (snd e) i k"]
  by (auto simp: held_slots_def release_simps wf_cluster_def dest: map_of_SomeD)

lemma release_held_ram:
  assumes "wf_cluster c" "map_of (active c) jid = Some p"
  shows "held_ram (release jid c) i = held_ram c i - (if i \<in> a_node_id ` set p then ram_of c jid else 0)"
proof -
  let ?f = "\<lambda>c e. if i \<in> a_node_id ` set (snd e) then ram_of c (fst e) else 0"
  have "map (?f (release jid c)) (dict_pop jid (active c)) = map (?f c) (dict_pop jid (active c))"
  proof (rule map_cong [OF refl])
    fix e assume "e \<in> set (dict_pop jid (active c))"
    then have "fst e \<in> fst ` set (dict_pop jid (active c))"
      by (rule imageI)
    then have "fst e \<noteq> jid"
      by (simp add: keys_dict_pop)
    then have "ram_of (release jid c) (fst e) = ram_of c (fst e)"
      by (simp add: ram_of_def dict_get_def release_simps [OF assms(2)])
    then show "?f (release jid c) e = ?f c e"
      by simp
  qed
  then have "held_ram (release jid c) i = sum_list (map (?f c) (dict_pop jid (active c)))"
    unfolding held_ram_def release_simps [OF assms(2)] by (rule arg_cong)
  then show ?thesis
    using assms sum_list_dict_pop [of "active c" jid p "?f c"]
    by (auto simp: held_ram_def wf_cluster_def dest: map_of_SomeD)
qed

lemma release_used_ram:
  assumes "wf_cluster c" "map_of (active c) jid = Some p" "i < n_nodes c"
  shows "used_ram_gb (nodes (release jid c) ! i) =
    used_ram_gb (nodes c ! i) - (if i \<in> a_node_id ` set p then ram_of c jid else 0)"
proof -
  have "used_ram_gb (nodes c ! i) = held_ram c i"
    using assms(1,3) unfolding wf_cluster_def by blast
  moreover have "i \<in> a_node_id ` set p \<Longrightarrow> ram_of c jid \<le> held_ram c i"
    using assms held_ram_ge by (auto dest: map_of_SomeD)
  ultimately show ?thesis
    using active_plan_ok [OF assms(1,2)]
    by (auto simp: release_simps [OF assms(2)] refund_ram_used give_plan_keeps subset_iff)
qed

lemma ram_of_nonneg: "wf_cluster c \<Longrightarrow> 0 \<le> ram_of c jid"
  by (auto simp: wf_cluster_def ram_of_def dict_get_def split: option.splits dest!: map_of_SomeD)

lemma map_fst_dict_pop: "map fst (dict_pop k d) = filter (\<lambda>x. x \<noteq> k) (map fst d)"
  by (induction d) auto

lemma set_dict_pop_subset: "set (dict_pop k d) \<subseteq> set d"
  by (induction d) auto

lemma release_wf_present:
  assumes wf: "wf_cluster c" and p: "map_of (active c) jid = Some p"
  shows "wf_cluster (release jid c)"
proof -
  let ?c = "release jid c"
  note simps = release_simps [OF p]
  have shape: "shape (n_nodes ?c) (gpus_per_node ?c) (nodes ?c)"
    using wf release_keeps [OF wf p] by (auto simp: wf_cluster_def shape_def simps)
  have free: "free_at (nodes ?c) i k = mps_per_gpu ?c - held_slots ?c i k \<and> 0 \<le> free_at (nodes ?c) i k"
    if ik: "i < n_nodes ?c" "k < gpus_per_node ?c" for i k
  proof -
    have that: "i < n_nodes c" "k < gpus_per_node c"
      using ik by (simp_all add: simps)
    have "0 \<le> free_at (nodes c) i k" "free_at (nodes c) i k = mps_per_gpu c - held_slots c i k"
      using wf that unfolding wf_cluster_def by blast+
    moreover have "0 \<le> plan_slots p i k"
      using active_plan_ok(1) [OF wf p] by (intro plan_slots_nonneg) blast
    ultimately show ?thesis
      using release_free_at [OF wf p that] release_held_slots [OF wf p, of i k] by (simp add: simps)
  qed
  have ram: "used_ram_gb (nodes ?c ! i) = held_ram ?c i \<and>
      used_ram_gb (nodes ?c ! i) \<le> ram_limit (nodes ?c ! i) (ram_overcommit ?c)"
    if ik: "i < n_nodes ?c" for i
  proof -
    have that: "i < n_nodes c"
      using ik by (simp add: simps)
    have "used_ram_gb (nodes c ! i) = held_ram c i"
      "used_ram_gb (nodes c ! i) \<le> ram_limit (nodes c ! i) (ram_overcommit c)"
      using wf that unfolding wf_cluster_def by blast+
    moreover have "ram_limit (nodes ?c ! i) (ram_overcommit ?c) = ram_limit (nodes c ! i) (ram_overcommit c)"
      using ram_limit_card [OF release_keeps(2) [OF wf p]] by (simp add: simps)
    ultimately show ?thesis
      using release_used_ram [OF wf p that] release_held_ram [OF wf p, of i] ram_of_nonneg [OF wf, of jid]
      by auto
  qed
  have plans: "\<forall>e \<in> set (active ?c). \<forall>a \<in> set (snd e). alloc_ok (n_nodes ?c) (gpus_per_node ?c) a \<and> 0 \<le> a_mps_per_gpu a"
    using wf set_dict_pop_subset [of jid "active c"] by (auto simp: wf_cluster_def simps)
  have rams: "\<forall>e \<in> set (active_ram ?c). 0 \<le> snd e"
    using wf set_dict_pop_subset [of jid "active_ram c"] by (auto simp: wf_cluster_def simps)
  have keys: "distinct (map fst (active ?c))" "map fst (active_ram ?c) = map fst (active ?c)"
    using wf by (auto simp: wf_cluster_def simps map_fst_dict_pop)
  show ?thesis
    by (rule wf_clusterI; fact shape keys plans rams free ram)
qed

lemma release_wf [wf_intros]: "wf_cluster c \<Longrightarrow> wf_cluster (release jid c)"
  using release_wf_present release_absent by (cases "map_of (active c) jid") auto

lemma node_eqI:
  assumes "node_id n = node_id m" "node_card n = node_card m" "used_ram_gb n = used_ram_gb m"
    "length (gpus n) = length (gpus m)"
    "\<And>k. k < length (gpus n) \<Longrightarrow> free_mps (gpus n ! k) = free_mps (gpus m ! k)"
  shows "n = (m :: node)"
proof -
  have "gpus n = gpus m"
    using assms(4,5) by (intro nth_equalityI gpu.equality) auto
  with assms(1-3) show ?thesis
    by (intro node.equality) (auto simp: node_card_def)
qed

lemma release_commit:
  assumes wf: "wf_cluster c" and fits: "plan_fits c j p" and fresh: "job_id j \<notin> fst ` set (active c)"
    and ok: "job_ok j"
  shows "release (job_id j) (commit_plan j p c) = c"
proof -
  let ?c = "commit_plan j p c"
  let ?r = "release (job_id j) ?c"
  have wf': "wf_cluster ?c"
    using assms by (rule commit_plan_wf)
  have p: "map_of (active ?c) (job_id j) = Some p"
    by simp
  have ids: "map fst (active_ram c) = map fst (active c)" "shape (n_nodes c) (gpus_per_node c) (nodes c)"
    using wf by (auto simp: wf_cluster_def)
  from ids(1) fresh have fresh_ram: "job_id j \<notin> fst ` set (active_ram c)"
    by (metis set_map)
  have "nodes ?r = nodes c"
  proof (rule nth_equalityI)
    show len: "length (nodes ?r) = length (nodes c)"
      using release_keeps(4) [OF wf' p] commit_keeps(4) [OF wf fits] by simp
    fix i assume "i < length (nodes ?r)"
    with len ids(2) have i: "i < n_nodes c"
      by (simp add: shape_def)
    have g: "length (gpus (nodes c ! i)) = gpus_per_node c"
      using ids(2) i by (simp add: shape_def)
    show "nodes ?r ! i = nodes c ! i"
    proof (rule node_eqI)
      have "used_ram_gb (nodes ?r ! i) = used_ram_gb (nodes ?c ! i) -
          (if i \<in> a_node_id ` set p then ram_of ?c (job_id j) else 0)"
        using i by (intro release_used_ram [OF wf' p]) simp
      also have "\<dots> = used_ram_gb (nodes c ! i)"
        using commit_used_ram [OF wf fits, of i] by (simp add: ram_of_def dict_get_def)
      finally show "used_ram_gb (nodes ?r ! i) = used_ram_gb (nodes c ! i)" .
      fix k assume "k < length (gpus (nodes ?r ! i))"
      with g have k: "k < gpus_per_node c"
        using release_keeps(3) [OF wf' p] commit_keeps(3) [OF wf fits] by simp
      have "free_at (nodes ?r) i k = free_at (nodes ?c) i k + plan_slots p i k"
        using i k by (intro release_free_at [OF wf' p]) simp_all
      with commit_free_at [OF wf fits i k]
      show "free_mps (gpus (nodes ?r ! i) ! k) = free_mps (gpus (nodes c ! i) ! k)"
        by (simp add: free_at_def)
    qed (use release_keeps [OF wf' p] commit_keeps [OF wf fits] in simp_all)
  qed
  moreover have "active ?r = active c" "active_ram ?r = active_ram c"
    using fresh fresh_ram by (simp_all add: release_simps [OF p] dict_pop_set_fresh)
  ultimately show ?thesis
    by (intro cluster.equality) (simp_all add: release_simps [OF p])
qed

end
