(* ===== verification/SimPlanner.thy ===== *)
theory SimPlanner
  imports SimLedger
begin

text \<open>
  What the two planners of \<^verbatim>\<open>sim/cluster.py\<close> return: a plan that fits (\<open>plan_fits\<close>), and \<open>None\<close>
  exactly when no placement exists. The locale \<open>planner\<close> is the contract between a planner and
  \<open>commit_plan\<close>; \<^verbatim>\<open>try_allocate\<close> and \<^verbatim>\<open>try_allocate_on\<close> are its two instances.
\<close>

section \<open>The best-fit scan\<close>

lemma best_fit_cases:
  "best_fit req gi gs best = Some (bi, br) \<Longrightarrow>
     best = Some (bi, br) \<or>
     (\<exists>k<length gs. bi = gi + k \<and> req \<le> free_mps (gs ! k) \<and> br = free_mps (gs ! k) - req)"
proof (induction req gi gs best rule: best_fit.induct)
  case (1 req gi best)
  then show ?case by simp
next
  case (2 req gi g gs best)
  let ?best = "if req \<le> free_mps g then
      (let residual = free_mps g - req in
       case best of None \<Rightarrow> Some (gi, residual)
       | Some (bi, br) \<Rightarrow> if residual < br then Some (gi, residual) else best) else best"
  from 2 consider "?best = Some (bi, br)"
    | k where "k < length gs" "bi = Suc gi + k" "req \<le> free_mps (gs ! k)" "br = free_mps (gs ! k) - req"
    by auto
  then show ?case
  proof cases
    case 1
    then have "best = Some (bi, br) \<or> (req \<le> free_mps g \<and> bi = gi \<and> br = free_mps g - req)"
      by (auto simp: Let_def split: if_splits option.splits prod.splits)
    then show ?thesis by force
  next
    case (2 k)
    then show ?thesis by (intro disjI2 exI [of _ "Suc k"]) simp
  qed
qed

lemma best_fit_None:
  "best_fit req gi gs best = None \<longleftrightarrow> best = None \<and> (\<forall>g \<in> set gs. free_mps g < req)"
proof (induction req gi gs best rule: best_fit.induct)
  case (1 req gi best)
  then show ?case by simp
next
  case (2 req gi g gs best)
  then show ?case by (auto simp: Let_def split: option.splits prod.splits)
qed

lemma best_fit_le:
  assumes "best_fit req gi gs best = Some (bi, br)"
  shows "(\<forall>b r. best = Some (b, r) \<longrightarrow> br \<le> r) \<and> (\<forall>g \<in> set gs. req \<le> free_mps g \<longrightarrow> br \<le> free_mps g - req)"
  using assms
proof (induction req gi gs best rule: best_fit.induct)
  case (1 req gi best)
  then show ?case by simp
next
  case (2 req gi g gs best)
  let ?best = "if req \<le> free_mps g then
      (let residual = free_mps g - req in
       case best of None \<Rightarrow> Some (gi, residual)
       | Some (bi, br) \<Rightarrow> if residual < br then Some (gi, residual) else best) else best"
  from 2 have IH: "\<forall>b r. ?best = Some (b, r) \<longrightarrow> br \<le> r"
    and rest: "\<forall>g \<in> set gs. req \<le> free_mps g \<longrightarrow> br \<le> free_mps g - req"
    by simp_all
  have old: "br \<le> r" if "best = Some (b, r)" for b r
    using IH that by (auto simp: Let_def split: if_splits)
  have new: "br \<le> free_mps g - req" if "req \<le> free_mps g"
    using IH that by (auto simp: Let_def split: if_splits option.splits prod.splits)
  from old new rest show ?case by auto
qed

section \<open>The fractional planner\<close>

lemma plan_fractional_Some:
  "plan_fractional c j ns = Some p \<Longrightarrow>
     \<exists>n \<in> set ns. \<exists>gi br. ram_ok c (node_id n) (ram_req j) \<and> best_fit (mps_req j) 0 (gpus n) None = Some (gi, br) \<and>
       p = [\<lparr>a_job_id = job_id j, a_node_id = node_id n, a_gpu_indices = [gi], a_mps_per_gpu = mps_req j\<rparr>]"
  by (induction c j ns rule: plan_fractional.induct) (force split: if_splits option.splits)+

lemma best_fit_None_iff:
  "best_fit req gi gs None = None \<longleftrightarrow> (\<forall>g \<in> set gs. free_mps g < req)"
  by (simp add: best_fit_None)

lemma plan_fractional_None:
  "plan_fractional c j ns = None \<longleftrightarrow>
     (\<forall>n \<in> set ns. ram_ok c (node_id n) (ram_req j) \<longrightarrow> (\<forall>g \<in> set (gpus n). free_mps g < mps_req j))"
proof (induction c j ns rule: plan_fractional.induct)
  case (1 c j)
  then show ?case by simp
next
  case (2 c j n ns)
  show ?case
  proof (cases "best_fit (mps_req j) 0 (gpus n) None")
    case None
    with 2 best_fit_None_iff [of "mps_req j" 0 "gpus n"] show ?thesis
      by (cases "ram_ok c (node_id n) (ram_req j)") simp_all
  next
    case (Some b)
    then have "\<not> (\<forall>g \<in> set (gpus n). free_mps g < mps_req j)"
      using best_fit_None_iff [of "mps_req j" 0 "gpus n"] by simp
    with 2 Some show ?thesis
      by (cases "ram_ok c (node_id n) (ram_req j)") (auto split: prod.splits)
  qed
qed

lemma shape_node: "shape n g ns \<Longrightarrow> nd \<in> set ns \<Longrightarrow> node_id nd < n \<and> ns ! node_id nd = nd"
  by (auto simp: shape_def in_set_conv_nth)

lemma plan_fractional_fits:
  assumes wf: "wf_cluster c" and ok: "job_ok j" and p: "plan_fractional c j (nodes c) = Some p"
  shows "plan_fits c j p"
proof -
  from p obtain n gi br where n: "n \<in> set (nodes c)" and ram: "ram_ok c (node_id n) (ram_req j)"
    and fit: "best_fit (mps_req j) 0 (gpus n) None = Some (gi, br)"
    and p_def: "p = [\<lparr>a_job_id = job_id j, a_node_id = node_id n, a_gpu_indices = [gi], a_mps_per_gpu = mps_req j\<rparr>]"
    using plan_fractional_Some by blast
  from fit have gi: "gi < length (gpus n)" "mps_req j \<le> free_mps (gpus n ! gi)"
    by (auto dest!: best_fit_cases)
  from wf have shape: "shape (n_nodes c) (gpus_per_node c) (nodes c)"
    by (simp add: wf_cluster_def)
  from shape_node [OF shape n] have "node_id n < n_nodes c" and idx: "nodes c ! node_id n = n"
    by simp_all
  moreover from this shape have "length (gpus n) = gpus_per_node c"
    unfolding shape_def by metis
  ultimately show ?thesis
    using gi ram ok by (auto simp: plan_fits_def p_def alloc_ok_def free_at_def job_ok_def)
qed

section \<open>The whole-GPU loop\<close>

definition ram_nodes :: "cluster \<Rightarrow> job \<Rightarrow> nat list \<Rightarrow> nat list" where
  "ram_nodes c j nis = filter (\<lambda>ni. ram_ok c ni (ram_req j)) nis"

definition gpu_supply :: "cluster \<Rightarrow> job \<Rightarrow> (nat \<Rightarrow> nat list) \<Rightarrow> nat list \<Rightarrow> int" where
  "gpu_supply c j cand nis = sum_list (map (\<lambda>ni. int (length (cand ni))) (ram_nodes c j nis))"

lemma gpu_supply_nonneg: "0 \<le> gpu_supply c j cand nis"
  unfolding gpu_supply_def by (rule sum_list_nonneg) auto

lemma gpu_supply_Cons: "gpu_supply c j cand (ni # nis) =
    (if ram_ok c ni (ram_req j) then int (length (cand ni)) else 0) + gpu_supply c j cand nis"
  by (simp add: gpu_supply_def ram_nodes_def)

lemma fill_whole_needed:
  "0 \<le> needed \<Longrightarrow> snd (fill_whole c j cand nis needed plan) = max 0 (needed - gpu_supply c j cand nis)"
proof (induction c j cand nis needed plan rule: fill_whole.induct)
  case (1 c j cand needed plan)
  then show ?case by (simp add: gpu_supply_def ram_nodes_def)
next
  case (2 c j cand ni nis needed plan)
  consider "needed = 0" | "needed > 0" "\<not> ram_ok c ni (ram_req j)"
    | "needed > 0" "ram_ok c ni (ram_req j)" "cand ni = []"
    | "needed > 0" "ram_ok c ni (ram_req j)" "cand ni \<noteq> []"
    using 2 by linarith
  then show ?case
  proof cases
    case 1
    then show ?thesis using gpu_supply_nonneg by simp
  next
    case b: 2
    with 2(1) show ?thesis by (simp add: gpu_supply_Cons)
  next
    case b: 3
    with 2(2) show ?thesis by (simp add: gpu_supply_Cons)
  next
    case b: 4
    let ?taken = "take (nat (min needed (int (length (cand ni))))) (cand ni)"
    have "0 < length (cand ni)"
      using b by simp
    with b(1) have "0 < nat (min needed (int (length (cand ni))))"
      by linarith
    with b have "?taken \<noteq> []" and len: "int (length ?taken) = min needed (int (length (cand ni)))"
      by (simp_all add: min_le_iff_disj not_le)
    with b 2(3) [OF _ _ refl] show ?thesis
      using gpu_supply_nonneg [of c j cand nis] by (simp add: gpu_supply_Cons Let_def)
  qed
qed

text \<open>Every allocation the loop adds is taken from the candidates of a RAM-feasible node, one per
  node.\<close>

definition alloc_from :: "cluster \<Rightarrow> job \<Rightarrow> (nat \<Rightarrow> nat list) \<Rightarrow> allocation \<Rightarrow> bool" where
  "alloc_from c j cand a \<longleftrightarrow>
     a_job_id a = job_id j \<and> a_mps_per_gpu a = mps_per_gpu c \<and> ram_ok c (a_node_id a) (ram_req j) \<and>
     (\<exists>m. a_gpu_indices a = take m (cand (a_node_id a)))"

lemma fill_whole_plan:
  assumes "distinct nis" "\<forall>a \<in> set plan. alloc_from c j cand a" "distinct (map a_node_id plan)"
    "set nis \<inter> a_node_id ` set plan = {}"
  shows "(\<forall>a \<in> set (fst (fill_whole c j cand nis needed plan)). alloc_from c j cand a) \<and>
    distinct (map a_node_id (fst (fill_whole c j cand nis needed plan))) \<and>
    a_node_id ` set (fst (fill_whole c j cand nis needed plan)) \<subseteq> a_node_id ` set plan \<union> set nis"
  using assms
proof (induction c j cand nis needed plan rule: fill_whole.induct)
  case (1 c j cand needed plan)
  then show ?case by simp
next
  case (2 c j cand ni nis needed plan)
  let ?taken = "take (nat (min needed (int (length (cand ni))))) (cand ni)"
  let ?a = "\<lparr>a_job_id = job_id j, a_node_id = ni, a_gpu_indices = ?taken, a_mps_per_gpu = mps_per_gpu c\<rparr>"
  have skip: "distinct nis" "set nis \<inter> a_node_id ` set plan = {}"
    using 2(4,7) by auto
  consider "needed \<le> 0" | "needed > 0" "\<not> ram_ok c ni (ram_req j)"
    | "needed > 0" "ram_ok c ni (ram_req j)" "?taken = []"
    | "needed > 0" "ram_ok c ni (ram_req j)" "?taken \<noteq> []"
    by linarith
  then show ?case
  proof cases
    case 1
    with 2(4-7) show ?thesis by auto
  next
    case b: 2
    then have eq: "fill_whole c j cand (ni # nis) needed plan = fill_whole c j cand nis needed plan"
      by simp
    have neg: "\<not> needed \<le> 0"
      using b by simp
    from 2(1) [OF neg b(2) skip(1) 2(5,6) skip(2)] show ?thesis
      unfolding eq by auto
  next
    case b: 3
    then have eq: "fill_whole c j cand (ni # nis) needed plan = fill_whole c j cand nis needed plan"
      by (simp add: Let_def)
    have neg: "\<not> needed \<le> 0" "\<not> \<not> ram_ok c ni (ram_req j)"
      using b by simp_all
    from 2(2) [OF neg refl b(3) skip(1) 2(5,6) skip(2)] show ?thesis
      unfolding eq by auto
  next
    case b: 4
    have eq: "fill_whole c j cand (ni # nis) needed plan =
        fill_whole c j cand nis (needed - int (length ?taken)) (plan @ [?a])"
      using b by (simp add: Let_def)
    have prems: "distinct nis" "distinct (map a_node_id (plan @ [?a]))"
      "set nis \<inter> a_node_id ` set (plan @ [?a]) = {}"
      using 2(4,6,7) by auto
    have "alloc_from c j cand ?a"
      using b by (auto simp: alloc_from_def)
    with 2(5) have new: "\<forall>a \<in> set (plan @ [?a]). alloc_from c j cand a"
      by simp
    have hosts: "a_node_id ` set (plan @ [?a]) \<union> set nis = a_node_id ` set plan \<union> set (ni # nis)"
      by simp
    have "\<not> needed \<le> 0" "\<not> \<not> ram_ok c ni (ram_req j)"
      using b by simp_all
    from 2(3) [OF this refl b(3) prems(1) new prems(2,3)] show ?thesis
      unfolding eq hosts .
  qed
qed

lemma fill_whole_fits:
  assumes wf: "wf_cluster c" and cap: "0 \<le> mps_per_gpu c"
    and nis: "distinct nis" "set nis \<subseteq> {..<n_nodes c}"
    and cand: "\<And>ni. distinct (cand ni) \<and> set (cand ni) = set (free_whole_gpus (nodes c ! ni) (mps_per_gpu c))"
    and fill: "fill_whole c j cand nis needed [] = (p, r)"
  shows "plan_fits c j p"
proof -
  have p: "\<forall>a \<in> set p. alloc_from c j cand a" "distinct (map a_node_id p)" "a_node_id ` set p \<subseteq> set nis"
    using fill_whole_plan [of nis "[]" c j cand needed] nis fill by simp_all
  have "alloc_ok (n_nodes c) (gpus_per_node c) a \<and>
      (\<forall>k \<in> set (a_gpu_indices a). a_mps_per_gpu a \<le> free_at (nodes c) (a_node_id a) k)"
    if a: "a \<in> set p" for a
  proof -
    let ?i = "a_node_id a"
    have i: "?i < n_nodes c"
      using a p(3) nis(2) by auto
    then have g: "length (gpus (nodes c ! ?i)) = gpus_per_node c"
      using wf by (simp add: wf_cluster_def shape_def)
    from a p(1) obtain m where m: "a_gpu_indices a = take m (cand ?i)" "a_mps_per_gpu a = mps_per_gpu c"
      by (auto simp: alloc_from_def)
    then have "set (a_gpu_indices a) \<subseteq> set (free_whole_gpus (nodes c ! ?i) (mps_per_gpu c))"
      using cand by (metis set_take_subset)
    with i g m cand [of ?i] show ?thesis
      by (auto simp: alloc_ok_def free_whole_gpus_def free_at_def)
  qed
  with p(1,2) cap show ?thesis
    by (auto simp: plan_fits_def alloc_from_def)
qed

lemma ranked_nodes_perm: "set (ranked_nodes c) = {..<n_nodes c}" "distinct (ranked_nodes c)"
  by (auto simp: ranked_nodes_def atLeast0LessThan [symmetric])

lemma preferred_gpus_perm:
  "distinct (preferred_gpus c ni gi i) \<and>
   set (preferred_gpus c ni gi i) = set (free_whole_gpus (nodes c ! i) (mps_per_gpu c))"
  by (auto simp: preferred_gpus_def Let_def free_whole_gpus_def)

lemma distinct_free_whole [simp]: "distinct (free_whole_gpus n cap)"
  by (simp add: free_whole_gpus_def)


lemma plan_job_fits:
  assumes "wf_cluster c" "0 \<le> mps_per_gpu c" "job_ok j" "plan_job c j = Some p"
  shows "plan_fits c j p"
proof (cases "fractional c j")
  case True
  with assms show ?thesis
    by (simp add: plan_job_def plan_fractional_fits)
next
  case False
  obtain q r where fill: "fill_whole c j (\<lambda>ni. free_whole_gpus (nodes c ! ni) (mps_per_gpu c))
      (ranked_nodes c) (gpu_count j) [] = (q, r)"
    by fastforce
  with False assms(4) have "p = q"
    by (simp add: plan_job_def split: if_splits)
  moreover have "plan_fits c j q"
    by (rule fill_whole_fits [OF assms(1,2) ranked_nodes_perm(2) _ _ fill])
       (simp_all add: ranked_nodes_perm)
  ultimately show ?thesis by simp
qed

lemma plan_on_order: "ni < n \<Longrightarrow> distinct (ni # filter (\<lambda>x. x \<noteq> ni) [0..<n]) \<and>
    set (ni # filter (\<lambda>x. x \<noteq> ni) [0..<n]) = {..<n}"
  by auto

lemma plan_on_fits:
  assumes wf: "wf_cluster c" and cap: "0 \<le> mps_per_gpu c" and ok: "job_ok j"
    and p: "plan_on c ni gi j = Some p"
  shows "plan_fits c j p"
proof -
  from p have range: "ni < n_nodes c" "gi < gpus_per_node c"
    by (auto simp: plan_on_def split: if_splits)
  show ?thesis
  proof (cases "fractional c j")
    case True
    with p range have "p = [\<lparr>a_job_id = job_id j, a_node_id = ni, a_gpu_indices = [gi], a_mps_per_gpu = mps_req j\<rparr>]"
      "mps_req j \<le> free_at (nodes c) ni gi" "ram_ok c ni (ram_req j)"
      by (auto simp: plan_on_def free_at_def split: if_splits)
    with range ok show ?thesis
      by (simp add: plan_fits_def alloc_ok_def job_ok_def)
  next
    case False
    obtain q r where fill: "fill_whole c j (preferred_gpus c ni gi)
        (ni # filter (\<lambda>n. n \<noteq> ni) [0..<n_nodes c]) (gpu_count j) [] = (q, r)"
      by fastforce
    with p False range have "p = q"
      by (simp add: plan_on_def split: if_splits)
    moreover have "plan_fits c j q"
      by (rule fill_whole_fits [OF wf cap _ _ preferred_gpus_perm fill])
         (use plan_on_order [OF range(1)] in auto)
    ultimately show ?thesis by simp
  qed
qed

section \<open>The contract of a planner\<close>

locale planner =
  fixes plan :: "cluster \<Rightarrow> job \<Rightarrow> allocation list option"
  assumes fits: "wf_cluster c \<Longrightarrow> 0 \<le> mps_per_gpu c \<Longrightarrow> job_ok j \<Longrightarrow> plan c j = Some p \<Longrightarrow> plan_fits c j p"
begin

lemma allocate_wf:
  assumes "wf_cluster c" "0 \<le> mps_per_gpu c" "job_ok j" "plan c j = Some p"
    "job_id j \<notin> fst ` set (active c)"
  shows "wf_cluster (commit_plan j p c)"
  using assms by (intro commit_plan_wf fits)

lemma allocate_release:
  assumes "wf_cluster c" "0 \<le> mps_per_gpu c" "job_ok j" "plan c j = Some p"
    "job_id j \<notin> fst ` set (active c)"
  shows "release (job_id j) (commit_plan j p c) = c"
  using assms by (intro release_commit fits)

lemma allocate_ram:
  assumes "wf_cluster c" "0 \<le> mps_per_gpu c" "job_ok j" "plan c j = Some p" "a \<in> set p"
  shows "ram_ok c (a_node_id a) (ram_req j)"
  using fits [OF assms(1-4)] assms(5) by (auto simp: plan_fits_def)

end

interpretation first_fit: planner plan_job
  by unfold_locales (rule plan_job_fits)

interpretation placed: planner "\<lambda>c. plan_on c ni gi" for ni gi
  by unfold_locales (rule plan_on_fits)

lemma try_allocate_wf [wf_intros]:
  assumes "wf_cluster c" "0 \<le> mps_per_gpu c" "job_ok j" "job_id j \<notin> fst ` set (active c)"
    "try_allocate c j = Some (p, c')"
  shows "wf_cluster c'"
  using assms first_fit.allocate_wf by (auto simp: try_allocate_def split: option.splits)

lemma try_allocate_on_wf [wf_intros]:
  assumes "wf_cluster c" "0 \<le> mps_per_gpu c" "job_ok j" "job_id j \<notin> fst ` set (active c)"
    "try_allocate_on c j ni gi = Some (p, c')"
  shows "wf_cluster c'"
  using assms placed.allocate_wf by (auto simp: try_allocate_on_def split: option.splits)

section \<open>When a planner refuses\<close>

definition whole_supply :: "cluster \<Rightarrow> job \<Rightarrow> int" where
  "whole_supply c j = gpu_supply c j (\<lambda>ni. free_whole_gpus (nodes c ! ni) (mps_per_gpu c)) [0..<n_nodes c]"

lemma gpu_supply_perm:
  assumes "mset nis = mset njs" "\<And>ni. length (cand ni) = length (cand' ni)"
  shows "gpu_supply c j cand nis = gpu_supply c j cand' njs"
proof -
  have "mset (ram_nodes c j nis) = mset (ram_nodes c j njs)"
    using assms(1) by (simp add: ram_nodes_def)
  then have "mset (map (\<lambda>ni. int (length (cand ni))) (ram_nodes c j nis)) =
      mset (map (\<lambda>ni. int (length (cand' ni))) (ram_nodes c j njs))"
    using assms(2) by simp
  then show ?thesis
    unfolding gpu_supply_def by (metis sum_mset_sum_list)
qed

lemma fill_whole_done:
  "(snd (fill_whole c j cand nis needed plan) > 0) = (needed > max 0 (gpu_supply c j cand nis))"
proof (cases "0 \<le> needed")
  case True
  then show ?thesis using gpu_supply_nonneg [of c j cand nis] by (simp add: fill_whole_needed less_max_iff_disj)
next
  case False
  then have "fill_whole c j cand nis needed plan = (plan, needed)"
    by (cases nis) auto
  with False show ?thesis by simp
qed

lemma plan_job_None:
  assumes "wf_cluster c"
  shows "plan_job c j = None \<longleftrightarrow>
    (if fractional c j
     then \<forall>i<n_nodes c. ram_ok c i (ram_req j) \<longrightarrow> (\<forall>k<gpus_per_node c. free_at (nodes c) i k < mps_req j)
     else whole_supply c j < gpu_count j \<and> 0 < gpu_count j)"
proof (cases "fractional c j")
  case True
  have "shape (n_nodes c) (gpus_per_node c) (nodes c)"
    using assms by (simp add: wf_cluster_def)
  then have "(\<forall>n \<in> set (nodes c). ram_ok c (node_id n) (ram_req j) \<longrightarrow> (\<forall>g \<in> set (gpus n). free_mps g < mps_req j)) \<longleftrightarrow>
      (\<forall>i<n_nodes c. ram_ok c i (ram_req j) \<longrightarrow> (\<forall>k<gpus_per_node c. free_at (nodes c) i k < mps_req j))"
    by (auto simp: all_set_conv_all_nth shape_def free_at_def)
  with True show ?thesis
    by (simp add: plan_job_def plan_fractional_None)
next
  case False
  have "mset (ranked_nodes c) = mset [0..<n_nodes c]"
    by (simp add: ranked_nodes_def)
  then have "gpu_supply c j (\<lambda>ni. free_whole_gpus (nodes c ! ni) (mps_per_gpu c)) (ranked_nodes c) = whole_supply c j"
    unfolding whole_supply_def by (rule gpu_supply_perm) simp
  with fill_whole_done [of c j _ "ranked_nodes c" "gpu_count j" "[]"]
  have "0 < snd (fill_whole c j (\<lambda>ni. free_whole_gpus (nodes c ! ni) (mps_per_gpu c)) (ranked_nodes c) (gpu_count j) [])
      \<longleftrightarrow> max 0 (whole_supply c j) < gpu_count j"
    by simp
  with False show ?thesis
    by (simp add: plan_job_def case_prod_unfold conj_commute)
qed

lemma preferred_gpus_length: "length (preferred_gpus c ni gi i) = length (free_whole_gpus (nodes c ! i) (mps_per_gpu c))"
  using preferred_gpus_perm [of c ni gi i] distinct_card distinct_free_whole by metis

lemma plan_on_None:
  assumes "ni < n_nodes c" "gi < gpus_per_node c"
  shows "plan_on c ni gi j = None \<longleftrightarrow>
    (if fractional c j then \<not> (mps_req j \<le> free_at (nodes c) ni gi \<and> ram_ok c ni (ram_req j))
     else whole_supply c j < gpu_count j \<and> 0 < gpu_count j)"
proof (cases "fractional c j")
  case True
  with assms show ?thesis by (simp add: plan_on_def free_at_def)
next
  case False
  let ?nis = "ni # filter (\<lambda>n. n \<noteq> ni) [0..<n_nodes c]"
  have "distinct ?nis" "set ?nis = set [0..<n_nodes c]"
    using plan_on_order [OF assms(1)] unfolding atLeast_upt by blast+
  with set_eq_iff_mset_eq_distinct [OF this(1) distinct_upt] have "mset ?nis = mset [0..<n_nodes c]"
    by blast
  then have "gpu_supply c j (preferred_gpus c ni gi) ?nis = whole_supply c j"
    unfolding whole_supply_def by (rule gpu_supply_perm) (rule preferred_gpus_length)
  with fill_whole_done [of c j "preferred_gpus c ni gi" ?nis "gpu_count j" "[]"]
  have "0 < snd (fill_whole c j (preferred_gpus c ni gi) ?nis (gpu_count j) [])
      \<longleftrightarrow> max 0 (whole_supply c j) < gpu_count j"
    by simp
  moreover have "plan_on c ni gi j = None \<longleftrightarrow>
      0 < snd (fill_whole c j (preferred_gpus c ni gi) ?nis (gpu_count j) [])"
    using assms False by (simp add: plan_on_def case_prod_unfold Let_def not_le)
  ultimately show ?thesis
    using False by auto
qed

lemma can_allocate_on_imp: "wf_cluster c \<Longrightarrow> can_allocate_on c j ni gi \<Longrightarrow> can_allocate c j"
proof -
  assume wf: "wf_cluster c" and on: "can_allocate_on c j ni gi"
  from on have range: "ni < n_nodes c" "gi < gpus_per_node c"
    by (auto simp: can_allocate_on_def plan_on_def split: if_splits)
  from on show "can_allocate c j"
    using plan_job_None [OF wf, of j] plan_on_None [OF range, of j] range
    by (fastforce simp: can_allocate_def can_allocate_on_def split: if_splits)
qed

lemma can_allocate_iff_on:
  assumes "wf_cluster c" "0 < n_nodes c" "0 < gpus_per_node c"
  shows "can_allocate c j \<longleftrightarrow> (\<exists>ni<n_nodes c. \<exists>gi<gpus_per_node c. can_allocate_on c j ni gi)"
proof
  assume can: "can_allocate c j"
  show "\<exists>ni<n_nodes c. \<exists>gi<gpus_per_node c. can_allocate_on c j ni gi"
  proof (cases "fractional c j")
    case True
    with can assms(1) obtain i k where "i < n_nodes c" "k < gpus_per_node c" "ram_ok c i (ram_req j)"
      "mps_req j \<le> free_at (nodes c) i k"
      by (auto simp: can_allocate_def plan_job_None not_less)
    moreover from this True have "can_allocate_on c j i k"
      by (simp add: can_allocate_on_def plan_on_None del: not_None_eq)
    ultimately show ?thesis by blast
  next
    case False
    with can assms have "can_allocate_on c j 0 0"
      by (simp add: can_allocate_def can_allocate_on_def plan_job_None plan_on_None del: not_None_eq)
    with assms show ?thesis by blast
  qed
qed (use assms(1) can_allocate_on_imp in blast)

end
