(* ===== verification/SimReach.thy ===== *)
theory SimReach
  imports SimPlanner
begin

text \<open>
  What holds of every cluster the simulator can reach: the operations as a step relation, the
  ledger and the frame of constants as its invariants, the bounds on slots, RAM and utilization
  that follow, the cluster after the last release, and the monotonicity of the planner (a job
  that does not fit keeps not fitting while other jobs are placed).
\<close>

section \<open>The frame of constants\<close>

definition same_frame :: "cluster \<Rightarrow> cluster \<Rightarrow> bool" where
  "same_frame c d \<longleftrightarrow>
     n_nodes d = n_nodes c \<and> gpus_per_node d = gpus_per_node c \<and> mps_per_gpu d = mps_per_gpu c \<and>
     ram_overcommit d = ram_overcommit c \<and> node_gpu_types d = node_gpu_types c \<and>
     (\<forall>i<n_nodes c. node_card (nodes d ! i) = node_card (nodes c ! i))"

lemma same_frame_refl [wf_intros]: "same_frame c c"
  by (simp add: same_frame_def)

lemma same_frame_trans [trans]: "same_frame c d \<Longrightarrow> same_frame d e \<Longrightarrow> same_frame c e"
  by (simp add: same_frame_def)

lemma same_frame_simps:
  "same_frame c d \<Longrightarrow> n_nodes d = n_nodes c"
  "same_frame c d \<Longrightarrow> gpus_per_node d = gpus_per_node c"
  "same_frame c d \<Longrightarrow> mps_per_gpu d = mps_per_gpu c"
  "same_frame c d \<Longrightarrow> ram_overcommit d = ram_overcommit c"
  by (simp_all add: same_frame_def)

lemma commit_frame [wf_intros]: "wf_cluster c \<Longrightarrow> plan_fits c j p \<Longrightarrow> same_frame c (commit_plan j p c)"
  by (simp add: same_frame_def commit_keeps(2) del: commit_simps(6))

lemma release_frame [wf_intros]: "wf_cluster c \<Longrightarrow> same_frame c (release jid c)"
  by (cases "map_of (active c) jid")
    (simp_all add: release_absent same_frame_def release_simps(1-5) release_keeps(2))

section \<open>The step relation\<close>

inductive cluster_step :: "cluster \<Rightarrow> cluster \<Rightarrow> bool" where
  allocate: "try_allocate c j = Some (p, c') \<Longrightarrow> job_ok j \<Longrightarrow> job_id j \<notin> fst ` set (active c) \<Longrightarrow>
     cluster_step c c'"
| allocate_on: "try_allocate_on c j ni gi = Some (p, c') \<Longrightarrow> job_ok j \<Longrightarrow>
     job_id j \<notin> fst ` set (active c) \<Longrightarrow> cluster_step c c'"
| release: "cluster_step c (release jid c)"

inductive_cases cluster_stepE: "cluster_step c c'"

inductive cluster_reach :: "cluster \<Rightarrow> cluster \<Rightarrow> bool" for c0 where
  start: "cluster_reach c0 c0"
| step: "cluster_reach c0 c \<Longrightarrow> cluster_step c c' \<Longrightarrow> cluster_reach c0 c'"

lemma try_allocate_plan:
  "try_allocate c j = Some (p, c') \<longleftrightarrow> plan_job c j = Some p \<and> c' = commit_plan j p c"
  by (auto simp: try_allocate_def split: option.splits)

lemma try_allocate_on_plan:
  "try_allocate_on c j ni gi = Some (p, c') \<longleftrightarrow> plan_on c ni gi j = Some p \<and> c' = commit_plan j p c"
  by (auto simp: try_allocate_on_def split: option.splits)

lemma cluster_step_keeps:
  assumes "cluster_step c c'" "wf_cluster c" "0 \<le> mps_per_gpu c"
  shows "wf_cluster c' \<and> same_frame c c'"
  using assms
proof (cases rule: cluster_step.cases)
  case (allocate j p)
  then show ?thesis
    using assms by (auto simp: try_allocate_plan intro: commit_plan_wf commit_frame plan_job_fits)
next
  case (allocate_on j ni gi p)
  then show ?thesis
    using assms by (auto simp: try_allocate_on_plan intro: commit_plan_wf commit_frame plan_on_fits)
next
  case (release jid)
  then show ?thesis
    using assms by (auto intro: release_wf release_frame)
qed

lemma cluster_reach_keeps:
  assumes "cluster_reach c0 c" "wf_cluster c0" "0 \<le> mps_per_gpu c0"
  shows "wf_cluster c \<and> same_frame c0 c"
  using assms(1)
proof induction
  case start
  then show ?case
    using assms(2) by (simp add: same_frame_refl)
next
  case (step c c')
  then have "0 \<le> mps_per_gpu c"
    using assms(3) by (auto simp: same_frame_def)
  then show ?case
    using step cluster_step_keeps same_frame_trans by blast
qed

section \<open>A fresh and an idle cluster\<close>

definition empty_cluster :: "nat \<Rightarrow> nat \<Rightarrow> int \<Rightarrow> cluster" where
  \<comment> \<open>\<^verbatim>\<open>Cluster(n_nodes, gpus_per_node, mps_per_gpu)\<close> with the defaults\<close>
  "empty_cluster n g cap =
     \<lparr>n_nodes = n, gpus_per_node = g, mps_per_gpu = cap, node_gpu_types = None, ram_overcommit = 1,
      nodes = map (\<lambda>i. \<lparr>node_id = i, gpus = replicate g \<lparr>free_mps = cap\<rparr>, speed = 1,
                         node_gpu_type = ''rtx4070'', ram_gb = 1000000000, used_ram_gb = 0\<rparr>) [0..<n],
      active = [], active_ram = []\<rparr>"

lemma make_cluster_default: "make_cluster n g cap None None None 1 = Inr (empty_cluster n g cap)"
  by (simp add: make_cluster_def empty_cluster_def or_default_def)

lemma make_cluster_wf:
  assumes "make_cluster n g cap speeds gtypes rams overcommit = Inr c" "0 \<le> cap" "0 \<le> overcommit"
    "\<forall>r \<in> set (or_default rams n 1000000000). 0 \<le> r"
  shows "wf_cluster c"
proof -
  have c: "c = \<lparr>n_nodes = n, gpus_per_node = g, mps_per_gpu = cap, node_gpu_types = gtypes,
      ram_overcommit = overcommit,
      nodes = map (\<lambda>i. \<lparr>node_id = i, gpus = replicate g \<lparr>free_mps = cap\<rparr>,
         speed = or_default speeds n 1 ! i, node_gpu_type = or_default gtypes n ''rtx4070'' ! i,
         ram_gb = or_default rams n 1000000000 ! i, used_ram_gb = 0\<rparr>) [0..<n],
      active = [], active_ram = []\<rparr>" and len: "n \<le> length (or_default rams n 1000000000)"
    using assms(1) by (auto simp: make_cluster_def Let_def split: if_splits)
  have "0 \<le> or_default rams n 1000000000 ! i" if "i < n" for i
    using assms(4) len that by (meson nth_mem order_less_le_trans)
  then have "0 \<le> or_default rams n 1000000000 ! i * overcommit" if "i < n" for i
    using that assms(3) by simp
  then show ?thesis
    using assms(2) by (auto simp: c wf_cluster_def shape_def free_at_def held_slots_def held_ram_def
      ram_limit_def intro: add_nonneg_nonneg)
qed

lemma empty_cluster_wf: "0 \<le> cap \<Longrightarrow> wf_cluster (empty_cluster n g cap)"
  using make_cluster_wf [OF make_cluster_default, of cap n] by (simp add: or_default_def)

lemma wf_idle:
  assumes "wf_cluster c" "active c = []"
  shows "active_ram c = []"
    and "i < n_nodes c \<Longrightarrow> k < gpus_per_node c \<Longrightarrow> free_at (nodes c) i k = mps_per_gpu c"
    and "i < n_nodes c \<Longrightarrow> used_ram_gb (nodes c ! i) = 0"
  using assms by (auto simp: wf_cluster_def held_slots_def held_ram_def)

text \<open>Two idle clusters with the same constants are equal: nothing leaks.\<close>

lemma idle_unique:
  assumes c: "wf_cluster c" "active c = []" and d: "wf_cluster d" "active d = []" and f: "same_frame c d"
  shows "d = c"
proof -
  have sc: "shape (n_nodes c) (gpus_per_node c) (nodes c)" and sd: "shape (n_nodes c) (gpus_per_node c) (nodes d)"
    using c d f by (auto simp: wf_cluster_def same_frame_simps)
  have "nodes d ! i = nodes c ! i" if i: "i < n_nodes c" for i
  proof (rule node_eqI)
    show "node_id (nodes d ! i) = node_id (nodes c ! i)" "length (gpus (nodes d ! i)) = length (gpus (nodes c ! i))"
      using sc sd i by (simp_all add: shape_def)
    show "node_card (nodes d ! i) = node_card (nodes c ! i)"
      using f i by (simp add: same_frame_def)
    show "used_ram_gb (nodes d ! i) = used_ram_gb (nodes c ! i)"
      using wf_idle(3) [OF c i] wf_idle(3) [OF d] f i by (simp add: same_frame_simps)
    fix k assume "k < length (gpus (nodes d ! i))"
    then have "k < gpus_per_node c"
      using sd i by (simp add: shape_def)
    then show "free_mps (gpus (nodes d ! i) ! k) = free_mps (gpus (nodes c ! i) ! k)"
      using wf_idle(2) [OF c i] wf_idle(2) [OF d] f i by (simp add: same_frame_simps free_at_def)
  qed
  then have "nodes d = nodes c"
    using sc sd by (intro nth_equalityI) (simp_all add: shape_def)
  then show ?thesis
    using c d f wf_idle(1) [OF c] wf_idle(1) [OF d] by (simp add: same_frame_def)
qed

section \<open>Bounds\<close>

lemma held_slots_nonneg: "wf_cluster c \<Longrightarrow> 0 \<le> held_slots c i k"
  unfolding held_slots_def by (intro sum_list_nonneg) (auto simp: wf_cluster_def intro: plan_slots_nonneg)

lemma wf_free_bounds:
  assumes "wf_cluster c" "i < n_nodes c" "k < gpus_per_node c"
  shows "0 \<le> free_at (nodes c) i k" "free_at (nodes c) i k \<le> mps_per_gpu c"
proof -
  have "free_at (nodes c) i k = mps_per_gpu c - held_slots c i k \<and> 0 \<le> free_at (nodes c) i k"
    using assms unfolding wf_cluster_def by blast
  then show "0 \<le> free_at (nodes c) i k" "free_at (nodes c) i k \<le> mps_per_gpu c"
    using held_slots_nonneg [OF assms(1), of i k] by simp_all
qed

lemma sum_list_bounds:
  fixes f :: "'a \<Rightarrow> int"
  assumes "\<And>x. x \<in> set xs \<Longrightarrow> 0 \<le> f x \<and> f x \<le> b"
  shows "0 \<le> sum_list (map f xs) \<and> sum_list (map f xs) \<le> int (length xs) * b"
  using assms
proof (induction xs)
  case Nil
  show ?case by simp
next
  case (Cons x xs)
  have "0 \<le> sum_list (map f xs) \<and> sum_list (map f xs) \<le> int (length xs) * b"
    by (rule Cons.IH) (simp add: Cons.prems)
  moreover have "0 \<le> f x \<and> f x \<le> b"
    by (simp add: Cons.prems)
  ultimately show ?case
    by (simp add: algebra_simps)
qed

lemma node_free_bounds:
  assumes wf: "wf_cluster c" and n: "n \<in> set (nodes c)"
  shows "0 \<le> free_mps_total n \<and> free_mps_total n \<le> int (gpus_per_node c) * mps_per_gpu c"
proof -
  obtain i where i: "i < n_nodes c" "n = nodes c ! i" "length (gpus n) = gpus_per_node c"
    using wf n by (auto simp: wf_cluster_def shape_def in_set_conv_nth)
  have "0 \<le> free_mps g \<and> free_mps g \<le> mps_per_gpu c" if "g \<in> set (gpus n)" for g
    using that i wf_free_bounds [OF wf i(1)] by (auto simp: in_set_conv_nth free_at_def)
  from sum_list_bounds [of "gpus n", OF this] show ?thesis
    by (simp add: free_mps_total_def i(3))
qed

lemma used_mps_bounds:
  assumes "wf_cluster c"
  shows "0 \<le> used_mps c \<and> used_mps c \<le> total_mps c"
proof -
  have "length (nodes c) = n_nodes c"
    using assms by (simp add: wf_cluster_def shape_def)
  with sum_list_bounds [of "nodes c" free_mps_total, OF node_free_bounds [OF assms]] show ?thesis
    by (simp add: used_mps_def total_mps_def total_gpus_def algebra_simps)
qed

lemma utilization_bounds:
  assumes "wf_cluster c"
  shows "0 \<le> utilization c \<and> utilization c \<le> 1"
proof -
  have "total_mps c \<noteq> 0 \<Longrightarrow> 0 < total_mps c"
    using used_mps_bounds [OF assms] by linarith
  then show ?thesis
    using used_mps_bounds [OF assms] by (auto simp: utilization_def divide_simps)
qed

section \<open>A rejected job stays rejected while others are placed\<close>

lemma commit_ram_ok_mono:
  assumes "wf_cluster c" "plan_fits c j p" "job_ok j" "i < n_nodes c" "ram_ok (commit_plan j p c) i r"
  shows "ram_ok c i r"
proof -
  have "ram_gb (nodes (commit_plan j p c) ! i) = ram_gb (nodes c ! i)"
    using commit_keeps(2) [OF assms(1,2)] by (simp add: node_card_def)
  moreover have "used_ram_gb (nodes c ! i) \<le> used_ram_gb (nodes (commit_plan j p c) ! i)"
    using commit_used_ram [OF assms(1,2), of i] assms(3) by (simp add: job_ok_def)
  ultimately show ?thesis
    using assms(5) by (simp add: ram_ok_def del: commit_simps(6))
qed

lemma plan_fits_slots_nonneg: "plan_fits c j p \<Longrightarrow> 0 \<le> plan_slots p i k"
  by (rule plan_slots_nonneg) (simp add: plan_fits_def)

lemma commit_free_whole_mono:
  assumes wf: "wf_cluster c" and fits: "plan_fits c j p" and i: "i < n_nodes c"
  shows "length (free_whole_gpus (nodes (commit_plan j p c) ! i) (mps_per_gpu c)) \<le>
    length (free_whole_gpus (nodes c ! i) (mps_per_gpu c))"
proof -
  let ?d = "commit_plan j p c"
  have len: "length (gpus (nodes c ! i)) = gpus_per_node c" "length (gpus (nodes ?d ! i)) = gpus_per_node c"
    using wf i commit_keeps(3) [OF wf fits, of i] by (auto simp: wf_cluster_def shape_def)
  have "free_mps (gpus (nodes c ! i) ! k) = mps_per_gpu c"
    if k: "k < gpus_per_node c" and eq: "free_mps (gpus (nodes ?d ! i) ! k) = mps_per_gpu c" for k
    using commit_free_at [OF wf fits i k] eq wf_free_bounds(2) [OF wf i k] plan_fits_slots_nonneg [OF fits, of i k]
    by (simp add: free_at_def del: commit_simps(6))
  then have "set (free_whole_gpus (nodes ?d ! i) (mps_per_gpu c)) \<subseteq>
      set (free_whole_gpus (nodes c ! i) (mps_per_gpu c))"
    using len by (auto simp: free_whole_gpus_def simp del: commit_simps(6))
  then show ?thesis
    by (metis card_mono distinct_card distinct_free_whole List.finite_set)
qed

lemma gpu_supply_mono:
  assumes "\<And>i. i \<in> set nis \<Longrightarrow> ram_ok d i (ram_req j) \<Longrightarrow> ram_ok c i (ram_req j)"
    "\<And>i. i \<in> set nis \<Longrightarrow> length (cand' i) \<le> length (cand i)"
  shows "gpu_supply d j cand' nis \<le> gpu_supply c j cand nis"
  using assms
proof (induction nis)
  case Nil
  show ?case by (simp add: gpu_supply_def ram_nodes_def)
next
  case (Cons i nis)
  have "gpu_supply d j cand' nis \<le> gpu_supply c j cand nis"
    using Cons.prems by (intro Cons.IH) auto
  moreover have "ram_ok d i (ram_req j) \<Longrightarrow> ram_ok c i (ram_req j)" "length (cand' i) \<le> length (cand i)"
    using Cons.prems by simp_all
  ultimately show ?case
    by (auto simp: gpu_supply_Cons)
qed

lemma commit_rejects:
  assumes wf: "wf_cluster c" and fits: "plan_fits c j p" and ok: "job_ok j"
    and fresh: "job_id j \<notin> fst ` set (active c)" and rej: "\<not> can_allocate c k"
  shows "\<not> can_allocate (commit_plan j p c) k"
proof -
  let ?d = "commit_plan j p c"
  have wfd: "wf_cluster ?d"
    using commit_plan_wf [OF wf fits fresh ok] .
  have frac: "fractional ?d k = fractional c k"
    by (simp add: fractional_def)
  have none: "plan_job c k = None"
    using rej by (simp add: can_allocate_def)
  have "plan_job ?d k = None"
  proof (cases "fractional c k")
    case True
    have "free_at (nodes ?d) i g < mps_req k"
      if "i < n_nodes c" "ram_ok ?d i (ram_req k)" "g < gpus_per_node c" for i g
      using none plan_job_None [OF wf, of k] True that commit_ram_ok_mono [OF wf fits ok that(1,2)]
        commit_free_at [OF wf fits that(1,3)] plan_fits_slots_nonneg [OF fits, of i g]
      by (fastforce simp del: commit_simps(6))
    then show ?thesis
      using True frac plan_job_None [OF wfd, of k] by (simp del: commit_simps(6))
  next
    case False
    have "whole_supply ?d k \<le> whole_supply c k"
      unfolding whole_supply_def commit_simps(1,3)
      by (rule gpu_supply_mono) (auto intro: commit_ram_ok_mono [OF wf fits ok]
          commit_free_whole_mono [OF wf fits] simp del: commit_simps(6))
    then show ?thesis
      using False frac none plan_job_None [OF wfd, of k] plan_job_None [OF wf, of k] by simp
  qed
  then show ?thesis
    by (simp add: can_allocate_def)
qed

end
