(* ===== verification/PyText.thy ===== *)
theory PyText
  imports Prelude
begin

text \<open>
  Python's string operations on \<open>string\<close> (a list of characters): case mapping, stripping,
  splitting, decimal numerals, and the few regular expressions of the source, each written as a
  scanner. A string is the UTF-8 text; \<^verbatim>\<open>lower\<close>, \<^verbatim>\<open>upper\<close>, \<^verbatim>\<open>strip\<close> and \<^verbatim>\<open>\d\<close> act on ASCII only.
\<close>

section \<open>Characters and case\<close>

definition is_digit :: "char \<Rightarrow> bool" where
  "is_digit c \<longleftrightarrow> 48 \<le> (of_char c :: nat) \<and> (of_char c :: nat) \<le> 57"

definition digit_val :: "char \<Rightarrow> nat" where
  "digit_val c = of_char c - 48"

definition is_space :: "char \<Rightarrow> bool" where
  "is_space c \<longleftrightarrow> (let n = (of_char c :: nat) in (9 \<le> n \<and> n \<le> 13) \<or> (28 \<le> n \<and> n \<le> 32))"

definition lower_char :: "char \<Rightarrow> char" where
  "lower_char c = (let n = (of_char c :: nat) in if 65 \<le> n \<and> n \<le> 90 then char_of (n + 32) else c)"

definition upper_char :: "char \<Rightarrow> char" where
  "upper_char c = (let n = (of_char c :: nat) in if 97 \<le> n \<and> n \<le> 122 then char_of (n - 32) else c)"

definition str_lower :: "string \<Rightarrow> string" where
  "str_lower s = map lower_char s"

definition str_upper :: "string \<Rightarrow> string" where
  "str_upper s = map upper_char s"

section \<open>Searching, stripping, splitting\<close>

definition startswith :: "string \<Rightarrow> string \<Rightarrow> bool" where
  "startswith s p \<longleftrightarrow> take (length p) s = p"

fun str_contains :: "string \<Rightarrow> string \<Rightarrow> bool" where
  "str_contains needle [] \<longleftrightarrow> needle = []"
| "str_contains needle (c # s) \<longleftrightarrow> startswith (c # s) needle \<or> str_contains needle s"

definition str_lstrip :: "(char \<Rightarrow> bool) \<Rightarrow> string \<Rightarrow> string" where
  "str_lstrip P s = dropWhile P s"

definition str_rstrip :: "(char \<Rightarrow> bool) \<Rightarrow> string \<Rightarrow> string" where
  "str_rstrip P s = rev (dropWhile P (rev s))"

definition str_strip :: "string \<Rightarrow> string" where
  "str_strip s = str_rstrip is_space (str_lstrip is_space s)"

definition str_strip_chars :: "string \<Rightarrow> string \<Rightarrow> string" where
  "str_strip_chars cs s = str_rstrip (\<lambda>c. c \<in> set cs) (str_lstrip (\<lambda>c. c \<in> set cs) s)"

fun str_split :: "char \<Rightarrow> string \<Rightarrow> string list" where
  "str_split d [] = [[]]"
| "str_split d (c # s) =
     (if c = d then [] # str_split d s
      else case str_split d s of [] \<Rightarrow> [[c]] | p # ps \<Rightarrow> (c # p) # ps)"

text \<open>\<^verbatim>\<open>s.split(d, n)\<close>: at most \<open>n\<close> splits, the rest stays in the last part.\<close>

fun str_split_max :: "nat \<Rightarrow> char \<Rightarrow> string \<Rightarrow> string list" where
  "str_split_max 0 d s = [s]"
| "str_split_max (Suc n) d s =
     (if d \<in> set s
      then takeWhile (\<lambda>c. c \<noteq> d) s # str_split_max n d (tl (dropWhile (\<lambda>c. c \<noteq> d) s))
      else [s])"

text \<open>\<^verbatim>\<open>s.split()\<close>: the maximal runs of non-space characters.\<close>

fun str_words_acc :: "string \<Rightarrow> string \<Rightarrow> string list" where
  "str_words_acc w [] = (if w = [] then [] else [rev w])"
| "str_words_acc w (c # s) =
     (if is_space c then (if w = [] then str_words_acc [] s else rev w # str_words_acc [] s)
      else str_words_acc (c # w) s)"

definition str_words :: "string \<Rightarrow> string list" where
  "str_words s = str_words_acc [] s"

text \<open>\<^verbatim>\<open>s.partition(c)\<close>\<close>

definition str_partition :: "char \<Rightarrow> string \<Rightarrow> string \<times> bool \<times> string" where
  "str_partition d s =
     (if d \<in> set s then (takeWhile (\<lambda>c. c \<noteq> d) s, True, tl (dropWhile (\<lambda>c. c \<noteq> d) s))
      else (s, False, []))"

definition str_replace_char :: "char \<Rightarrow> string \<Rightarrow> string \<Rightarrow> string" where
  "str_replace_char c r s = concat (map (\<lambda>x. if x = c then r else [x]) s)"

fun str_join :: "string \<Rightarrow> string list \<Rightarrow> string" where
  "str_join sep [] = []"
| "str_join sep [s] = s"
| "str_join sep (s # t # ss) = s @ sep @ str_join sep (t # ss)"

text \<open>\<^verbatim>\<open>splitlines\<close> followed by dropping blank lines: the breaks are the line-separating characters.\<close>

definition is_line_break :: "char \<Rightarrow> bool" where
  "is_line_break c \<longleftrightarrow> (let n = (of_char c :: nat) in (10 \<le> n \<and> n \<le> 13) \<or> (28 \<le> n \<and> n \<le> 30))"

definition nonblank_lines :: "string \<Rightarrow> string list" where
  "nonblank_lines s =
     filter (\<lambda>l. str_strip l \<noteq> [])
       (str_split (CHR 0x0A) (map (\<lambda>c. if is_line_break c then CHR 0x0A else c) s))"

lemma str_split_nonempty [simp]: "str_split d s \<noteq> []"
  by (induction d s rule: str_split.induct) (auto split: list.splits)

lemma startswith_append [simp]: "startswith (p @ s) p"
  by (simp add: startswith_def)

lemma startswith_refl [simp]: "startswith s s"
  by (simp add: startswith_def)

lemma startswith_iff: "startswith s p \<longleftrightarrow> (\<exists>r. s = p @ r)"
  unfolding startswith_def by (metis append_eq_conv_conj append_take_drop_id)

lemma str_join_split: "str_join [d] (str_split d s) = s"
proof (induction s)
  case Nil
  then show ?case by simp
next
  case (Cons c s)
  show ?case
  proof (cases "str_split d s")
    case Nil
    then show ?thesis by simp
  next
    case (Cons p ps)
    with Cons.IH show ?thesis by (cases ps) auto
  qed
qed

section \<open>Decimal numerals\<close>

definition nat_of_digits :: "string \<Rightarrow> nat" where
  "nat_of_digits ds = foldl (\<lambda>n c. 10 * n + digit_val c) 0 ds"

fun dec_nat :: "nat \<Rightarrow> string" where
  "dec_nat n = (if n < 10 then [char_of (48 + n)] else dec_nat (n div 10) @ [char_of (48 + n mod 10)])"

declare dec_nat.simps [simp del]

definition dec_int :: "int \<Rightarrow> string" where
  "dec_int i = (if i < 0 then CHR ''-'' # dec_nat (nat (- i)) else dec_nat (nat i))"

text \<open>\<^verbatim>\<open>int(s)\<close> for a string: optional spaces and sign, at least one digit (underscores between
  digits are not accepted here).\<close>

definition int_of_str :: "string \<Rightarrow> int option" where
  "int_of_str s0 =
     (let s = str_strip s0;
          (neg, ds) = (case s of CHR ''-'' # r \<Rightarrow> (True, r) | CHR ''+'' # r \<Rightarrow> (False, r) | _ \<Rightarrow> (False, s))
      in if ds \<noteq> [] \<and> list_all is_digit ds
         then Some (if neg then - int (nat_of_digits ds) else int (nat_of_digits ds)) else None)"

text \<open>\<^verbatim>\<open>float(s)\<close>: sign, digits with an optional point, optional exponent. The spellings of
  infinity and of not-a-number have no real value and are rejected here.\<close>

definition float_of_str :: "string \<Rightarrow> real option" where
  "float_of_str s0 =
     (let s = str_strip s0;
          (neg, b) = (case s of CHR ''-'' # r \<Rightarrow> (True, r) | CHR ''+'' # r \<Rightarrow> (False, r) | _ \<Rightarrow> (False, s));
          ip = takeWhile is_digit b; r1 = dropWhile is_digit b;
          (fp, r2) = (case r1 of CHR ''.'' # r \<Rightarrow> (takeWhile is_digit r, dropWhile is_digit r) | _ \<Rightarrow> ([], r1));
          ex = (case r2 of [] \<Rightarrow> Some 0
                | e # r \<Rightarrow> if (e = CHR ''e'' \<or> e = CHR ''E'') \<and> \<not> (\<exists>c \<in> set r. is_space c) then int_of_str r else None)
      in if ip = [] \<and> fp = [] then None
         else case ex of None \<Rightarrow> None
         | Some k \<Rightarrow>
             let m = real (nat_of_digits (ip @ fp)) / 10 ^ length fp;
                 v = (if 0 \<le> k then m * 10 ^ nat k else m / 10 ^ nat (- k))
             in Some (if neg then - v else v))"

lemma of_char_digit: "n < 10 \<Longrightarrow> of_char (char_of (48 + n) :: char) = (48 + n :: nat)"
  by (simp add: of_char_of)

lemma is_digit_char_of: "(n::nat) < 10 \<Longrightarrow> is_digit (char_of (48 + n))"
  by (simp add: is_digit_def of_char_of)

lemma dec_nat_digits: "dec_nat n \<noteq> [] \<and> list_all is_digit (dec_nat n)"
proof (induction n rule: dec_nat.induct)
  case (1 n)
  then show ?case
    by (subst (1 2) dec_nat.simps) (auto simp: is_digit_char_of)
qed

lemma nat_of_digits_snoc: "nat_of_digits (ds @ [c]) = 10 * nat_of_digits ds + digit_val c"
  by (simp add: nat_of_digits_def)

lemma nat_of_digits_dec_nat: "nat_of_digits (dec_nat n) = n"
proof (induction n rule: dec_nat.induct)
  case (1 n)
  show ?case
  proof (cases "n < 10")
    case True
    then show ?thesis
      by (subst dec_nat.simps) (simp add: nat_of_digits_def digit_val_def of_char_of)
  next
    case False
    with 1 show ?thesis
      by (subst dec_nat.simps) (simp add: nat_of_digits_snoc digit_val_def of_char_of)
  qed
qed

lemma dec_nat_inj: "dec_nat m = dec_nat n \<longleftrightarrow> m = n"
  by (metis nat_of_digits_dec_nat)

section \<open>Scanners for the regular expressions\<close>

text \<open>\<^verbatim>\<open>re.search\<close>: the first position at which the matcher succeeds.\<close>

fun re_search :: "(string \<Rightarrow> 'a option) \<Rightarrow> string \<Rightarrow> 'a option" where
  "re_search m [] = m []"
| "re_search m (c # s) = (case m (c # s) of Some v \<Rightarrow> Some v | None \<Rightarrow> re_search m s)"

text \<open>A matcher for \<^verbatim>\<open>(\d+)\<close> followed by a check of what comes after the digits.\<close>

definition match_digits :: "string \<Rightarrow> nat option" where
  "match_digits s = (case takeWhile is_digit s of [] \<Rightarrow> None | ds \<Rightarrow> Some (nat_of_digits ds))"

text \<open>\<^verbatim>\<open>mps[:=](\d+)\<close>\<close>

definition match_mps :: "string \<Rightarrow> nat option" where
  "match_mps s =
     (if startswith s ''mps'' then
        (case drop 3 s of
           [] \<Rightarrow> None
         | c # r \<Rightarrow> if c = CHR '':'' \<or> c = CHR ''='' then match_digits r else None)
      else None)"

text \<open>\<^verbatim>\<open>vram-(\d+)g\<close>\<close>

definition match_vram :: "string \<Rightarrow> nat option" where
  "match_vram s =
     (if startswith s ''vram-'' then
        (let r = drop 5 s in
         case match_digits r of None \<Rightarrow> None
         | Some n \<Rightarrow> if startswith (dropWhile is_digit r) ''g'' then Some n else None)
      else None)"

text \<open>\<^verbatim>\<open>gres/mps=(\d+)\<close>\<close>

definition match_gres_mps :: "string \<Rightarrow> nat option" where
  "match_gres_mps s = (if startswith s ''gres/mps='' then match_digits (drop 9 s) else None)"

text \<open>\<^verbatim>\<open>re.search\<close> of a pattern behind \<^verbatim>\<open>(?:^|,)\<close>: at the start of the text or right after a comma.\<close>

fun search_after_comma :: "(string \<Rightarrow> 'a option) \<Rightarrow> string \<Rightarrow> 'a option" where
  "search_after_comma m [] = None"
| "search_after_comma m (c # s) =
     (if c = CHR '','' then (case m s of Some n \<Rightarrow> Some n | None \<Rightarrow> search_after_comma m s)
      else search_after_comma m s)"

definition search_field :: "(string \<Rightarrow> 'a option) \<Rightarrow> string \<Rightarrow> 'a option" where
  "search_field m s = (case m s of Some n \<Rightarrow> Some n | None \<Rightarrow> search_after_comma m s)"

end
