(* ===== verification/PyStats.thy ===== *)
theory PyStats
  imports Prelude
begin

text \<open>
  The two functions of Python's \<^verbatim>\<open>statistics\<close> module the source uses, \<^verbatim>\<open>fmean\<close> and \<^verbatim>\<open>pstdev\<close>,
  over exact reals, the order-preserving form of building a set from an iterable, and remainder and
  rounding of floats.
\<close>

definition mean :: "real list \<Rightarrow> real" where
  "mean xs = sum_list xs / real (length xs)"

definition pstdev :: "real list \<Rightarrow> real" where
  "pstdev xs = sqrt (sum_list (map (\<lambda>x. (x - mean xs)\<^sup>2) xs) / real (length xs))"

definition set_of :: "'a list \<Rightarrow> 'a list" where
  \<comment> \<open>a set comprehension, kept in the order of first occurrence\<close>
  "set_of xs = rev (remdups (rev xs))"

lemma set_set_of [simp]: "set (set_of xs) = set xs"
  by (simp add: set_of_def)

lemma distinct_set_of [simp]: "distinct (set_of xs)"
  by (simp add: set_of_def)

lemma mean_nonneg: "(\<And>x. x \<in> set xs \<Longrightarrow> 0 \<le> x) \<Longrightarrow> 0 \<le> mean xs"
  by (simp add: mean_def sum_list_nonneg)

lemma pstdev_nonneg: "0 \<le> pstdev xs"
  unfolding pstdev_def by (intro real_sqrt_ge_zero divide_nonneg_nonneg sum_list_nonneg) auto

text \<open>The deviation is zero exactly when all values are equal to the mean.\<close>

lemma pstdev_zero_iff:
  assumes "xs \<noteq> []"
  shows "pstdev xs = 0 \<longleftrightarrow> (\<forall>x \<in> set xs. x = mean xs)"
proof -
  have "sum_list (map (\<lambda>x. (x - mean xs)\<^sup>2) xs) = 0 \<longleftrightarrow> (\<forall>y \<in> set (map (\<lambda>x. (x - mean xs)\<^sup>2) xs). y = 0)"
    by (rule sum_list_nonneg_eq_0_iff) auto
  then show ?thesis
    using assms by (auto simp: pstdev_def)
qed

section \<open>Remainder and rounding\<close>

definition py_fmod :: "real \<Rightarrow> real \<Rightarrow> real" where
  \<comment> \<open>Python's \<^verbatim>\<open>%\<close> on floats, for a positive divisor\<close>
  "py_fmod x y = x - y * of_int \<lfloor>x / y\<rfloor>"

text \<open>\<^verbatim>\<open>round\<close>: to the nearest integer, ties to the even one; with a digit count, of the scaled
  number.\<close>

definition half_even :: "real \<Rightarrow> int" where
  "half_even x =
     (let f = \<lfloor>x\<rfloor>; d = x - of_int f
      in if d < 1 / 2 then f else if 1 / 2 < d then f + 1 else if even f then f else f + 1)"

definition py_round :: "nat \<Rightarrow> real \<Rightarrow> real" where
  "py_round k x = of_int (half_even (x * 10 ^ k)) / 10 ^ k"

lemma half_even_bounds: "\<lfloor>x\<rfloor> \<le> half_even x \<and> half_even x \<le> \<lfloor>x\<rfloor> + 1"
  by (simp add: half_even_def Let_def)

lemma half_even_of_int: "half_even (of_int k) = k"
  by (simp add: half_even_def Let_def)

lemma half_even_mono: "x \<le> y \<Longrightarrow> half_even x \<le> half_even y"
proof -
  assume le: "x \<le> y"
  then have f: "\<lfloor>x\<rfloor> \<le> \<lfloor>y\<rfloor>"
    by (rule floor_mono)
  show ?thesis
  proof (cases "\<lfloor>x\<rfloor> = \<lfloor>y\<rfloor>")
    case True
    with le show ?thesis
      by (auto simp: half_even_def Let_def)
  next
    case False
    with f have "\<lfloor>x\<rfloor> + 1 \<le> \<lfloor>y\<rfloor>"
      by linarith
    with half_even_bounds [of x] half_even_bounds [of y] show ?thesis
      by linarith
  qed
qed

lemma py_round_mono: "x \<le> y \<Longrightarrow> py_round k x \<le> py_round k y"
  by (simp add: py_round_def divide_right_mono half_even_mono)

lemma py_round_of_int: "py_round k (of_int n) = of_int n"
proof -
  have "(of_int n :: real) * 10 ^ k = of_int (n * 10 ^ k)"
    by simp
  then show ?thesis
    unfolding py_round_def by (simp only: half_even_of_int) simp
qed

lemma py_round_ge: "of_int n \<le> x \<Longrightarrow> of_int n \<le> py_round k x"
  using py_round_mono [of "of_int n" x k] by (simp add: py_round_of_int)

end
