(* ===== verification/SimSched.thy ===== *)
theory SimSched
  imports SimCluster PyText PyStats
begin

text \<open>
  The dispatch orders of \<^verbatim>\<open>sim/scheduler/\<close>: first-come-first-served, fixed priority, the
  multifactor approximation and the score scheduler on top of it, and the stateless submit-time
  score that mirrors the Lua plugin. A scheduler is its \<open>order\<close> function and its \<open>backfill\<close> flag;
  the locale \<open>dispatch_order\<close> is what the runner relies on.

  Division is total in the model; the denominators of the code (\<^verbatim>\<open>age_ref\<close>, the free slots of a
  GPU that fits, the slot counts, the largest tier) are positive under the hypotheses the
  properties state.
\<close>

section \<open>First come first served, fixed priority\<close>

definition fcfs_order :: "job list \<Rightarrow> cluster \<Rightarrow> real \<Rightarrow> job list" where
  "fcfs_order pending c now = sort_key (\<lambda>j. (submit_ts j, job_id j)) pending"

definition fixed_priority_order ::
  "(string, int) dict \<Rightarrow> job list \<Rightarrow> cluster \<Rightarrow> real \<Rightarrow> job list" where
  "fixed_priority_order priority pending c now =
     sort_key (\<lambda>j. (dict_get priority (job_id j) (2 ^ 30), submit_ts j, job_id j)) pending"

section \<open>Multifactor\<close>

record mf_params =
  w_age :: real
  w_jobsize :: real
  w_qos :: real
  age_ref :: real

definition mf_defaults :: mf_params where
  "mf_defaults = \<lparr>w_age = 1000, w_jobsize = 500, w_qos = 2000, age_ref = 7200\<rparr>"

definition max_gpu_count :: "job list \<Rightarrow> int" where
  \<comment> \<open>\<^verbatim>\<open>max((j.gpu_count for j in pending), default=1)\<close>\<close>
  "max_gpu_count pending = (case map gpu_count pending of [] \<Rightarrow> 1 | g # gs \<Rightarrow> foldl max g gs)"

definition mf_priority :: "mf_params \<Rightarrow> job \<Rightarrow> real \<Rightarrow> int \<Rightarrow> real" where
  "mf_priority p j now max_gpu =
     (let age_norm = min 1 (max 0 ((now - submit_ts j) / age_ref p));
          jobsize_norm = (if max_gpu \<noteq> 0 then of_int (gpu_count j) / of_int max_gpu else 0);
          qos_norm = 0
      in w_age p * age_norm + w_jobsize p * jobsize_norm + w_qos p * qos_norm)"

definition multifactor_order :: "mf_params \<Rightarrow> job list \<Rightarrow> cluster \<Rightarrow> real \<Rightarrow> job list" where
  "multifactor_order p pending c now =
     sort_key (\<lambda>j. (- mf_priority p j now (max_gpu_count pending), submit_ts j, job_id j)) pending"

section \<open>Score\<close>

definition gpu_type_to_vram :: "string \<Rightarrow> int option" where
  "gpu_type_to_vram t =
     (let l = str_lower t in
      if l = ''rtx4070'' then Some 12 else if l = ''rtx3080'' then Some 10 else None)"

definition clamp01 :: "real \<Rightarrow> real" where
  "clamp01 x = max 0 (min 1 x)"

record score_params =
  sp_alpha :: real
  sp_beta :: real
  sp_delta :: real
  sp_epsilon :: real
  sp_score_gain :: real
  sp_vram_tiers :: "int list"
  sp_mps_per_node :: int
  sp_runtime_horizon :: real
  sp_mf :: mf_params

text \<open>The constructor defaults; the tiers are kept sorted.\<close>

definition score_defaults :: score_params where
  "score_defaults =
     \<lparr>sp_alpha = 40 / 100, sp_beta = 20 / 100, sp_delta = 20 / 100, sp_epsilon = 30 / 100,
      sp_score_gain = 1000, sp_vram_tiers = sort [12, 24], sp_mps_per_node = MPS_PER_GPU,
      sp_runtime_horizon = 3600, sp_mf = mf_defaults\<rparr>"

fun best_fit_ratio :: "int \<Rightarrow> gpu list \<Rightarrow> real option \<Rightarrow> real option" where
  "best_fit_ratio req [] best = best"
| "best_fit_ratio req (g # gs) best =
     best_fit_ratio req gs
       (if req \<le> free_mps g then
          (let fit = of_int req / of_int (free_mps g) in
           case best of None \<Rightarrow> Some fit | Some b \<Rightarrow> if fit > b then Some fit else best)
        else best)"

definition f_mps_fit :: "job \<Rightarrow> cluster \<Rightarrow> real" where
  "f_mps_fit j c =
     (case best_fit_ratio (mps_req j) (concat (map gpus (nodes c))) None of
        Some b \<Rightarrow> b | None \<Rightarrow> 0)"

definition f_vram_fit :: "score_params \<Rightarrow> job \<Rightarrow> real" where
  "f_vram_fit p j =
     (case gpu_type_to_vram (gpu_type j) of
        None \<Rightarrow> 1 / 2
      | Some v \<Rightarrow>
          (case List.find (\<lambda>t. v \<le> t) (sp_vram_tiers p) of
             None \<Rightarrow> 0
           | Some fit_tier \<Rightarrow>
               max 0 (1 - of_int (fit_tier - v) / of_int (Max (set (sp_vram_tiers p))))))"

definition f_fragmentation :: "score_params \<Rightarrow> job \<Rightarrow> cluster \<Rightarrow> real" where
  "f_fragmentation p j c =
     (let free = free_mps_per_node c in
      if free = [] then 0
      else if length free = 1 then
        (let residuals = map (\<lambda>g. free_mps g - mps_req j)
                           (filter (\<lambda>g. mps_req j \<le> free_mps g) (gpus (hd (nodes c))))
         in case residuals of
              [] \<Rightarrow> 1
            | r # rs \<Rightarrow> of_int (foldl min r rs) / of_int (mps_per_gpu c))
      else if 1 \<le> gpu_count j \<and> sp_mps_per_node p \<le> mps_req j then 0
      else
        (let x = of_int (mps_req j) / of_int (sp_mps_per_node p);
             local_frag = 4 * x * (1 - x);
             fs = map of_int free;
             spread = pstdev fs / max 1 (mean fs)
         in min 1 (1 / 2 * local_frag + 1 / 2 * spread)))"

definition f_runtime_short :: "score_params \<Rightarrow> job \<Rightarrow> real" where
  "f_runtime_short p j =
     (if runtime j \<le> 0 \<or> sp_runtime_horizon p \<le> 0 then 1
      else sp_runtime_horizon p / (sp_runtime_horizon p + runtime j))"

definition score :: "score_params \<Rightarrow> job \<Rightarrow> cluster \<Rightarrow> real" where
  "score p j c =
     max 0 (min 1 (sp_alpha p * f_mps_fit j c + sp_beta p * f_vram_fit p j
                   - sp_delta p * f_fragmentation p j c + sp_epsilon p * f_runtime_short p j))"

definition score_key :: "score_params \<Rightarrow> cluster \<Rightarrow> real \<Rightarrow> int \<Rightarrow> job \<Rightarrow> real \<times> real \<times> string" where
  "score_key p c now max_gpu j =
     (let base = mf_priority (sp_mf p) j now max_gpu;
          kicker = sp_score_gain p * score p j c
      in (- (base + kicker), submit_ts j, job_id j))"

definition score_order :: "score_params \<Rightarrow> job list \<Rightarrow> cluster \<Rightarrow> real \<Rightarrow> job list" where
  "score_order p pending c now = sort_key (score_key p c now (max_gpu_count pending)) pending"

section \<open>The submit-time score\<close>

definition parse_submit_mps_req :: "string option \<Rightarrow> int" where
  "parse_submit_mps_req tres =
     (case tres of None \<Rightarrow> 0
      | Some s \<Rightarrow> if s = [] then 0
          else (case re_search match_mps s of Some n \<Rightarrow> int n | None \<Rightarrow> 0))"

definition parse_submit_vram_req :: "string option \<Rightarrow> int" where
  "parse_submit_vram_req features =
     (case features of None \<Rightarrow> 0
      | Some s \<Rightarrow> if s = [] then 0
          else (case re_search match_vram s of Some n \<Rightarrow> int n | None \<Rightarrow> 0))"

record submit_score =
  ss_score :: real
  ss_mps_fit :: real
  ss_vram_fit :: real
  ss_topology :: real
  ss_fragmentation :: real
  ss_pred_runtime :: real

definition submit_score_factors ::
  "string option \<Rightarrow> string option \<Rightarrow> int \<Rightarrow> int list \<Rightarrow> real \<Rightarrow> real \<Rightarrow> real \<Rightarrow> real \<Rightarrow> real \<Rightarrow> real \<Rightarrow>
   py_error + submit_score" where
  "submit_score_factors tres features mps_per_node vram_tiers alpha beta gamma delta epsilon pred =
     (let mps = parse_submit_mps_req tres;
          vram = parse_submit_vram_req features;
          tiers = sort vram_tiers
      in if tiers = [] then Inl ValueError
         else
           (let vram_max = Max (set tiers);
                mps_fit = (if mps \<le> 0 then 1 else if mps_per_node < mps then 0
                           else clamp01 (of_int mps / of_int mps_per_node));
                vram_fit = (if vram = 0 then 1 / 2
                            else case List.find (\<lambda>t. vram \<le> t) tiers of
                                   None \<Rightarrow> 0
                                 | Some t \<Rightarrow> clamp01 (1 - of_int (t - vram) / of_int vram_max));
                frag = (if mps \<le> 0 \<or> mps_per_node \<le> mps then 0
                        else (let x = of_int mps / of_int mps_per_node in clamp01 (4 * x * (1 - x))));
                topology = 1 / 2;
                s = clamp01 (alpha * mps_fit + beta * vram_fit + gamma * topology - delta * frag
                             + epsilon * pred)
            in Inr \<lparr>ss_score = s, ss_mps_fit = mps_fit, ss_vram_fit = vram_fit, ss_topology = topology,
                    ss_fragmentation = frag, ss_pred_runtime = pred\<rparr>))"

section \<open>The registry\<close>

datatype scheduler =
    FCFS
  | Multifactor mf_params
  | Score score_params
  | FixedPriority "(string, int) dict"

fun sched_order :: "scheduler \<Rightarrow> job list \<Rightarrow> cluster \<Rightarrow> real \<Rightarrow> job list" where
  "sched_order FCFS = fcfs_order"
| "sched_order (Multifactor p) = multifactor_order p"
| "sched_order (Score p) = score_order p"
| "sched_order (FixedPriority d) = fixed_priority_order d"

fun sched_backfill :: "scheduler \<Rightarrow> bool" where
  "sched_backfill FCFS = False"
| "sched_backfill (Multifactor p) = True"
| "sched_backfill (Score p) = True"
| "sched_backfill (FixedPriority d) = True"

definition make_scheduler :: "string \<Rightarrow> py_error + scheduler" where
  "make_scheduler name =
     (if name = ''fcfs'' then Inr FCFS
      else if name = ''multifactor'' then Inr (Multifactor mf_defaults)
      else if name = ''score'' then Inr (Score score_defaults)
      else Inl ValueError)"

section \<open>What every order satisfies\<close>

locale dispatch_order =
  fixes order :: "job list \<Rightarrow> cluster \<Rightarrow> real \<Rightarrow> job list"
  assumes order_mset: "mset (order pending c now) = mset pending"
begin

lemma order_set: "set (order pending c now) = set pending"
  using order_mset mset_eq_setD by blast

lemma order_distinct: "distinct (map f (order pending c now)) \<longleftrightarrow> distinct (map f pending)"
  using order_mset [of pending c now] by (metis mset_eq_imp_distinct_iff mset_map)

lemma order_Nil: "order [] c now = []"
  using order_mset [of "[]" c now] by simp

end

interpretation fcfs: dispatch_order fcfs_order
  by unfold_locales (simp add: fcfs_order_def)

interpretation fixed_priority: dispatch_order "fixed_priority_order d" for d
  by unfold_locales (simp add: fixed_priority_order_def)

interpretation multifactor: dispatch_order "multifactor_order p" for p
  by unfold_locales (simp add: multifactor_order_def)

interpretation score_sched: dispatch_order "score_order p" for p
  by unfold_locales (simp add: score_order_def)

interpretation sched: dispatch_order "sched_order s" for s
  by unfold_locales
    (cases s; simp add: fcfs.order_mset fixed_priority.order_mset multifactor.order_mset score_sched.order_mset)

end
