(* ===== verification/SimLatency.thy ===== *)
theory SimLatency
  imports SimJob PyText
begin

text \<open>
  The dispatch-latency model of \<^verbatim>\<open>sim/latency.py\<close>: a fixed part, and in live mode a warm or cold
  start per pool, decided by the job's latency class, the number of active jobs of the pool and
  the time since the pool's last job ended.
\<close>

datatype pool = CpuPool | GpuPool

record latency_model =
  lm_mode :: string
  fixed_seconds :: real
  cpu_warm_seconds :: real
  cpu_cold_seconds :: real
  gpu_warm_seconds :: real
  gpu_cold_seconds :: real
  hard_placement_seconds :: real
  cold_after_seconds :: real
  active_by_pool :: "(pool, int) dict"
  last_end_by_pool :: "(pool, real) dict"

definition latency_none :: "real \<Rightarrow> latency_model" where
  "latency_none fixed =
     \<lparr>lm_mode = ''none'', fixed_seconds = max 0 fixed, cpu_warm_seconds = 0, cpu_cold_seconds = 0,
      gpu_warm_seconds = 0, gpu_cold_seconds = 0, hard_placement_seconds = 0,
      cold_after_seconds = 300, active_by_pool = [(CpuPool, 0), (GpuPool, 0)],
      last_end_by_pool = []\<rparr>"

definition latency_live_basic ::
  "real \<Rightarrow> real \<Rightarrow> real \<Rightarrow> real \<Rightarrow> real \<Rightarrow> real \<Rightarrow> real \<Rightarrow> latency_model" where
  "latency_live_basic fixed cpu_warm cpu_cold gpu_warm gpu_cold hard cold_after =
     \<lparr>lm_mode = ''live-basic'', fixed_seconds = max 0 fixed, cpu_warm_seconds = max 0 cpu_warm,
      cpu_cold_seconds = max 0 cpu_cold, gpu_warm_seconds = max 0 gpu_warm,
      gpu_cold_seconds = max 0 gpu_cold, hard_placement_seconds = max 0 hard,
      cold_after_seconds = max 0 cold_after, active_by_pool = [(CpuPool, 0), (GpuPool, 0)],
      last_end_by_pool = []\<rparr>"

definition pool_for_job :: "job \<Rightarrow> pool" where
  "pool_for_job j =
     (if 0 < gpu_count j \<or> str_contains ''gpu'' (str_lower (gpu_type j))
         \<or> str_contains ''gpu'' (str_lower (latency_class j))
      then GpuPool else CpuPool)"

definition warm_latency :: "latency_model \<Rightarrow> pool \<Rightarrow> real" where
  "warm_latency m p = (if p = GpuPool then gpu_warm_seconds m else cpu_warm_seconds m)"

definition cold_latency :: "latency_model \<Rightarrow> pool \<Rightarrow> real" where
  "cold_latency m p = (if p = GpuPool then gpu_cold_seconds m else cpu_cold_seconds m)"

definition start_latency :: "latency_model \<Rightarrow> job \<Rightarrow> real \<Rightarrow> real" where
  "start_latency m j now =
     (if lm_mode m = ''none'' then fixed_seconds m
      else let cls = str_lower (latency_class j) in
        if cls = ''hard_placement'' then fixed_seconds m + hard_placement_seconds m
        else if cls = ''gpu_warm'' then fixed_seconds m + gpu_warm_seconds m
        else if cls = ''gpu_cold'' then fixed_seconds m + gpu_cold_seconds m
        else if cls = ''cpu_warm'' then fixed_seconds m + cpu_warm_seconds m
        else if cls = ''cpu_cold'' then fixed_seconds m + cpu_cold_seconds m
        else let p = pool_for_job j in
          if 0 < dict_get (active_by_pool m) p 0 then fixed_seconds m + warm_latency m p
          else (case map_of (last_end_by_pool m) p of
                  None \<Rightarrow> fixed_seconds m + cold_latency m p
                | Some last_end \<Rightarrow>
                    if cold_after_seconds m \<le> now - last_end then fixed_seconds m + cold_latency m p
                    else fixed_seconds m + warm_latency m p))"

definition latency_record_start :: "job \<Rightarrow> latency_model \<Rightarrow> latency_model" where
  "latency_record_start j m =
     (let p = pool_for_job j in
      m\<lparr>active_by_pool := dict_set p (dict_get (active_by_pool m) p 0 + 1) (active_by_pool m)\<rparr>)"

definition latency_record_end :: "job \<Rightarrow> real \<Rightarrow> latency_model \<Rightarrow> latency_model" where
  "latency_record_end j now m =
     (let p = pool_for_job j in
      m\<lparr>active_by_pool := dict_set p (max 0 (dict_get (active_by_pool m) p 0 - 1)) (active_by_pool m),
        last_end_by_pool := dict_set p now (last_end_by_pool m)\<rparr>)"

section \<open>Delays are never negative\<close>

definition latency_ok :: "latency_model \<Rightarrow> bool" where
  "latency_ok m \<longleftrightarrow>
     0 \<le> fixed_seconds m \<and> 0 \<le> cpu_warm_seconds m \<and> 0 \<le> cpu_cold_seconds m \<and>
     0 \<le> gpu_warm_seconds m \<and> 0 \<le> gpu_cold_seconds m \<and> 0 \<le> hard_placement_seconds m"

lemma latency_none_ok [wf_intros]: "latency_ok (latency_none x)"
  by (simp add: latency_ok_def latency_none_def)

lemma latency_live_basic_ok [wf_intros]: "latency_ok (latency_live_basic a b c d e f g)"
  by (simp add: latency_ok_def latency_live_basic_def)

lemma latency_record_ok [simp]:
  "latency_ok (latency_record_start j m) = latency_ok m"
  "latency_ok (latency_record_end j now m) = latency_ok m"
  by (simp_all add: latency_ok_def latency_record_start_def latency_record_end_def Let_def)

lemma start_latency_nonneg: "latency_ok m \<Longrightarrow> 0 \<le> start_latency m j now"
  by (auto simp: latency_ok_def start_latency_def warm_latency_def cold_latency_def Let_def
      split: option.splits)

end
