(* ===== verification/SimMetrics.thy ===== *)
theory SimMetrics
  imports SimJob SimSched
begin

text \<open>
  Per-job and cluster-wide metrics (\<^verbatim>\<open>sim/metrics.py\<close>): the record of one job with its derived
  quantities, the collector, the percentile and the summary. Writing the CSV file is not modelled.
\<close>

record job_record =
  jr_job_id :: string
  jr_user :: string
  jr_gpu_count :: int
  jr_mps_req :: int
  jr_submit_ts :: real
  jr_start_ts :: "real option"
  jr_end_ts :: "real option"
  jr_runtime :: real
  jr_slo_s :: real
  jr_job_class :: string

definition jr_jct :: "job_record \<Rightarrow> real option" where
  "jr_jct r = (case jr_end_ts r of None \<Rightarrow> None | Some e \<Rightarrow> Some (e - jr_submit_ts r))"

definition jr_wait :: "job_record \<Rightarrow> real option" where
  "jr_wait r = (case jr_start_ts r of None \<Rightarrow> None | Some s \<Rightarrow> Some (s - jr_submit_ts r))"

definition jr_slowdown :: "job_record \<Rightarrow> real option" where
  "jr_slowdown r = (case jr_jct r of None \<Rightarrow> None | Some d \<Rightarrow> Some (d / max (jr_runtime r) 60))"

definition jr_slo_violated :: "job_record \<Rightarrow> bool option" where
  "jr_slo_violated r =
     (if jr_slo_s r \<le> 0 then None
      else case jr_jct r of None \<Rightarrow> None | Some d \<Rightarrow> Some (jr_slo_s r < d))"

record metric_collector =
  records :: "(string, job_record) dict"
  util_samples :: "(real \<times> real) list"

definition empty_metrics :: metric_collector where
  "empty_metrics = \<lparr>records = [], util_samples = []\<rparr>"

definition record_submit :: "job \<Rightarrow> metric_collector \<Rightarrow> metric_collector" where
  "record_submit j m =
     m\<lparr>records := dict_set (job_id j)
         \<lparr>jr_job_id = job_id j, jr_user = user j, jr_gpu_count = gpu_count j, jr_mps_req = mps_req j,
          jr_submit_ts = submit_ts j, jr_start_ts = None, jr_end_ts = None, jr_runtime = runtime j,
          jr_slo_s = slo_s j, jr_job_class = job_class j\<rparr> (records m)\<rparr>"

definition record_start :: "string \<Rightarrow> real \<Rightarrow> metric_collector \<Rightarrow> py_error + metric_collector" where
  "record_start jid t m =
     (case map_of (records m) jid of
        None \<Rightarrow> Inl KeyError
      | Some r \<Rightarrow> Inr (m\<lparr>records := dict_set jid (r\<lparr>jr_start_ts := Some t\<rparr>) (records m)\<rparr>))"

definition record_end :: "string \<Rightarrow> real \<Rightarrow> metric_collector \<Rightarrow> py_error + metric_collector" where
  "record_end jid t m =
     (case map_of (records m) jid of
        None \<Rightarrow> Inl KeyError
      | Some r \<Rightarrow> Inr (m\<lparr>records := dict_set jid (r\<lparr>jr_end_ts := Some t\<rparr>) (records m)\<rparr>))"

definition sample_util :: "real \<Rightarrow> real \<Rightarrow> metric_collector \<Rightarrow> metric_collector" where
  "sample_util t fr m = m\<lparr>util_samples := util_samples m @ [(t, fr)]\<rparr>"

section \<open>Percentiles\<close>

definition pct :: "real list \<Rightarrow> real \<Rightarrow> real" where
  "pct xs p =
     (if xs = [] then 0
      else let s = sort xs;
               k = real (length s - 1) * p / 100;
               f = nat \<lfloor>k\<rfloor>;
               c = nat \<lceil>k\<rceil>
           in if f = c then s ! f else s ! f + (s ! c - s ! f) * (k - real f))"

lemma pct_index_bounds:
  assumes "xs \<noteq> []" "0 \<le> p" "p \<le> 100"
  shows "0 \<le> real (length xs - 1) * p / 100" "real (length xs - 1) * p / 100 \<le> real (length xs - 1)"
proof -
  show "0 \<le> real (length xs - 1) * p / 100"
    using assms(2) by simp
  have "real (length xs - 1) * p \<le> real (length xs - 1) * 100"
    using assms(3) by (intro mult_left_mono) auto
  then show "real (length xs - 1) * p / 100 \<le> real (length xs - 1)"
    by simp
qed

text \<open>Linear interpolation between two entries of a sorted list stays between its extremes.\<close>

lemma interpolation_between:
  fixes s :: "real list" and k :: real
  assumes "sorted s" "f \<le> c" "c < length s" "real f \<le> k" "k - real f \<le> 1"
  shows "Min (set s) \<le> s ! f \<and> s ! f \<le> Max (set s)"
    and "Min (set s) \<le> s ! f + (s ! c - s ! f) * (k - real f)"
    and "s ! f + (s ! c - s ! f) * (k - real f) \<le> Max (set s)"
proof -
  have mono: "s ! f \<le> s ! c"
    using assms(1-3) by (intro sorted_nth_mono) auto
  have mem: "s ! f \<in> set s" "s ! c \<in> set s"
    using assms(2,3) by auto
  then have ends: "Min (set s) \<le> s ! f" "s ! c \<le> Max (set s)" "s ! f \<le> Max (set s)"
    by simp_all
  show "Min (set s) \<le> s ! f \<and> s ! f \<le> Max (set s)"
    using ends by simp
  have "0 \<le> (s ! c - s ! f) * (k - real f)"
    using mono assms(4) by (intro mult_nonneg_nonneg) auto
  then show "Min (set s) \<le> s ! f + (s ! c - s ! f) * (k - real f)"
    using ends by simp
  have "(s ! c - s ! f) * (k - real f) \<le> (s ! c - s ! f) * 1"
    using mono assms(5) by (intro mult_left_mono) auto
  then show "s ! f + (s ! c - s ! f) * (k - real f) \<le> Max (set s)"
    using ends by simp
qed

lemma pct_between:
  assumes "xs \<noteq> []" "0 \<le> p" "p \<le> 100"
  shows "Min (set xs) \<le> pct xs p \<and> pct xs p \<le> Max (set xs)"
proof -
  define k where "k = real (length (sort xs) - 1) * p / 100"
  define f c where "f = nat \<lfloor>k\<rfloor>" and "c = nat \<lceil>k\<rceil>"
  have k: "0 \<le> k" "k \<le> real (length xs - 1)"
    using pct_index_bounds [OF assms] by (simp_all add: k_def)
  have fk: "real f \<le> k" "k - real f \<le> 1"
    using k(1) unfolding f_def by linarith+
  have fc: "f \<le> c"
    unfolding f_def c_def by (intro nat_mono floor_le_ceiling)
  have "c \<le> length xs - 1"
    using k(2) by (simp add: c_def nat_le_iff ceiling_le_iff)
  moreover have "0 < length xs"
    using assms(1) by simp
  ultimately have c: "c < length (sort xs)"
    unfolding length_sort by linarith
  have "pct xs p = (if f = c then sort xs ! f
      else sort xs ! f + (sort xs ! c - sort xs ! f) * (k - real f))"
    using assms(1) unfolding pct_def Let_def f_def c_def k_def by simp
  then show ?thesis
    using interpolation_between [OF sorted_sort fc c fk] by (cases "f = c") simp_all
qed

section \<open>Summary\<close>

record class_summary =
  cs_n :: nat
  cs_jct_mean :: real
  cs_jct_p99 :: real

record summary =
  sum_n_jobs :: nat
  sum_makespan :: real
  sum_jct_mean :: real
  sum_jct_p50 :: real
  sum_jct_p90 :: real
  sum_jct_p95 :: real
  sum_jct_p99 :: real
  sum_wait_mean :: real
  sum_wait_p90 :: real
  sum_slowdown_mean :: real
  sum_slowdown_p90 :: real
  sum_slowdown_p95 :: real
  sum_slowdown_p99 :: real
  sum_utilization :: real
  sum_bf_rate :: real
  sum_slo_n :: nat
  sum_slo_violations :: nat
  sum_slo_violation_rate :: real
  sum_by_class :: "(string, class_summary) dict"

fun util_sums :: "(real \<times> real) list \<Rightarrow> real \<times> real" where
  \<comment> \<open>(weighted sum, total time) over consecutive samples with positive distance\<close>
  "util_sums ((t0, f0) # (t1, f1) # rest) =
     (let (wsum, total) = util_sums ((t1, f1) # rest) in
      if 0 < t1 - t0 then (f0 * (t1 - t0) + wsum, (t1 - t0) + total) else (wsum, total))"
| "util_sums _ = (0, 0)"

definition mean_utilization :: "(real \<times> real) list \<Rightarrow> real" where
  "mean_utilization samples =
     (if 2 \<le> length samples then
        (let (wsum, total) = util_sums samples in if 0 < total then wsum / total else 0)
      else 0)"

definition overtook :: "job_record list \<Rightarrow> nat \<Rightarrow> bool" where
  "overtook ordered i =
     (case jr_start_ts (ordered ! i) of
        None \<Rightarrow> False
      | Some s \<Rightarrow> list_ex (\<lambda>prev. case jr_start_ts prev of None \<Rightarrow> True | Some ps \<Rightarrow> s < ps) (take i ordered))"

definition some_values :: "'a option list \<Rightarrow> 'a list" where
  "some_values xs = map the (filter (\<lambda>x. x \<noteq> None) xs)"

definition mean_or_zero :: "real list \<Rightarrow> real" where
  "mean_or_zero xs = (if xs = [] then 0 else mean xs)"

definition summary_of :: "metric_collector \<Rightarrow> summary option" where
  "summary_of m =
     (let finished = filter (\<lambda>r. jr_end_ts r \<noteq> None) (dict_values (records m)) in
      if finished = [] then None
      else
        (let jcts = some_values (map jr_jct finished);
             waits = some_values (map jr_wait finished);
             slows = some_values (map jr_slowdown finished);
             first_submit = Min (set (map jr_submit_ts finished));
             last_end = Max (set (some_values (map jr_end_ts finished)));
             ordered = sort_key jr_submit_ts finished;
             bf = length (filter (overtook ordered) [0..<length ordered]);
             slo_jobs = filter (\<lambda>r. 0 < jr_slo_s r) finished;
             slo_violations = filter (\<lambda>r. jr_slo_violated r = Some True) slo_jobs;
             classes = sort (remdups (map jr_job_class finished));
             class_jcts = (\<lambda>cls. some_values (map jr_jct (filter (\<lambda>r. jr_job_class r = cls) finished)))
         in Some \<lparr>sum_n_jobs = length finished,
              sum_makespan = last_end - first_submit,
              sum_jct_mean = mean jcts,
              sum_jct_p50 = pct jcts 50, sum_jct_p90 = pct jcts 90, sum_jct_p95 = pct jcts 95,
              sum_jct_p99 = pct jcts 99,
              sum_wait_mean = mean_or_zero waits, sum_wait_p90 = pct waits 90,
              sum_slowdown_mean = mean_or_zero slows, sum_slowdown_p90 = pct slows 90,
              sum_slowdown_p95 = pct slows 95, sum_slowdown_p99 = pct slows 99,
              sum_utilization = mean_utilization (util_samples m),
              sum_bf_rate = real bf / real (length finished),
              sum_slo_n = length slo_jobs, sum_slo_violations = length slo_violations,
              sum_slo_violation_rate =
                (if slo_jobs = [] then 0 else real (length slo_violations) / real (length slo_jobs)),
              sum_by_class = map (\<lambda>cls. (cls, \<lparr>cs_n = length (class_jcts cls),
                 cs_jct_mean = mean (class_jcts cls), cs_jct_p99 = pct (class_jcts cls) 99\<rparr>)) classes\<rparr>))"

section \<open>Records and updates\<close>

lemma record_start_ids: "record_start jid t m = Inr m' \<Longrightarrow> dict_keys (records m') = dict_keys (records m)"
  by (auto simp: record_start_def dict_keys_set_same map_of_SomeD_keys split: option.splits)

lemma record_end_ids: "record_end jid t m = Inr m' \<Longrightarrow> dict_keys (records m') = dict_keys (records m)"
  by (auto simp: record_end_def dict_keys_set_same map_of_SomeD_keys split: option.splits)

lemma record_start_total: "jid \<in> set (dict_keys (records m)) \<Longrightarrow> \<exists>m'. record_start jid t m = Inr m'"
  using map_of_keys_Some [of jid "records m"] by (auto simp: record_start_def)

lemma record_end_total: "jid \<in> set (dict_keys (records m)) \<Longrightarrow> \<exists>m'. record_end jid t m = Inr m'"
  using map_of_keys_Some [of jid "records m"] by (auto simp: record_end_def)

end
