(* ===== verification/SimRunner.thy ===== *)
theory SimRunner
  imports SimReach SimSched SimLatency SimMetrics
begin

text \<open>
  The discrete-event runner (\<^verbatim>\<open>sim/runner.py\<close>, function \<^verbatim>\<open>run\<close>): an event heap of submit and end
  events ordered by time and sequence number, the pending list, and after each event a dispatch
  pass over the scheduler's order. The heap is the list of its entries in order: a push is an
  ordered insertion, a pop takes the head (the pairs of time and sequence number are distinct, so
  the order of a heap is determined). \<open>run_loop\<close> is the \<^verbatim>\<open>while events\<close> loop; it terminates
  because an event costs more weight than what its processing can create.
\<close>

section \<open>State and operations\<close>

datatype event_kind = Submit | End

record event =
  ev_time :: real
  ev_seq :: nat
  ev_kind :: event_kind
  ev_job :: string

definition heap_push :: "event \<Rightarrow> event list \<Rightarrow> event list" where
  "heap_push e h = insort_key (\<lambda>x. (ev_time x, ev_seq x)) e h"

record run_state =
  rs_cluster :: cluster
  rs_pending :: "job list"
  rs_events :: "event list"
  rs_seq :: nat
  rs_now :: real
  rs_metrics :: metric_collector
  rs_latency :: latency_model

text \<open>One accepted job of \<^verbatim>\<open>try_dispatch\<close>, after its allocation gave the cluster \<open>c'\<close>.\<close>

definition start_job :: "job \<Rightarrow> cluster \<Rightarrow> run_state \<Rightarrow> py_error + run_state" where
  "start_job j c' s =
     (if j \<notin> set (rs_pending s) then Inl ValueError
      else let start_t = rs_now s + start_latency (rs_latency s) j (rs_now s) in
        case record_start (job_id j) start_t (rs_metrics s) of
          Inl e \<Rightarrow> Inl e
        | Inr m \<Rightarrow> Inr (s\<lparr>rs_cluster := c', rs_pending := py_remove j (rs_pending s),
             rs_metrics := m, rs_latency := latency_record_start j (rs_latency s),
             rs_events := heap_push \<lparr>ev_time = start_t + runtime j, ev_seq = rs_seq s,
                            ev_kind = End, ev_job = job_id j\<rparr> (rs_events s),
             rs_seq := rs_seq s + 1\<rparr>))"

fun dispatch_jobs :: "bool \<Rightarrow> job list \<Rightarrow> run_state \<Rightarrow> py_error + run_state" where
  "dispatch_jobs bf [] s = Inr s"
| "dispatch_jobs bf (j # js) s =
     (case try_allocate (rs_cluster s) j of
        Some (_, c') \<Rightarrow>
          (case start_job j c' s of Inl e \<Rightarrow> Inl e | Inr s' \<Rightarrow> dispatch_jobs bf js s')
      | None \<Rightarrow> if \<not> bf then Inr s else dispatch_jobs bf js s)"

definition try_dispatch :: "scheduler \<Rightarrow> run_state \<Rightarrow> py_error + run_state" where
  "try_dispatch sched s =
     dispatch_jobs (sched_backfill sched)
       (sched_order sched (rs_pending s) (rs_cluster s) (rs_now s)) s"

definition sample_now :: "run_state \<Rightarrow> run_state" where
  "sample_now s =
     s\<lparr>rs_metrics := sample_util (rs_now s) (utilization (rs_cluster s)) (rs_metrics s)\<rparr>"

definition handle_event :: "(string, job) dict \<Rightarrow> event \<Rightarrow> run_state \<Rightarrow> py_error + run_state" where
  "handle_event by_id e s0 =
     (let s = s0\<lparr>rs_now := ev_time e\<rparr> in
      case ev_kind e of
        Submit \<Rightarrow>
          (case map_of by_id (ev_job e) of
             None \<Rightarrow> Inl KeyError
           | Some j \<Rightarrow> Inr (s\<lparr>rs_pending := rs_pending s @ [j]\<rparr>))
      | End \<Rightarrow>
          (case record_end (ev_job e) (rs_now s) (rs_metrics s) of
             Inl x \<Rightarrow> Inl x
           | Inr m \<Rightarrow>
               (case map_of by_id (ev_job e) of
                  None \<Rightarrow> Inl KeyError
                | Some j \<Rightarrow> Inr (s\<lparr>rs_cluster := release (ev_job e) (rs_cluster s), rs_metrics := m,
                    rs_latency := latency_record_end j (rs_now s) (rs_latency s)\<rparr>))))"

definition run_step ::
  "scheduler \<Rightarrow> (string, job) dict \<Rightarrow> event \<Rightarrow> run_state \<Rightarrow> py_error + run_state" where
  "run_step sched by_id e s =
     (case handle_event by_id e s of
        Inl x \<Rightarrow> Inl x
      | Inr s1 \<Rightarrow> (case try_dispatch sched s1 of Inl x \<Rightarrow> Inl x | Inr s2 \<Rightarrow> Inr (sample_now s2)))"

section \<open>Termination\<close>

definition event_weight :: "event \<Rightarrow> nat" where
  "event_weight e = (case ev_kind e of Submit \<Rightarrow> 3 | End \<Rightarrow> 1)"

definition run_weight :: "run_state \<Rightarrow> nat" where
  "run_weight s = sum_list (map event_weight (rs_events s)) + 2 * length (rs_pending s)"

lemma set_heap_push [simp]: "set (heap_push e h) = insert e (set h)"
  by (simp add: heap_push_def set_insort_key)

lemma mset_heap_push: "mset (heap_push e h) = add_mset e (mset h)"
  by (simp add: heap_push_def)

lemma sum_list_mset_eq:
  fixes f :: "'a \<Rightarrow> nat"
  shows "mset xs = mset ys \<Longrightarrow> sum_list (map f xs) = sum_list (map f ys)"
  by (metis mset_map sum_mset_sum_list)

lemma weight_heap_push: "sum_list (map event_weight (heap_push e h)) = event_weight e + sum_list (map event_weight h)"
  using sum_list_mset_eq [of "heap_push e h" "e # h" event_weight] by (simp add: mset_heap_push)

lemma start_job_cases:
  assumes "start_job j c' s = Inr s'"
  obtains m where "j \<in> set (rs_pending s)"
    "record_start (job_id j) (rs_now s + start_latency (rs_latency s) j (rs_now s)) (rs_metrics s) = Inr m"
    "s' = s\<lparr>rs_cluster := c', rs_pending := py_remove j (rs_pending s),
             rs_metrics := m, rs_latency := latency_record_start j (rs_latency s),
             rs_events := heap_push \<lparr>ev_time = rs_now s + start_latency (rs_latency s) j (rs_now s) + runtime j,
                            ev_seq = rs_seq s, ev_kind = End, ev_job = job_id j\<rparr> (rs_events s),
             rs_seq := rs_seq s + 1\<rparr>"
  using assms by (auto simp: start_job_def Let_def split: if_splits sum.splits)

lemma start_job_weight: "start_job j c' s = Inr s' \<Longrightarrow> run_weight s' < run_weight s"
  by (erule start_job_cases, frule length_pos_if_in_set)
    (simp add: run_weight_def py_remove_def weight_heap_push event_weight_def length_remove1
      del: length_greater_0_conv)

lemma dispatch_weight: "dispatch_jobs bf js s = Inr s' \<Longrightarrow> run_weight s' \<le> run_weight s"
proof (induction bf js s rule: dispatch_jobs.induct)
  case (1 bf s)
  then show ?case by simp
next
  case (2 bf j js s)
  show ?case
  proof (cases "try_allocate (rs_cluster s) j")
    case None
    with 2(3) have "bf \<Longrightarrow> dispatch_jobs bf js s = Inr s'" "\<not> bf \<Longrightarrow> s' = s"
      by simp_all
    then show ?thesis
      using 2(1) [OF None] by (cases bf) simp_all
  next
    case (Some pc)
    then obtain p c' where pc: "try_allocate (rs_cluster s) j = Some (p, c')"
      by (cases pc) simp
    then obtain s1 where s1: "start_job j c' s = Inr s1" "dispatch_jobs bf js s1 = Inr s'"
      using 2(3) by (auto split: sum.splits)
    then show ?thesis
      using 2(2) [OF pc refl s1(1) s1(2)] start_job_weight [OF s1(1)] by simp
  qed
qed

lemma handle_event_weight:
  "handle_event by_id e (s\<lparr>rs_events := es\<rparr>) = Inr s' \<Longrightarrow> rs_events s = e # es \<Longrightarrow>
     run_weight s' < run_weight s"
  by (auto simp: handle_event_def Let_def run_weight_def event_weight_def
      split: event_kind.splits option.splits sum.splits)

lemma run_step_weight:
  assumes "run_step sched by_id e (s\<lparr>rs_events := es\<rparr>) = Inr s'" "rs_events s = e # es"
  shows "run_weight s' < run_weight s"
proof -
  obtain s1 s2 where s: "handle_event by_id e (s\<lparr>rs_events := es\<rparr>) = Inr s1" "try_dispatch sched s1 = Inr s2"
      "s' = sample_now s2"
    using assms(1) by (auto simp: run_step_def split: sum.splits)
  have "run_weight s2 \<le> run_weight s1"
    using s(2) dispatch_weight unfolding try_dispatch_def by blast
  moreover have "run_weight s' = run_weight s2"
    by (simp add: s(3) sample_now_def run_weight_def)
  ultimately show ?thesis
    using handle_event_weight [OF s(1) assms(2)] by simp
qed

function run_loop :: "scheduler \<Rightarrow> (string, job) dict \<Rightarrow> run_state \<Rightarrow> py_error + run_state" where
  "run_loop sched by_id s =
     (case rs_events s of
        [] \<Rightarrow> Inr s
      | e # es \<Rightarrow>
          (case run_step sched by_id e (s\<lparr>rs_events := es\<rparr>) of
             Inl x \<Rightarrow> Inl x
           | Inr s' \<Rightarrow> run_loop sched by_id s'))"
  by pat_completeness auto
termination
  by (relation "measure (\<lambda>(sched, by_id, s). run_weight s)") (auto intro: run_step_weight)

declare run_loop.simps [simp del]

section \<open>The whole run\<close>

fun submit_events :: "nat \<Rightarrow> job list \<Rightarrow> event list \<Rightarrow> event list" where
  "submit_events seq [] h = h"
| "submit_events seq (j # js) h =
     submit_events (Suc seq) js
       (heap_push \<lparr>ev_time = submit_ts j, ev_seq = seq, ev_kind = Submit, ev_job = job_id j\<rparr> h)"

definition run_init :: "job list \<Rightarrow> cluster \<Rightarrow> latency_model \<Rightarrow> run_state" where
  "run_init jobs c latency =
     \<lparr>rs_cluster = c, rs_pending = [],
      rs_events = submit_events 0 (sort_key submit_ts jobs) [], rs_seq = length jobs, rs_now = 0,
      rs_metrics = sample_util 0 0 (foldl (\<lambda>m j. record_submit j m) empty_metrics jobs),
      rs_latency = latency\<rparr>"

definition jobs_by_id :: "job list \<Rightarrow> (string, job) dict" where
  "jobs_by_id jobs = dict_of (map (\<lambda>j. (job_id j, j)) jobs)"

definition run :: "job list \<Rightarrow> nat \<Rightarrow> nat \<Rightarrow> int \<Rightarrow> scheduler \<Rightarrow> latency_model \<Rightarrow>
    py_error + (metric_collector \<times> cluster)" where
  "run jobs n g cap sched latency =
     (case make_cluster n g cap None None None 1 of
        Inl x \<Rightarrow> Inl x
      | Inr c \<Rightarrow>
          (case run_loop sched (jobs_by_id jobs) (run_init jobs c latency) of
             Inl x \<Rightarrow> Inl x
           | Inr s \<Rightarrow> Inr (rs_metrics (sample_now s), rs_cluster s)))"

definition run_named :: "job list \<Rightarrow> nat \<Rightarrow> nat \<Rightarrow> int \<Rightarrow> string \<Rightarrow> real \<Rightarrow>
    py_error + (metric_collector \<times> cluster)" where
  \<comment> \<open>the default construction: scheduler by name, constant dispatch latency\<close>
  "run_named jobs n g cap name dispatch_latency =
     (case make_scheduler name of
        Inl x \<Rightarrow> Inl x
      | Inr sched \<Rightarrow> run jobs n g cap sched (latency_none dispatch_latency))"

end
