(* ===== verification/SimRunnerFacts.thy ===== *)
theory SimRunnerFacts
  imports SimRunner
begin

text \<open>
  The invariant of the event loop and what it gives at the end of a run. Every job has at most
  one token, an event of the heap or its place in the pending list; the running jobs are the ones
  with an end event and are exactly the active jobs of the cluster; the record of a job says what
  its token says. The dispatch pass keeps the invariant, never raises, and leaves only jobs it
  could not place, so that when the heap is empty the cluster is idle and what is still pending
  does not fit an idle cluster.
\<close>

section \<open>Tokens and the invariant\<close>

definition tokens :: "run_state \<Rightarrow> string list" where
  "tokens s = map ev_job (rs_events s) @ map job_id (rs_pending s)"

definition waiting :: "event list \<Rightarrow> job list \<Rightarrow> string \<Rightarrow> bool" where
  "waiting evs pend x \<longleftrightarrow> (\<exists>e \<in> set evs. ev_kind e = Submit \<and> ev_job e = x) \<or> x \<in> job_id ` set pend"

definition running :: "event list \<Rightarrow> string \<Rightarrow> bool" where
  "running evs x \<longleftrightarrow> (\<exists>e \<in> set evs. ev_kind e = End \<and> ev_job e = x)"

definition job_status :: "event list \<Rightarrow> job list \<Rightarrow> job \<Rightarrow> job_record \<Rightarrow> bool" where
  "job_status evs pend j r \<longleftrightarrow>
     jr_submit_ts r = submit_ts j \<and> jr_runtime r = runtime j \<and>
     (if waiting evs pend (job_id j) then jr_start_ts r = None \<and> jr_end_ts r = None
      else if running evs (job_id j) then
        (\<exists>st. jr_start_ts r = Some st \<and> jr_end_ts r = None \<and> submit_ts j \<le> st \<and>
           (\<exists>e \<in> set evs. ev_kind e = End \<and> ev_job e = job_id j \<and> ev_time e = st + runtime j))
      else (\<exists>st. jr_start_ts r = Some st \<and> jr_end_ts r = Some (st + runtime j) \<and> submit_ts j \<le> st))"

definition jobs_ok :: "job list \<Rightarrow> bool" where
  "jobs_ok jobs \<longleftrightarrow> distinct (map job_id jobs) \<and> (\<forall>j \<in> set jobs. job_ok j \<and> 0 \<le> runtime j)"

definition samples_ok :: "metric_collector \<Rightarrow> bool" where
  "samples_ok m \<longleftrightarrow> (\<forall>x \<in> set (util_samples m). 0 \<le> snd x \<and> snd x \<le> 1)"

definition run_inv :: "job list \<Rightarrow> cluster \<Rightarrow> run_state \<Rightarrow> bool" where
  "run_inv jobs c0 s \<longleftrightarrow>
     wf_cluster (rs_cluster s) \<and> same_frame c0 (rs_cluster s) \<and> latency_ok (rs_latency s) \<and>
     sorted (map (\<lambda>e. (ev_time e, ev_seq e)) (rs_events s)) \<and>
     distinct (tokens s) \<and> set (rs_pending s) \<subseteq> set jobs \<and>
     fst ` set (active (rs_cluster s)) = {x. running (rs_events s) x} \<and>
     dict_keys (records (rs_metrics s)) = map job_id jobs \<and>
     (\<forall>e \<in> set (rs_events s). \<exists>j \<in> set jobs. job_id j = ev_job e \<and>
        (ev_kind e = Submit \<longrightarrow> ev_time e = submit_ts j)) \<and>
     (\<forall>j \<in> set jobs. \<exists>r. map_of (records (rs_metrics s)) (job_id j) = Some r \<and>
        job_status (rs_events s) (rs_pending s) j r) \<and>
     samples_ok (rs_metrics s)"

lemma run_invI:
  assumes "wf_cluster (rs_cluster s)" "same_frame c0 (rs_cluster s)" "latency_ok (rs_latency s)"
    "sorted (map (\<lambda>e. (ev_time e, ev_seq e)) (rs_events s))"
    "distinct (tokens s)" "set (rs_pending s) \<subseteq> set jobs"
    "\<And>x. x \<in> fst ` set (active (rs_cluster s)) \<longleftrightarrow> running (rs_events s) x"
    "dict_keys (records (rs_metrics s)) = map job_id jobs"
    "\<And>e. e \<in> set (rs_events s) \<Longrightarrow> \<exists>j \<in> set jobs. job_id j = ev_job e \<and>
        (ev_kind e = Submit \<longrightarrow> ev_time e = submit_ts j)"
    "\<And>j. j \<in> set jobs \<Longrightarrow> \<exists>r. map_of (records (rs_metrics s)) (job_id j) = Some r \<and>
        job_status (rs_events s) (rs_pending s) j r"
    "samples_ok (rs_metrics s)"
  shows "run_inv jobs c0 s"
  using assms unfolding run_inv_def by blast

lemma run_invD:
  assumes "run_inv jobs c0 s"
  shows "wf_cluster (rs_cluster s)" "same_frame c0 (rs_cluster s)" "latency_ok (rs_latency s)"
    "sorted (map (\<lambda>e. (ev_time e, ev_seq e)) (rs_events s))"
    "distinct (tokens s)" "set (rs_pending s) \<subseteq> set jobs"
    "fst ` set (active (rs_cluster s)) = {x. running (rs_events s) x}"
    "dict_keys (records (rs_metrics s)) = map job_id jobs"
    "\<And>e. e \<in> set (rs_events s) \<Longrightarrow> \<exists>j \<in> set jobs. job_id j = ev_job e \<and>
        (ev_kind e = Submit \<longrightarrow> ev_time e = submit_ts j)"
    "\<And>j. j \<in> set jobs \<Longrightarrow> \<exists>r. map_of (records (rs_metrics s)) (job_id j) = Some r \<and>
        job_status (rs_events s) (rs_pending s) j r"
    "samples_ok (rs_metrics s)"
  using assms unfolding run_inv_def by blast+

text \<open>The times at a dispatch: pending jobs are submitted, and no event is in the past.\<close>

definition dispatch_inv :: "job list \<Rightarrow> cluster \<Rightarrow> run_state \<Rightarrow> bool" where
  "dispatch_inv jobs c0 s \<longleftrightarrow>
     run_inv jobs c0 s \<and> (\<forall>j \<in> set (rs_pending s). submit_ts j \<le> rs_now s) \<and>
     (\<forall>e \<in> set (rs_events s). rs_now s \<le> ev_time e)"

section \<open>Starting a job\<close>

lemma distinct_heap_push:
  "distinct (map f (heap_push e h) @ xs) \<longleftrightarrow> distinct (f e # map f h @ xs)"
  by (rule mset_eq_imp_distinct_iff) (simp add: mset_heap_push)

lemma sorted_heap_push:
  "sorted (map (\<lambda>e. (ev_time e, ev_seq e)) h) \<Longrightarrow> sorted (map (\<lambda>e. (ev_time e, ev_seq e)) (heap_push e h))"
  by (simp add: heap_push_def sorted_insort_key)

lemma running_heap_push [simp]:
  "running (heap_push e h) x \<longleftrightarrow> (ev_kind e = End \<and> ev_job e = x) \<or> running h x"
  by (auto simp: running_def)

lemma job_id_inj: "distinct (map job_id jobs) \<Longrightarrow> j \<in> set jobs \<Longrightarrow> k \<in> set jobs \<Longrightarrow> job_id j = job_id k \<Longrightarrow> j = k"
  by (auto simp: distinct_map inj_on_def)

lemma record_start_Inr:
  "record_start jid t m = Inr m' \<longleftrightarrow>
     (\<exists>r. map_of (records m) jid = Some r \<and> m' = m\<lparr>records := dict_set jid (r\<lparr>jr_start_ts := Some t\<rparr>) (records m)\<rparr>)"
  by (auto simp: record_start_def split: option.splits)

lemma record_end_Inr:
  "record_end jid t m = Inr m' \<longleftrightarrow>
     (\<exists>r. map_of (records m) jid = Some r \<and> m' = m\<lparr>records := dict_set jid (r\<lparr>jr_end_ts := Some t\<rparr>) (records m)\<rparr>)"
  by (auto simp: record_end_def split: option.splits)

lemma job_status_other:
  assumes "job_status evs pend k r" "ev_kind e = End" "ev_job e = job_id j" "job_id k \<noteq> job_id j"
    "job_id ` set pend' = job_id ` set pend - {job_id j}"
  shows "job_status (heap_push e evs) pend' k r"
  using assms by (auto simp: job_status_def waiting_def split: if_splits)

lemma remove1_ids:
  assumes "distinct (map job_id pend)" "j \<in> set pend"
  shows "job_id ` set (remove1 j pend) = job_id ` set pend - {job_id j}"
    and "distinct (map job_id (remove1 j pend))"
proof -
  have "distinct pend"
    using assms(1) by (simp add: distinct_map)
  then show "job_id ` set (remove1 j pend) = job_id ` set pend - {job_id j}"
    using assms by (auto simp: distinct_map dest: inj_onD)
  show "distinct (map job_id (remove1 j pend))"
    using assms by (metis distinct_map distinct_remove1 inj_on_subset set_remove1_subset)
qed


lemma start_job_total:
  assumes inv: "run_inv jobs c0 s" and j: "j \<in> set (rs_pending s)"
  shows "\<exists>s'. start_job j c' s = Inr s'"
proof -
  have "j \<in> set jobs"
    using run_invD(6) [OF inv] j by blast
  then have "job_id j \<in> set (dict_keys (records (rs_metrics s)))"
    by (simp add: run_invD(8) [OF inv])
  then show ?thesis
    using j record_start_total [of "job_id j" "rs_metrics s"
        "rs_now s + start_latency (rs_latency s) j (rs_now s)"]
    by (auto simp: start_job_def Let_def)
qed

lemma start_job_inv:
  assumes jobs: "jobs_ok jobs" and cap: "0 \<le> mps_per_gpu c0"
    and inv: "dispatch_inv jobs c0 s" and j: "j \<in> set (rs_pending s)"
    and alloc: "try_allocate (rs_cluster s) j = Some (p, c')" and s': "start_job j c' s = Inr s'"
  shows "dispatch_inv jobs c0 s'" "rs_cluster s' = c'" "rs_pending s' = remove1 j (rs_pending s)"
    "rs_now s' = rs_now s"
proof -
  let ?st = "rs_now s + start_latency (rs_latency s) j (rs_now s)"
  let ?e = "\<lparr>ev_time = ?st + runtime j, ev_seq = rs_seq s, ev_kind = End, ev_job = job_id j\<rparr>"
  obtain m where m: "record_start (job_id j) ?st (rs_metrics s) = Inr m"
    and eq: "s' = s\<lparr>rs_cluster := c', rs_pending := py_remove j (rs_pending s), rs_metrics := m,
       rs_latency := latency_record_start j (rs_latency s),
       rs_events := heap_push ?e (rs_events s), rs_seq := rs_seq s + 1\<rparr>"
    using s' by (rule start_job_cases)
  note ri = run_invD [of jobs c0 s]
  have rinv: "run_inv jobs c0 s" and early: "\<forall>j \<in> set (rs_pending s). submit_ts j \<le> rs_now s"
    and later: "\<forall>e \<in> set (rs_events s). rs_now s \<le> ev_time e"
    using inv by (auto simp: dispatch_inv_def)
  have jj: "j \<in> set jobs" "job_ok j" "0 \<le> runtime j"
    using ri(6) [OF rinv] j jobs by (auto simp: jobs_ok_def)
  have lat: "0 \<le> start_latency (rs_latency s) j (rs_now s)"
    by (rule start_latency_nonneg [OF ri(3) [OF rinv]])
  have toks: "distinct (map ev_job (rs_events s))" "distinct (map job_id (rs_pending s))"
      "job_id j \<notin> ev_job ` set (rs_events s)"
    using ri(5) [OF rinv] j by (auto simp: tokens_def)
  have fresh: "job_id j \<notin> fst ` set (active (rs_cluster s))"
    unfolding ri(7) [OF rinv] using toks(3) by (force simp: running_def)
  have caps: "0 \<le> mps_per_gpu (rs_cluster s)"
    using ri(2) [OF rinv] cap by (simp add: same_frame_def)
  have plan: "plan_job (rs_cluster s) j = Some p" "c' = commit_plan j p (rs_cluster s)"
    using alloc by (simp_all add: try_allocate_plan)
  have fits: "plan_fits (rs_cluster s) j p"
    by (rule plan_job_fits [OF ri(1) [OF rinv] caps jj(2) plan(1)])
  obtain r where r: "map_of (records (rs_metrics s)) (job_id j) = Some r"
      "job_status (rs_events s) (rs_pending s) j r"
    using ri(10) [OF rinv jj(1)] by blast
  have m_eq: "m = (rs_metrics s)\<lparr>records := dict_set (job_id j) (r\<lparr>jr_start_ts := Some ?st\<rparr>) (records (rs_metrics s))\<rparr>"
    using m r(1) by (auto simp: record_start_Inr)
  have ids: "job_id ` set (remove1 j (rs_pending s)) = job_id ` set (rs_pending s) - {job_id j}"
      "distinct (map job_id (remove1 j (rs_pending s)))"
    using remove1_ids [OF toks(2) j] by simp_all
  show "rs_cluster s' = c'" "rs_pending s' = remove1 j (rs_pending s)" "rs_now s' = rs_now s"
    by (simp_all add: eq py_remove_def)
  have "run_inv jobs c0 s'"
  proof (rule run_invI)
    show "wf_cluster (rs_cluster s')"
      using commit_plan_wf [OF ri(1) [OF rinv] fits fresh jj(2)] by (simp add: eq plan(2))
    show "same_frame c0 (rs_cluster s')"
      using same_frame_trans [OF ri(2) [OF rinv] commit_frame [OF ri(1) [OF rinv] fits]] by (simp add: eq plan(2))
    show "latency_ok (rs_latency s')"
      using ri(3) [OF rinv] by (simp add: eq)
    show "sorted (map (\<lambda>e. (ev_time e, ev_seq e)) (rs_events s'))"
      using sorted_heap_push [OF ri(4) [OF rinv]] by (simp add: eq)
    have "distinct (tokens s') \<longleftrightarrow>
        distinct (job_id j # map ev_job (rs_events s) @ map job_id (remove1 j (rs_pending s)))"
      by (simp add: eq tokens_def distinct_heap_push py_remove_def del: distinct_append)
    then show "distinct (tokens s')"
      using ri(5) [OF rinv] ids toks(3) by (auto simp: tokens_def)
    show "set (rs_pending s') \<subseteq> set jobs"
      using ri(6) [OF rinv] by (auto simp: eq py_remove_def dest: notin_set_remove1)
    show "x \<in> fst ` set (active (rs_cluster s')) \<longleftrightarrow> running (rs_events s') x" for x
      using ri(7) [OF rinv] by (auto simp: eq plan(2) keys_dict_set simp del: set_map)
    show "dict_keys (records (rs_metrics s')) = map job_id jobs"
      using ri(8) [OF rinv] jj(1) by (simp add: eq m_eq dict_keys_set_same)
    show "\<exists>j \<in> set jobs. job_id j = ev_job e \<and> (ev_kind e = Submit \<longrightarrow> ev_time e = submit_ts j)"
      if "e \<in> set (rs_events s')" for e
      using that ri(9) [OF rinv] jj(1) by (auto simp: eq)
    show "\<exists>r. map_of (records (rs_metrics s')) (job_id k) = Some r \<and>
        job_status (rs_events s') (rs_pending s') k r" if k: "k \<in> set jobs" for k
    proof (cases "job_id k = job_id j")
      case True
      then have "k = j"
        using job_id_inj jobs k jj(1) by (auto simp: jobs_ok_def)
      have "\<not> waiting (rs_events s') (rs_pending s') (job_id j)"
        using toks(3) ids(1) by (force simp: eq waiting_def py_remove_def)
      moreover have "submit_ts j \<le> ?st"
        using early j lat by fastforce
      ultimately show ?thesis
        using r(2) \<open>k = j\<close> j unfolding job_status_def by (auto simp: eq m_eq waiting_def)
    next
      case False
      obtain rk where rk: "map_of (records (rs_metrics s)) (job_id k) = Some rk"
          "job_status (rs_events s) (rs_pending s) k rk"
        using ri(10) [OF rinv k] by blast
      have "job_status (heap_push ?e (rs_events s)) (remove1 j (rs_pending s)) k rk"
        by (rule job_status_other [OF rk(2) _ _ False ids(1)]) simp_all
      then show ?thesis
        using False rk(1) by (simp add: eq m_eq py_remove_def)
    qed
    show "samples_ok (rs_metrics s')"
      using ri(11) [OF rinv] by (simp add: eq m_eq samples_ok_def)
  qed
  then show "dispatch_inv jobs c0 s'"
    using early later lat jj(3)
    by (auto simp: dispatch_inv_def eq py_remove_def dest: notin_set_remove1)
qed


section \<open>The dispatch pass\<close>

text \<open>The jobs offered are pending and distinct; afterwards every job still pending among them was
  rejected by the cluster it was offered to, hence by the present one. Without backfill the pass
  stops at the first rejection, which is then still pending.\<close>

lemma dispatch_jobs_inv:
  assumes jobs: "jobs_ok jobs" and cap: "0 \<le> mps_per_gpu c0"
  shows "dispatch_inv jobs c0 s \<Longrightarrow> distinct js \<Longrightarrow> set js \<subseteq> set (rs_pending s) \<Longrightarrow>
    \<exists>s'. dispatch_jobs bf js s = Inr s' \<and> dispatch_inv jobs c0 s' \<and> rs_now s' = rs_now s \<and>
      set (rs_pending s') \<subseteq> set (rs_pending s) \<and>
      (\<forall>k. \<not> can_allocate (rs_cluster s) k \<longrightarrow> \<not> can_allocate (rs_cluster s') k) \<and>
      (bf \<longrightarrow> (\<forall>k \<in> set js. k \<in> set (rs_pending s') \<longrightarrow> \<not> can_allocate (rs_cluster s') k)) \<and>
      (set js \<inter> set (rs_pending s') \<noteq> {} \<longrightarrow>
         (\<exists>k \<in> set js \<inter> set (rs_pending s'). \<not> can_allocate (rs_cluster s') k))"
proof (induction js arbitrary: s)
  case Nil
  then show ?case by simp
next
  case (Cons j js)
  have inv: "run_inv jobs c0 s"
    using Cons.prems(1) by (simp add: dispatch_inv_def)
  show ?case
  proof (cases "try_allocate (rs_cluster s) j")
    case None
    then have rej: "\<not> can_allocate (rs_cluster s) j"
      by (simp add: try_allocate_def can_allocate_def split: option.splits)
    show ?thesis
    proof (cases bf)
      case False
      then show ?thesis
        using None Cons.prems rej by auto
    next
      case True
      obtain s' where s': "dispatch_jobs bf js s = Inr s'" "dispatch_inv jobs c0 s'" "rs_now s' = rs_now s"
          "set (rs_pending s') \<subseteq> set (rs_pending s)"
          "\<forall>k. \<not> can_allocate (rs_cluster s) k \<longrightarrow> \<not> can_allocate (rs_cluster s') k"
          "bf \<longrightarrow> (\<forall>k \<in> set js. k \<in> set (rs_pending s') \<longrightarrow> \<not> can_allocate (rs_cluster s') k)"
        using Cons.IH [OF Cons.prems(1)] Cons.prems(2,3) by (simp del: Int_iff) blast
      have "\<forall>k \<in> set (j # js). k \<in> set (rs_pending s') \<longrightarrow> \<not> can_allocate (rs_cluster s') k"
        using s'(5,6) True rej by simp
      then show ?thesis
        using s'(1-5) True None by auto
    qed
  next
    case (Some pc)
    then obtain p c' where pc: "try_allocate (rs_cluster s) j = Some (p, c')"
      by (cases pc) simp
    have j: "j \<in> set (rs_pending s)"
      using Cons.prems(3) by simp
    obtain s1 where s1: "start_job j c' s = Inr s1"
      using start_job_total [OF inv j] by blast
    note st = start_job_inv [OF jobs cap Cons.prems(1) j pc s1]
    have dist: "distinct (rs_pending s)"
      using run_invD(5) [OF inv] by (simp add: tokens_def distinct_map)
    have pend1: "set (rs_pending s1) = set (rs_pending s) - {j}"
      using dist by (simp add: st(3) set_remove1_eq)
    have mono: "\<not> can_allocate (rs_cluster s1) k" if "\<not> can_allocate (rs_cluster s) k" for k
    proof -
      have jj: "j \<in> set jobs" "job_ok j"
        using run_invD(6) [OF inv] j jobs by (auto simp: jobs_ok_def)
      have "0 \<le> mps_per_gpu (rs_cluster s)"
        using run_invD(2) [OF inv] cap by (simp add: same_frame_def)
      then have fits: "plan_fits (rs_cluster s) j p"
        using plan_job_fits [OF run_invD(1) [OF inv] _ jj(2)] pc by (simp add: try_allocate_plan)
      have "job_id j \<notin> fst ` set (active (rs_cluster s))"
        unfolding run_invD(7) [OF inv] using run_invD(5) [OF inv] j
        by (auto simp: running_def tokens_def)
      from commit_rejects [OF run_invD(1) [OF inv] fits jj(2) this that] show ?thesis
        using pc by (simp add: st(2) try_allocate_plan)
    qed
    have dist1: "distinct js" and sub1: "set js \<subseteq> set (rs_pending s1)"
      using Cons.prems(2,3) pend1 by auto
    obtain s' where s': "dispatch_jobs bf js s1 = Inr s'" "dispatch_inv jobs c0 s'" "rs_now s' = rs_now s1"
        "set (rs_pending s') \<subseteq> set (rs_pending s1)"
        "\<forall>k. \<not> can_allocate (rs_cluster s1) k \<longrightarrow> \<not> can_allocate (rs_cluster s') k"
        "bf \<longrightarrow> (\<forall>k \<in> set js. k \<in> set (rs_pending s') \<longrightarrow> \<not> can_allocate (rs_cluster s') k)"
        "set js \<inter> set (rs_pending s') \<noteq> {} \<longrightarrow>
         (\<exists>k \<in> set js \<inter> set (rs_pending s'). \<not> can_allocate (rs_cluster s') k)"
      using Cons.IH [OF st(1) dist1 sub1] by blast
    have "j \<notin> set (rs_pending s')"
      using s'(4) pend1 by blast
    moreover have "dispatch_jobs bf (j # js) s = Inr s'"
      using pc s1 s'(1) by simp
    ultimately show ?thesis
      using s'(2-7) mono pend1 st(4) by auto
  qed
qed

lemma try_dispatch_inv:
  assumes jobs: "jobs_ok jobs" and cap: "0 \<le> mps_per_gpu c0" and inv: "dispatch_inv jobs c0 s"
  obtains s' where "try_dispatch sched s = Inr s'" "dispatch_inv jobs c0 s'" "rs_now s' = rs_now s"
    "sched_backfill sched \<longrightarrow> (\<forall>k \<in> set (rs_pending s'). \<not> can_allocate (rs_cluster s') k)"
    "rs_pending s' \<noteq> [] \<longrightarrow> (\<exists>k \<in> set (rs_pending s'). \<not> can_allocate (rs_cluster s') k)"
proof -
  let ?js = "sched_order sched (rs_pending s) (rs_cluster s) (rs_now s)"
  have "distinct (rs_pending s)"
    using inv run_invD(5) by (fastforce simp: dispatch_inv_def tokens_def distinct_map)
  then have "distinct ?js" "set ?js = set (rs_pending s)"
    using sched.order_distinct [of id] sched.order_set by simp_all
  with dispatch_jobs_inv [OF jobs cap inv, of ?js "sched_backfill sched"] obtain s' where
    s': "dispatch_jobs (sched_backfill sched) ?js s = Inr s'" "dispatch_inv jobs c0 s'" "rs_now s' = rs_now s"
      "set (rs_pending s') \<subseteq> set ?js"
      "sched_backfill sched \<longrightarrow> (\<forall>k \<in> set ?js. k \<in> set (rs_pending s') \<longrightarrow> \<not> can_allocate (rs_cluster s') k)"
      "set ?js \<inter> set (rs_pending s') \<noteq> {} \<longrightarrow>
         (\<exists>k \<in> set ?js \<inter> set (rs_pending s'). \<not> can_allocate (rs_cluster s') k)"
    by auto
  moreover have "set ?js \<inter> set (rs_pending s') = set (rs_pending s')"
    using s'(4) by blast
  ultimately show ?thesis
    by (intro that [of s']) (auto simp: try_dispatch_def)
qed


section \<open>Handling an event\<close>

definition loop_inv :: "job list \<Rightarrow> cluster \<Rightarrow> run_state \<Rightarrow> bool" where
  "loop_inv jobs c0 s \<longleftrightarrow>
     run_inv jobs c0 s \<and> (\<forall>j \<in> set (rs_pending s). \<forall>e \<in> set (rs_events s). submit_ts j \<le> ev_time e)"

lemma jobs_by_id_lookup:
  assumes "distinct (map job_id jobs)" "j \<in> set jobs"
  shows "map_of (jobs_by_id jobs) (job_id j) = Some j"
proof -
  have "jobs_by_id jobs = map (\<lambda>j. (job_id j, j)) jobs"
    unfolding jobs_by_id_def by (rule dict_of_distinct) (simp add: assms(1) comp_def)
  then show ?thesis
    using assms by (auto intro!: map_of_is_SomeI simp: comp_def)
qed

lemma sorted_head_le:
  assumes "sorted (map (\<lambda>e. (ev_time e, ev_seq e)) (e # es))" "x \<in> set es"
  shows "ev_time e \<le> ev_time x"
  using assms by (fastforce simp: less_eq_prod_def)

lemma waiting_pop:
  "waiting (e # es) pend x \<longleftrightarrow> (ev_kind e = Submit \<and> ev_job e = x) \<or> waiting es pend x"
  "running (e # es) x \<longleftrightarrow> (ev_kind e = End \<and> ev_job e = x) \<or> running es x"
  by (auto simp: waiting_def running_def)

lemma handle_submit_inv:
  assumes jobs: "jobs_ok jobs" and inv: "loop_inv jobs c0 s" and ev: "rs_events s = e # es"
    and kind: "ev_kind e = Submit"
  shows "\<exists>s'. handle_event (jobs_by_id jobs) e (s\<lparr>rs_events := es\<rparr>) = Inr s' \<and> dispatch_inv jobs c0 s'"
proof -
  have rinv: "run_inv jobs c0 s" and early: "\<forall>j \<in> set (rs_pending s). submit_ts j \<le> ev_time e"
    using inv ev by (auto simp: loop_inv_def)
  note ri = run_invD [OF rinv, unfolded ev]
  obtain j where j: "j \<in> set jobs" "job_id j = ev_job e" "ev_time e = submit_ts j"
    using ri(9) [of e] kind by auto
  have look: "map_of (jobs_by_id jobs) (ev_job e) = Some j"
    using jobs_by_id_lookup [of jobs j] jobs j by (simp add: jobs_ok_def)
  let ?s = "s\<lparr>rs_events := es, rs_now := ev_time e, rs_pending := rs_pending s @ [j]\<rparr>"
  have "handle_event (jobs_by_id jobs) e (s\<lparr>rs_events := es\<rparr>) = Inr ?s"
    by (simp add: handle_event_def kind look)
  moreover have "run_inv jobs c0 ?s"
  proof (rule run_invI)
    show "wf_cluster (rs_cluster ?s)" "same_frame c0 (rs_cluster ?s)" "latency_ok (rs_latency ?s)"
        "samples_ok (rs_metrics ?s)" "dict_keys (records (rs_metrics ?s)) = map job_id jobs"
      using ri(1-3,8,11) by simp_all
    show "sorted (map (\<lambda>e. (ev_time e, ev_seq e)) (rs_events ?s))"
      using ri(4) by simp
    show "distinct (tokens ?s)"
      using ri(5) j(2) by (auto simp: tokens_def ev)
    show "set (rs_pending ?s) \<subseteq> set jobs"
      using ri(6) j(1) by simp
    show "x \<in> fst ` set (active (rs_cluster ?s)) \<longleftrightarrow> running (rs_events ?s) x" for x
      using ri(7) kind by (simp add: waiting_pop)
    show "\<exists>j \<in> set jobs. job_id j = ev_job e' \<and> (ev_kind e' = Submit \<longrightarrow> ev_time e' = submit_ts j)"
      if "e' \<in> set (rs_events ?s)" for e'
      using that ri(9) [of e'] by simp
    show "\<exists>r. map_of (records (rs_metrics ?s)) (job_id k) = Some r \<and>
        job_status (rs_events ?s) (rs_pending ?s) k r" if k: "k \<in> set jobs" for k
    proof -
      have "waiting es (rs_pending s @ [j]) (job_id k) \<longleftrightarrow> waiting (e # es) (rs_pending s) (job_id k)"
        using kind j(2) by (auto simp: waiting_def)
      moreover have "running es (job_id k) \<longleftrightarrow> running (e # es) (job_id k)"
        using kind by (simp add: waiting_pop)
      ultimately show ?thesis
        using ri(10) [OF k] kind by (auto simp: job_status_def)
    qed
  qed
  moreover have "\<forall>x \<in> set es. ev_time e \<le> ev_time x"
    using sorted_head_le [OF ri(4)] by blast
  ultimately show ?thesis
    using early j(3) by (auto simp: dispatch_inv_def)
qed

lemma handle_end_inv:
  assumes jobs: "jobs_ok jobs" and inv: "loop_inv jobs c0 s" and ev: "rs_events s = e # es"
    and kind: "ev_kind e = End"
  shows "\<exists>s'. handle_event (jobs_by_id jobs) e (s\<lparr>rs_events := es\<rparr>) = Inr s' \<and> dispatch_inv jobs c0 s'"
proof -
  have rinv: "run_inv jobs c0 s" and early: "\<forall>j \<in> set (rs_pending s). submit_ts j \<le> ev_time e"
    using inv ev by (auto simp: loop_inv_def)
  note ri = run_invD [OF rinv, unfolded ev]
  obtain j where j: "j \<in> set jobs" "job_id j = ev_job e"
    using ri(9) [of e] by auto
  have look: "map_of (jobs_by_id jobs) (ev_job e) = Some j"
    using jobs_by_id_lookup [of jobs j] jobs j by (simp add: jobs_ok_def)
  obtain r where r: "map_of (records (rs_metrics s)) (ev_job e) = Some r"
      "job_status (e # es) (rs_pending s) j r"
    using ri(10) [OF j(1)] j(2) by auto
  have toks: "ev_job e \<notin> ev_job ` set es" "ev_job e \<notin> job_id ` set (rs_pending s)"
    using ri(5) by (auto simp: tokens_def ev)
  have other: "\<not> waiting es (rs_pending s) (ev_job e)" "\<not> running es (ev_job e)"
    unfolding waiting_def running_def using toks by (metis image_eqI)+
  obtain st where st: "jr_start_ts r = Some st" "submit_ts j \<le> st" "ev_time e = st + runtime j"
      "jr_submit_ts r = submit_ts j" "jr_runtime r = runtime j"
    using r(2) other toks(1) kind j(2) unfolding job_status_def
    by (auto simp: waiting_pop split: if_splits) (metis image_eqI)+
  let ?m = "(rs_metrics s)\<lparr>records := dict_set (ev_job e) (r\<lparr>jr_end_ts := Some (ev_time e)\<rparr>) (records (rs_metrics s))\<rparr>"
  let ?s = "s\<lparr>rs_events := es, rs_now := ev_time e, rs_cluster := release (ev_job e) (rs_cluster s),
      rs_metrics := ?m, rs_latency := latency_record_end j (ev_time e) (rs_latency s)\<rparr>"
  have "record_end (ev_job e) (ev_time e) (rs_metrics s) = Inr ?m"
    using r(1) by (simp add: record_end_Inr)
  then have "handle_event (jobs_by_id jobs) e (s\<lparr>rs_events := es\<rparr>) = Inr ?s"
    by (simp add: handle_event_def kind look)
  moreover have "run_inv jobs c0 ?s"
  proof (rule run_invI)
    show "wf_cluster (rs_cluster ?s)" "latency_ok (rs_latency ?s)" "samples_ok (rs_metrics ?s)"
      using ri(1,3,11) release_wf by (simp_all add: samples_ok_def)
    show "same_frame c0 (rs_cluster ?s)"
      using same_frame_trans [OF ri(2) release_frame [OF ri(1)]] by simp
    show "dict_keys (records (rs_metrics ?s)) = map job_id jobs"
      using ri(8) map_of_SomeD_keys [OF r(1)] by (simp add: dict_keys_set_same)
    show "sorted (map (\<lambda>e. (ev_time e, ev_seq e)) (rs_events ?s))"
      using ri(4) by simp
    show "distinct (tokens ?s)" "set (rs_pending ?s) \<subseteq> set jobs"
      using ri(5,6) by (auto simp: tokens_def ev)
    show "x \<in> fst ` set (active (rs_cluster ?s)) \<longleftrightarrow> running (rs_events ?s) x" for x
    proof -
      have "ev_job e \<in> fst ` set (active (rs_cluster s))"
        using ri(7) kind by (simp add: waiting_pop)
      then obtain p where "map_of (active (rs_cluster s)) (ev_job e) = Some p"
        using map_of_eq_None_iff [of "active (rs_cluster s)" "ev_job e"] by fastforce
      then show ?thesis
        using ri(7) kind other(2) by (auto simp: release_simps(7) keys_dict_pop waiting_pop simp del: set_map)
    qed
    show "\<exists>j \<in> set jobs. job_id j = ev_job e' \<and> (ev_kind e' = Submit \<longrightarrow> ev_time e' = submit_ts j)"
      if "e' \<in> set (rs_events ?s)" for e'
      using that ri(9) [of e'] by simp
    show "\<exists>r. map_of (records (rs_metrics ?s)) (job_id k) = Some r \<and>
        job_status (rs_events ?s) (rs_pending ?s) k r" if k: "k \<in> set jobs" for k
    proof (cases "job_id k = ev_job e")
      case True
      then have "k = j"
        using job_id_inj [OF _ k j(1)] jobs j(2) by (simp add: jobs_ok_def)
      then show ?thesis
        using st other j(2) by (simp add: job_status_def)
    next
      case False
      then have "waiting es (rs_pending s) (job_id k) \<longleftrightarrow> waiting (e # es) (rs_pending s) (job_id k)"
          "running es (job_id k) \<longleftrightarrow> running (e # es) (job_id k)"
        using kind by (auto simp: waiting_pop)
      then show ?thesis
        using ri(10) [OF k] False by (auto simp: job_status_def)
    qed
  qed
  moreover have "\<forall>x \<in> set es. ev_time e \<le> ev_time x"
    using sorted_head_le [OF ri(4)] by blast
  ultimately show ?thesis
    using early by (auto simp: dispatch_inv_def)
qed


section \<open>The loop\<close>

text \<open>What the loop leaves when a step empties the heap: with backfill nothing pending can be
  placed, without it the pending list is empty or holds a job that cannot be placed.\<close>

definition stuck_ok :: "bool \<Rightarrow> run_state \<Rightarrow> bool" where
  "stuck_ok bf s \<longleftrightarrow>
     (bf \<longrightarrow> (\<forall>k \<in> set (rs_pending s). \<not> can_allocate (rs_cluster s) k)) \<and>
     (rs_pending s \<noteq> [] \<longrightarrow> (\<exists>k \<in> set (rs_pending s). \<not> can_allocate (rs_cluster s) k))"

lemma sample_now_inv:
  assumes "dispatch_inv jobs c0 s"
  shows "loop_inv jobs c0 (sample_now s)"
proof -
  have inv: "run_inv jobs c0 s"
    using assms by (simp add: dispatch_inv_def)
  have "run_inv jobs c0 (sample_now s)"
    using inv utilization_bounds [OF run_invD(1) [OF inv]]
    by (auto simp: run_inv_def sample_now_def sample_util_def samples_ok_def tokens_def)
  then show ?thesis
    using assms by (fastforce simp: loop_inv_def dispatch_inv_def sample_now_def)
qed

lemma run_step_inv:
  assumes jobs: "jobs_ok jobs" and cap: "0 \<le> mps_per_gpu c0"
    and inv: "loop_inv jobs c0 s" and ev: "rs_events s = e # es"
  shows "\<exists>s'. run_step sched (jobs_by_id jobs) e (s\<lparr>rs_events := es\<rparr>) = Inr s' \<and>
    loop_inv jobs c0 s' \<and> stuck_ok (sched_backfill sched) s'"
proof -
  obtain s1 where s1: "handle_event (jobs_by_id jobs) e (s\<lparr>rs_events := es\<rparr>) = Inr s1" "dispatch_inv jobs c0 s1"
    using handle_submit_inv [OF jobs inv ev] handle_end_inv [OF jobs inv ev] by (cases "ev_kind e") auto
  obtain s2 where s2: "try_dispatch sched s1 = Inr s2" "dispatch_inv jobs c0 s2" "stuck_ok (sched_backfill sched) s2"
    unfolding stuck_ok_def by (rule try_dispatch_inv [OF jobs cap s1(2), of sched]) blast
  have "stuck_ok (sched_backfill sched) (sample_now s2)"
    using s2(3) by (simp add: stuck_ok_def sample_now_def)
  then show ?thesis
    using s1(1) s2(1) sample_now_inv [OF s2(2)] by (simp add: run_step_def)
qed

lemma run_loop_inv:
  assumes jobs: "jobs_ok jobs" and cap: "0 \<le> mps_per_gpu c0"
  shows "loop_inv jobs c0 s \<Longrightarrow> stuck_ok (sched_backfill sched) s \<or> rs_events s \<noteq> [] \<Longrightarrow>
    \<exists>s'. run_loop sched (jobs_by_id jobs) s = Inr s' \<and> loop_inv jobs c0 s' \<and>
      stuck_ok (sched_backfill sched) s' \<and> rs_events s' = []"
proof (induction "run_weight s" arbitrary: s rule: less_induct)
  case less
  show ?case
  proof (cases "rs_events s")
    case Nil
    then show ?thesis
      using less.prems by (simp add: run_loop.simps)
  next
    case (Cons e es)
    obtain s1 where s1: "run_step sched (jobs_by_id jobs) e (s\<lparr>rs_events := es\<rparr>) = Inr s1"
        "loop_inv jobs c0 s1" "stuck_ok (sched_backfill sched) s1"
      using run_step_inv [OF jobs cap less.prems(1) Cons] by blast
    have "\<exists>s'. run_loop sched (jobs_by_id jobs) s1 = Inr s' \<and> loop_inv jobs c0 s' \<and>
        stuck_ok (sched_backfill sched) s' \<and> rs_events s' = []"
      using s1(2,3) by (intro less.hyps run_step_weight [OF s1(1) Cons]) auto
    then show ?thesis
      using Cons s1(1) by (simp add: run_loop.simps [of sched "jobs_by_id jobs" s])
  qed
qed

section \<open>The initial state\<close>

lemma submit_events_mem:
  "e \<in> set (submit_events n js h) \<Longrightarrow>
     e \<in> set h \<or> (ev_kind e = Submit \<and> (\<exists>j \<in> set js. job_id j = ev_job e \<and> ev_time e = submit_ts j))"
  by (induction js arbitrary: n h) fastforce+

lemma submit_events_sorted:
  "sorted (map (\<lambda>e. (ev_time e, ev_seq e)) h) \<Longrightarrow>
     sorted (map (\<lambda>e. (ev_time e, ev_seq e)) (submit_events n js h))"
  by (induction js arbitrary: n h) (simp_all add: sorted_heap_push)

lemma submit_events_jobs:
  "mset (map ev_job (submit_events n js h)) = mset (map job_id js) + mset (map ev_job h)"
  by (induction js arbitrary: n h) (simp_all add: mset_heap_push)

lemma submit_records:
  assumes "distinct (map job_id jobs)" "set (map job_id jobs) \<inter> set (dict_keys (records m)) = {}"
  shows "dict_keys (records (foldl (\<lambda>m j. record_submit j m) m jobs)) = dict_keys (records m) @ map job_id jobs"
    and "util_samples (foldl (\<lambda>m j. record_submit j m) m jobs) = util_samples m"
    and "x \<notin> set (map job_id jobs) \<Longrightarrow>
      map_of (records (foldl (\<lambda>m j. record_submit j m) m jobs)) x = map_of (records m) x"
    and "j \<in> set jobs \<Longrightarrow> \<exists>r. map_of (records (foldl (\<lambda>m j. record_submit j m) m jobs)) (job_id j) = Some r \<and>
      jr_submit_ts r = submit_ts j \<and> jr_runtime r = runtime j \<and> jr_start_ts r = None \<and> jr_end_ts r = None"
  using assms
proof (induction jobs arbitrary: m x)
  case Nil
  {
    case 1 show ?case by simp
  next
    case 2 show ?case by simp
  next
    case 3 show ?case by simp
  next
    case 4 then show ?case by simp
  }
next
  case (Cons k ks)
  have prems: "distinct (map job_id ks)" "job_id k \<notin> job_id ` set ks"
      "job_id k \<notin> set (dict_keys (records m))" "set (map job_id ks) \<inter> set (dict_keys (records m)) = {}"
    if "distinct (map job_id (k # ks))" "set (map job_id (k # ks)) \<inter> set (dict_keys (records m)) = {}" for m :: metric_collector
    using that by auto
  have keys: "dict_keys (records (record_submit k m)) = dict_keys (records m) @ [job_id k]"
    if "job_id k \<notin> set (dict_keys (records m))" for m
    using that by (simp add: record_submit_def dict_keys_set_fresh)
  have disj: "set (map job_id ks) \<inter> set (dict_keys (records (record_submit k m))) = {}"
    if "distinct (map job_id (k # ks))" "set (map job_id (k # ks)) \<inter> set (dict_keys (records m)) = {}" for m
    using prems [OF that] keys by auto
  {
    case 1
    then show ?case
      using Cons.IH(1) [OF prems(1) [OF 1] disj [OF 1]] keys [OF prems(3) [OF 1]] by simp
  next
    case 2
    then show ?case
      using Cons.IH(2) [OF prems(1) [OF 2] disj [OF 2]] by (simp add: record_submit_def)
  next
    case 3
    then show ?case
      using Cons.IH(3) [OF _ prems(1) [OF 3(2,3)] disj [OF 3(2,3)]] by (simp add: record_submit_def)
  next
    case 4
    show ?case
    proof (cases "j = k")
      case True
      then show ?thesis
        using Cons.IH(3) [OF _ prems(1) [OF 4(2,3)] disj [OF 4(2,3)], where x = "job_id k"] prems(2) [OF 4(2,3)]
        by (simp add: record_submit_def)
    next
      case False
      then show ?thesis
        using Cons.IH(4) [OF _ prems(1) [OF 4(2,3)] disj [OF 4(2,3)]] 4(1) by simp
    qed
  }
qed


lemma run_init_inv:
  assumes jobs: "jobs_ok jobs" and c: "wf_cluster c" "active c = []" and lat: "latency_ok latency"
  shows "loop_inv jobs c (run_init jobs c latency)"
    and "jobs = [] \<or> rs_events (run_init jobs c latency) \<noteq> []"
proof -
  let ?s = "run_init jobs c latency"
  let ?h = "submit_events 0 (sort_key submit_ts jobs) []"
  have d: "distinct (map job_id jobs)"
    using jobs by (simp add: jobs_ok_def)
  have mem: "ev_kind e = Submit \<and> (\<exists>j \<in> set jobs. job_id j = ev_job e \<and> ev_time e = submit_ts j)"
    if "e \<in> set ?h" for e
    using submit_events_mem [OF that] by simp
  have ms: "mset (map ev_job ?h) = mset (map job_id jobs)"
    by (simp add: submit_events_jobs del: mset_map) simp
  have evs: "set (map ev_job ?h) = set (map job_id jobs)" "distinct (map ev_job ?h)"
    using mset_eq_setD [OF ms] mset_eq_imp_distinct_iff [OF ms] d by blast+
  note rec = submit_records [OF d, of empty_metrics]
  have "run_inv jobs c ?s"
  proof (rule run_invI)
    show "wf_cluster (rs_cluster ?s)" "same_frame c (rs_cluster ?s)" "latency_ok (rs_latency ?s)"
      using c(1) lat by (simp_all add: run_init_def same_frame_refl)
    show "sorted (map (\<lambda>e. (ev_time e, ev_seq e)) (rs_events ?s))"
      by (simp add: run_init_def submit_events_sorted)
    show "distinct (tokens ?s)" "set (rs_pending ?s) \<subseteq> set jobs"
      using evs(2) by (simp_all add: run_init_def tokens_def)
    show "x \<in> fst ` set (active (rs_cluster ?s)) \<longleftrightarrow> running (rs_events ?s) x" for x
      using mem c(2) by (auto simp: run_init_def running_def)
    show "dict_keys (records (rs_metrics ?s)) = map job_id jobs"
      using rec(1) by (simp add: run_init_def sample_util_def empty_metrics_def dict_keys_def)
    show "\<exists>j \<in> set jobs. job_id j = ev_job e \<and> (ev_kind e = Submit \<longrightarrow> ev_time e = submit_ts j)"
      if "e \<in> set (rs_events ?s)" for e
      using mem [of e] that by (auto simp: run_init_def)
    show "\<exists>r. map_of (records (rs_metrics ?s)) (job_id j) = Some r \<and>
        job_status (rs_events ?s) (rs_pending ?s) j r" if j: "j \<in> set jobs" for j
    proof -
      have "job_id j \<in> set (map ev_job ?h)"
        using j evs(1) by simp
      then have "waiting ?h [] (job_id j)"
        using mem by (auto simp: waiting_def)
      then show ?thesis
        using rec(4) [OF _ j] by (auto simp: run_init_def sample_util_def job_status_def empty_metrics_def dict_keys_def)
    qed
    show "samples_ok (rs_metrics ?s)"
      using rec(2) by (simp add: run_init_def sample_util_def samples_ok_def empty_metrics_def dict_keys_def)
  qed
  then show "loop_inv jobs c ?s"
    by (simp add: loop_inv_def run_init_def)
  show "jobs = [] \<or> rs_events ?s \<noteq> []"
    using evs(1) by (auto simp: run_init_def)
qed

section \<open>The end of a run\<close>

definition finished_record :: "job \<Rightarrow> job_record \<Rightarrow> bool" where
  "finished_record j r \<longleftrightarrow>
     (\<exists>st. submit_ts j \<le> st \<and> jr_start_ts r = Some st \<and> jr_end_ts r = Some (st + runtime j)) \<and>
     jr_submit_ts r = submit_ts j"

definition unstarted_record :: "job \<Rightarrow> job_record \<Rightarrow> bool" where
  "unstarted_record j r \<longleftrightarrow> jr_start_ts r = None \<and> jr_end_ts r = None \<and> jr_submit_ts r = submit_ts j"

lemma run_result:
  assumes jobs: "jobs_ok jobs" and cap: "0 \<le> cap" and lat: "latency_ok latency"
  obtains m left where "run jobs n g cap sched latency = Inr (m, empty_cluster n g cap)"
    "dict_keys (records m) = map job_id jobs" "samples_ok m" "set left \<subseteq> set jobs"
    "\<forall>j \<in> set jobs. \<exists>r. map_of (records m) (job_id j) = Some r \<and>
       (if j \<in> set left then unstarted_record j r else finished_record j r)"
    "sched_backfill sched \<longrightarrow> (\<forall>j \<in> set left. \<not> can_allocate (empty_cluster n g cap) j)"
    "left \<noteq> [] \<longrightarrow> (\<exists>j \<in> set left. \<not> can_allocate (empty_cluster n g cap) j)"
proof -
  let ?c = "empty_cluster n g cap"
  have wf: "wf_cluster ?c" and ca: "active ?c = []" and mps: "0 \<le> mps_per_gpu ?c"
    using empty_cluster_wf [OF cap] cap by (simp_all add: empty_cluster_def)
  note init = run_init_inv [OF jobs wf ca lat]
  have "stuck_ok (sched_backfill sched) (run_init jobs ?c latency) \<or> rs_events (run_init jobs ?c latency) \<noteq> []"
    using init(2) by (auto simp: stuck_ok_def run_init_def)
  then obtain s where s: "run_loop sched (jobs_by_id jobs) (run_init jobs ?c latency) = Inr s"
      "loop_inv jobs ?c s" "stuck_ok (sched_backfill sched) s" "rs_events s = []"
    using run_loop_inv [OF jobs mps init(1)] by blast
  have inv: "run_inv jobs ?c s"
    using s(2) by (simp add: loop_inv_def)
  note ri = run_invD [OF inv]
  have "active (rs_cluster s) = []"
    using ri(7) s(4) by (simp add: running_def)
  from idle_unique [OF wf ca ri(1) this ri(2)] have idle: "rs_cluster s = ?c" .
  let ?m = "rs_metrics (sample_now s)"
  have rec: "records ?m = records (rs_metrics s)"
    by (simp add: sample_now_def sample_util_def)
  show ?thesis
  proof (rule that)
    show "run jobs n g cap sched latency = Inr (?m, ?c)"
      by (simp add: run_def make_cluster_default s(1) idle)
    show "dict_keys (records ?m) = map job_id jobs"
      using ri(8) rec by simp
    show "samples_ok ?m"
      using ri(11) utilization_bounds [OF ri(1)] by (auto simp: samples_ok_def sample_now_def sample_util_def)
    show "set (rs_pending s) \<subseteq> set jobs"
      by (rule ri(6))
    show "\<forall>j \<in> set jobs. \<exists>r. map_of (records ?m) (job_id j) = Some r \<and>
       (if j \<in> set (rs_pending s) then unstarted_record j r else finished_record j r)"
    proof
      fix j assume j: "j \<in> set jobs"
      then obtain r where r: "map_of (records ?m) (job_id j) = Some r" "job_status [] (rs_pending s) j r"
        using ri(10) s(4) rec by fastforce
      have "waiting [] (rs_pending s) (job_id j) \<longleftrightarrow> j \<in> set (rs_pending s)"
        using job_id_inj [OF _ j] jobs ri(6) by (fastforce simp: waiting_def jobs_ok_def)
      then show "\<exists>r. map_of (records ?m) (job_id j) = Some r \<and>
          (if j \<in> set (rs_pending s) then unstarted_record j r else finished_record j r)"
        using r by (auto simp: job_status_def running_def unstarted_record_def finished_record_def)
    qed
    show "sched_backfill sched \<longrightarrow> (\<forall>j \<in> set (rs_pending s). \<not> can_allocate ?c j)"
      "rs_pending s \<noteq> [] \<longrightarrow> (\<exists>j \<in> set (rs_pending s). \<not> can_allocate ?c j)"
      using s(3) by (simp_all add: stuck_ok_def idle)
  qed
qed

end
