(* ===== verification/SimProps.thy ===== *)
theory SimProps
  imports SimRunnerFacts
begin

text \<open>
  The properties of the discrete-event simulator (\<^verbatim>\<open>sim/\<close> without the environment): the cluster
  ledger, the planners, the dispatch orders, the metrics and a whole run.
\<close>

section \<open>The cluster\<close>

text \<open>C8. From a freshly built cluster, any sequence of allocations (first-fit or placed) and
  releases keeps the ledger exact: the free slots of a GPU are its capacity minus what the active
  plans reserve on it and stay between zero and the capacity, the RAM used on a node is that of the
  jobs placed there and stays within the (overcommitted) budget, and the utilization is in [0, 1].\<close>

theorem cluster_ledger_exact:
  assumes "make_cluster n g cap speeds gtypes rams overcommit = Inr c0" "0 \<le> cap" "0 \<le> overcommit"
    "\<forall>r \<in> set (or_default rams n 1000000000). 0 \<le> r" "cluster_reach c0 c"
  shows "(\<forall>i<n. \<forall>k<g. free_at (nodes c) i k = cap - held_slots c i k \<and>
            0 \<le> free_at (nodes c) i k \<and> free_at (nodes c) i k \<le> cap) \<and>
    (\<forall>i<n. used_ram_gb (nodes c ! i) = held_ram c i \<and>
            used_ram_gb (nodes c ! i) \<le> ram_gb (nodes c ! i) * overcommit + 1 / 10 ^ 9) \<and>
    0 \<le> utilization c \<and> utilization c \<le> 1"
proof -
  have c0: "n_nodes c0 = n" "gpus_per_node c0 = g" "mps_per_gpu c0 = cap" "ram_overcommit c0 = overcommit"
    using assms(1) by (auto simp: make_cluster_def Let_def split: if_splits)
  have wf: "wf_cluster c" and fr: "same_frame c0 c"
    using cluster_reach_keeps [OF assms(5) make_cluster_wf [OF assms(1-4)]] assms(2) c0(3) by simp_all
  note frame = same_frame_simps [OF fr, unfolded c0]
  have "free_at (nodes c) i k = cap - held_slots c i k" "0 \<le> free_at (nodes c) i k"
      "free_at (nodes c) i k \<le> cap" if "i < n" "k < g" for i k
    using wf wf_free_bounds(2) [OF wf, of i k] that frame unfolding wf_cluster_def by metis+
  moreover have "used_ram_gb (nodes c ! i) = held_ram c i"
      "used_ram_gb (nodes c ! i) \<le> ram_gb (nodes c ! i) * overcommit + 1 / 10 ^ 9" if "i < n" for i
    using wf that frame unfolding wf_cluster_def ram_limit_def by metis+
  ultimately show ?thesis
    using utilization_bounds [OF wf] by blast
qed

theorem cluster_ledger_exact_witness:
  "free_at (nodes (empty_cluster 2 2 100)) 1 1 = 100 - held_slots (empty_cluster 2 2 100) 1 1 \<and>
   utilization (empty_cluster 2 2 100) \<le> 1"
  using cluster_ledger_exact [OF make_cluster_default, where cap = 100 and n = 2 and g = 2 and c = "empty_cluster 2 2 100"]
  by (auto simp: or_default_def cluster_reach.start)

text \<open>Releasing what was just allocated restores the cluster exactly: every GPU's free slots,
  every node's RAM, and the two dictionaries of active jobs.\<close>

lemma allocate_then_release:
  assumes "wf_cluster c" "0 \<le> mps_per_gpu c" "job_ok j" "job_id j \<notin> fst ` set (active c)"
    "try_allocate c j = Some (p, c1) \<or> try_allocate_on c j ni gi = Some (p, c1)"
  shows "release (job_id j) c1 = c"
  using assms first_fit.allocate_release [of c j p] placed.allocate_release [of c j ni gi p]
  by (auto simp: try_allocate_plan try_allocate_on_plan)

definition half_job :: job where
  "half_job = mk_job ''j'' ''u'' 1 ''rtx4070'' 0 60 0 50"

lemma half_job_ok: "job_ok half_job"
  by (simp add: half_job_def mk_job_def job_ok_def)

text \<open>C9. The planner is complete: it refuses a fractional job exactly when no GPU of a node with
  enough RAM has the slots, and a whole-GPU job exactly when the fully free GPUs on RAM-feasible
  nodes are fewer than it asks for. A plan it returns reserves only free slots on such nodes.\<close>

theorem planner_complete:
  assumes "wf_cluster c" "0 \<le> mps_per_gpu c" "job_ok j"
  shows "(plan_job c j = None \<longleftrightarrow>
      (if fractional c j
       then \<forall>i<n_nodes c. ram_ok c i (ram_req j) \<longrightarrow> (\<forall>k<gpus_per_node c. free_at (nodes c) i k < mps_req j)
       else whole_supply c j < gpu_count j \<and> 0 < gpu_count j)) \<and>
    (\<forall>p. plan_job c j = Some p \<longrightarrow> (\<forall>a \<in> set p. ram_ok c (a_node_id a) (ram_req j) \<and>
       (\<forall>k \<in> set (a_gpu_indices a). a_mps_per_gpu a \<le> free_at (nodes c) (a_node_id a) k)))"
  using plan_job_None [OF assms(1)] first_fit.fits [OF assms] by (auto simp: plan_fits_def)

theorem planner_complete_witness:
  "plan_job (empty_cluster 1 1 100) (half_job\<lparr>gpu_count := 2\<rparr>) = None"
proof -
  have "wf_cluster (empty_cluster 1 1 100)"
    by (rule empty_cluster_wf) simp
  then show ?thesis
    using planner_complete [of "empty_cluster 1 1 100" "half_job\<lparr>gpu_count := 2\<rparr>"]
    by (simp add: half_job_def mk_job_def job_ok_def fractional_def whole_supply_def gpu_supply_def
        ram_nodes_def ram_ok_def free_whole_gpus_def empty_cluster_def)
qed

text \<open>The two planners agree on feasibility: a job can be allocated exactly when some (node, GPU)
  preference admits it, so a mask over placements is empty only for a job the cluster cannot take.\<close>

lemma can_allocate_iff_some_placement:
  assumes "wf_cluster c" "0 < n_nodes c" "0 < gpus_per_node c"
  shows "can_allocate c j \<longleftrightarrow> (\<exists>ni<n_nodes c. \<exists>gi<gpus_per_node c. can_allocate_on c j ni gi)"
  using assms by (rule can_allocate_iff_on)

section \<open>Dispatch orders and scores\<close>

text \<open>Every scheduler of the registry returns the pending jobs rearranged, none lost or doubled,
  and sorted by its documented key (ties by submit time, then by id).\<close>

lemma dispatch_orders_sorted:
  "mset (sched_order s pending c now) = mset pending \<and>
   (case s of
      FCFS \<Rightarrow> sorted (map (\<lambda>j. (submit_ts j, job_id j)) (sched_order s pending c now))
    | Multifactor p \<Rightarrow> sorted (map (\<lambda>j. (- mf_priority p j now (max_gpu_count pending), submit_ts j, job_id j))
        (sched_order s pending c now))
    | Score p \<Rightarrow> sorted (map (\<lambda>j. (- (mf_priority (sp_mf p) j now (max_gpu_count pending)
        + sp_score_gain p * score p j c), submit_ts j, job_id j)) (sched_order s pending c now))
    | FixedPriority d \<Rightarrow> sorted (map (\<lambda>j. (dict_get d (job_id j) (2 ^ 30), submit_ts j, job_id j))
        (sched_order s pending c now)))"
  using sched.order_mset [of s pending c now]
  by (cases s) (simp_all add: fcfs_order_def multifactor_order_def fixed_priority_order_def score_order_def
      score_key_def [abs_def])

lemma sort_Nil_iff: "sort xs = [] \<longleftrightarrow> xs = []"
  by (metis length_0_conv length_sort)

lemma clamp01_bounds: "0 \<le> clamp01 x \<and> clamp01 x \<le> 1"
  by (simp add: clamp01_def)

text \<open>The submit-time score mirrored by the Lua plugin is a number in [0, 1] whatever the job
  asks for and whatever the weights, and so are its factors; only an empty list of VRAM tiers is
  an error.\<close>

lemma submit_score_bounded:
  "case submit_score_factors tres features mps tiers alpha beta gamma delta epsilon pred of
     Inl e \<Rightarrow> e = ValueError \<and> tiers = []
   | Inr f \<Rightarrow> tiers \<noteq> [] \<and> 0 \<le> ss_score f \<and> ss_score f \<le> 1 \<and> 0 \<le> ss_mps_fit f \<and> ss_mps_fit f \<le> 1 \<and>
       0 \<le> ss_vram_fit f \<and> ss_vram_fit f \<le> 1 \<and> 0 \<le> ss_fragmentation f \<and> ss_fragmentation f \<le> 1"
  using clamp01_bounds sort_Nil_iff [of tiers]
  by (auto simp: submit_score_factors_def Let_def split: option.split)

section \<open>Metrics\<close>

lemma util_sums_bounds:
  "\<forall>x \<in> set xs. 0 \<le> snd x \<and> snd x \<le> 1 \<Longrightarrow> 0 \<le> fst (util_sums xs) \<and> fst (util_sums xs) \<le> snd (util_sums xs)"
proof (induction xs rule: util_sums.induct)
  case (1 t0 f0 t1 f1 rest)
  obtain w t where wt: "util_sums ((t1, f1) # rest) = (w, t)"
    by fastforce
  have ih: "0 \<le> w" "w \<le> t"
    using 1 wt by auto
  show ?case
  proof (cases "0 < t1 - t0")
    case True
    have "0 \<le> f0 * (t1 - t0)" "f0 * (t1 - t0) \<le> 1 * (t1 - t0)"
      using True 1(2) by (auto intro: mult_right_mono)
    then have "0 \<le> f0 * (t1 - t0) + w \<and> f0 * (t1 - t0) + w \<le> (t1 - t0) + t"
      using ih unfolding mult_1_left by linarith
    moreover have "util_sums ((t0, f0) # (t1, f1) # rest) = (f0 * (t1 - t0) + w, (t1 - t0) + t)"
      using True wt by simp
    ultimately show ?thesis by (simp only: fst_conv snd_conv)
  next
    case False
    with wt ih show ?thesis by simp
  qed
qed auto

lemma mean_utilization_bounds:
  assumes "\<forall>x \<in> set xs. 0 \<le> snd x \<and> snd x \<le> 1"
  shows "0 \<le> mean_utilization xs \<and> mean_utilization xs \<le> 1"
proof -
  obtain w t where wt: "util_sums xs = (w, t)"
    by fastforce
  with util_sums_bounds [OF assms] show ?thesis
    by (simp add: mean_utilization_def divide_simps)
qed

section \<open>A run\<close>



end
