(* ===== verification/SimGym.thy ===== *)
theory SimGym
  imports SimRunner
begin

text \<open>
  The scheduling environment the policy is trained in (\<^verbatim>\<open>sim/gym_env.py\<close>): the observation, the
  action codec and mask with its two ablations, and the step function over the simulator's
  cluster. The random generators are the parameter \<open>noise\<close>: keyed draws for a seeded episode, the
  stream of the episode's generator (read at a position the environment keeps) for a seedless
  one. The lazily built score scheduler is the stateless \<open>score_order score_defaults\<close>. Actions,
  node and GPU indices are naturals; \<^verbatim>\<open>np.log1p\<close>, \<^verbatim>\<open>exp\<close>, \<^verbatim>\<open>sqrt\<close>, \<^verbatim>\<open>sin\<close> and \<^verbatim>\<open>cos\<close> are the real
  functions.
\<close>

section \<open>Layout\<close>

definition TOP_K :: nat where "TOP_K = 16"
definition JOB_FEAT_DIM :: nat where "JOB_FEAT_DIM = 9"
definition GPU_FEAT_DIM :: nat where "GPU_FEAT_DIM = 7"
definition TOPO_FEAT_DIM :: nat where "TOPO_FEAT_DIM = 4"
definition GLOBAL_FEAT_DIM :: nat where "GLOBAL_FEAT_DIM = 6"
definition N_NODES :: nat where "N_NODES = 1"
definition N_GPUS :: nat where "N_GPUS = 1"
definition N_PLACEMENTS :: nat where "N_PLACEMENTS = N_NODES * N_GPUS"
definition N_ACTIONS :: nat where "N_ACTIONS = TOP_K * N_PLACEMENTS + 1"
definition NO_OP :: nat where "NO_OP = N_ACTIONS - 1"
definition MIN_RUNTIME_S :: real where "MIN_RUNTIME_S = 1"
definition RAM_REF_GB :: real where "RAM_REF_GB = 4"
definition MODE_ISOLATE :: nat where "MODE_ISOLATE = 1"

definition GPU_TYPES :: "string list" where
  "GPU_TYPES = [''rtx4070'', ''rtx3080'']"

definition SPEED_MATRIX :: "(string, (string, real) dict) dict" where
  "SPEED_MATRIX =
     [(''rtx4070'', [(''inference'', 1), (''training'', 1), (''llm'', 1), (''batch'', 1)]),
      (''rtx3080'', [(''inference'', 109 / 100), (''training'', 118 / 100), (''llm'', 117 / 100),
                     (''batch'', 110 / 100)])]"

definition env_dims :: "nat \<Rightarrow> nat \<Rightarrow> nat \<Rightarrow> bool \<Rightarrow> nat \<times> nat" where
  "env_dims n g k colocation =
     (k * JOB_FEAT_DIM + n * g * GPU_FEAT_DIM + TOPO_FEAT_DIM + GLOBAL_FEAT_DIM,
      k * n * g * (if colocation then 2 else 1) + 1)"

lemmas layout_defs = TOP_K_def JOB_FEAT_DIM_def GPU_FEAT_DIM_def TOPO_FEAT_DIM_def GLOBAL_FEAT_DIM_def
  N_NODES_def N_GPUS_def N_PLACEMENTS_def N_ACTIONS_def NO_OP_def

section \<open>Features\<close>

definition log1p :: "real \<Rightarrow> real" where
  "log1p x = ln (1 + x)"

definition one_hot :: "string \<Rightarrow> real list" where
  "one_hot t = map (\<lambda>g. if t = g then 1 else 0) GPU_TYPES"

definition job_feat :: "job \<Rightarrow> real \<Rightarrow> int \<Rightarrow> real list" where
  "job_feat j now cap =
     (let wait = max 0 (now - submit_ts j) in
      [of_int (mps_req j) / of_int cap, of_int (gpu_count j)] @ one_hot (gpu_type j) @
      [log1p (runtime j), log1p wait, ram_req j / RAM_REF_GB,
       (if slo_s j > 0 then wait / slo_s j else 0),
       (if job_class j = ''inference'' then 1 else 0)])"

definition running_on :: "cluster \<Rightarrow> nat \<Rightarrow> nat \<Rightarrow> nat" where
  "running_on c ni gi =
     length (filter (\<lambda>a. a_node_id a = ni \<and> gi \<in> set (a_gpu_indices a)) (concat (dict_values (active c))))"

definition gpu_feat :: "cluster \<Rightarrow> nat \<Rightarrow> nat \<Rightarrow> real list" where
  "gpu_feat c ni gi =
     (let n = nodes c ! ni; g = gpus n ! gi;
          free_ratio = of_int (free_mps g) / of_int (mps_per_gpu c)
      in [free_ratio, free_ratio, real (running_on c ni gi), free_ram_ratio n] @
         one_hot (node_gpu_type n) @ [if node_gpu_type n \<in> set GPU_TYPES then 0 else 1])"

definition topo_feat :: "job list \<Rightarrow> cluster \<Rightarrow> real list" where
  "topo_feat pending c =
     (let min_free_ram = (case map free_ram_ratio (nodes c) of [] \<Rightarrow> 1 | r # rs \<Rightarrow> foldl min r rs);
          n = max 1 (real (length pending));
          heavy = length (filter (\<lambda>j. 2 \<le> ram_req j) pending);
          ddp = length (filter (\<lambda>j. 1 < gpu_count j) pending);
          cross = length (filter (\<lambda>p. 1 < length (plan_hosts p)) (dict_values (active c)))
      in [min_free_ram, real heavy / n, real ddp / n, real cross])"

definition predictor_spread :: "job list \<Rightarrow> real" where
  "predictor_spread pending =
     (if 2 \<le> length pending then
        (let rts = sort (map runtime pending); n = length rts;
             p50 = rts ! (n div 2); p90 = rts ! min (9 * n div 10) (n - 1)
         in if p50 > 0 then p90 / p50 else 1)
      else 1)"

text \<open>The deviation around a mean that is floored at one slot, as \<^verbatim>\<open>_global_feat\<close> and
  \<^verbatim>\<open>_placement_reward\<close> compute it.\<close>

definition floored_cv :: "real list \<Rightarrow> real" where
  "floored_cv xs =
     (let m = max 1 (mean xs);
          var = sum_list (map (\<lambda>x. (x - m)\<^sup>2) xs) / real (length xs)
      in sqrt var / m)"

definition global_feat :: "job list \<Rightarrow> cluster \<Rightarrow> real \<Rightarrow> real list" where
  "global_feat pending c now =
     (let frag = (if n_nodes c > 1 then floored_cv (map of_int (free_mps_per_node c)) else 0);
          tod = py_fmod now 86400 / 86400
      in [log1p (real (length pending)), predictor_spread pending, frag,
          sin (2 * pi * tod), cos (2 * pi * tod), 0])"

section \<open>The module's codec of the default layout\<close>

definition encode_action :: "nat \<Rightarrow> nat \<Rightarrow> nat \<Rightarrow> nat" where
  "encode_action job_i node_j gpu_k = job_i * N_PLACEMENTS + node_j * N_GPUS + gpu_k"

definition decode_action :: "nat \<Rightarrow> py_error + (nat \<times> nat \<times> nat)" where
  "decode_action a =
     (if a = NO_OP then Inl ValueError
      else let job_i = a div N_PLACEMENTS; r = a mod N_PLACEMENTS
           in Inr (job_i, r div N_GPUS, r mod N_GPUS))"

section \<open>The environment\<close>

record env_cfg =
  ec_nodes :: nat
  ec_gpus :: nat
  ec_cap :: int
  ec_top_k :: nat
  ec_max_steps :: nat
  ec_reward_mode :: string
  ec_reward_scale :: real
  ec_placement_scale :: real
  ec_potential :: bool
  ec_balance :: real
  ec_fairness :: real
  ec_speeds :: "real list option"
  ec_gpu_types :: "string list option"
  ec_rams :: "real list option"
  ec_sigma :: real
  ec_interference :: real
  ec_oom_sigma :: real
  ec_oom_penalty :: real
  ec_overcommit :: real
  ec_colocation :: bool
  ec_slo_penalty :: real
  ec_noop_penalty :: real
  ec_ablation :: "string option"

record gym_state =
  gs_cluster :: cluster
  gs_pending :: "job list"
  gs_events :: "event list"
  gs_seq :: nat
  gs_now :: real
  gs_by_id :: "(string, job) dict"
  gs_completed :: nat
  gs_n_jobs :: nat
  gs_jct_sum :: real
  gs_completion_reward :: real
  gs_jcts :: "real list"
  gs_jct_records :: "(string \<times> real) list"

record env =
  en_cfg :: env_cfg
  en_steps :: nat
  en_state :: "gym_state option"
  en_seed :: "int option"
  en_draws :: nat
  en_oom_events :: nat

record noise =
  nz_runtime :: "int \<Rightarrow> string \<Rightarrow> real"
  nz_ram :: "int \<Rightarrow> string \<Rightarrow> real"
  nz_stream :: "nat \<Rightarrow> real"

definition none_if_empty :: "'a list option \<Rightarrow> 'a list option" where
  \<comment> \<open>\<^verbatim>\<open>list(xs) if xs else None\<close>\<close>
  "none_if_empty xs = (if xs = Some [] then None else xs)"

definition make_env :: "env_cfg \<Rightarrow> py_error + env" where
  "make_env cfg =
     (if ec_ablation cfg \<notin> {None, Some ''placement_only'', Some ''job_only''} then Inl ValueError
      else if ec_reward_mode cfg \<notin> {''jct_aligned'', ''mo''} then Inl ValueError
      else Inr \<lparr>en_cfg = cfg\<lparr>ec_speeds := none_if_empty (ec_speeds cfg),
                  ec_gpu_types := none_if_empty (ec_gpu_types cfg),
                  ec_rams := none_if_empty (ec_rams cfg)\<rparr>,
                en_steps = 0, en_state = None, en_seed = None, en_draws = 0, en_oom_events = 0\<rparr>)"

definition n_modes :: "env_cfg \<Rightarrow> nat" where
  "n_modes cfg = (if ec_colocation cfg then 2 else 1)"

definition n_placements :: "env_cfg \<Rightarrow> nat" where
  "n_placements cfg = ec_nodes cfg * ec_gpus cfg"

definition n_act :: "env_cfg \<Rightarrow> nat" where
  "n_act cfg = ec_top_k cfg * ec_nodes cfg * ec_gpus cfg * n_modes cfg + 1"

definition no_op :: "env_cfg \<Rightarrow> nat" where
  "no_op cfg = n_act cfg - 1"

definition encode :: "env_cfg \<Rightarrow> nat \<Rightarrow> nat \<Rightarrow> nat \<Rightarrow> nat" where
  "encode cfg job_i placement mode = (job_i * n_placements cfg + placement) * n_modes cfg + mode"

definition decode :: "env_cfg \<Rightarrow> nat \<Rightarrow> nat \<times> nat \<times> nat \<times> nat" where
  "decode cfg a =
     (let mode = a mod n_modes cfg; pj = a div n_modes cfg;
          job_i = pj div n_placements cfg; r = pj mod n_placements cfg
      in (job_i, r div ec_gpus cfg, r mod ec_gpus cfg, mode))"

definition top_k_jobs :: "env_cfg \<Rightarrow> gym_state \<Rightarrow> job list" where
  "top_k_jobs cfg s = take (ec_top_k cfg) (sort_key submit_ts (gs_pending s))"

section \<open>The action mask\<close>

text \<open>The loop nest over jobs, nodes, GPUs and modes: the index of every pair that passes the
  tests, in the order the loops visit them.\<close>

definition mode_legal :: "env_cfg \<Rightarrow> gym_state \<Rightarrow> nat \<Rightarrow> nat \<Rightarrow> nat \<Rightarrow> bool" where
  "mode_legal cfg s nj gk mode \<longleftrightarrow>
     \<not> (mode = MODE_ISOLATE \<and>
        free_mps (gpus (nodes (gs_cluster s) ! nj) ! gk) \<noteq> mps_per_gpu (gs_cluster s))"

definition legal_actions :: "env_cfg \<Rightarrow> gym_state \<Rightarrow> nat list" where
  "legal_actions cfg s =
     (let tk = top_k_jobs cfg s in
      concat (map (\<lambda>i. concat (map (\<lambda>nj. concat (map (\<lambda>gk.
        if \<not> can_allocate_on (gs_cluster s) (tk ! i) nj gk then []
        else map (\<lambda>mode. encode cfg i (nj * ec_gpus cfg + gk) mode)
               (filter (mode_legal cfg s nj gk) [0..<n_modes cfg]))
        [0..<ec_gpus cfg])) [0..<ec_nodes cfg])) [0..<length tk]))"

definition set_bits :: "nat list \<Rightarrow> bool list \<Rightarrow> bool list" where
  "set_bits as m = foldl (\<lambda>m a. m[a := True]) m as"

definition flatnonzero :: "bool list \<Rightarrow> nat list" where
  "flatnonzero m = filter (\<lambda>a. m ! a) [0..<length m]"

definition base_mask :: "env_cfg \<Rightarrow> gym_state \<Rightarrow> bool list" where
  "base_mask cfg s = (set_bits (legal_actions cfg s) (replicate (n_act cfg) False))[no_op cfg := True]"

fun first_legal_job :: "(string \<Rightarrow> nat option) \<Rightarrow> nat list \<Rightarrow> nat \<Rightarrow> job list \<Rightarrow> nat" where
  "first_legal_job idx legal_jobs fallback [] = fallback"
| "first_legal_job idx legal_jobs fallback (j # js) =
     (case idx (job_id j) of
        Some i \<Rightarrow> if i \<in> set legal_jobs then i else first_legal_job idx legal_jobs fallback js
      | None \<Rightarrow> first_legal_job idx legal_jobs fallback js)"

fun index_of :: "'a \<Rightarrow> 'a list \<Rightarrow> nat option" where
  "index_of x [] = None"
| "index_of x (y # ys) = (if x = y then Some 0 else map_option Suc (index_of x ys))"

definition ablation_head_index :: "env_cfg \<Rightarrow> gym_state \<Rightarrow> job list \<Rightarrow> nat list \<Rightarrow> nat" where
  "ablation_head_index cfg s tk legal =
     first_legal_job (\<lambda>x. index_of x (map job_id tk)) (map (\<lambda>a. fst (decode cfg a)) legal)
       (fst (decode cfg (hd legal)))
       (score_order score_defaults (gs_pending s) (gs_cluster s) (gs_now s))"

definition first_per_job :: "env_cfg \<Rightarrow> nat list \<Rightarrow> nat list" where
  "first_per_job cfg legal =
     dict_values (foldl (\<lambda>kept a. let job_i = fst (decode cfg a) in
        if dict_has job_i kept then kept else dict_set job_i a kept) [] legal)"

definition restrict_mask_for_ablation :: "env_cfg \<Rightarrow> gym_state \<Rightarrow> bool list \<Rightarrow> job list \<Rightarrow> bool list" where
  "restrict_mask_for_ablation cfg s msk tk =
     (let legal = filter (\<lambda>a. a \<noteq> no_op cfg) (flatnonzero msk);
          zeros = replicate (length msk) False
      in if legal = [] then msk
         else if ec_ablation cfg = Some ''job_only'' then
           (set_bits (first_per_job cfg legal) zeros)[no_op cfg := True]
         else
           (let head = ablation_head_index cfg s tk legal in
            (set_bits (filter (\<lambda>a. fst (decode cfg a) = head) legal) zeros)[no_op cfg := True]))"

definition action_mask :: "env_cfg \<Rightarrow> gym_state \<Rightarrow> bool list" where
  "action_mask cfg s =
     (if ec_ablation cfg = None then base_mask cfg s
      else restrict_mask_for_ablation cfg s (base_mask cfg s) (top_k_jobs cfg s))"

text \<open>The warm-up heuristic; \<open>choice\<close> is the element \<^verbatim>\<open>rng.choice\<close> picks from a list.\<close>

fun warmup_pick :: "env_cfg \<Rightarrow> gym_state \<Rightarrow> bool list \<Rightarrow> nat \<Rightarrow> job list \<Rightarrow> nat" where
  "warmup_pick cfg s msk act [] = act"
| "warmup_pick cfg s msk act (j # js) =
     (case index_of (job_id j) (map job_id (gs_pending s)) of
        None \<Rightarrow> warmup_pick cfg s msk act js
      | Some i \<Rightarrow>
          let cand = encode cfg i 0 0 in
          if cand < length msk \<and> msk ! cand then cand else warmup_pick cfg s msk act js)"

definition score_warmup_action :: "env \<Rightarrow> bool list \<Rightarrow> (nat list \<Rightarrow> nat) \<Rightarrow> nat" where
  "score_warmup_action en msk choice =
     (let legal = flatnonzero msk in
      if legal = [] then no_op (en_cfg en)
      else case en_state en of
             None \<Rightarrow> choice legal
           | Some s \<Rightarrow>
               if gs_pending s = [] then choice legal
               else warmup_pick (en_cfg en) s msk (choice legal)
                      (score_order score_defaults (gs_pending s) (gs_cluster s) (gs_now s)))"

section \<open>Realized run times\<close>

definition lognormal :: "real \<Rightarrow> real \<Rightarrow> real" where
  \<comment> \<open>mean-preserving: \<^verbatim>\<open>exp(sigma * z - sigma^2 / 2)\<close>\<close>
  "lognormal sigma z = exp (sigma * z - 1 / 2 * sigma\<^sup>2)"

definition job_noise :: "noise \<Rightarrow> env \<Rightarrow> string \<Rightarrow> real \<times> env" where
  "job_noise nz en jid =
     (case en_seed en of
        None \<Rightarrow> (nz_stream nz (en_draws en), en\<lparr>en_draws := en_draws en + 1\<rparr>)
      | Some seed \<Rightarrow> (nz_runtime nz seed jid, en))"

definition ram_peak :: "noise \<Rightarrow> env \<Rightarrow> string \<Rightarrow> real \<Rightarrow> real \<times> env" where
  "ram_peak nz en jid r =
     (if r \<le> 0 \<or> ec_oom_sigma (en_cfg en) \<le> 0 then (r, en)
      else (case en_seed en of
              None \<Rightarrow> (r * lognormal (ec_oom_sigma (en_cfg en)) (nz_stream nz (en_draws en)),
                       en\<lparr>en_draws := en_draws en + 1\<rparr>)
            | Some seed \<Rightarrow> (r * lognormal (ec_oom_sigma (en_cfg en)) (nz_ram nz seed jid), en)))"

definition co_residents :: "cluster \<Rightarrow> allocation list \<Rightarrow> string \<Rightarrow> nat" where
  "co_residents c plan jid =
     (let gpus_of = (\<lambda>p. concat (map (\<lambda>a. map (Pair (a_node_id a)) (a_gpu_indices a)) p))
      in length (remdups (map fst (filter
           (\<lambda>e. fst e \<noteq> jid \<and> (\<exists>g \<in> set (gpus_of (snd e)). g \<in> set (gpus_of plan))) (active c)))))"

fun peak_sum :: "noise \<Rightarrow> cluster \<Rightarrow> nat \<Rightarrow> (string \<times> allocation list) list \<Rightarrow> real \<Rightarrow> env \<Rightarrow> real \<times> env" where
  "peak_sum nz c ni [] acc en = (acc, en)"
| "peak_sum nz c ni ((jid, p) # rest) acc en =
     (if ni \<in> a_node_id ` set p then
        (case ram_peak nz en jid (dict_get (active_ram c) jid 0) of
           (x, en') \<Rightarrow> peak_sum nz c ni rest (acc + x) en')
      else peak_sum nz c ni rest acc en)"

fun oom_scan :: "noise \<Rightarrow> cluster \<Rightarrow> nat list \<Rightarrow> env \<Rightarrow> real \<times> env" where
  "oom_scan nz c [] en = (0, en)"
| "oom_scan nz c (ni # nis) en =
     (case peak_sum nz c ni (active c) 0 en of
        (tot, en') \<Rightarrow>
          if tot > ram_gb (nodes c ! ni) + 1 / 10 ^ 9
          then (ec_oom_penalty (en_cfg en'), en'\<lparr>en_oom_events := en_oom_events en' + 1\<rparr>)
          else oom_scan nz c nis en')"

definition oom_penalty :: "noise \<Rightarrow> env \<Rightarrow> allocation list \<Rightarrow> cluster \<Rightarrow> real \<times> env" where
  "oom_penalty nz en plan c = oom_scan nz c (plan_hosts plan) en"

definition card_speed :: "job \<Rightarrow> allocation list \<Rightarrow> cluster \<Rightarrow> real" where
  "card_speed j plan c =
     (let n = nodes c ! (case plan of [] \<Rightarrow> 0 | a # _ \<Rightarrow> a_node_id a) in
      case (node_gpu_types c, map_of SPEED_MATRIX (node_gpu_type n)) of
        (Some _, Some row) \<Rightarrow> dict_get row (job_class j) 1
      | _ \<Rightarrow> speed n)"

definition realized_runtime :: "noise \<Rightarrow> env \<Rightarrow> job \<Rightarrow> allocation list \<Rightarrow> cluster \<Rightarrow> real \<times> env" where
  "realized_runtime nz en j plan c =
     (let cfg = en_cfg en; sp = card_speed j plan c;
          base0 = (if sp \<noteq> 1 then max MIN_RUNTIME_S (runtime j / sp) else runtime j);
          (base1, en1) =
            (if ec_sigma cfg > 0 \<or> ec_interference cfg > 0 then
               (let m0 = (if ec_interference cfg > 0
                          then 1 + ec_interference cfg * real (co_residents c plan (job_id j)) else 1);
                    (m1, en') =
                      (if ec_sigma cfg > 0
                       then (case job_noise nz en (job_id j) of
                               (z, en') \<Rightarrow> (m0 * lognormal (ec_sigma cfg) z, en'))
                       else (m0, en))
                in (max MIN_RUNTIME_S (base0 * m1), en'))
             else (base0, en));
          (base2, en2) =
            (if ec_oom_penalty cfg > 0
             then (case oom_penalty nz en1 plan c of (x, en') \<Rightarrow> (base1 + x, en'))
             else (base1, en1))
      in (max MIN_RUNTIME_S base2, en2))"

section \<open>Events and rewards\<close>

definition late_penalty :: "env_cfg \<Rightarrow> job \<Rightarrow> real \<Rightarrow> real" where
  "late_penalty cfg j jct =
     (if ec_slo_penalty cfg > 0 \<and> slo_s j > 0 \<and> jct > slo_s j
      then - ec_slo_penalty cfg * (jct - slo_s j) / ec_reward_scale cfg else 0)"

definition completion_term :: "env_cfg \<Rightarrow> job \<Rightarrow> real \<Rightarrow> real" where
  "completion_term cfg j jct =
     - jct / ec_reward_scale cfg
     + (if ec_fairness cfg > 0 then - ec_fairness cfg * (jct / ec_reward_scale cfg)\<^sup>2 else 0)
     + late_penalty cfg j jct"

definition on_job_end :: "env_cfg \<Rightarrow> string \<Rightarrow> gym_state \<Rightarrow> py_error + gym_state" where
  "on_job_end cfg jid s =
     (case map_of (gs_by_id s) jid of
        None \<Rightarrow> Inl KeyError
      | Some j \<Rightarrow>
          let jct = gs_now s - submit_ts j in
          Inr (s\<lparr>gs_cluster := release jid (gs_cluster s), gs_completed := gs_completed s + 1,
                 gs_jct_sum := gs_jct_sum s + jct, gs_jcts := gs_jcts s @ [jct],
                 gs_jct_records := gs_jct_records s @ [(jid, jct)],
                 gs_completion_reward := gs_completion_reward s + completion_term cfg j jct\<rparr>))"

definition pop_event :: "env_cfg \<Rightarrow> gym_state \<Rightarrow> py_error + gym_state" where
  \<comment> \<open>\<^verbatim>\<open>heappop\<close> and the two kinds of event; the heap is not empty\<close>
  "pop_event cfg s0 =
     (case gs_events s0 of
        [] \<Rightarrow> Inl IndexError
      | e # es \<Rightarrow>
          let s = s0\<lparr>gs_events := es, gs_now := ev_time e\<rparr> in
          case ev_kind e of
            Submit \<Rightarrow> (case map_of (gs_by_id s) (ev_job e) of
                         None \<Rightarrow> Inl KeyError
                       | Some j \<Rightarrow> Inr (s\<lparr>gs_pending := gs_pending s @ [j]\<rparr>))
          | End \<Rightarrow> on_job_end cfg (ev_job e) s)"

lemma pop_event_length: "pop_event cfg s = Inr s' \<Longrightarrow> length (gs_events s) = Suc (length (gs_events s'))"
  by (auto simp: pop_event_def on_job_end_def Let_def
      split: list.splits event_kind.splits option.splits)

definition at_decision :: "gym_state \<Rightarrow> bool" where
  "at_decision s \<longleftrightarrow> (\<exists>j \<in> set (gs_pending s). can_allocate (gs_cluster s) j)"

function advance_to_decision :: "env_cfg \<Rightarrow> gym_state \<Rightarrow> py_error + gym_state" where
  "advance_to_decision cfg s =
     (if gs_events s = [] \<or> at_decision s then Inr s
      else case pop_event cfg s of
             Inl e \<Rightarrow> Inl e
           | Inr s' \<Rightarrow> advance_to_decision cfg s')"
  by pat_completeness auto
termination
  by (relation "measure (\<lambda>(cfg, s). length (gs_events s))") (auto dest: pop_event_length)

declare advance_to_decision.simps [simp del]

definition placement_reward :: "env_cfg \<Rightarrow> job \<Rightarrow> nat \<Rightarrow> nat \<Rightarrow> cluster \<Rightarrow> real" where
  "placement_reward cfg j node_j gpu_k c =
     (let remaining = free_mps (gpus (nodes c ! node_j) ! gpu_k) - mps_req j;
          mps_fit = 1 - of_int remaining / of_int (mps_per_gpu c);
          free_all = concat (map (\<lambda>ni. map (\<lambda>gi. of_int (free_mps (gpus (nodes c ! ni) ! gi)))
                       [0..<gpus_per_node c]) [0..<n_nodes c])
      in (4 / 10 * mps_fit - 2 / 10 * floored_cv free_all) * ec_placement_scale cfg)"

definition imbalance :: "env_cfg \<Rightarrow> gym_state \<Rightarrow> real" where
  "imbalance cfg s =
     (let per_node = map of_int (free_mps_per_node (gs_cluster s)) in
      if length per_node < 2 then 0 else pstdev per_node / max 1 (of_int (ec_cap cfg)))"

definition potential :: "env_cfg \<Rightarrow> gym_state \<Rightarrow> real" where
  "potential cfg s =
     (let n = max 1 (real (gs_n_jobs s));
          phi = - sum_list (map (\<lambda>j. max 0 (gs_now s - submit_ts j)) (gs_pending s))
                / (ec_reward_scale cfg * n)
      in if ec_balance cfg > 0 \<and> n_nodes (gs_cluster s) > 1
         then phi - ec_balance cfg * imbalance cfg s else phi)"

definition build_obs :: "env_cfg \<Rightarrow> gym_state \<Rightarrow> real list" where
  "build_obs cfg s =
     (let tk = top_k_jobs cfg s; c = gs_cluster s in
      concat (map (\<lambda>i. if i < length tk then job_feat (tk ! i) (gs_now s) (ec_cap cfg)
                       else replicate JOB_FEAT_DIM 0) [0..<ec_top_k cfg]) @
      concat (map (\<lambda>ni. concat (map (\<lambda>gi.
          if ni < n_nodes c \<and> gi < gpus_per_node c then gpu_feat c ni gi
          else replicate GPU_FEAT_DIM 0) [0..<ec_gpus cfg])) [0..<ec_nodes cfg]) @
      topo_feat (gs_pending s) c @ global_feat (gs_pending s) c (gs_now s))"

section \<open>Reset and step\<close>

definition reset_state :: "env_cfg \<Rightarrow> job list \<Rightarrow> cluster \<Rightarrow> gym_state" where
  "reset_state cfg jobs c =
     \<lparr>gs_cluster = c, gs_pending = [], gs_events = submit_events 0 (sort_key submit_ts jobs) [],
      gs_seq = length jobs, gs_now = 0, gs_by_id = jobs_by_id jobs, gs_completed = 0,
      gs_n_jobs = length jobs, gs_jct_sum = 0, gs_completion_reward = 0, gs_jcts = [],
      gs_jct_records = []\<rparr>"

definition reset_env :: "int option \<Rightarrow> job list \<Rightarrow> env \<Rightarrow> py_error + (real list \<times> env)" where
  \<comment> \<open>\<open>jobs\<close> is what \<^verbatim>\<open>jobs_factory()\<close> returns\<close>
  "reset_env seed jobs en =
     (let cfg = en_cfg en in
      case make_cluster (ec_nodes cfg) (ec_gpus cfg) (ec_cap cfg) (ec_speeds cfg) (ec_gpu_types cfg)
             (ec_rams cfg) (ec_overcommit cfg) of
        Inl e \<Rightarrow> Inl e
      | Inr c \<Rightarrow>
          (case advance_to_decision cfg (reset_state cfg jobs c) of
             Inl e \<Rightarrow> Inl e
           | Inr s \<Rightarrow> Inr (build_obs cfg s,
               en\<lparr>en_seed := seed, en_draws := 0, en_oom_events := 0, en_steps := 0,
                  en_state := Some s\<rparr>)))"

text \<open>The action part of \<^verbatim>\<open>step\<close>: the new environment and state, the placement reward and whether
  a job was scheduled.\<close>

definition apply_action :: "noise \<Rightarrow> nat \<Rightarrow> env \<Rightarrow> gym_state \<Rightarrow> env \<times> gym_state \<times> real \<times> bool" where
  "apply_action nz action en s =
     (let cfg = en_cfg en; tk = top_k_jobs cfg s; c = gs_cluster s in
      if action \<noteq> no_op cfg then
        (let (job_i, node_j, gpu_k, mode) = decode cfg action in
         if job_i < length tk then
           (let chosen = tk ! job_i in
            case try_allocate_on c chosen node_j gpu_k of
              Some (plan, c') \<Rightarrow>
                (case realized_runtime nz en chosen plan c' of
                   (realized, en') \<Rightarrow>
                     (en', s\<lparr>gs_cluster := c', gs_pending := py_remove chosen (gs_pending s),
                             gs_events := heap_push \<lparr>ev_time = gs_now s + realized, ev_seq = gs_seq s,
                                            ev_kind = End, ev_job = job_id chosen\<rparr> (gs_events s),
                             gs_seq := gs_seq s + 1\<rparr>,
                      placement_reward cfg chosen node_j gpu_k c', True))
            | None \<Rightarrow> (en, s, - 1 / 100, False))
         else (en, s, - 1 / 100, False))
      else if ec_noop_penalty cfg > 0 \<and> (\<exists>j \<in> set tk. can_allocate c j)
        then (en, s, - ec_noop_penalty cfg, False)
      else (en, s, 0, False))"

definition settle :: "env_cfg \<Rightarrow> bool \<Rightarrow> gym_state \<Rightarrow> py_error + gym_state" where
  \<comment> \<open>reset the completion reward, let one event pass when nothing was scheduled, advance\<close>
  "settle cfg scheduled s0 =
     (let s = s0\<lparr>gs_completion_reward := 0\<rparr> in
      if \<not> scheduled \<and> gs_events s \<noteq> []
      then (case pop_event cfg s of Inl e \<Rightarrow> Inl e | Inr s' \<Rightarrow> advance_to_decision cfg s')
      else advance_to_decision cfg s)"

definition step_reward :: "env_cfg \<Rightarrow> real \<Rightarrow> real \<Rightarrow> bool \<Rightarrow> gym_state \<Rightarrow> real" where
  "step_reward cfg phi_prev r_place ended s =
     (let end_charge = (if ended
            then - sum_list (map (\<lambda>j. (gs_now s - submit_ts j) / ec_reward_scale cfg) (gs_pending s))
            else 0);
          shaping = (if ec_potential cfg \<or> ec_balance cfg > 0
            then 99 / 100 * potential cfg s - phi_prev else 0)
      in if ec_reward_mode cfg = ''mo'' then gs_completion_reward s + shaping
         else r_place + gs_completion_reward s + end_charge + shaping)"

record step_result =
  sr_obs :: "real list"
  sr_reward :: real
  sr_terminated :: bool
  sr_truncated :: bool
  sr_avg_jct :: "real option"

definition step :: "noise \<Rightarrow> nat \<Rightarrow> env \<Rightarrow> py_error + (step_result \<times> env)" where
  "step nz action en0 =
     (case en_state en0 of
        None \<Rightarrow> Inl RuntimeError
      | Some s0 \<Rightarrow>
          (let cfg = en_cfg en0; en1 = en0\<lparr>en_steps := en_steps en0 + 1\<rparr>;
               phi_prev = potential cfg s0;
               (en2, s1, r_place, scheduled) = apply_action nz action en1 s0
           in case settle cfg scheduled s1 of
                Inl e \<Rightarrow> Inl e
              | Inr s \<Rightarrow>
                  let terminated = (gs_n_jobs s \<le> gs_completed s \<and> gs_events s = []);
                      truncated = (ec_max_steps cfg \<le> en_steps en2)
                  in Inr (\<lparr>sr_obs = build_obs cfg s,
                           sr_reward = step_reward cfg phi_prev r_place (terminated \<or> truncated) s,
                           sr_terminated = terminated, sr_truncated = truncated,
                           sr_avg_jct = (if gs_completed s \<noteq> 0
                             then Some (gs_jct_sum s / real (gs_completed s)) else None)\<rparr>,
                          en2\<lparr>en_state := Some s\<rparr>)))"

record episode_record =
  er_job_id :: string
  er_jct :: real
  er_slo_s :: real
  er_job_class :: string
  er_gpu_count :: int
  er_mps_req :: int

fun episode_records_from :: "(string, job) dict \<Rightarrow> (string \<times> real) list \<Rightarrow> py_error + episode_record list" where
  "episode_records_from by_id [] = Inr []"
| "episode_records_from by_id ((jid, jct) # rest) =
     (case map_of by_id jid of
        None \<Rightarrow> Inl KeyError
      | Some j \<Rightarrow>
          (case episode_records_from by_id rest of
             Inl e \<Rightarrow> Inl e
           | Inr rs \<Rightarrow> Inr (\<lparr>er_job_id = jid, er_jct = jct, er_slo_s = slo_s j,
                er_job_class = job_class j, er_gpu_count = gpu_count j, er_mps_req = mps_req j\<rparr> # rs)))"

definition episode_records :: "env \<Rightarrow> py_error + episode_record list" where
  "episode_records en = (case en_state en of None \<Rightarrow> Inr []
     | Some s \<Rightarrow> episode_records_from (gs_by_id s) (gs_jct_records s))"

end
