(* ===== verification/SimGymFacts.thy ===== *)
theory SimGymFacts
  imports SimGym SimRunnerFacts
begin

text \<open>
  Facts about the environment: the codec is a bijection below the no-op, the mask is exact, the
  ablations restrict it to one decision axis, run times have their floor, and the invariant of an
  episode (every job is in exactly one of the event heap, the pending list and the completed
  records).
\<close>

section \<open>The codec\<close>

definition dims_ok :: "env_cfg \<Rightarrow> bool" where
  "dims_ok cfg \<longleftrightarrow> 0 < ec_nodes cfg \<and> 0 < ec_gpus cfg"

lemma n_modes_pos [simp]: "0 < n_modes cfg"
  by (simp add: n_modes_def)

lemma n_placements_pos [simp]: "dims_ok cfg \<Longrightarrow> 0 < n_placements cfg"
  by (simp add: dims_ok_def n_placements_def)

lemma no_op_eq: "no_op cfg = ec_top_k cfg * n_placements cfg * n_modes cfg"
  by (simp add: no_op_def n_act_def n_placements_def)

lemma mixed_radix_lt: "i < a \<Longrightarrow> r < b \<Longrightarrow> i * b + r < a * (b::nat)"
  by (metis add.commute add_less_cancel_left less_le_trans mult.commute mult_Suc_right mult_le_mono2
      Suc_leI)

lemma encode_lt:
  assumes "i < ec_top_k cfg" "p < n_placements cfg" "m < n_modes cfg"
  shows "encode cfg i p m < no_op cfg"
  unfolding encode_def no_op_eq using assms by (intro mixed_radix_lt)

lemma decode_encode:
  assumes "nj < ec_nodes cfg" "gk < ec_gpus cfg" "m < n_modes cfg"
  shows "decode cfg (encode cfg i (nj * ec_gpus cfg + gk) m) = (i, nj, gk, m)"
proof -
  have "nj * ec_gpus cfg + gk < n_placements cfg"
    unfolding n_placements_def using assms(1,2) by (rule mixed_radix_lt)
  then show ?thesis
    using assms by (simp add: decode_def encode_def)
qed

lemma encode_decode:
  assumes "decode cfg a = (i, nj, gk, m)"
  shows "encode cfg i (nj * ec_gpus cfg + gk) m = a"
  using assms by (auto simp: decode_def encode_def Let_def)

lemma decode_bounds:
  assumes "decode cfg a = (i, nj, gk, m)" "dims_ok cfg" "a < no_op cfg"
  shows "i < ec_top_k cfg" "nj < ec_nodes cfg" "gk < ec_gpus cfg" "m < n_modes cfg"
proof -
  have eq: "i = a div n_modes cfg div n_placements cfg"
    "nj = a div n_modes cfg mod n_placements cfg div ec_gpus cfg"
    "gk = a div n_modes cfg mod n_placements cfg mod ec_gpus cfg" "m = a mod n_modes cfg"
    using assms(1) by (auto simp: decode_def Let_def)
  have "a div n_modes cfg < ec_top_k cfg * n_placements cfg"
    using assms(3) by (simp add: no_op_eq div_less_iff_less_mult)
  then show "i < ec_top_k cfg"
    using assms(2) by (simp add: eq(1) div_less_iff_less_mult)
  have "a div n_modes cfg mod n_placements cfg < ec_nodes cfg * ec_gpus cfg"
    using mod_less_divisor [OF n_placements_pos [OF assms(2)]] by (simp add: n_placements_def)
  then show "nj < ec_nodes cfg"
    using assms(2) by (simp add: eq(2) div_less_iff_less_mult dims_ok_def)
  show "gk < ec_gpus cfg" "m < n_modes cfg"
    using assms(2) by (simp_all add: eq(3,4) dims_ok_def)
qed

section \<open>The mask\<close>

lemma length_set_bits [simp]: "length (set_bits as m) = length m"
  unfolding set_bits_def by (induction as arbitrary: m) auto

lemma set_bits_nth:
  assumes "a < length m"
  shows "set_bits as m ! a \<longleftrightarrow> m ! a \<or> a \<in> set as"
proof -
  have upd: "a < length m \<Longrightarrow> m[b := True] ! a \<longleftrightarrow> m ! a \<or> a = b" for m b
    by (cases "a = b") auto
  show ?thesis
    using assms unfolding set_bits_def by (induction as arbitrary: m) (auto simp: upd)
qed

lemma length_top_k: "length (top_k_jobs cfg s) \<le> ec_top_k cfg"
  by (simp add: top_k_jobs_def)

lemma set_top_k: "set (top_k_jobs cfg s) \<subseteq> set (gs_pending s)"
  unfolding top_k_jobs_def using set_take_subset set_sort_key by fast

lemma mem_legal_actions:
  "a \<in> set (legal_actions cfg s) \<longleftrightarrow>
     (\<exists>i nj gk m. a = encode cfg i (nj * ec_gpus cfg + gk) m \<and> i < length (top_k_jobs cfg s) \<and>
        nj < ec_nodes cfg \<and> gk < ec_gpus cfg \<and> m < n_modes cfg \<and>
        can_allocate_on (gs_cluster s) (top_k_jobs cfg s ! i) nj gk \<and> mode_legal cfg s nj gk m)"
  by (fastforce simp: legal_actions_def Let_def split: if_splits)

lemma legal_action_lt: "a \<in> set (legal_actions cfg s) \<Longrightarrow> a < no_op cfg"
  using length_top_k [of cfg s]
  by (auto simp: mem_legal_actions n_placements_def intro!: encode_lt mixed_radix_lt)

lemma length_base_mask [simp]: "length (base_mask cfg s) = n_act cfg"
  by (simp add: base_mask_def)

lemma no_op_lt [simp]: "no_op cfg < n_act cfg"
  by (simp add: no_op_def n_act_def)

lemma base_mask_nth:
  "a < n_act cfg \<Longrightarrow> base_mask cfg s ! a \<longleftrightarrow> a = no_op cfg \<or> a \<in> set (legal_actions cfg s)"
  by (auto simp: base_mask_def nth_list_update set_bits_nth)

text \<open>The bit of an encoded triple says whether the placement is possible now.\<close>

lemma base_mask_encode:
  assumes "i < ec_top_k cfg" "nj < ec_nodes cfg" "gk < ec_gpus cfg" "m < n_modes cfg"
  shows "base_mask cfg s ! encode cfg i (nj * ec_gpus cfg + gk) m \<longleftrightarrow>
    i < length (top_k_jobs cfg s) \<and> can_allocate_on (gs_cluster s) (top_k_jobs cfg s ! i) nj gk \<and>
    mode_legal cfg s nj gk m"
proof -
  let ?a = "encode cfg i (nj * ec_gpus cfg + gk) m"
  have lt: "?a < no_op cfg"
    using assms by (auto intro!: encode_lt mixed_radix_lt simp: n_placements_def)
  then have "?a < n_act cfg"
    using no_op_lt [of cfg] by (rule less_trans)
  then have "base_mask cfg s ! ?a \<longleftrightarrow> ?a \<in> set (legal_actions cfg s)"
    using lt by (simp add: base_mask_nth)
  also have "\<dots> \<longleftrightarrow> i < length (top_k_jobs cfg s) \<and>
      can_allocate_on (gs_cluster s) (top_k_jobs cfg s ! i) nj gk \<and> mode_legal cfg s nj gk m"
  proof
    assume "?a \<in> set (legal_actions cfg s)"
    then obtain i' nj' gk' m' where x: "?a = encode cfg i' (nj' * ec_gpus cfg + gk') m'"
        "i' < length (top_k_jobs cfg s)" "nj' < ec_nodes cfg" "gk' < ec_gpus cfg" "m' < n_modes cfg"
        "can_allocate_on (gs_cluster s) (top_k_jobs cfg s ! i') nj' gk'" "mode_legal cfg s nj' gk' m'"
      unfolding mem_legal_actions by blast
    have "(i, nj, gk, m) = (i', nj', gk', m')"
      using arg_cong [OF x(1), of "decode cfg"]
      by (simp only: decode_encode [OF assms(2-4)] decode_encode [OF x(3-5)])
    with x(2,6,7) show "i < length (top_k_jobs cfg s) \<and>
        can_allocate_on (gs_cluster s) (top_k_jobs cfg s ! i) nj gk \<and> mode_legal cfg s nj gk m"
      by simp
  qed (use assms in \<open>unfold mem_legal_actions, blast\<close>)
  finally show ?thesis .
qed

section \<open>The ablations\<close>

lemma set_flatnonzero: "set (flatnonzero m) = {a. a < length m \<and> m ! a}"
  by (auto simp: flatnonzero_def)

lemma first_legal_job_mem:
  "fallback \<in> set legal_jobs \<Longrightarrow> first_legal_job idx legal_jobs fallback js \<in> set legal_jobs"
  by (induction idx legal_jobs fallback js rule: first_legal_job.induct) (auto split: option.splits)

lemma length_restrict [simp]: "length (restrict_mask_for_ablation cfg s m tk) = length m"
  by (simp add: restrict_mask_for_ablation_def Let_def)

definition first_fold :: "env_cfg \<Rightarrow> (nat, nat) dict \<Rightarrow> nat list \<Rightarrow> (nat, nat) dict" where
  "first_fold cfg = foldl (\<lambda>kept a. let job_i = fst (decode cfg a) in
        if dict_has job_i kept then kept else dict_set job_i a kept)"

lemma first_fold_simps [simp]:
  "first_fold cfg kept [] = kept"
  "first_fold cfg kept (a # as) = first_fold cfg
     (if dict_has (fst (decode cfg a)) kept then kept else dict_set (fst (decode cfg a)) a kept) as"
  by (simp_all add: first_fold_def Let_def)

lemma first_fold_map_of:
  "map_of (first_fold cfg kept as) i =
     (case map_of kept i of Some a \<Rightarrow> Some a | None \<Rightarrow> List.find (\<lambda>a. fst (decode cfg a) = i) as)"
proof (induction as arbitrary: kept)
  case Nil
  then show ?case by (simp split: option.splits)
next
  case (Cons a as)
  then show ?case
    by (auto simp: dict_has_def split: option.splits)
qed

lemma distinct_first_fold: "distinct (map fst kept) \<Longrightarrow> distinct (map fst (first_fold cfg kept as))"
  by (induction as arbitrary: kept) auto

text \<open>The kept actions are, for every job with a legal action, its first one.\<close>

lemma mem_first_per_job:
  "a \<in> set (first_per_job cfg legal) \<longleftrightarrow>
     List.find (\<lambda>b. fst (decode cfg b) = fst (decode cfg a)) legal = Some a"
proof -
  let ?d = "first_fold cfg [] legal"
  have d: "map_of ?d i = List.find (\<lambda>b. fst (decode cfg b) = i) legal" for i
    by (simp add: first_fold_map_of)
  have key: "fst (decode cfg a) = i" if "map_of ?d i = Some a" for i
    using that by (auto simp: d find_Some_iff)
  have "a \<in> set (first_per_job cfg legal) \<longleftrightarrow> (\<exists>i. (i, a) \<in> set ?d)"
    by (force simp: first_per_job_def first_fold_def [symmetric] dict_values_def)
  also have "\<dots> \<longleftrightarrow> (\<exists>i. map_of ?d i = Some a)"
    using distinct_first_fold [of "[]" cfg legal] by simp
  also have "\<dots> \<longleftrightarrow> map_of ?d (fst (decode cfg a)) = Some a"
    using key by blast
  finally show ?thesis
    by (simp add: d)
qed

lemma restrict_job_only:
  assumes "ec_ablation cfg = Some ''job_only''" "a < length m" "length m = n_act cfg" "m ! no_op cfg"
  shows "restrict_mask_for_ablation cfg s m tk ! a \<longleftrightarrow>
    a = no_op cfg \<or>
    List.find (\<lambda>b. fst (decode cfg b) = fst (decode cfg a)) (filter (\<lambda>a. a \<noteq> no_op cfg) (flatnonzero m)) = Some a"
proof (cases "filter (\<lambda>a. a \<noteq> no_op cfg) (flatnonzero m) = []")
  case True
  then have "m ! a \<Longrightarrow> a = no_op cfg"
    using assms(2) by (auto simp: filter_empty_conv set_flatnonzero)
  with True assms show ?thesis
    by (auto simp: restrict_mask_for_ablation_def)
next
  case False
  then show ?thesis
    using assms by (auto simp: restrict_mask_for_ablation_def Let_def nth_list_update set_bits_nth
        mem_first_per_job)
qed

text \<open>With the placement ablation all legal placements of exactly one job stay.\<close>

lemma restrict_placement_only:
  assumes "ec_ablation cfg = Some ''placement_only''" "length m = n_act cfg"
    and legal: "b \<in> set (filter (\<lambda>a. a \<noteq> no_op cfg) (flatnonzero m))"
  shows "\<exists>c. c < length m \<and> m ! c \<and> c \<noteq> no_op cfg \<and>
    (\<forall>a<length m. restrict_mask_for_ablation cfg s m tk ! a \<longleftrightarrow>
       a = no_op cfg \<or> (m ! a \<and> fst (decode cfg a) = fst (decode cfg c)))"
proof -
  let ?legal = "filter (\<lambda>a. a \<noteq> no_op cfg) (flatnonzero m)"
  let ?head = "ablation_head_index cfg s tk ?legal"
  have ne: "?legal \<noteq> []"
    using legal by force
  then have "hd ?legal \<in> set ?legal"
    by (rule hd_in_set)
  then have "?head \<in> set (map (\<lambda>a. fst (decode cfg a)) ?legal)"
    unfolding ablation_head_index_def by (intro first_legal_job_mem) auto
  then obtain c where c: "c \<in> set ?legal" "?head = fst (decode cfg c)"
    by auto
  have "restrict_mask_for_ablation cfg s m tk =
      (set_bits (filter (\<lambda>a. fst (decode cfg a) = ?head) ?legal) (replicate (length m) False))[no_op cfg := True]"
    using ne assms(1) by (simp add: restrict_mask_for_ablation_def Let_def)
  then have "\<forall>a<length m. restrict_mask_for_ablation cfg s m tk ! a \<longleftrightarrow>
       a = no_op cfg \<or> (m ! a \<and> fst (decode cfg a) = fst (decode cfg c))"
    using assms(2) c(2) by (auto simp: nth_list_update set_bits_nth set_flatnonzero)
  with c(1) show ?thesis
    by (auto simp: set_flatnonzero)
qed

lemma action_mask_sub:
  assumes "ec_ablation cfg \<in> {None, Some ''placement_only'', Some ''job_only''}" "a < n_act cfg"
    "action_mask cfg s ! a"
  shows "base_mask cfg s ! a"
proof -
  have noop: "base_mask cfg s ! no_op cfg"
    by (simp add: base_mask_nth)
  consider "ec_ablation cfg = None" | "ec_ablation cfg = Some ''job_only''"
    | "ec_ablation cfg = Some ''placement_only''"
    using assms(1) by auto
  then show ?thesis
  proof cases
    case 1
    with assms(3) show ?thesis by (simp add: action_mask_def)
  next
    case 2
    have "a \<in> set (filter (\<lambda>a. a \<noteq> no_op cfg) (flatnonzero (base_mask cfg s)))"
      if "List.find P (filter (\<lambda>a. a \<noteq> no_op cfg) (flatnonzero (base_mask cfg s))) = Some a" for P
      using that unfolding find_Some_iff by (metis nth_mem)
    then show ?thesis
      using assms(2,3) restrict_job_only [OF 2, of a "base_mask cfg s" s "top_k_jobs cfg s"] noop 2
      by (fastforce simp: action_mask_def set_flatnonzero)
  next
    case 3
    show ?thesis
    proof (cases "filter (\<lambda>a. a \<noteq> no_op cfg) (flatnonzero (base_mask cfg s)) = []")
      case True
      with 3 assms(3) show ?thesis
        by (simp add: action_mask_def restrict_mask_for_ablation_def)
    next
      case False
      then obtain b where "b \<in> set (filter (\<lambda>a. a \<noteq> no_op cfg) (flatnonzero (base_mask cfg s)))"
        using hd_in_set by blast
      from restrict_placement_only [OF 3 length_base_mask this, of s "top_k_jobs cfg s"]
      show ?thesis
        using assms(2,3) noop 3 by (auto simp: action_mask_def)
    qed
  qed
qed

lemma length_action_mask [simp]: "length (action_mask cfg s) = n_act cfg"
  by (simp add: action_mask_def)

section \<open>Run times\<close>

lemma realized_runtime_min: "MIN_RUNTIME_S \<le> fst (realized_runtime nz en j plan c)"
  unfolding realized_runtime_def by (simp add: Let_def split: prod.split)

lemma ram_peak_keeps: "ram_peak nz en jid r = (x, en') \<Longrightarrow> en' = en\<lparr>en_draws := en_draws en'\<rparr>"
  by (auto simp: ram_peak_def split: if_splits option.splits)

lemma peak_sum_keeps: "peak_sum nz c ni es acc en = (x, en') \<Longrightarrow> en' = en\<lparr>en_draws := en_draws en'\<rparr>"
proof (induction nz c ni es acc en arbitrary: x en' rule: peak_sum.induct)
  case (1 nz c ni acc en)
  then show ?case by simp
next
  case (2 nz c ni jid p rest acc en)
  obtain y en1 where y: "ram_peak nz en jid (dict_get (active_ram c) jid 0) = (y, en1)"
    by fastforce
  show ?case
  proof (cases "ni \<in> a_node_id ` set p")
    case True
    then have "peak_sum nz c ni rest (acc + y) en1 = (x, en')"
      using 2(3) y by simp
    then show ?thesis
      using 2(1) [OF True y [symmetric]] ram_peak_keeps [OF y]
      by (metis env.select_convs(1-6) env.surjective env.update_convs(5))
  next
    case False
    then show ?thesis
      using 2 by simp
  qed
qed

text \<open>What a run-time draw leaves alone.\<close>

definition same_run :: "env \<Rightarrow> env \<Rightarrow> bool" where
  "same_run en en' \<longleftrightarrow> en_cfg en' = en_cfg en \<and> en_steps en' = en_steps en \<and>
     en_state en' = en_state en \<and> en_seed en' = en_seed en"

lemma same_run_trans: "same_run a b \<Longrightarrow> same_run b c \<Longrightarrow> same_run a c"
  by (simp add: same_run_def)

lemma same_run_draws: "en' = en\<lparr>en_draws := en_draws en'\<rparr> \<Longrightarrow> same_run en en'"
  by (metis env.select_convs(1,2,3,4) env.surjective env.update_convs(5) same_run_def)

lemma oom_scan_keeps: "oom_scan nz c nis en = (x, en') \<Longrightarrow> same_run en en'"
proof (induction nz c nis en arbitrary: x en' rule: oom_scan.induct)
  case (1 nz c en)
  then show ?case by (simp add: same_run_def)
next
  case (2 nz c ni nis en)
  obtain t en1 where t: "peak_sum nz c ni (active c) 0 en = (t, en1)"
    by fastforce
  have "same_run en en1"
    by (rule same_run_draws [OF peak_sum_keeps [OF t]])
  moreover have "same_run en1 en'"
    using 2(1) [OF t [symmetric], of x en'] 2(2) t by (auto simp: same_run_def split: if_splits)
  ultimately show ?case
    by (rule same_run_trans)
qed

lemma job_noise_keeps: "job_noise nz en jid = (z, en') \<Longrightarrow> same_run en en'"
  by (auto simp: job_noise_def same_run_def split: option.splits)

lemma realized_runtime_keeps: "realized_runtime nz en j plan c = (x, en') \<Longrightarrow> same_run en en'"
proof -
  have refl: "same_run en en" for en
    by (simp add: same_run_def)
  show "realized_runtime nz en j plan c = (x, en') \<Longrightarrow> same_run en en'"
    unfolding realized_runtime_def oom_penalty_def Let_def
    by (auto split: if_splits prod.splits simp: refl dest!: job_noise_keeps oom_scan_keeps
        intro: same_run_trans)
qed

text \<open>Without extra memory noise the peaks of a node are the RAM its jobs reserve, so that a
  cluster that respects its budgets never pays the penalty.\<close>

lemma peak_sum_nominal:
  assumes "ec_oom_sigma (en_cfg en) \<le> 0"
  shows "peak_sum nz c ni es acc en =
    (acc + sum_list (map (\<lambda>e. if ni \<in> a_node_id ` set (snd e) then ram_of c (fst e) else 0) es), en)"
proof (induction es arbitrary: acc)
  case Nil
  then show ?case by simp
next
  case (Cons e es)
  obtain jid p where e: "e = (jid, p)"
    by (cases e)
  have "ram_peak nz en jid (dict_get (active_ram c) jid 0) = (ram_of c jid, en)"
    using assms by (simp add: ram_peak_def ram_of_def)
  then show ?case
    by (simp add: e Cons.IH)
qed

lemma oom_scan_none:
  assumes "ec_oom_sigma (en_cfg en) \<le> 0" "\<forall>ni \<in> set nis. held_ram c ni \<le> ram_gb (nodes c ! ni) + 1 / 10 ^ 9"
  shows "oom_scan nz c nis en = (0, en)"
  using assms(2)
proof (induction nis)
  case Nil
  then show ?case by simp
next
  case (Cons ni nis)
  then have le: "held_ram c ni \<le> ram_gb (nodes c ! ni) + 1 / 10 ^ 9"
    by simp
  have "peak_sum nz c ni (active c) 0 en = (held_ram c ni, en)"
    using peak_sum_nominal [OF assms(1), of nz c ni "active c" 0] by (simp add: held_ram_def)
  with le Cons show ?case
    by simp
qed

lemma oom_penalty_none:
  assumes "wf_cluster c" "ec_oom_sigma (en_cfg en) \<le> 0" "0 \<le> ram_overcommit c" "ram_overcommit c \<le> 1"
    "\<forall>a \<in> set plan. a_node_id a < n_nodes c" "\<forall>i<n_nodes c. 0 \<le> ram_gb (nodes c ! i)"
  shows "oom_penalty nz en plan c = (0, en)"
  unfolding oom_penalty_def
proof (rule oom_scan_none [OF assms(2)])
  show "\<forall>ni \<in> set (plan_hosts plan). held_ram c ni \<le> ram_gb (nodes c ! ni) + 1 / 10 ^ 9"
  proof
    fix ni assume "ni \<in> set (plan_hosts plan)"
    then have ni: "ni < n_nodes c"
      using assms(5) by auto
    then have "held_ram c ni \<le> ram_gb (nodes c ! ni) * ram_overcommit c + 1 / 10 ^ 9"
      using assms(1) unfolding wf_cluster_def ram_limit_def by metis
    moreover have "ram_gb (nodes c ! ni) * ram_overcommit c \<le> ram_gb (nodes c ! ni)"
      using assms(3,4,6) ni by (simp add: mult_left_le)
    ultimately show "held_ram c ni \<le> ram_gb (nodes c ! ni) + 1 / 10 ^ 9"
      by linarith
  qed
qed

text \<open>In a seeded episode the draws are keyed: the run time does not depend on what was drawn
  before, and draws nothing.\<close>

definition keyed_as :: "noise \<Rightarrow> env \<Rightarrow> noise \<Rightarrow> env \<Rightarrow> bool" where
  "keyed_as nz en nz' en' \<longleftrightarrow> nz_runtime nz = nz_runtime nz' \<and> nz_ram nz = nz_ram nz' \<and>
     en_cfg en' = en_cfg en \<and> en_seed en' = en_seed en \<and> en_seed en \<noteq> None"

lemma ram_peak_keyed:
  assumes "keyed_as nz en nz' en'"
  shows "ram_peak nz en jid r = (fst (ram_peak nz' en' jid r), en)"
  using assms by (auto simp: ram_peak_def keyed_as_def)

lemma keyed_as_sym: "keyed_as nz en nz' en' \<Longrightarrow> keyed_as nz' en' nz en"
  by (auto simp: keyed_as_def)

lemma peak_sum_keyed:
  assumes "keyed_as nz en nz' en'"
  shows "peak_sum nz c ni es acc en = (fst (peak_sum nz' c ni es acc en'), en)"
proof (induction es arbitrary: acc)
  case Nil
  then show ?case by simp
next
  case (Cons e es)
  obtain jid p where e: "e = (jid, p)"
    by (cases e)
  let ?r = "dict_get (active_ram c) jid 0"
  obtain x en2 where x: "ram_peak nz' en' jid ?r = (x, en2)"
    by fastforce
  have "ram_peak nz en jid ?r = (x, en)" "en2 = en'"
    using ram_peak_keyed [OF assms, of jid ?r] ram_peak_keyed [OF keyed_as_sym [OF assms], of jid ?r] x
    by simp_all
  with x show ?case
    by (simp add: e Cons.IH)
qed

lemma oom_scan_keyed:
  assumes "keyed_as nz en nz' en'"
  shows "fst (oom_scan nz c nis en) = fst (oom_scan nz' c nis en')"
proof (induction nis)
  case Nil
  then show ?case by simp
next
  case (Cons ni nis)
  obtain x en2 where x: "peak_sum nz' c ni (active c) 0 en' = (x, en2)"
    by fastforce
  have "peak_sum nz c ni (active c) 0 en = (x, en)" "en2 = en'"
    using peak_sum_keyed [OF assms, of c ni "active c" 0]
      peak_sum_keyed [OF keyed_as_sym [OF assms], of c ni "active c" 0] x by simp_all
  with x Cons assms show ?case
    by (simp add: keyed_as_def)
qed

lemma realized_runtime_keyed:
  assumes "keyed_as nz en nz' en'"
  shows "fst (realized_runtime nz en j plan c) = fst (realized_runtime nz' en' j plan c)"
proof -
  obtain seed where seed: "en_seed en = Some seed" "en_seed en' = Some seed"
    using assms by (auto simp: keyed_as_def)
  have noise: "job_noise nz en (job_id j) = (nz_runtime nz seed (job_id j), en)"
    "job_noise nz' en' (job_id j) = (nz_runtime nz seed (job_id j), en')"
    using seed assms by (simp_all add: job_noise_def keyed_as_def)
  obtain x en1 y en2 where oom: "oom_scan nz c (plan_hosts plan) en = (x, en1)"
      "oom_scan nz' c (plan_hosts plan) en' = (y, en2)"
    by fastforce
  with oom_scan_keyed [OF assms, of c "plan_hosts plan"] have "x = y"
    by simp
  with oom noise show ?thesis
    using assms by (simp add: realized_runtime_def Let_def oom_penalty_def keyed_as_def)
qed

section \<open>The invariant of an episode\<close>

definition gym_tokens :: "gym_state \<Rightarrow> string list" where
  "gym_tokens s = map ev_job (gs_events s) @ map job_id (gs_pending s) @ map fst (gs_jct_records s)"

definition gym_jobs_ok :: "job list \<Rightarrow> bool" where
  "gym_jobs_ok jobs \<longleftrightarrow> distinct (map job_id jobs) \<and> (\<forall>j \<in> set jobs. job_ok j \<and> 0 \<le> submit_ts j)"

definition event_ok :: "job list \<Rightarrow> real \<Rightarrow> event \<Rightarrow> bool" where
  "event_ok jobs now e \<longleftrightarrow> now \<le> ev_time e \<and>
     (\<exists>j \<in> set jobs. job_id j = ev_job e \<and> (ev_kind e = Submit \<longrightarrow> ev_time e = submit_ts j) \<and>
        (ev_kind e = End \<longrightarrow> submit_ts j + MIN_RUNTIME_S \<le> ev_time e))"

definition record_ok :: "job list \<Rightarrow> string \<times> real \<Rightarrow> bool" where
  "record_ok jobs r \<longleftrightarrow> (\<exists>j \<in> set jobs. job_id j = fst r) \<and> MIN_RUNTIME_S \<le> snd r"

definition gym_inv :: "job list \<Rightarrow> cluster \<Rightarrow> gym_state \<Rightarrow> bool" where
  "gym_inv jobs c0 s \<longleftrightarrow>
     wf_cluster (gs_cluster s) \<and> same_frame c0 (gs_cluster s) \<and>
     gs_by_id s = jobs_by_id jobs \<and> gs_n_jobs s = length jobs \<and>
     sorted (map (\<lambda>e. (ev_time e, ev_seq e)) (gs_events s)) \<and>
     mset (gym_tokens s) = mset (map job_id jobs) \<and>
     (\<forall>j \<in> set (gs_pending s). j \<in> set jobs \<and> submit_ts j \<le> gs_now s) \<and>
     fst ` set (active (gs_cluster s)) = {x. running (gs_events s) x} \<and>
     (\<forall>e \<in> set (gs_events s). event_ok jobs (gs_now s) e) \<and>
     (\<forall>r \<in> set (gs_jct_records s). record_ok jobs r) \<and>
     gs_completed s = length (gs_jct_records s) \<and> gs_jcts s = map snd (gs_jct_records s) \<and>
     gs_jct_sum s = sum_list (gs_jcts s)"

lemma gym_invD:
  assumes "gym_inv jobs c0 s"
  shows "wf_cluster (gs_cluster s)" "same_frame c0 (gs_cluster s)"
    "gs_by_id s = jobs_by_id jobs" "gs_n_jobs s = length jobs"
    "sorted (map (\<lambda>e. (ev_time e, ev_seq e)) (gs_events s))"
    "mset (gym_tokens s) = mset (map job_id jobs)"
    "\<And>j. j \<in> set (gs_pending s) \<Longrightarrow> j \<in> set jobs \<and> submit_ts j \<le> gs_now s"
    "\<And>x. x \<in> fst ` set (active (gs_cluster s)) \<longleftrightarrow> running (gs_events s) x"
    "\<And>e. e \<in> set (gs_events s) \<Longrightarrow> event_ok jobs (gs_now s) e"
    "\<And>r. r \<in> set (gs_jct_records s) \<Longrightarrow> record_ok jobs r"
    "gs_completed s = length (gs_jct_records s)" "gs_jcts s = map snd (gs_jct_records s)"
    "gs_jct_sum s = sum_list (gs_jcts s)"
  using assms unfolding gym_inv_def by blast+

lemma gym_invI:
  assumes "wf_cluster (gs_cluster s)" "same_frame c0 (gs_cluster s)"
    "gs_by_id s = jobs_by_id jobs" "gs_n_jobs s = length jobs"
    "sorted (map (\<lambda>e. (ev_time e, ev_seq e)) (gs_events s))"
    "mset (gym_tokens s) = mset (map job_id jobs)"
    "\<And>j. j \<in> set (gs_pending s) \<Longrightarrow> j \<in> set jobs \<and> submit_ts j \<le> gs_now s"
    "\<And>x. x \<in> fst ` set (active (gs_cluster s)) \<longleftrightarrow> running (gs_events s) x"
    "\<And>e. e \<in> set (gs_events s) \<Longrightarrow> event_ok jobs (gs_now s) e"
    "\<And>r. r \<in> set (gs_jct_records s) \<Longrightarrow> record_ok jobs r"
    "gs_completed s = length (gs_jct_records s)" "gs_jcts s = map snd (gs_jct_records s)"
    "gs_jct_sum s = sum_list (gs_jcts s)"
  shows "gym_inv jobs c0 s"
  using assms unfolding gym_inv_def by blast

lemma gym_inv_reward [simp]: "gym_inv jobs c0 (s\<lparr>gs_completion_reward := x\<rparr>) \<longleftrightarrow> gym_inv jobs c0 s"
  by (simp add: gym_inv_def gym_tokens_def)

lemma gym_tokens_distinct: "gym_jobs_ok jobs \<Longrightarrow> gym_inv jobs c0 s \<Longrightarrow> distinct (gym_tokens s)"
  using gym_invD(6) mset_eq_imp_distinct_iff unfolding gym_jobs_ok_def by metis

definition gym_weight :: "gym_state \<Rightarrow> nat" where
  "gym_weight s = sum_list (map event_weight (gs_events s)) + 2 * length (gs_pending s)"

lemma pop_submit_inv:
  assumes jobs: "gym_jobs_ok jobs" and inv: "gym_inv jobs c0 s" and ev: "gs_events s = e # es"
    and kind: "ev_kind e = Submit"
  shows "\<exists>s'. pop_event cfg s = Inr s' \<and> gym_inv jobs c0 s' \<and> gym_weight s' < gym_weight s"
proof -
  note gi = gym_invD [OF inv, unfolded ev]
  obtain j where j: "j \<in> set jobs" "job_id j = ev_job e" "ev_time e = submit_ts j"
    using gi(9) [of e] kind by (auto simp: event_ok_def)
  have look: "map_of (gs_by_id s) (ev_job e) = Some j"
    using jobs_by_id_lookup [of jobs j] jobs j gi(3) by (simp add: gym_jobs_ok_def)
  let ?s = "s\<lparr>gs_events := es, gs_now := ev_time e, gs_pending := gs_pending s @ [j]\<rparr>"
  have "pop_event cfg s = Inr ?s"
    using ev kind look by (simp add: pop_event_def Let_def)
  moreover have "gym_inv jobs c0 ?s"
  proof (rule gym_invI)
    show "mset (gym_tokens ?s) = mset (map job_id jobs)"
      using gi(6) j(2) by (simp add: gym_tokens_def ev)
    show "k \<in> set jobs \<and> submit_ts k \<le> gs_now ?s" if "k \<in> set (gs_pending ?s)" for k
      using that gi(7) [of k] gi(9) [of e] j by (auto simp: event_ok_def)
    show "x \<in> fst ` set (active (gs_cluster ?s)) \<longleftrightarrow> running (gs_events ?s) x" for x
      using gi(8) kind by (simp add: waiting_pop)
    show "event_ok jobs (gs_now ?s) x" if "x \<in> set (gs_events ?s)" for x
      using that gi(9) [of x] sorted_head_le [OF gi(5), of x] by (auto simp: event_ok_def)
  qed (use gi in simp_all)
  moreover have "gym_weight ?s < gym_weight s"
    by (simp add: gym_weight_def ev event_weight_def kind)
  ultimately show ?thesis
    by blast
qed

lemma pop_end_inv:
  assumes jobs: "gym_jobs_ok jobs" and inv: "gym_inv jobs c0 s" and ev: "gs_events s = e # es"
    and kind: "ev_kind e = End"
  shows "\<exists>s'. pop_event cfg s = Inr s' \<and> gym_inv jobs c0 s' \<and> gym_weight s' < gym_weight s"
proof -
  note gi = gym_invD [OF inv, unfolded ev]
  obtain j where j: "j \<in> set jobs" "job_id j = ev_job e" "submit_ts j + MIN_RUNTIME_S \<le> ev_time e"
    using gi(9) [of e] kind by (auto simp: event_ok_def)
  have look: "map_of (gs_by_id s) (ev_job e) = Some j"
    using jobs_by_id_lookup [of jobs j] jobs j gi(3) by (simp add: gym_jobs_ok_def)
  have "ev_job e \<notin> ev_job ` set es"
    using gym_tokens_distinct [OF jobs inv] by (auto simp: gym_tokens_def ev)
  then have other: "\<not> running es (ev_job e)"
    unfolding running_def by (metis image_eqI)
  let ?jct = "ev_time e - submit_ts j"
  let ?s = "s\<lparr>gs_events := es, gs_now := ev_time e, gs_cluster := release (ev_job e) (gs_cluster s),
      gs_completed := gs_completed s + 1, gs_jct_sum := gs_jct_sum s + ?jct, gs_jcts := gs_jcts s @ [?jct],
      gs_jct_records := gs_jct_records s @ [(ev_job e, ?jct)],
      gs_completion_reward := gs_completion_reward s + completion_term cfg j ?jct\<rparr>"
  have "pop_event cfg s = Inr ?s"
    using ev kind look by (simp add: pop_event_def on_job_end_def Let_def)
  moreover have "gym_inv jobs c0 ?s"
  proof (rule gym_invI)
    show "wf_cluster (gs_cluster ?s)"
      using gi(1) release_wf by simp
    show "same_frame c0 (gs_cluster ?s)"
      using same_frame_trans [OF gi(2) release_frame [OF gi(1)]] by simp
    show "mset (gym_tokens ?s) = mset (map job_id jobs)"
      using gi(6) by (simp add: gym_tokens_def ev)
    show "k \<in> set jobs \<and> submit_ts k \<le> gs_now ?s" if "k \<in> set (gs_pending ?s)" for k
      using that gi(7) [of k] gi(9) [of e] by (auto simp: event_ok_def)
    show "x \<in> fst ` set (active (gs_cluster ?s)) \<longleftrightarrow> running (gs_events ?s) x" for x
    proof -
      have "ev_job e \<in> fst ` set (active (gs_cluster s))"
        using gi(8) kind by (simp add: waiting_pop)
      then obtain p where "map_of (active (gs_cluster s)) (ev_job e) = Some p"
        using map_of_eq_None_iff [of "active (gs_cluster s)" "ev_job e"] by fastforce
      then show ?thesis
        using gi(8) kind other by (auto simp: release_simps(7) keys_dict_pop waiting_pop simp del: set_map)
    qed
    show "event_ok jobs (gs_now ?s) x" if "x \<in> set (gs_events ?s)" for x
      using that gi(9) [of x] sorted_head_le [OF gi(5), of x] by (auto simp: event_ok_def)
    show "record_ok jobs r" if "r \<in> set (gs_jct_records ?s)" for r
      using that gi(10) [of r] j by (auto simp: record_ok_def)
  qed (use gi in simp_all)
  moreover have "gym_weight ?s < gym_weight s"
    by (simp add: gym_weight_def ev event_weight_def kind)
  ultimately show ?thesis
    by blast
qed

lemma pop_event_inv:
  assumes "gym_jobs_ok jobs" "gym_inv jobs c0 s" "gs_events s \<noteq> []"
  shows "\<exists>s'. pop_event cfg s = Inr s' \<and> gym_inv jobs c0 s' \<and> gym_weight s' < gym_weight s"
proof -
  from assms(3) obtain e es where e: "gs_events s = e # es"
    by (cases "gs_events s") auto
  show ?thesis
    using pop_submit_inv [OF assms(1,2) e] pop_end_inv [OF assms(1,2) e] by (cases "ev_kind e") auto
qed

text \<open>The advance loop stops with an empty heap or with a job that can be placed.\<close>

lemma advance_inv:
  assumes "gym_jobs_ok jobs" "gym_inv jobs c0 s"
  shows "\<exists>s'. advance_to_decision cfg s = Inr s' \<and> gym_inv jobs c0 s' \<and> gym_weight s' \<le> gym_weight s \<and>
    (gs_events s' = [] \<or> at_decision s')"
  using assms(2)
proof (induction cfg s rule: advance_to_decision.induct)
  case (1 cfg s)
  show ?case
  proof (cases "gs_events s = [] \<or> at_decision s")
    case True
    then have "advance_to_decision cfg s = Inr s"
      by (subst advance_to_decision.simps) simp
    with True 1(2) show ?thesis by auto
  next
    case False
    then obtain s1 where s1: "pop_event cfg s = Inr s1" "gym_inv jobs c0 s1" "gym_weight s1 < gym_weight s"
      using pop_event_inv [OF assms(1) 1(2)] by blast
    from 1(1) [OF False s1(1,2)] obtain s' where "advance_to_decision cfg s1 = Inr s'" "gym_inv jobs c0 s'"
        "gym_weight s' \<le> gym_weight s1" "gs_events s' = [] \<or> at_decision s'"
      by blast
    with s1 False show ?thesis
      by (subst advance_to_decision.simps) auto
  qed
qed

section \<open>The action of a step\<close>

definition dims_match :: "env_cfg \<Rightarrow> cluster \<Rightarrow> bool" where
  "dims_match cfg c \<longleftrightarrow> n_nodes c = ec_nodes cfg \<and> gpus_per_node c = ec_gpus cfg \<and> 0 \<le> mps_per_gpu c"

lemma apply_action_placed:
  assumes "action \<noteq> no_op (en_cfg en)" "decode (en_cfg en) action = (i, nj, gk, m)"
    "i < length (top_k_jobs (en_cfg en) s)"
    "plan_on (gs_cluster s) nj gk (top_k_jobs (en_cfg en) s ! i) = Some p"
  defines "j \<equiv> top_k_jobs (en_cfg en) s ! i"
  defines "c' \<equiv> commit_plan j p (gs_cluster s)"
  shows "apply_action nz action en s =
    (snd (realized_runtime nz en j p c'),
     s\<lparr>gs_cluster := c', gs_pending := py_remove j (gs_pending s),
       gs_events := heap_push \<lparr>ev_time = gs_now s + fst (realized_runtime nz en j p c'), ev_seq = gs_seq s,
           ev_kind = End, ev_job = job_id j\<rparr> (gs_events s),
       gs_seq := gs_seq s + 1\<rparr>,
     placement_reward (en_cfg en) j nj gk c', True)"
  using assms by (simp add: apply_action_def Let_def try_allocate_on_def split: prod.split)

lemma apply_action_cases:
  obtains (placed) i nj gk m p where "action \<noteq> no_op (en_cfg en)"
      "decode (en_cfg en) action = (i, nj, gk, m)" "i < length (top_k_jobs (en_cfg en) s)"
      "plan_on (gs_cluster s) nj gk (top_k_jobs (en_cfg en) s ! i) = Some p"
  | (idle) r where "apply_action nz action en s = (en, s, r, False)"
proof (cases "\<exists>i nj gk m p. action \<noteq> no_op (en_cfg en) \<and> decode (en_cfg en) action = (i, nj, gk, m) \<and>
    i < length (top_k_jobs (en_cfg en) s) \<and>
    plan_on (gs_cluster s) nj gk (top_k_jobs (en_cfg en) s ! i) = Some p")
  case True
  with placed show ?thesis by blast
next
  case False
  obtain i nj gk m where d: "decode (en_cfg en) action = (i, nj, gk, m)"
    by (cases "decode (en_cfg en) action") auto
  have "\<exists>r. apply_action nz action en s = (en, s, r, False)"
  proof (cases "action \<noteq> no_op (en_cfg en) \<and> i < length (top_k_jobs (en_cfg en) s)")
    case True
    with False d have "plan_on (gs_cluster s) nj gk (top_k_jobs (en_cfg en) s ! i) = None"
      by auto
    with True d show ?thesis
      by (simp add: apply_action_def try_allocate_on_def)
  next
    case idle: False
    with d show ?thesis
      by (auto simp: apply_action_def Let_def)
  qed
  with idle show ?thesis by blast
qed

lemma top_k_nth_pending: "i < length (top_k_jobs cfg s) \<Longrightarrow> top_k_jobs cfg s ! i \<in> set (gs_pending s)"
  using set_top_k [of cfg s] nth_mem by blast

text \<open>A pending job is not running: its token is in the pending list only.\<close>

lemma pending_not_active:
  assumes "gym_jobs_ok jobs" "gym_inv jobs c0 s" "j \<in> set (gs_pending s)"
  shows "job_id j \<notin> fst ` set (active (gs_cluster s))"
proof
  assume "job_id j \<in> fst ` set (active (gs_cluster s))"
  then have "running (gs_events s) (job_id j)"
    using gym_invD(8) [OF assms(2)] by blast
  then have "job_id j \<in> set (map ev_job (gs_events s))"
    unfolding running_def set_map by (metis image_eqI)
  moreover have "job_id j \<in> set (map job_id (gs_pending s))"
    using assms(3) by simp
  moreover have "set (map ev_job (gs_events s)) \<inter> set (map job_id (gs_pending s)) = {}"
    using gym_tokens_distinct [OF assms(1,2)] by (auto simp: gym_tokens_def)
  ultimately show False
    by blast
qed

lemma mset_remove1_ids: "j \<in> set js \<Longrightarrow> mset (map job_id js) = add_mset (job_id j) (mset (map job_id (remove1 j js)))"
  by (induction js) auto

lemma schedule_inv:
  assumes jobs: "gym_jobs_ok jobs" and inv: "gym_inv jobs c0 s" and cap: "0 \<le> mps_per_gpu c0"
    and j: "j \<in> set (gs_pending s)" and p: "plan_on (gs_cluster s) nj gk j = Some p"
    and rt: "MIN_RUNTIME_S \<le> rt"
  defines "s' \<equiv> s\<lparr>gs_cluster := commit_plan j p (gs_cluster s), gs_pending := py_remove j (gs_pending s),
       gs_events := heap_push \<lparr>ev_time = gs_now s + rt, ev_seq = gs_seq s, ev_kind = End,
           ev_job = job_id j\<rparr> (gs_events s), gs_seq := gs_seq s + 1\<rparr>"
  shows "gym_inv jobs c0 s' \<and> gym_weight s' < gym_weight s"
proof -
  note gi = gym_invD [OF inv]
  let ?e = "\<lparr>ev_time = gs_now s + rt, ev_seq = gs_seq s, ev_kind = End, ev_job = job_id j\<rparr>"
  have s': "gs_cluster s' = commit_plan j p (gs_cluster s)" "gs_pending s' = remove1 j (gs_pending s)"
    "gs_events s' = heap_push ?e (gs_events s)" "gs_now s' = gs_now s" "gs_by_id s' = gs_by_id s"
    "gs_n_jobs s' = gs_n_jobs s" "gs_jct_records s' = gs_jct_records s" "gs_completed s' = gs_completed s"
    "gs_jcts s' = gs_jcts s" "gs_jct_sum s' = gs_jct_sum s"
    by (simp_all add: s'_def py_remove_def)
  have ok: "job_ok j" and jmem: "j \<in> set jobs" and sub: "submit_ts j \<le> gs_now s"
    using gi(7) [OF j] jobs by (auto simp: gym_jobs_ok_def)
  have "0 \<le> mps_per_gpu (gs_cluster s)"
    using gi(2) cap by (simp add: same_frame_def)
  then have fits: "plan_fits (gs_cluster s) j p"
    using plan_on_fits [OF gi(1) _ ok p] by blast
  have fresh: "job_id j \<notin> fst ` set (active (gs_cluster s))"
    by (rule pending_not_active [OF jobs inv j])
  have "gym_inv jobs c0 s'"
  proof (rule gym_invI)
    show "wf_cluster (gs_cluster s')"
      using commit_plan_wf [OF gi(1) fits fresh ok] by (simp only: s')
    show "same_frame c0 (gs_cluster s')"
      using same_frame_trans [OF gi(2) commit_frame [OF gi(1) fits]] by (simp only: s')
    show "sorted (map (\<lambda>e. (ev_time e, ev_seq e)) (gs_events s'))"
      using sorted_heap_push [OF gi(5)] by (simp only: s')
    show "mset (gym_tokens s') = mset (map job_id jobs)"
      using gi(6) mset_remove1_ids [OF j] by (simp add: gym_tokens_def s' mset_heap_push)
    show "k \<in> set jobs \<and> submit_ts k \<le> gs_now s'" if "k \<in> set (gs_pending s')" for k
      using that gi(7) [of k] set_remove1_subset [of j "gs_pending s"] by (auto simp: s')
    show "x \<in> fst ` set (active (gs_cluster s')) \<longleftrightarrow> running (gs_events s') x" for x
      using gi(8) [of x] by (auto simp: s' keys_dict_set simp del: set_map)
    show "event_ok jobs (gs_now s') e" if "e \<in> set (gs_events s')" for e
      using that gi(9) [of e] rt jmem sub by (auto simp: s' event_ok_def MIN_RUNTIME_S_def)
  qed (use gi in \<open>simp_all add: s'\<close>)
  moreover have "length (remove1 j (gs_pending s)) < length (gs_pending s)"
    using length_remove1 [of j "gs_pending s"] j length_pos_if_in_set [OF j] by simp
  then have "gym_weight s' < gym_weight s"
    by (simp add: gym_weight_def s' weight_heap_push event_weight_def)
  ultimately show ?thesis ..
qed

section \<open>Steps\<close>

text \<open>One step of an episode: it returns, keeps the invariant, and either makes progress or was an
  idle action with nothing left in the event heap.\<close>

lemma apply_action_inv:
  assumes jobs: "gym_jobs_ok jobs" and inv: "gym_inv jobs c0 s" and cap: "0 \<le> mps_per_gpu c0"
    and app: "apply_action nz action en s = (en', s1, r, scheduled)"
  shows "gym_inv jobs c0 s1 \<and> same_run en en' \<and>
    (if scheduled then gym_weight s1 < gym_weight s else s1 = s)"
proof (cases rule: apply_action_cases [where action = action and en = en and s = s and nz = nz])
  case (placed i nj gk m p)
  let ?j = "top_k_jobs (en_cfg en) s ! i"
  let ?rt = "realized_runtime nz en ?j p (commit_plan ?j p (gs_cluster s))"
  have j: "?j \<in> set (gs_pending s)"
    using placed(3) by (rule top_k_nth_pending)
  have app': "en' = snd ?rt" "scheduled"
      "s1 = s\<lparr>gs_cluster := commit_plan ?j p (gs_cluster s), gs_pending := py_remove ?j (gs_pending s),
       gs_events := heap_push \<lparr>ev_time = gs_now s + fst ?rt, ev_seq = gs_seq s, ev_kind = End,
           ev_job = job_id ?j\<rparr> (gs_events s), gs_seq := gs_seq s + 1\<rparr>"
    using apply_action_placed [OF placed, of nz] app by (simp_all del: commit_simps)
  have "same_run en (snd ?rt)"
    by (rule realized_runtime_keeps [where x = "fst ?rt"]) simp
  with schedule_inv [OF jobs inv cap j placed(4) realized_runtime_min, of nz en ?j p "commit_plan ?j p (gs_cluster s)"]
  show ?thesis
    by (simp only: app' if_True simp_thms)
next
  case (idle r')
  with app inv show ?thesis
    by (auto simp: same_run_def)
qed

lemma settle_inv:
  assumes jobs: "gym_jobs_ok jobs" and inv: "gym_inv jobs c0 s"
  shows "\<exists>s'. settle cfg scheduled s = Inr s' \<and> gym_inv jobs c0 s' \<and> gym_weight s' \<le> gym_weight s \<and>
    (gs_events s' = [] \<or> at_decision s') \<and>
    (\<not> scheduled \<and> gs_events s \<noteq> [] \<longrightarrow> gym_weight s' < gym_weight s)"
proof -
  let ?s = "s\<lparr>gs_completion_reward := 0\<rparr>"
  have inv0: "gym_inv jobs c0 ?s" and w0: "gym_weight ?s = gym_weight s"
    using inv by (simp_all add: gym_weight_def)
  show ?thesis
  proof (cases "\<not> scheduled \<and> gs_events s \<noteq> []")
    case True
    then obtain s1 where s1: "pop_event cfg ?s = Inr s1" "gym_inv jobs c0 s1" "gym_weight s1 < gym_weight s"
      using pop_event_inv [OF jobs inv0, of cfg] w0 by auto
    with True advance_inv [OF jobs s1(2), of cfg] show ?thesis
      by (fastforce simp: settle_def Let_def)
  next
    case False
    with advance_inv [OF jobs inv0, of cfg] w0 show ?thesis
      by (auto simp: settle_def Let_def)
  qed
qed

definition env_inv :: "job list \<Rightarrow> cluster \<Rightarrow> env \<Rightarrow> bool" where
  "env_inv jobs c0 en \<longleftrightarrow> (\<exists>s. en_state en = Some s \<and> gym_inv jobs c0 s)"

lemma step_cases:
  assumes jobs: "gym_jobs_ok jobs" and st: "en_state en = Some s" and inv: "gym_inv jobs c0 s"
    and cap: "0 \<le> mps_per_gpu c0"
  obtains res en' s' s1 en1 r scheduled where "step nz action en = Inr (res, en')"
    "en_state en' = Some s'" "en_cfg en' = en_cfg en" "en_steps en' = en_steps en + 1" "gym_inv jobs c0 s'"
    "gs_events s' = [] \<or> at_decision s'"
    "sr_terminated res \<longleftrightarrow> gs_n_jobs s' \<le> gs_completed s' \<and> gs_events s' = []"
    "sr_truncated res \<longleftrightarrow> ec_max_steps (en_cfg en) \<le> en_steps en'"
    "sr_obs res = build_obs (en_cfg en) s'"
    "apply_action nz action (en\<lparr>en_steps := en_steps en + 1\<rparr>) s = (en1, s1, r, scheduled)"
    "gym_weight s' < gym_weight s \<or> (gs_events s = [] \<and> \<not> scheduled \<and> gym_weight s' = gym_weight s)"
proof -
  let ?en = "en\<lparr>en_steps := en_steps en + 1\<rparr>"
  obtain en1 s1 r scheduled where app: "apply_action nz action ?en s = (en1, s1, r, scheduled)"
    by (cases "apply_action nz action ?en s") auto
  note a = apply_action_inv [OF jobs inv cap app]
  obtain s' where s': "settle (en_cfg en) scheduled s1 = Inr s'" "gym_inv jobs c0 s'"
      "gym_weight s' \<le> gym_weight s1" "gs_events s' = [] \<or> at_decision s'"
      "\<not> scheduled \<and> gs_events s1 \<noteq> [] \<longrightarrow> gym_weight s' < gym_weight s1"
    using settle_inv [OF jobs conjunct1 [OF a], of "en_cfg en" scheduled] by blast
  have run: "en_cfg en1 = en_cfg en" "en_steps en1 = en_steps en + 1"
    using a by (simp_all add: same_run_def)
  let ?fin = "gs_n_jobs s' \<le> gs_completed s' \<and> gs_events s' = []"
  let ?trunc = "ec_max_steps (en_cfg en) \<le> en_steps en1"
  let ?res = "\<lparr>sr_obs = build_obs (en_cfg en) s',
       sr_reward = step_reward (en_cfg en) (potential (en_cfg en) s) r (?fin \<or> ?trunc) s',
       sr_terminated = ?fin, sr_truncated = ?trunc,
       sr_avg_jct = (if gs_completed s' \<noteq> 0 then Some (gs_jct_sum s' / real (gs_completed s')) else None)\<rparr>"
  have step: "step nz action en = Inr (?res, en1\<lparr>en_state := Some s'\<rparr>)"
    using st app s'(1) run(1) by (simp add: step_def Let_def)
  have idle: "settle (en_cfg en) False s = Inr s' \<Longrightarrow> gs_events s = [] \<Longrightarrow> gym_weight s' = gym_weight s"
    by (subst (asm) settle_def, simp add: Let_def advance_to_decision.simps) (auto simp: gym_weight_def)
  show ?thesis
  proof (rule that [OF step])
    show "gym_weight s' < gym_weight s \<or> (gs_events s = [] \<and> \<not> scheduled \<and> gym_weight s' = gym_weight s)"
      using a s' idle by (cases scheduled) auto
  qed (use run s' app in simp_all)
qed

lemma reset_inv:
  assumes jobs: "gym_jobs_ok jobs" and wf: "wf_cluster c" and idle: "active c = []"
  shows "gym_inv jobs c (reset_state cfg jobs c)" "gym_weight (reset_state cfg jobs c) = 3 * length jobs"
proof -
  let ?s = "reset_state cfg jobs c"
  let ?h = "submit_events 0 (sort_key submit_ts jobs) []"
  have s: "gs_cluster ?s = c" "gs_pending ?s = []" "gs_events ?s = ?h" "gs_now ?s = 0"
    "gs_jct_records ?s = []"
    by (simp_all add: reset_state_def)
  have mem: "ev_kind e = Submit \<and> (\<exists>j \<in> set jobs. job_id j = ev_job e \<and> ev_time e = submit_ts j)"
    if "e \<in> set ?h" for e
    using submit_events_mem [OF that] by auto
  have ids: "mset (map ev_job ?h) = mset (map job_id jobs)"
    using submit_events_jobs [of 0 "sort_key submit_ts jobs" "[]"] by simp
  show "gym_inv jobs c ?s"
  proof (rule gym_invI)
    show "mset (gym_tokens ?s) = mset (map job_id jobs)"
      using ids by (simp add: gym_tokens_def s)
    show "x \<in> fst ` set (active (gs_cluster ?s)) \<longleftrightarrow> running (gs_events ?s) x" for x
      using mem idle by (auto simp: s running_def)
    show "event_ok jobs (gs_now ?s) e" if "e \<in> set (gs_events ?s)" for e
      using mem [of e] that jobs by (auto simp: s event_ok_def gym_jobs_ok_def)
  qed (use wf same_frame_refl submit_events_sorted [of "[]"] in \<open>simp_all add: reset_state_def\<close>)
  have "length ?h = length jobs"
    using ids by (metis length_map mset_eq_length)
  moreover have "map event_weight ?h = replicate (length ?h) 3"
    using mem by (intro replicate_eqI) (auto simp: event_weight_def)
  ultimately show "gym_weight ?s = 3 * length jobs"
    by (simp add: gym_weight_def s sum_list_replicate)
qed

lemma reset_env_ok:
  assumes "make_cluster (ec_nodes cfg) (ec_gpus cfg) (ec_cap cfg) (ec_speeds cfg) (ec_gpu_types cfg) (ec_rams cfg)
      (ec_overcommit cfg) = Inr c" "en_cfg en = cfg" "gym_jobs_ok jobs" "0 \<le> ec_cap cfg" "0 \<le> ec_overcommit cfg"
    "\<forall>r \<in> set (or_default (ec_rams cfg) (ec_nodes cfg) 1000000000). 0 \<le> r"
  shows "\<exists>s en'. reset_env seed jobs en = Inr (build_obs cfg s, en') \<and> en_state en' = Some s \<and> en_cfg en' = cfg \<and>
    en_steps en' = 0 \<and> gym_inv jobs c s \<and> 0 \<le> mps_per_gpu c"
proof -
  have wf: "wf_cluster c"
    by (rule make_cluster_wf [OF assms(1,4-6)])
  have ca: "active c = []" and mps: "0 \<le> mps_per_gpu c"
    using assms(1,4) by (auto simp: make_cluster_def Let_def split: if_splits)
  obtain s where "advance_to_decision cfg (reset_state cfg jobs c) = Inr s" "gym_inv jobs c s"
    using advance_inv [OF assms(3) reset_inv(1) [OF assms(3) wf ca, of cfg], of cfg] by blast
  then show ?thesis
    using assms(1,2) mps by (simp add: reset_env_def)
qed

text \<open>At the end of an episode every job has been completed exactly once.\<close>

lemma terminated_all_done:
  assumes inv: "gym_inv jobs c0 s" and done_: "gs_n_jobs s \<le> gs_completed s" "gs_events s = []"
  shows "gs_pending s = []" "mset (map fst (gs_jct_records s)) = mset (map job_id jobs)"
    "active (gs_cluster s) = []"
proof -
  note gi = gym_invD [OF inv]
  have toks: "mset (map job_id (gs_pending s)) + mset (map fst (gs_jct_records s)) = mset (map job_id jobs)"
    using gi(6) done_(2) by (simp add: gym_tokens_def)
  then have "length (gs_pending s) + length (gs_jct_records s) = length jobs"
    by (metis length_map mset_append mset_eq_length length_append)
  then have "length (gs_pending s) = 0"
    using done_(1) gi(4,11) by linarith
  then show "gs_pending s = []"
    by simp
  with toks show "mset (map fst (gs_jct_records s)) = mset (map job_id jobs)"
    by simp
  have "\<not> running (gs_events s) x" for x
    using done_(2) by (simp add: running_def)
  then have "fst ` set (active (gs_cluster s)) = {}"
    using gi(8) by (simp add: set_eq_iff del: image_is_empty)
  then show "active (gs_cluster s) = []"
    by simp
qed

section \<open>Observations\<close>

lemma sum_list_const_map: "(\<And>x. x \<in> set xs \<Longrightarrow> f x = (k::nat)) \<Longrightarrow> sum_list (map f xs) = length xs * k"
  by (induction xs) auto

lemma feat_lengths:
  "length (job_feat j now cap) = JOB_FEAT_DIM" "length (gpu_feat c ni gi) = GPU_FEAT_DIM"
  "length (topo_feat ps c) = TOPO_FEAT_DIM" "length (global_feat ps c now) = GLOBAL_FEAT_DIM"
  by (simp_all add: job_feat_def gpu_feat_def topo_feat_def global_feat_def one_hot_def GPU_TYPES_def
      layout_defs Let_def)

lemma length_build_obs:
  "length (build_obs cfg s) = fst (env_dims (ec_nodes cfg) (ec_gpus cfg) (ec_top_k cfg) (ec_colocation cfg))"
proof -
  have jobs: "length (concat (map (\<lambda>i. if P i then job_feat (f i) now cap else replicate JOB_FEAT_DIM 0) [0..<k]))
      = k * JOB_FEAT_DIM" for P f now cap k
    by (subst length_concat, simp only: map_map comp_def) (subst sum_list_const_map, auto simp: feat_lengths)
  have row: "length (concat (map (\<lambda>gi. if P gi then gpu_feat c ni gi else replicate GPU_FEAT_DIM 0) [0..<g]))
      = g * GPU_FEAT_DIM" for P c ni g
    by (subst length_concat, simp only: map_map comp_def) (subst sum_list_const_map, auto simp: feat_lengths)
  have "length (concat (map (\<lambda>ni. concat (map (\<lambda>gi. if P ni gi then gpu_feat c ni gi
      else replicate GPU_FEAT_DIM 0) [0..<g])) [0..<n])) = n * (g * GPU_FEAT_DIM)" for P c g n
    by (subst length_concat, simp only: map_map comp_def) (subst sum_list_const_map, auto simp: row)
  with jobs show ?thesis
    by (simp add: build_obs_def env_dims_def feat_lengths Let_def)
qed

text \<open>Draws that leave every run time and memory as requested, for the examples.\<close>

definition no_noise :: noise where
  "no_noise = \<lparr>nz_runtime = (\<lambda>s j. 0), nz_ram = (\<lambda>s j. 0), nz_stream = (\<lambda>i. 0)\<rparr>"

end
