(* ===== verification/GymProps.thy ===== *)
theory GymProps
  imports SimGymFacts
begin

text \<open>
  The properties of the scheduling environment (\<^verbatim>\<open>sim/gym_env.py\<close>), over the lemmas of
  \<open>SimGymFacts\<close>, with a small one-node instance for the witnesses.
\<close>

section \<open>A small instance\<close>

definition small_cfg :: "nat \<Rightarrow> env_cfg" where
  "small_cfg k =
     \<lparr>ec_nodes = 1, ec_gpus = 1, ec_cap = 100, ec_top_k = k, ec_max_steps = 50,
      ec_reward_mode = ''jct_aligned'', ec_reward_scale = 1000, ec_placement_scale = 1 / 100,
      ec_potential = False, ec_balance = 0, ec_fairness = 0, ec_speeds = None, ec_gpu_types = None,
      ec_rams = None, ec_sigma = 0, ec_interference = 0, ec_oom_sigma = 0, ec_oom_penalty = 0,
      ec_overcommit = 1, ec_colocation = False, ec_slo_penalty = 0, ec_noop_penalty = 0,
      ec_ablation = None\<rparr>"

definition long_job :: job where
  "long_job = mk_job ''a'' ''u'' 1 ''rtx4070'' 0 7200 0 50"

definition short_job :: job where
  "short_job = mk_job ''b'' ''u'' 1 ''rtx4070'' 0 60 0 50"

definition small_state :: gym_state where
  "small_state = (reset_state (small_cfg 1) [long_job, short_job] (empty_cluster 1 1 100))
     \<lparr>gs_pending := [long_job, short_job], gs_events := []\<rparr>"

definition small_env :: "nat \<Rightarrow> env" where
  "small_env k = \<lparr>en_cfg = small_cfg k, en_steps = 0, en_state = Some small_state, en_seed = Some 7,
     en_draws = 0, en_oom_events = 0\<rparr>"

lemmas small_defs = small_cfg_def no_noise_def long_job_def short_job_def small_state_def small_env_def
  mk_job_def empty_cluster_def reset_state_def

lemma small_cfg_simps:
  "ec_nodes (small_cfg k) = 1" "ec_gpus (small_cfg k) = 1" "ec_cap (small_cfg k) = 100"
  "ec_speeds (small_cfg k) = None" "ec_gpu_types (small_cfg k) = None" "ec_rams (small_cfg k) = None"
  "ec_overcommit (small_cfg k) = 1"
  by (simp_all add: small_cfg_def)

lemma small_jobs_ok: "gym_jobs_ok [long_job, short_job]"
  by (simp add: gym_jobs_ok_def job_ok_def small_defs)

lemma small_inv: "gym_inv [long_job, short_job] (empty_cluster 1 1 100) small_state"
proof -
  have "wf_cluster (empty_cluster 1 1 100)"
    by (rule empty_cluster_wf) simp
  then show ?thesis
    by (intro gym_invI)
      (auto simp: small_state_def reset_state_def gym_tokens_def same_frame_refl running_def
        long_job_def short_job_def mk_job_def empty_cluster_def)
qed

section \<open>Codec and mask\<close>

text \<open>C1. The flat action index and the tuple (job, node, GPU, mode) determine each other: below
  the no-op every index decodes to a tuple inside the bounds and encodes back to itself, and
  every tuple inside the bounds encodes to an index below the no-op that decodes to it.\<close>

theorem codec_bijection:
  assumes "dims_ok cfg"
  shows "(\<forall>a < no_op cfg. case decode cfg a of (i, nj, gk, m) \<Rightarrow>
           i < ec_top_k cfg \<and> nj < ec_nodes cfg \<and> gk < ec_gpus cfg \<and> m < n_modes cfg \<and>
           encode cfg i (nj * ec_gpus cfg + gk) m = a) \<and>
    (\<forall>i < ec_top_k cfg. \<forall>nj < ec_nodes cfg. \<forall>gk < ec_gpus cfg. \<forall>m < n_modes cfg.
       encode cfg i (nj * ec_gpus cfg + gk) m < no_op cfg \<and>
       decode cfg (encode cfg i (nj * ec_gpus cfg + gk) m) = (i, nj, gk, m))"
proof (intro conjI allI impI)
  fix a assume a: "a < no_op cfg"
  obtain i nj gk m where d: "decode cfg a = (i, nj, gk, m)"
    by (cases "decode cfg a") auto
  show "case decode cfg a of (i, nj, gk, m) \<Rightarrow>
      i < ec_top_k cfg \<and> nj < ec_nodes cfg \<and> gk < ec_gpus cfg \<and> m < n_modes cfg \<and>
      encode cfg i (nj * ec_gpus cfg + gk) m = a"
    using decode_bounds [OF d assms a] encode_decode [OF d] by (simp add: d)
qed (auto intro!: encode_lt mixed_radix_lt simp: decode_encode n_placements_def)

theorem codec_bijection_witness:
  "decode (small_cfg 4) 3 = (3, 0, 0, 0) \<and> encode (small_cfg 4) 3 0 0 < no_op (small_cfg 4)"
  using codec_bijection [of "small_cfg 4"]
  by (simp add: dims_ok_def small_cfg_def no_op_def n_act_def n_modes_def decode_def encode_def
      n_placements_def)

text \<open>C2. The mask is exact: the no-op is always legal, and any other action is legal exactly when
  its job is among the first \<^verbatim>\<open>top_k\<close> pending jobs, its placement is possible on the cluster as it
  is, and, for the isolating mode, its GPU is idle.\<close>

theorem action_mask_exact:
  assumes "dims_ok cfg" "ec_ablation cfg = None" "a < n_act cfg"
  shows "action_mask cfg s ! a \<longleftrightarrow> a = no_op cfg \<or>
    (case decode cfg a of (i, nj, gk, m) \<Rightarrow>
       i < length (top_k_jobs cfg s) \<and> can_allocate_on (gs_cluster s) (top_k_jobs cfg s ! i) nj gk \<and>
       (m = MODE_ISOLATE \<longrightarrow>
          free_mps (gpus (nodes (gs_cluster s) ! nj) ! gk) = mps_per_gpu (gs_cluster s)))"
proof (cases "a = no_op cfg")
  case True
  then show ?thesis
    using assms by (simp add: action_mask_def base_mask_nth)
next
  case False
  then have lt: "a < no_op cfg"
    using assms(3) by (simp add: no_op_def n_act_def)
  obtain i nj gk m where d: "decode cfg a = (i, nj, gk, m)"
    by (cases "decode cfg a") auto
  have "action_mask cfg s ! a \<longleftrightarrow>
      i < length (top_k_jobs cfg s) \<and> can_allocate_on (gs_cluster s) (top_k_jobs cfg s ! i) nj gk \<and>
      mode_legal cfg s nj gk m"
    using base_mask_encode [OF decode_bounds [OF d assms(1) lt], of s] encode_decode [OF d] assms(2)
    by (simp add: action_mask_def)
  then show ?thesis
    using False by (auto simp: d mode_legal_def)
qed

theorem action_mask_exact_witness:
  "action_mask (small_cfg 1) small_state ! 0 \<and> action_mask (small_cfg 1) small_state ! 1"
proof -
  have "action_mask (small_cfg 1) small_state ! a" if "a = 0 \<or> a = 1" for a
    using that action_mask_exact [of "small_cfg 1" a small_state]
    by (auto simp: dims_ok_def n_act_def n_modes_def no_op_def decode_def n_placements_def top_k_jobs_def
        can_allocate_on_def plan_on_def fractional_def ram_ok_def MODE_ISOLATE_def small_defs)
  then show ?thesis by simp
qed

text \<open>C3. An action the mask allows is carried out: its job leaves the pending list, becomes active
  on the cluster, and gets an end event no earlier than one second from now.\<close>

theorem legal_action_places:
  assumes "dims_ok (en_cfg en)" "ec_ablation (en_cfg en) = None" "a < no_op (en_cfg en)"
    "action_mask (en_cfg en) s ! a"
  defines "j \<equiv> top_k_jobs (en_cfg en) s ! fst (decode (en_cfg en) a)"
  shows "case apply_action nz a en s of (en', s', r, scheduled) \<Rightarrow>
    scheduled \<and> j \<in> set (gs_pending s) \<and> gs_pending s' = remove1 j (gs_pending s) \<and>
    job_id j \<in> fst ` set (active (gs_cluster s')) \<and>
    (\<exists>e \<in> set (gs_events s'). ev_kind e = End \<and> ev_job e = job_id j \<and> gs_now s + 1 \<le> ev_time e)"
proof -
  obtain i nj gk m where d: "decode (en_cfg en) a = (i, nj, gk, m)"
    by (cases "decode (en_cfg en) a") auto
  have ne: "a \<noteq> no_op (en_cfg en)"
    using assms(3) by simp
  have i: "i < length (top_k_jobs (en_cfg en) s)" and can: "can_allocate_on (gs_cluster s) j nj gk"
    using base_mask_encode [OF decode_bounds [OF d assms(1,3)], of s] encode_decode [OF d] assms(2,4)
    by (simp_all add: action_mask_def j_def d)
  then obtain p where p: "plan_on (gs_cluster s) nj gk (top_k_jobs (en_cfg en) s ! i) = Some p"
    by (auto simp: can_allocate_on_def j_def d)
  have j: "j = top_k_jobs (en_cfg en) s ! i"
    by (simp add: j_def d)
  have "1 \<le> fst (realized_runtime nz en j p (commit_plan j p (gs_cluster s)))"
    using realized_runtime_min [of nz en j p "commit_plan j p (gs_cluster s)"] by (simp add: MIN_RUNTIME_S_def)
  then show ?thesis
    using apply_action_placed [OF ne d i p, of nz] top_k_nth_pending [OF i]
    by (simp add: j py_remove_def keys_dict_set del: commit_simps(6) set_map)
qed

theorem legal_action_places_witness:
  "snd (snd (snd (apply_action no_noise 0 (small_env 1) small_state)))"
proof -
  have m: "action_mask (small_cfg 1) small_state ! 0"
    by (simp add: action_mask_def base_mask_def legal_actions_def set_bits_def n_act_def n_modes_def no_op_def
        encode_def n_placements_def top_k_jobs_def can_allocate_on_def plan_on_def fractional_def ram_ok_def
        mode_legal_def MODE_ISOLATE_def small_defs Let_def)
  show ?thesis
    using legal_action_places [of "small_env 1" 0 small_state no_noise] m
    by (auto simp: dims_ok_def n_act_def n_modes_def no_op_def decode_def n_placements_def top_k_jobs_def
        small_defs split: prod.splits)
qed

text \<open>The ablations restrict the mask to one axis. With \<^verbatim>\<open>job_only\<close> a job keeps exactly the first of
  its legal actions; with \<^verbatim>\<open>placement_only\<close> all legal actions of one job stay and no others; the
  no-op stays legal in both, and no action becomes legal that was not.\<close>

lemma ablation_restricts:
  fixes cfg :: env_cfg and s :: gym_state
  assumes "ec_ablation cfg \<in> {Some ''job_only'', Some ''placement_only''}"
  defines "legal \<equiv> filter (\<lambda>a. a \<noteq> no_op cfg) (flatnonzero (base_mask cfg s))"
  defines "job_of \<equiv> \<lambda>a. fst (decode cfg a)"
  shows "action_mask cfg s ! no_op cfg \<and>
    (\<forall>a < n_act cfg. action_mask cfg s ! a \<longrightarrow> base_mask cfg s ! a) \<and>
    (ec_ablation cfg = Some ''job_only'' \<longrightarrow>
       (\<forall>a < n_act cfg. a \<noteq> no_op cfg \<longrightarrow>
          action_mask cfg s ! a = (List.find (\<lambda>b. job_of b = job_of a) legal = Some a))) \<and>
    (ec_ablation cfg = Some ''placement_only'' \<and> legal \<noteq> [] \<longrightarrow>
       (\<exists>c \<in> set legal. \<forall>a < n_act cfg. a \<noteq> no_op cfg \<longrightarrow>
          action_mask cfg s ! a = (a \<in> set legal \<and> job_of a = job_of c)))"
proof (intro conjI impI allI)
  have noop: "base_mask cfg s ! no_op cfg"
    by (simp add: base_mask_nth)
  have am: "action_mask cfg s = restrict_mask_for_ablation cfg s (base_mask cfg s) (top_k_jobs cfg s)"
    using assms(1) by (auto simp: action_mask_def)
  show "action_mask cfg s ! no_op cfg"
    using noop by (simp add: am restrict_mask_for_ablation_def Let_def nth_list_update)
  show "base_mask cfg s ! a" if "a < n_act cfg" "action_mask cfg s ! a" for a
    using action_mask_sub [OF _ that] assms(1) by auto
  show "action_mask cfg s ! a = (List.find (\<lambda>b. job_of b = job_of a) legal = Some a)"
    if "ec_ablation cfg = Some ''job_only''" "a < n_act cfg" "a \<noteq> no_op cfg" for a
    using restrict_job_only [OF that(1), of a "base_mask cfg s" s "top_k_jobs cfg s"] that(2,3) noop
    by (simp add: am legal_def job_of_def)
  show "\<exists>c \<in> set legal. \<forall>a < n_act cfg. a \<noteq> no_op cfg \<longrightarrow>
      action_mask cfg s ! a = (a \<in> set legal \<and> job_of a = job_of c)"
    if p: "ec_ablation cfg = Some ''placement_only'' \<and> legal \<noteq> []"
  proof -
    obtain b where "b \<in> set legal"
      using p hd_in_set by blast
    from restrict_placement_only [OF conjunct1 [OF p] length_base_mask this [unfolded legal_def], of s "top_k_jobs cfg s"]
    obtain c where "c < n_act cfg" "base_mask cfg s ! c" "c \<noteq> no_op cfg"
      "\<forall>a<n_act cfg. action_mask cfg s ! a \<longleftrightarrow>
         a = no_op cfg \<or> (base_mask cfg s ! a \<and> fst (decode cfg a) = fst (decode cfg c))"
      by (auto simp: am)
    then show ?thesis
      by (intro bexI [of _ c]) (auto simp: legal_def set_flatnonzero job_of_def)
  qed
qed

section \<open>Episodes\<close>

text \<open>A sequence of actions.\<close>

fun play :: "noise \<Rightarrow> nat list \<Rightarrow> env \<Rightarrow> py_error + env" where
  "play nz [] en = Inr en"
| "play nz (a # as) en = (case step nz a en of Inl e \<Rightarrow> Inl e | Inr (r, en') \<Rightarrow> play nz as en')"

lemma play_inv:
  assumes "gym_jobs_ok jobs" "0 \<le> mps_per_gpu c0" "env_inv jobs c0 en"
  shows "\<exists>en'. play nz as en = Inr en' \<and> env_inv jobs c0 en' \<and> en_cfg en' = en_cfg en"
  using assms(3)
proof (induction as arbitrary: en)
  case Nil
  then show ?case by simp
next
  case (Cons a as)
  then obtain s where s: "en_state en = Some s" "gym_inv jobs c0 s"
    by (auto simp: env_inv_def)
  from step_cases [OF assms(1) s assms(2), of nz a]
  obtain res en1 where "step nz a en = Inr (res, en1)" "env_inv jobs c0 en1" "en_cfg en1 = en_cfg en"
    unfolding env_inv_def by metis
  with Cons.IH [of en1] show ?case
    by auto
qed



text \<open>C5. When a step reports the end of the episode, every job has been completed exactly once,
  nothing is pending, the cluster is idle, every completion time is at least one second, and the
  reported average is the mean of the recorded completion times.\<close>

theorem termination_means_all_done:
  assumes "gym_jobs_ok jobs" "en_state en = Some s" "gym_inv jobs c0 s" "0 \<le> mps_per_gpu c0"
    "step nz a en = Inr (res, en')" "sr_terminated res"
  shows "\<exists>s'. en_state en' = Some s' \<and> gs_pending s' = [] \<and> active (gs_cluster s') = [] \<and>
    mset (map fst (gs_jct_records s')) = mset (map job_id jobs) \<and>
    (\<forall>r \<in> set (gs_jct_records s'). 1 \<le> snd r) \<and>
    gs_jct_sum s' = sum_list (map snd (gs_jct_records s'))"
proof -
  from step_cases [OF assms(1-4), of nz a] obtain s' where s': "en_state en' = Some s'" "gym_inv jobs c0 s'"
      "gs_n_jobs s' \<le> gs_completed s'" "gs_events s' = []"
    using assms(5,6) by (metis Inr_inject prod.inject)
  note d = terminated_all_done [OF s'(2-4)] and i = gym_invD [OF s'(2)]
  have "1 \<le> snd r" if "r \<in> set (gs_jct_records s')" for r
    using i(10) [OF that] by (simp add: record_ok_def MIN_RUNTIME_S_def)
  then show ?thesis
    using s'(1) d i(12,13) by (intro exI [of _ s']) auto
qed

definition last_state :: gym_state where
  "last_state = (reset_state (small_cfg 1) [] (empty_cluster 1 1 100))\<lparr>gs_events := []\<rparr>"

theorem termination_means_all_done_witness:
  "\<exists>res en'. step no_noise 1 (small_env 1\<lparr>en_state := Some last_state\<rparr>) = Inr (res, en') \<and>
     sr_terminated res \<and> (\<exists>s'. en_state en' = Some s' \<and> active (gs_cluster s') = [])"
proof -
  let ?en = "small_env 1\<lparr>en_state := Some last_state\<rparr>"
  have wf: "wf_cluster (empty_cluster 1 1 100)"
    by (rule empty_cluster_wf) simp
  have jobs: "gym_jobs_ok []"
    by (simp add: gym_jobs_ok_def)
  have inv: "gym_inv [] (empty_cluster 1 1 100) last_state"
    using reset_inv(1) [OF jobs wf, of "small_cfg 1"]
    by (simp add: last_state_def reset_state_def empty_cluster_def)
  have st: "en_state ?en = Some last_state"
    by simp
  obtain res en' where r: "step no_noise 1 ?en = Inr (res, en')" "sr_terminated res"
    by (simp add: step_def apply_action_def settle_def last_state_def reset_state_def small_env_def
        no_op_def n_act_def n_modes_def top_k_jobs_def advance_to_decision.simps small_cfg_def Let_def)
  show ?thesis
    using termination_means_all_done [OF jobs st inv _ r] r by (auto simp: empty_cluster_def)
qed

text \<open>C6. Every step makes progress: the weight of the state (three per job not yet submitted, two
  per pending job, one per running job, at most three per job at the reset) goes down, except when
  the event heap is empty and the action placed nothing, and then the state is a dead end for that
  action. After every step the heap is empty or some pending job can be placed.\<close>

theorem step_makes_progress:
  assumes "gym_jobs_ok jobs" "en_state en = Some s" "gym_inv jobs c0 s" "0 \<le> mps_per_gpu c0"
  shows "\<exists>res en' s'. step nz a en = Inr (res, en') \<and> en_state en' = Some s' \<and>
    (gs_events s' = [] \<or> at_decision s') \<and>
    (gym_weight s' < gym_weight s \<or>
       gs_events s = [] \<and> \<not> snd (snd (snd (apply_action nz a (en\<lparr>en_steps := en_steps en + 1\<rparr>) s))))"
  by (rule step_cases [OF assms, of nz a]) fastforce

theorem step_makes_progress_witness:
  "\<exists>res en' s'. step no_noise 0 (small_env 1) = Inr (res, en') \<and> en_state en' = Some s' \<and>
     gym_weight s' < gym_weight small_state"
proof -
  have "snd (snd (snd (apply_action no_noise 0 (small_env 1\<lparr>en_steps := en_steps (small_env 1) + 1\<rparr>) small_state)))"
    by (simp add: apply_action_def try_allocate_on_def plan_on_def fractional_def ram_ok_def no_op_def n_act_def
        n_modes_def decode_def n_placements_def top_k_jobs_def small_defs Let_def split: prod.split)
  then show ?thesis
    using step_makes_progress [OF small_jobs_ok _ small_inv, of "small_env 1" no_noise 0]
    by (auto simp: small_env_def empty_cluster_def)
qed

text \<open>C7. The observation and the mask always have the sizes \<^verbatim>\<open>env_dims\<close> promises for the layout, the
  sizes a network is built with.\<close>

theorem observation_fits_layout:
  "(length (build_obs cfg s), length (action_mask cfg s)) =
     env_dims (ec_nodes cfg) (ec_gpus cfg) (ec_top_k cfg) (ec_colocation cfg)"
  by (rule prod_eqI) (simp_all add: length_build_obs, simp add: env_dims_def n_act_def n_modes_def)

section \<open>Randomness\<close>

text \<open>In a seeded episode the realized run time of a placement depends on the seed and the job
  only, not on what was drawn earlier in the episode: two evaluations with the same seed give the
  same job the same luck, whatever the policies did in between.\<close>

lemma seeded_runtime_common_random:
  assumes "nz_runtime nz = nz_runtime nz'" "nz_ram nz = nz_ram nz'" "en_cfg en' = en_cfg en"
    "en_seed en = Some seed" "en_seed en' = Some seed"
  shows "fst (realized_runtime nz en j plan c) = fst (realized_runtime nz' en' j plan c)"
  by (rule realized_runtime_keyed) (simp add: keyed_as_def assms)

text \<open>Out-of-memory penalties come only from memory noise or overcommitment: with
  \<^verbatim>\<open>oom_sigma == 0\<close> and no overcommit a consistent cluster never charges one, whatever is placed.\<close>

lemma no_oom_without_noise:
  assumes "wf_cluster c" "ec_oom_sigma (en_cfg en) \<le> 0" "0 \<le> ram_overcommit c" "ram_overcommit c \<le> 1"
    "\<forall>a \<in> set plan. a_node_id a < n_nodes c" "\<forall>i<n_nodes c. 0 \<le> ram_gb (nodes c ! i)"
  shows "oom_penalty nz en plan c = (0, en)"
  using assms by (rule oom_penalty_none)

section \<open>Two defects\<close>

text \<open>The warm-up heuristic indexes the whole pending list, not the first \<^verbatim>\<open>top_k\<close> jobs: when
  the best-ranked job is pending at position \<^verbatim>\<open>top_k\<close> its candidate index is the no-op, which is
  always legal, and the heuristic idles although a placement is legal.\<close>

lemma warmup_picks_no_op:
  "action_mask (small_cfg 1) small_state ! 0 \<and>
   score_warmup_action (small_env 1) (action_mask (small_cfg 1) small_state) (\<lambda>legal. hd legal) = no_op (small_cfg 1)"
proof -
  have mask: "action_mask (small_cfg 1) small_state = [True, True]"
    by (simp add: action_mask_def base_mask_def legal_actions_def set_bits_def n_act_def n_modes_def no_op_def
        encode_def n_placements_def top_k_jobs_def can_allocate_on_def plan_on_def fractional_def ram_ok_def
        mode_legal_def MODE_ISOLATE_def small_defs Let_def)
  have "score_order score_defaults (gs_pending small_state) (gs_cluster small_state) (gs_now small_state)
      = [short_job, long_job]"
    by (simp add: score_order_def score_key_def score_def f_mps_fit_def f_vram_fit_def f_fragmentation_def
        f_runtime_short_def gpu_type_to_vram_def str_lower_def lower_char_def score_defaults_def MPS_PER_GPU_def mf_priority_def
        mf_defaults_def max_gpu_count_def free_mps_per_node_def free_mps_total_def small_defs less_eq_prod_def
        Let_def)
  then show ?thesis
    using mask by (simp add: score_warmup_action_def flatnonzero_def small_env_def encode_def n_modes_def
        n_placements_def no_op_def n_act_def small_cfg_def small_state_def reset_state_def long_job_def
        short_job_def mk_job_def Let_def)
qed

text \<open>The dense placement reward is computed after the allocation and subtracts the job's slots
  a second time: a job that takes 60 of the 100 slots of an empty GPU is credited with a fit of
  1.2, where the documented factor (the utilization of the GPU after the placement) is 0.6.\<close>

lemma placement_reward_counts_twice:
  "(case try_allocate_on (empty_cluster 1 1 100) (long_job\<lparr>mps_req := 60\<rparr>) 0 0 of
      Some (p, c) \<Rightarrow> free_mps (gpus (nodes c ! 0) ! 0) = 40 \<and>
        placement_reward (small_cfg 1) (long_job\<lparr>mps_req := 60\<rparr>) 0 0 c = (4 / 10) * (12 / 10) * (1 / 100)
    | None \<Rightarrow> False)"
  by (simp add: try_allocate_on_def plan_on_def fractional_def ram_ok_def commit_plan_def reserve_ram_def
      on_node_def plan_hosts_def placement_reward_def floored_cv_def mean_def small_defs Let_def)

end
