(* ===== verification/OpMonad.thy ===== *)
theory OpMonad
  imports Prelude
begin

text \<open>
  Effectful code of the operator: a computation takes the state to a result, an exception or a
  value, and the new state. \<open>op_catch\<close> is \<^verbatim>\<open>try ... except Exception\<close>, which keeps what the body
  did before it raised; \<open>op_for\<close> is a \<^verbatim>\<open>for\<close> loop without \<^verbatim>\<open>break\<close>. The triple
  \<open>op_triple P m Q E\<close> says that from a state in \<open>P\<close> a normal result satisfies \<open>Q\<close> and an
  exceptional one leaves a state in \<open>E\<close>; \<open>keeps P m\<close> is the special case of an invariant.
\<close>

named_theorems op_triples \<open>Hoare rules of the effectful combinators\<close>
named_theorems op_keeps \<open>invariance rules of the effectful combinators\<close>

type_synonym ('s, 'a) op = "'s \<Rightarrow> (py_error + 'a) \<times> 's"

definition op_return :: "'a \<Rightarrow> ('s, 'a) op" where
  "op_return x s = (Inr x, s)"

definition op_raise :: "py_error \<Rightarrow> ('s, 'a) op" where
  "op_raise e s = (Inl e, s)"

definition op_bind :: "('s, 'a) op \<Rightarrow> ('a \<Rightarrow> ('s, 'b) op) \<Rightarrow> ('s, 'b) op" where
  "op_bind m f s = (case m s of (Inl e, s') \<Rightarrow> (Inl e, s') | (Inr x, s') \<Rightarrow> f x s')"

definition op_then :: "('s, unit) op \<Rightarrow> ('s, 'b) op \<Rightarrow> ('s, 'b) op" where
  "op_then m n = op_bind m (\<lambda>_. n)"

definition op_get :: "('s \<Rightarrow> 'a) \<Rightarrow> ('s, 'a) op" where
  "op_get f s = (Inr (f s), s)"

definition op_modify :: "('s \<Rightarrow> 's) \<Rightarrow> ('s, unit) op" where
  "op_modify f s = (Inr (), f s)"

definition op_catch :: "('s, 'a) op \<Rightarrow> (py_error \<Rightarrow> ('s, 'a) op) \<Rightarrow> ('s, 'a) op" where
  "op_catch m h s = (case m s of (Inl e, s') \<Rightarrow> h e s' | (Inr x, s') \<Rightarrow> (Inr x, s'))"

definition op_ignore :: "('s, unit) op \<Rightarrow> ('s, unit) op" where
  \<comment> \<open>\<^verbatim>\<open>except Exception: pass\<close>\<close>
  "op_ignore m = op_catch m (\<lambda>_. op_return ())"

definition op_when :: "bool \<Rightarrow> ('s, unit) op \<Rightarrow> ('s, unit) op" where
  "op_when b m = (if b then m else op_return ())"

fun op_for :: "'a list \<Rightarrow> ('a \<Rightarrow> ('s, unit) op) \<Rightarrow> ('s, unit) op" where
  "op_for [] f = op_return ()"
| "op_for (x # xs) f = op_then (f x) (op_for xs f)"

fun op_all :: "'a list \<Rightarrow> ('a \<Rightarrow> ('s, bool) op) \<Rightarrow> ('s, bool) op" where
  \<comment> \<open>\<^verbatim>\<open>all(...)\<close> over a generator: stops at the first false element\<close>
  "op_all [] f = op_return True"
| "op_all (x # xs) f = op_bind (f x) (\<lambda>b. if b then op_all xs f else op_return False)"

lemmas op_defs = op_return_def op_raise_def op_bind_def op_then_def op_get_def op_modify_def
  op_catch_def op_ignore_def op_when_def

section \<open>Triples\<close>

definition op_triple :: "('s \<Rightarrow> bool) \<Rightarrow> ('s, 'a) op \<Rightarrow> ('a \<Rightarrow> 's \<Rightarrow> bool) \<Rightarrow> ('s \<Rightarrow> bool) \<Rightarrow> bool" where
  "op_triple P m Q E \<longleftrightarrow>
     (\<forall>s. P s \<longrightarrow> (case m s of (Inl e, s') \<Rightarrow> E s' | (Inr x, s') \<Rightarrow> Q x s'))"

lemma triple_Inr: "op_triple P m Q E \<Longrightarrow> P s \<Longrightarrow> m s = (Inr x, s') \<Longrightarrow> Q x s'"
  unfolding op_triple_def by (drule spec [of _ s]) simp

lemma triple_Inl: "op_triple P m Q E \<Longrightarrow> P s \<Longrightarrow> m s = (Inl e, s') \<Longrightarrow> E s'"
  unfolding op_triple_def by (drule spec [of _ s]) simp

lemma tripleI:
  assumes "\<And>s x s'. P s \<Longrightarrow> m s = (Inr x, s') \<Longrightarrow> Q x s'" "\<And>s e s'. P s \<Longrightarrow> m s = (Inl e, s') \<Longrightarrow> E s'"
  shows "op_triple P m Q E"
  using assms by (auto simp: op_triple_def split: prod.splits sum.splits)

lemma triple_conseq:
  "op_triple P m Q E \<Longrightarrow> (\<And>s. P' s \<Longrightarrow> P s) \<Longrightarrow> (\<And>x s. Q x s \<Longrightarrow> Q' x s) \<Longrightarrow> (\<And>s. E s \<Longrightarrow> E' s) \<Longrightarrow>
     op_triple P' m Q' E'"
  by (rule tripleI) (blast dest: triple_Inr triple_Inl)+

lemma triple_return [op_triples]: "(\<And>s. P s \<Longrightarrow> Q x s) \<Longrightarrow> op_triple P (op_return x) Q E"
  by (simp add: op_triple_def op_return_def)

lemma triple_raise [op_triples]: "(\<And>s. P s \<Longrightarrow> E s) \<Longrightarrow> op_triple P (op_raise e) Q E"
  by (simp add: op_triple_def op_raise_def)

lemma triple_get [op_triples]: "(\<And>s. P s \<Longrightarrow> Q (f s) s) \<Longrightarrow> op_triple P (op_get f) Q E"
  by (simp add: op_triple_def op_get_def)

lemma triple_modify [op_triples]: "(\<And>s. P s \<Longrightarrow> Q () (f s)) \<Longrightarrow> op_triple P (op_modify f) Q E"
  by (simp add: op_triple_def op_modify_def)

lemma triple_pure: "(b \<Longrightarrow> op_triple P m Q E) \<Longrightarrow> op_triple (\<lambda>s. P s \<and> b) m Q E"
  by (simp add: op_triple_def)

lemma triple_bind [op_triples]:
  "op_triple P m R E \<Longrightarrow> (\<And>x. op_triple (R x) (f x) Q E) \<Longrightarrow> op_triple P (op_bind m f) Q E"
  unfolding op_triple_def op_bind_def by (fastforce split: prod.splits sum.splits)

lemma triple_get_bind:
  "(\<And>s. P s \<Longrightarrow> f s = v) \<Longrightarrow> op_triple P (g v) Q E \<Longrightarrow> op_triple P (op_bind (op_get f) g) Q E"
  by (rule triple_bind [where R = "\<lambda>x s. P s \<and> x = v"]) (auto intro!: triple_get triple_pure)

lemma triple_then [op_triples]:
  "op_triple P m (\<lambda>_. R) E \<Longrightarrow> op_triple R n Q E \<Longrightarrow> op_triple P (op_then m n) Q E"
  unfolding op_then_def by (rule triple_bind)

lemma triple_catch [op_triples]:
  "op_triple P m Q F \<Longrightarrow> (\<And>e. op_triple F (h e) Q E) \<Longrightarrow> op_triple P (op_catch m h) Q E"
  unfolding op_triple_def op_catch_def by (fastforce split: prod.splits sum.splits)

lemma triple_ignore [op_triples]:
  "op_triple P m (\<lambda>_. Q) Q \<Longrightarrow> op_triple P (op_ignore m) (\<lambda>_. Q) E"
  unfolding op_ignore_def by (rule triple_catch) (auto intro: triple_return)

lemma triple_when [op_triples]:
  "(b \<Longrightarrow> op_triple P m (\<lambda>_. Q) E) \<Longrightarrow> (\<not> b \<Longrightarrow> (\<And>s. P s \<Longrightarrow> Q s)) \<Longrightarrow> op_triple P (op_when b m) (\<lambda>_. Q) E"
  by (cases b) (simp_all add: op_when_def op_triple_def op_return_def)

lemma triple_if [op_triples]:
  "(b \<Longrightarrow> op_triple P m Q E) \<Longrightarrow> (\<not> b \<Longrightarrow> op_triple P n Q E) \<Longrightarrow> op_triple P (if b then m else n) Q E"
  by simp

lemma triple_for:
  "(\<And>x. x \<in> set xs \<Longrightarrow> op_triple P (f x) (\<lambda>_. P) P) \<Longrightarrow> op_triple P (op_for xs f) (\<lambda>_. P) P"
proof (induction xs)
  case Nil
  show ?case by (simp add: triple_return)
next
  case (Cons x xs)
  have "op_triple P (op_for xs f) (\<lambda>_. P) P"
    by (rule Cons.IH) (simp add: Cons.prems)
  then show ?case
    unfolding op_for.simps by (rule triple_then [rotated]) (simp add: Cons.prems)
qed

section \<open>Invariants\<close>

definition keeps :: "('s \<Rightarrow> bool) \<Rightarrow> ('s, 'a) op \<Rightarrow> bool" where
  "keeps P m \<longleftrightarrow> op_triple P m (\<lambda>_. P) P"

lemma keepsD: "keeps P m \<Longrightarrow> P s \<Longrightarrow> m s = (r, s') \<Longrightarrow> P s'"
  unfolding keeps_def op_triple_def by (cases r) fastforce+

lemma keepsI: "(\<And>s r s'. P s \<Longrightarrow> m s = (r, s') \<Longrightarrow> P s') \<Longrightarrow> keeps P m"
  unfolding keeps_def by (intro tripleI) blast+

lemma keeps_return [op_keeps]: "keeps P (op_return x)"
  by (simp add: keeps_def triple_return)

lemma keeps_raise [op_keeps]: "keeps P (op_raise e)"
  by (simp add: keeps_def triple_raise)

lemma keeps_get [op_keeps]: "keeps P (op_get f)"
  by (simp add: keeps_def triple_get)

lemma keeps_modify [op_keeps]: "(\<And>s. P s \<Longrightarrow> P (f s)) \<Longrightarrow> keeps P (op_modify f)"
  by (simp add: keeps_def triple_modify)

lemma keeps_bind [op_keeps]: "keeps P m \<Longrightarrow> (\<And>x. keeps P (f x)) \<Longrightarrow> keeps P (op_bind m f)"
  unfolding keeps_def by (rule triple_bind)

lemma keeps_then [op_keeps]: "keeps P m \<Longrightarrow> keeps P n \<Longrightarrow> keeps P (op_then m n)"
  unfolding keeps_def by (rule triple_then)

lemma keeps_catch [op_keeps]: "keeps P m \<Longrightarrow> (\<And>e. keeps P (h e)) \<Longrightarrow> keeps P (op_catch m h)"
  unfolding keeps_def by (rule triple_catch)

lemma keeps_ignore [op_keeps]: "keeps P m \<Longrightarrow> keeps P (op_ignore m)"
  unfolding keeps_def by (rule triple_ignore)

lemma keeps_when [op_keeps]: "(b \<Longrightarrow> keeps P m) \<Longrightarrow> keeps P (op_when b m)"
  by (simp add: op_when_def keeps_return)

lemma keeps_if [op_keeps]: "(b \<Longrightarrow> keeps P m) \<Longrightarrow> (\<not> b \<Longrightarrow> keeps P n) \<Longrightarrow> keeps P (if b then m else n)"
  by simp

lemma keeps_option [op_keeps]:
  "(x = None \<Longrightarrow> keeps P m) \<Longrightarrow> (\<And>y. x = Some y \<Longrightarrow> keeps P (n y)) \<Longrightarrow>
     keeps P (case x of None \<Rightarrow> m | Some y \<Rightarrow> n y)"
  by (cases x) simp_all

lemma keeps_for [op_keeps]: "(\<And>x. x \<in> set xs \<Longrightarrow> keeps P (f x)) \<Longrightarrow> keeps P (op_for xs f)"
  unfolding keeps_def by (rule triple_for)

lemma keeps_all [op_keeps]: "(\<And>x. x \<in> set xs \<Longrightarrow> keeps P (f x)) \<Longrightarrow> keeps P (op_all xs f)"
  by (induction xs) (auto intro!: op_keeps)

text \<open>A computation whose body is wrapped whole in an exception handler never raises.\<close>

lemma op_ignore_total: "\<exists>s'. op_ignore m s = (Inr (), s')"
  by (simp add: op_ignore_def op_catch_def op_return_def split: prod.splits sum.splits)

lemma op_for_total:
  "(\<And>x s. x \<in> set xs \<Longrightarrow> \<exists>s'. f x s = (Inr (), s')) \<Longrightarrow> \<exists>s'. op_for xs f s = (Inr (), s')"
proof (induction xs arbitrary: s)
  case Nil
  show ?case by (simp add: op_return_def)
next
  case (Cons x xs)
  obtain s1 where "f x s = (Inr (), s1)"
    using Cons.prems [of x s] by auto
  moreover obtain s' where "op_for xs f s1 = (Inr (), s')"
    using Cons.IH [of s1] Cons.prems by auto
  ultimately show ?case
    by (simp add: op_then_def op_bind_def)
qed

section \<open>Loops that build a list\<close>

fun op_map :: "('a \<Rightarrow> ('s, 'b) op) \<Rightarrow> 'a list \<Rightarrow> ('s, 'b list) op" where
  "op_map f [] = op_return []"
| "op_map f (x # xs) = op_bind (f x) (\<lambda>y. op_bind (op_map f xs) (\<lambda>ys. op_return (y # ys)))"

definition op_repeat :: "nat \<Rightarrow> ('s, 'a) op \<Rightarrow> ('s, 'a list) op" where
  "op_repeat n m = op_map (\<lambda>_. m) [0..<n]"

fun op_filter :: "('a \<Rightarrow> ('s, bool) op) \<Rightarrow> 'a list \<Rightarrow> ('s, 'a list) op" where
  "op_filter f [] = op_return []"
| "op_filter f (x # xs) =
     op_bind (f x) (\<lambda>b. op_bind (op_filter f xs) (\<lambda>ys. op_return (if b then x # ys else ys)))"

section \<open>Total correctness\<close>

text \<open>\<open>yields Q m\<close>: from every state \<open>m\<close> returns, and what it returns satisfies \<open>Q\<close>.\<close>

named_theorems op_yields \<open>rules of total correctness of the effectful combinators\<close>

definition yields :: "('a \<Rightarrow> bool) \<Rightarrow> ('s, 'a) op \<Rightarrow> bool" where
  "yields Q m \<longleftrightarrow> (\<forall>s. \<exists>x s'. m s = (Inr x, s') \<and> Q x)"

lemma yieldsD: "yields Q m \<Longrightarrow> \<exists>x s'. m s = (Inr x, s') \<and> Q x"
  by (simp add: yields_def)

lemma yields_return [op_yields]: "Q x \<Longrightarrow> yields Q (op_return x)"
  by (simp add: yields_def op_return_def)

lemma yields_bind:
  assumes "yields R m" "\<And>x. R x \<Longrightarrow> yields Q (f x)"
  shows "yields Q (op_bind m f)"
  unfolding yields_def
proof
  fix s
  obtain x s1 where m: "m s = (Inr x, s1)" "R x"
    using yieldsD [OF assms(1)] by blast
  with yieldsD [OF assms(2) [OF m(2)], of s1] show "\<exists>y s'. op_bind m f s = (Inr y, s') \<and> Q y"
    by (simp add: op_bind_def)
qed

lemma yields_mono: "yields R m \<Longrightarrow> (\<And>x. R x \<Longrightarrow> Q x) \<Longrightarrow> yields Q m"
  unfolding yields_def by blast

lemma yields_if [op_yields]: "(b \<Longrightarrow> yields Q m) \<Longrightarrow> (\<not> b \<Longrightarrow> yields Q n) \<Longrightarrow> yields Q (if b then m else n)"
  by simp

lemma yields_map:
  "(\<And>x. x \<in> set xs \<Longrightarrow> yields (Q x) (f x)) \<Longrightarrow> yields (list_all2 Q xs) (op_map f xs)"
proof (induction xs)
  case Nil
  show ?case by (simp add: yields_return)
next
  case (Cons x xs)
  show ?case
    unfolding op_map.simps
    by (rule yields_bind [OF Cons.prems], simp, rule yields_bind [OF Cons.IH])
      (auto intro!: yields_return Cons.prems)
qed

lemma yields_repeat:
  assumes "yields Q m"
  shows "yields (\<lambda>ys. length ys = n \<and> list_all Q ys) (op_repeat n m)"
  unfolding op_repeat_def
  by (rule yields_mono [OF yields_map [where Q = "\<lambda>_. Q"]])
    (use assms in \<open>auto simp: list_all2_conv_all_nth list_all_length\<close>)

lemma yields_filter:
  "(\<And>x. x \<in> set xs \<Longrightarrow> yields (\<lambda>_. True) (f x)) \<Longrightarrow> yields (\<lambda>ys. set ys \<subseteq> set xs) (op_filter f xs)"
proof (induction xs)
  case Nil
  show ?case by (simp add: yields_return)
next
  case (Cons x xs)
  show ?case
    unfolding op_filter.simps
    by (rule yields_bind [OF Cons.prems], simp, rule yields_bind [OF Cons.IH])
      (auto intro!: yields_return Cons.prems)
qed

end
