(* ===== verification/PyJson.thy ===== *)
theory PyJson
  imports PyText
begin

text \<open>
  Decoded JSON as Python sees it, and the conversions the source applies to it: truth value,
  \<^verbatim>\<open>x or y\<close>, \<^verbatim>\<open>d.get(k, default)\<close>, \<^verbatim>\<open>str\<close>, \<^verbatim>\<open>int\<close> and \<^verbatim>\<open>float\<close> with their exceptions. A float
  carries its printed form beside its value, because Python's shortest decimal is not modelled.
  A JSON object is a dictionary in the order of its text.
\<close>

datatype json =
    JNull
  | JBool bool
  | JInt int
  | JFloat string real
  | JStr string
  | JList "json list"
  | JObj "(string \<times> json) list"

type_synonym jobj = "(string, json) dict"

fun truthy :: "json \<Rightarrow> bool" where
  "truthy JNull = False"
| "truthy (JBool b) = b"
| "truthy (JInt i) = (i \<noteq> 0)"
| "truthy (JFloat _ x) = (x \<noteq> 0)"
| "truthy (JStr s) = (s \<noteq> [])"
| "truthy (JList xs) = (xs \<noteq> [])"
| "truthy (JObj d) = (d \<noteq> [])"

definition j_or :: "json \<Rightarrow> json \<Rightarrow> json" where
  "j_or a b = (if truthy a then a else b)"

definition j_get :: "jobj \<Rightarrow> string \<Rightarrow> json \<Rightarrow> json" where
  "j_get d k v0 = dict_get d k v0"

definition is_JList :: "json \<Rightarrow> bool" where
  "is_JList j = (case j of JList _ \<Rightarrow> True | _ \<Rightarrow> False)"

section \<open>Printing\<close>

text \<open>\<^verbatim>\<open>repr\<close> of a string: single quotes unless the text holds one and no double quote; backslash
  and the quote are escaped (control characters other than newline, return and tab are not
  treated).\<close>

definition repr_char :: "char \<Rightarrow> char \<Rightarrow> string" where
  "repr_char q c =
     (if c = CHR 0x5C then [CHR 0x5C, CHR 0x5C] else if c = q then [CHR 0x5C, q]
      else if c = CHR 0x0A then [CHR 0x5C, CHR ''n''] else if c = CHR 0x0D then [CHR 0x5C, CHR ''r'']
      else if c = CHR 0x09 then [CHR 0x5C, CHR ''t''] else [c])"

definition repr_str :: "string \<Rightarrow> string" where
  "repr_str s =
     (let q = (if CHR 0x27 \<in> set s \<and> CHR 0x22 \<notin> set s then CHR 0x22 else CHR 0x27)
      in [q] @ concat (map (repr_char q) s) @ [q])"

fun py_repr :: "json \<Rightarrow> string" where
  "py_repr JNull = ''None''"
| "py_repr (JBool b) = (if b then ''True'' else ''False'')"
| "py_repr (JInt i) = dec_int i"
| "py_repr (JFloat t _) = t"
| "py_repr (JStr s) = repr_str s"
| "py_repr (JList xs) = ''['' @ str_join '', '' (map py_repr xs) @ '']''"
| "py_repr (JObj d) = ''{'' @ str_join '', '' (map (\<lambda>(k, v). repr_str k @ '': '' @ py_repr v) d) @ ''}''"

definition py_str :: "json \<Rightarrow> string" where
  "py_str j = (case j of JStr s \<Rightarrow> s | _ \<Rightarrow> py_repr j)"

section \<open>Numbers\<close>

definition py_int :: "json \<Rightarrow> py_error + int" where
  "py_int j =
     (case j of
        JInt i \<Rightarrow> Inr i
      | JBool b \<Rightarrow> Inr (if b then 1 else 0)
      | JFloat _ x \<Rightarrow> Inr (if x < 0 then \<lceil>x\<rceil> else \<lfloor>x\<rfloor>)
      | JStr s \<Rightarrow> (case int_of_str s of None \<Rightarrow> Inl ValueError | Some i \<Rightarrow> Inr i)
      | _ \<Rightarrow> Inl TypeError)"

definition py_float :: "json \<Rightarrow> py_error + real" where
  "py_float j =
     (case j of
        JInt i \<Rightarrow> Inr (of_int i)
      | JBool b \<Rightarrow> Inr (if b then 1 else 0)
      | JFloat _ x \<Rightarrow> Inr x
      | JStr s \<Rightarrow> (case float_of_str s of None \<Rightarrow> Inl ValueError | Some x \<Rightarrow> Inr x)
      | _ \<Rightarrow> Inl TypeError)"

text \<open>\<^verbatim>\<open>",".join(xs)\<close> of a JSON list: every element must be a string.\<close>

fun j_strings :: "json list \<Rightarrow> py_error + string list" where
  "j_strings [] = Inr []"
| "j_strings (JStr s # xs) = (case j_strings xs of Inl e \<Rightarrow> Inl e | Inr ss \<Rightarrow> Inr (s # ss))"
| "j_strings (_ # xs) = Inl TypeError"

definition join_if_list :: "json \<Rightarrow> py_error + json" where
  \<comment> \<open>\<^verbatim>\<open>if isinstance(v, list): v = ",".join(v)\<close>\<close>
  "join_if_list v =
     (case v of
        JList xs \<Rightarrow> (case j_strings xs of Inl e \<Rightarrow> Inl e | Inr ss \<Rightarrow> Inr (JStr (str_join '','' ss)))
      | _ \<Rightarrow> Inr v)"

text \<open>Sequencing of fallible computations and the map of one over a list.\<close>

definition res_bind :: "py_error + 'a \<Rightarrow> ('a \<Rightarrow> py_error + 'b) \<Rightarrow> py_error + 'b" where
  "res_bind r f = (case r of Inl e \<Rightarrow> Inl e | Inr x \<Rightarrow> f x)"

fun res_map :: "('a \<Rightarrow> py_error + 'b) \<Rightarrow> 'a list \<Rightarrow> py_error + 'b list" where
  "res_map f [] = Inr []"
| "res_map f (x # xs) = res_bind (f x) (\<lambda>y. res_bind (res_map f xs) (\<lambda>ys. Inr (y # ys)))"

definition res_else :: "py_error + 'a \<Rightarrow> 'a \<Rightarrow> 'a" where
  \<comment> \<open>\<^verbatim>\<open>try: x = ... except: x = default\<close>\<close>
  "res_else r d = (case r of Inl _ \<Rightarrow> d | Inr x \<Rightarrow> x)"

text \<open>Values used as a string, an object or an iterable.\<close>

definition as_str :: "json \<Rightarrow> py_error + string" where
  \<comment> \<open>a string method called on the value\<close>
  "as_str j = (case j of JStr s \<Rightarrow> Inr s | _ \<Rightarrow> Inl AttributeError)"

definition as_obj :: "json \<Rightarrow> py_error + jobj" where
  "as_obj j = (case j of JObj d \<Rightarrow> Inr d | _ \<Rightarrow> Inl AttributeError)"

definition as_list :: "json \<Rightarrow> py_error + json list" where
  \<comment> \<open>iteration: a list gives its elements, an object its keys, a string its characters\<close>
  "as_list j =
     (case j of JList xs \<Rightarrow> Inr xs | JObj d \<Rightarrow> Inr (map (\<lambda>x. JStr (fst x)) d)
      | JStr s \<Rightarrow> Inr (map (\<lambda>c. JStr [c]) s) | _ \<Rightarrow> Inl TypeError)"

lemma res_bind_simps [simp]: "res_bind (Inl e) f = Inl e" "res_bind (Inr x) f = f x"
  by (simp_all add: res_bind_def)

lemma res_bind_Inr: "res_bind r f = Inr y \<longleftrightarrow> (\<exists>x. r = Inr x \<and> f x = Inr y)"
  by (cases r) auto

lemma res_map_length: "res_map f xs = Inr ys \<Longrightarrow> length ys = length xs"
  by (induction xs arbitrary: ys) (auto simp: res_bind_Inr)

lemma res_map_nth: "res_map f xs = Inr ys \<Longrightarrow> i < length xs \<Longrightarrow> f (xs ! i) = Inr (ys ! i)"
proof (induction xs arbitrary: ys i)
  case Nil
  then show ?case by simp
next
  case (Cons x xs)
  then show ?case
    by (cases i) (auto simp: res_bind_Inr)
qed

lemma res_map_set: "res_map f xs = Inr ys \<Longrightarrow> y \<in> set ys \<Longrightarrow> \<exists>x \<in> set xs. f x = Inr y"
  by (induction xs arbitrary: ys) (auto simp: res_bind_Inr)

end
