(* ===== verification/SimLoader.thy ===== *)
theory SimLoader
  imports SimJob OpMonad PyJson PyStats
begin

text \<open>
  The traces of the simulator (\<^verbatim>\<open>sim/loader.py\<close>): the normalized format and its reader, the reader of
  Philly's raw format, and the random generators. A generator is a computation over the number of
  draws made so far; what \<^verbatim>\<open>random.Random(seed)\<close> answers is the parameter \<open>rng\<close>, one function per
  method, and \<open>rng_ok\<close> states the ranges its documentation promises. Two readings of time stamps,
  which depend on the local time zone, are parameters too. A JSON document is its decoded value.
\<close>

definition MPS_FRACTIONAL_TIERS :: "int list" where "MPS_FRACTIONAL_TIERS = [25, 50, 75]"
definition MPS_SMALL_TIERS :: "int list" where "MPS_SMALL_TIERS = [25, 50]"

definition RAM_REQ_GB :: "(string, real) dict" where
  "RAM_REQ_GB = [(''inference'', 1), (''training'', 11 / 10), (''llm'', 5 / 2), (''batch'', 1)]"

section \<open>The normalized format\<close>

definition item_at :: "json \<Rightarrow> string \<Rightarrow> py_error + json" where
  \<comment> \<open>\<^verbatim>\<open>item[key]\<close>\<close>
  "item_at item k =
     (case item of
        JObj d \<Rightarrow> (case map_of d k of None \<Rightarrow> Inl KeyError | Some v \<Rightarrow> Inr v)
      | _ \<Rightarrow> Inl TypeError)"

definition item_get :: "json \<Rightarrow> string \<Rightarrow> json \<Rightarrow> py_error + json" where
  "item_get item k v0 = res_bind (as_obj item) (\<lambda>d. Inr (j_get d k v0))"

definition job_from_dict :: "json \<Rightarrow> py_error + job" where
  "job_from_dict item =
     res_bind (item_at item ''job_id'') (\<lambda>jid.
     res_bind (item_get item ''user'' (JStr ''anon'')) (\<lambda>u.
     res_bind (res_bind (item_at item ''gpu_count'') py_int) (\<lambda>gc.
     res_bind (item_get item ''gpu_type'' (JStr ''rtx4070'')) (\<lambda>gt.
     res_bind (res_bind (item_at item ''submit_ts'') py_float) (\<lambda>sub.
     res_bind (res_bind (item_at item ''runtime'') py_float) (\<lambda>rt.
     res_bind (res_bind (item_get item ''mem_req'' (JFloat ''0.0'' 0)) py_float) (\<lambda>mem.
     res_bind (res_bind (item_get item ''mps_req'' (JInt MPS_PER_GPU)) py_int) (\<lambda>mps.
     res_bind (item_get item ''latency_class'' (JStr [])) (\<lambda>lc.
     res_bind (item_get item ''job_class'' (JStr ''batch'')) (\<lambda>jc.
     res_bind (res_bind (item_get item ''slo_s'' (JFloat ''0.0'' 0)) py_float) (\<lambda>slo.
     res_bind (res_bind (item_get item ''ram_req'' (JFloat ''0.0'' 0)) py_float) (\<lambda>ram.
       Inr \<lparr>job_id = py_str jid, user = py_str u, gpu_count = gc, gpu_type = py_str gt, submit_ts = sub,
            runtime = rt, mem_req = mem, mps_req = mps, latency_class = py_str lc, job_class = py_str jc,
            slo_s = slo, ram_req = ram\<rparr>))))))))))))"

definition job_as_dict :: "(real \<Rightarrow> string) \<Rightarrow> job \<Rightarrow> jobj" where
  \<comment> \<open>the printed form of a float is a parameter\<close>
  "job_as_dict shown j =
     (let fl = (\<lambda>x. JFloat (shown x) x) in
      [(''job_id'', JStr (job_id j)), (''user'', JStr (user j)), (''gpu_count'', JInt (gpu_count j)),
       (''gpu_type'', JStr (gpu_type j)), (''submit_ts'', fl (submit_ts j)), (''runtime'', fl (runtime j)),
       (''mem_req'', fl (mem_req j)), (''mps_req'', JInt (mps_req j)),
       (''latency_class'', JStr (latency_class j)), (''job_class'', JStr (job_class j)),
       (''slo_s'', fl (slo_s j)), (''ram_req'', fl (ram_req j))])"

definition write_normalized :: "(real \<Rightarrow> string) \<Rightarrow> job list \<Rightarrow> json" where
  "write_normalized shown jobs = JList (map (\<lambda>j. JObj (job_as_dict shown j)) jobs)"

section \<open>Random draws\<close>

record rng =
  rn_random :: "nat \<Rightarrow> real"
  rn_uniform :: "nat \<Rightarrow> real \<Rightarrow> real \<Rightarrow> real"
  rn_expo :: "nat \<Rightarrow> real \<Rightarrow> real"
  rn_lognorm :: "nat \<Rightarrow> real \<Rightarrow> real \<Rightarrow> real"
  rn_below :: "nat \<Rightarrow> nat \<Rightarrow> nat"
  rn_weighted :: "nat \<Rightarrow> real list \<Rightarrow> nat"

definition rng_ok :: "rng \<Rightarrow> bool" where
  "rng_ok g \<longleftrightarrow>
     (\<forall>i a b. a \<le> b \<longrightarrow> a \<le> rn_uniform g i a b \<and> rn_uniform g i a b \<le> b) \<and>
     (\<forall>i l. 0 < l \<longrightarrow> 0 \<le> rn_expo g i l) \<and>
     (\<forall>i n. 0 < n \<longrightarrow> rn_below g i n < n) \<and>
     (\<forall>i ws. ws \<noteq> [] \<longrightarrow> rn_weighted g i ws < length ws)"

type_synonym 'a drawn = "(nat, 'a) op"

definition draw :: "(nat \<Rightarrow> 'a) \<Rightarrow> 'a drawn" where
  "draw f i = (Inr (f i), Suc i)"

definition rng_choice :: "rng \<Rightarrow> 'a list \<Rightarrow> 'a drawn" where
  "rng_choice g xs =
     (if xs = [] then op_raise IndexError
      else op_bind (draw (\<lambda>i. rn_below g i (length xs))) (\<lambda>k. op_return (xs ! k)))"

definition rng_choices :: "rng \<Rightarrow> 'a list \<Rightarrow> real list \<Rightarrow> 'a drawn" where
  \<comment> \<open>\<^verbatim>\<open>rng.choices(xs, weights)[0]\<close>\<close>
  "rng_choices g xs ws =
     (if xs = [] then op_raise IndexError
      else if length ws \<noteq> length xs \<or> sum_list ws \<le> 0 then op_raise ValueError
      else op_bind (draw (\<lambda>i. rn_weighted g i ws)) (\<lambda>k. op_return (xs ! k)))"

section \<open>What the generators share\<close>

definition pad :: "nat \<Rightarrow> nat \<Rightarrow> string" where
  \<comment> \<open>\<^verbatim>\<open>f"{i:05d}"\<close> for a width of 5\<close>
  "pad w i = replicate (w - length (dec_nat i)) (CHR ''0'') @ dec_nat i"

definition user_names :: "int \<Rightarrow> string list" where
  "user_names n_users = map (\<lambda>i. CHR ''u'' # pad 2 i) [0..<nat n_users]"

definition card_names :: "string list" where "card_names = [''rtx4070'', ''rtx3080'']"
definition card_weights :: "real list" where "card_weights = [3 / 5, 2 / 5]"

definition draw_card :: "rng \<Rightarrow> string drawn" where
  "draw_card g = rng_choices g card_names card_weights"

definition draw_mps :: "rng \<Rightarrow> real \<Rightarrow> int list \<Rightarrow> int \<Rightarrow> int drawn" where
  \<comment> \<open>whole GPU, or a fraction for some of the single-GPU jobs\<close>
  "draw_mps g share tiers gc =
     (if gc = 1
      then op_bind (draw (rn_random g)) (\<lambda>x. if x < share then rng_choice g tiers else op_return MPS_PER_GPU)
      else op_return MPS_PER_GPU)"

definition draw_gap :: "rng \<Rightarrow> real \<Rightarrow> real drawn" where
  "draw_gap g mean_gap =
     (if 0 < mean_gap then draw (\<lambda>i. rn_expo g i (1 / mean_gap)) else op_return 0)"

definition finish_job ::
  "rng \<Rightarrow> string list \<Rightarrow> string \<Rightarrow> nat \<Rightarrow> int \<Rightarrow> int \<Rightarrow> real \<Rightarrow> string \<Rightarrow> real \<Rightarrow> real \<Rightarrow> real \<Rightarrow> job drawn" where
  \<comment> \<open>the construction of the job: its last two draws are the user and the card\<close>
  "finish_job g users prefix i gc mps rt cls slo ram t =
     op_bind (rng_choice g users) (\<lambda>u.
     op_bind (draw_card g) (\<lambda>card.
       op_return ((mk_job (prefix @ pad 5 i) u gc card (py_round 3 t) (py_round 3 rt) 0 mps)
         \<lparr>job_class := cls, slo_s := slo, ram_req := ram\<rparr>)))"

text \<open>Arrivals one after the other: each adds its gap to the clock before its job is made.\<close>

fun arrivals :: "real drawn \<Rightarrow> (nat \<Rightarrow> 'a \<Rightarrow> real \<Rightarrow> job drawn) \<Rightarrow> (nat \<times> 'a) list \<Rightarrow> real \<Rightarrow> job list drawn" where
  "arrivals gap mk [] t = op_return []"
| "arrivals gap mk ((i, x) # rest) t =
     op_bind gap (\<lambda>d.
     op_bind (mk i x (t + d)) (\<lambda>j.
     op_bind (arrivals gap mk rest (t + d)) (\<lambda>js. op_return (j # js))))"

definition enumerated :: "'a list \<Rightarrow> (nat \<times> 'a) list" where
  "enumerated xs = zip [0..<length xs] xs"

section \<open>Philly and its bursty variant\<close>

definition philly_gpus :: "int list" where "philly_gpus = [1, 2, 4, 8]"
definition philly_weights :: "real list" where "philly_weights = [3 / 4, 3 / 25, 1 / 10, 3 / 100]"

definition sized_job ::
  "rng \<Rightarrow> string list \<Rightarrow> string \<Rightarrow> int list \<Rightarrow> real list \<Rightarrow> real \<Rightarrow> real \<Rightarrow> real \<Rightarrow> int list \<Rightarrow> nat \<Rightarrow> real \<Rightarrow> job drawn" where
  "sized_job g users prefix sizes weights mu sigma share tiers i t =
     op_bind (rng_choices g sizes weights) (\<lambda>gc.
     op_bind (draw (\<lambda>k. max 60 (rn_lognorm g k mu sigma))) (\<lambda>rt.
     op_bind (draw_mps g share tiers gc) (\<lambda>mps.
       finish_job g users prefix i gc mps rt ''batch'' 0 0 t)))"

definition philly_job :: "rng \<Rightarrow> string list \<Rightarrow> string \<Rightarrow> nat \<Rightarrow> real \<Rightarrow> job drawn" where
  "philly_job g users prefix =
     sized_job g users prefix philly_gpus philly_weights (15 / 2) (7 / 5) (3 / 10) MPS_FRACTIONAL_TIERS"

definition generate_philly_like :: "rng \<Rightarrow> int \<Rightarrow> real \<Rightarrow> int \<Rightarrow> job list drawn" where
  "generate_philly_like g n_jobs horizon n_users =
     arrivals (draw_gap g (horizon / max 1 (of_int n_jobs)))
       (\<lambda>i _. philly_job g (user_names n_users) ''phl-'' i)
       (enumerated [0..<nat n_jobs]) 0"

definition burst_submits :: "rng \<Rightarrow> int \<Rightarrow> real \<Rightarrow> real \<Rightarrow> real \<Rightarrow> real \<Rightarrow> real list drawn" where
  "burst_submits g n_jobs horizon period active concentration =
     (let n_burst = half_even (of_int n_jobs * concentration); n_gap = n_jobs - n_burst
      in if period = 0 then op_raise ZeroDivisionError
         else
           (let q = horizon / period; n_cycles = max 1 (if q < 0 then \<lceil>q\<rceil> else \<lfloor>q\<rfloor>) in
            op_bind (op_repeat (nat n_burst)
              (op_bind (draw (\<lambda>i. rn_below g i (nat n_cycles))) (\<lambda>cyc.
               op_bind (draw (\<lambda>i. rn_uniform g i 0 active)) (\<lambda>off.
                 op_return (real cyc * period + off))))) (\<lambda>bs.
            op_bind (op_repeat (nat n_gap) (draw (\<lambda>i. rn_uniform g i 0 horizon))) (\<lambda>gs.
              op_return (sort (bs @ gs))))))"

definition generate_burst_heavy :: "rng \<Rightarrow> int \<Rightarrow> real \<Rightarrow> int \<Rightarrow> real \<Rightarrow> real \<Rightarrow> real \<Rightarrow> job list drawn" where
  "generate_burst_heavy g n_jobs horizon n_users period active concentration =
     op_bind (burst_submits g n_jobs horizon period active concentration) (\<lambda>submits.
       op_map (\<lambda>(i, t). philly_job g (user_names n_users) ''burst-'' i t) (enumerated submits))"

section \<open>Alibaba\<close>

definition day_envelope :: "real \<Rightarrow> real" where
  "day_envelope t = 1 / 2 + 1 / 2 * sin (2 * pi * (py_fmod t 86400 / 86400 - 1 / 4))"

definition ali_submits :: "rng \<Rightarrow> int \<Rightarrow> real \<Rightarrow> real list drawn" where
  "ali_submits g n_jobs horizon =
     op_bind (op_repeat (nat (n_jobs * 3)) (draw (\<lambda>i. rn_uniform g i 0 horizon))) (\<lambda>raw_ts.
     op_bind (op_filter (\<lambda>t. op_bind (draw (rn_random g)) (\<lambda>x. op_return (x < day_envelope t))) raw_ts) (\<lambda>kept.
       (let submits = take (nat n_jobs) (sort kept) in
        op_bind (op_repeat (nat n_jobs - length submits) (draw (\<lambda>i. rn_uniform g i 0 horizon))) (\<lambda>more.
          op_return (sort (submits @ more))))))"

definition generate_ali_like :: "rng \<Rightarrow> int \<Rightarrow> real \<Rightarrow> int \<Rightarrow> job list drawn" where
  "generate_ali_like g n_jobs horizon n_users =
     op_bind (ali_submits g n_jobs horizon) (\<lambda>submits.
       op_map (\<lambda>(i, t). sized_job g (user_names n_users) ''ali-'' [1, 2, 4] [9 / 10, 7 / 100, 3 / 100] (34 / 5)
                 (6 / 5) (3 / 5) MPS_SMALL_TIERS i t) (enumerated submits))"

section \<open>Mixed AI workloads\<close>

type_synonym feat = "string \<times> int \<times> int \<times> real \<times> real"

definition mean_work :: "feat list \<Rightarrow> int \<Rightarrow> real" where
  "mean_work feats n_jobs =
     sum_list (map (\<lambda>(_, gc, mp, rt, _). rt * of_int gc * (of_int mp / of_int MPS_PER_GPU)) feats)
       / max 1 (of_int n_jobs)"

definition mean_gap_of :: "feat list \<Rightarrow> int \<Rightarrow> int \<Rightarrow> real \<Rightarrow> real" where
  "mean_gap_of feats n_jobs n_gpus load = mean_work feats n_jobs / max (1 / 10 ^ 6) (of_int n_gpus * load)"

definition ai_jobs ::
  "rng \<Rightarrow> string list \<Rightarrow> string \<Rightarrow> (string \<Rightarrow> real) \<Rightarrow> real \<Rightarrow> feat list \<Rightarrow> job list drawn" where
  "ai_jobs g users prefix ram_fn mean_gap feats =
     arrivals (draw_gap g mean_gap)
       (\<lambda>i (cls, gc, mps, rt, slo) t. finish_job g users prefix i gc mps rt cls (py_round 3 slo) (ram_fn cls) t)
       (enumerated feats) 0"

definition serving_feat :: "rng \<Rightarrow> real \<Rightarrow> real \<Rightarrow> real \<Rightarrow> feat drawn" where
  "serving_feat g inference_frac slo_factor gang_frac =
     op_bind (draw (rn_random g)) (\<lambda>x.
       if x < inference_frac
       then op_bind (draw (\<lambda>i. max 2 (rn_lognorm g i (ln 20) (7 / 10)))) (\<lambda>rt.
            op_bind (rng_choice g MPS_SMALL_TIERS) (\<lambda>mps.
              op_return (''inference'', 1, mps, rt, rt * slo_factor)))
       else op_bind (draw (\<lambda>i. max 60 (rn_lognorm g i (ln 600) 1))) (\<lambda>rt.
            op_bind (draw (rn_random g)) (\<lambda>y.
              if y < gang_frac then op_return (''training'', 2, MPS_PER_GPU, rt, 0)
              else op_bind (rng_choice g [75, MPS_PER_GPU]) (\<lambda>mps.
                op_return (''training'', 1, mps, rt, 0)))))"

definition generate_ai_serving ::
  "rng \<Rightarrow> int \<Rightarrow> int \<Rightarrow> real \<Rightarrow> real \<Rightarrow> int \<Rightarrow> real \<Rightarrow> real \<Rightarrow> job list drawn" where
  "generate_ai_serving g n_jobs n_gpus load inference_frac n_users slo_factor gang_frac =
     op_bind (op_repeat (nat n_jobs) (serving_feat g inference_frac slo_factor gang_frac)) (\<lambda>feats.
       ai_jobs g (user_names n_users) ''ai-'' (\<lambda>_. 0) (mean_gap_of feats n_jobs n_gpus load) feats)"

definition mix_draw :: "rng \<Rightarrow> real \<Rightarrow> string \<Rightarrow> (int \<times> int \<times> real \<times> real) drawn" where
  "mix_draw g slo_factor cls =
     (if cls = ''inference'' then
        op_bind (draw (\<lambda>i. max 2 (rn_lognorm g i (ln 20) (7 / 10)))) (\<lambda>rt.
        op_bind (rng_choice g MPS_SMALL_TIERS) (\<lambda>mps. op_return (1, mps, rt, rt * slo_factor)))
      else if cls = ''training'' then
        op_bind (draw (\<lambda>i. max 30 (rn_lognorm g i (ln 300) (3 / 5)))) (\<lambda>rt.
        op_bind (rng_choice g [50, 75]) (\<lambda>mps. op_return (1, mps, rt, 0)))
      else if cls = ''llm'' then
        op_bind (draw (\<lambda>i. max 30 (rn_lognorm g i (ln 180) (3 / 5)))) (\<lambda>rt.
        op_bind (rng_choice g [75, MPS_PER_GPU]) (\<lambda>mps. op_return (1, mps, rt, 0)))
      else
        op_bind (draw (\<lambda>i. max 20 (rn_lognorm g i (ln 120) (7 / 10)))) (\<lambda>rt.
          op_return (1, MPS_PER_GPU, rt, 0)))"

definition mix_feat :: "rng \<Rightarrow> real \<Rightarrow> (real \<times> string) list \<Rightarrow> feat drawn" where
  "mix_feat g slo_factor mix =
     op_bind (rng_choices g (map snd mix) (map fst mix)) (\<lambda>cls.
     op_bind (mix_draw g slo_factor cls) (\<lambda>f. op_return (cls, f)))"

definition default_mix :: "(real \<times> string) list" where
  "default_mix = [(3 / 10, ''inference''), (3 / 10, ''training''), (3 / 10, ''llm''), (1 / 10, ''batch'')]"

definition generate_ai_mix ::
  "rng \<Rightarrow> int \<Rightarrow> int \<Rightarrow> real \<Rightarrow> int \<Rightarrow> real \<Rightarrow> (real \<times> string) list \<Rightarrow> job list drawn" where
  "generate_ai_mix g n_jobs n_gpus load n_users slo_factor mix =
     op_bind (op_repeat (nat n_jobs) (mix_feat g slo_factor mix)) (\<lambda>feats.
       ai_jobs g (user_names n_users) ''aimix-'' (\<lambda>cls. dict_get RAM_REQ_GB cls 1)
         (mean_gap_of feats n_jobs n_gpus load) feats)"

section \<open>Choice of a family\<close>

datatype family_args =
    PhillyArgs int real int                       \<comment> \<open>jobs, horizon, users\<close>
  | BurstArgs int real int real real real         \<comment> \<open>jobs, horizon, users, period, active, concentration\<close>
  | AliArgs int real int
  | ServingArgs int int real real int real real   \<comment> \<open>jobs, GPUs, load, inference, users, SLO factor, gang\<close>
  | MixArgs int int real int real "(real \<times> string) list"

fun family_name :: "family_args \<Rightarrow> string" where
  "family_name (PhillyArgs n h u) = ''philly''"
| "family_name (BurstArgs n h u p a c) = ''burst''"
| "family_name (AliArgs n h u) = ''ali''"
| "family_name (ServingArgs n k l f u s q) = ''aiserve''"
| "family_name (MixArgs n k l u s m) = ''aimix''"

fun run_family :: "rng \<Rightarrow> family_args \<Rightarrow> job list drawn" where
  "run_family g (PhillyArgs n h u) = generate_philly_like g n h u"
| "run_family g (BurstArgs n h u p a c) = generate_burst_heavy g n h u p a c"
| "run_family g (AliArgs n h u) = generate_ali_like g n h u"
| "run_family g (ServingArgs n k l f u s q) = generate_ai_serving g n k l f u s q"
| "run_family g (MixArgs n k l u s m) = generate_ai_mix g n k l u s m"

definition generate_by_family :: "rng \<Rightarrow> string \<Rightarrow> family_args \<Rightarrow> job list drawn" where
  \<comment> \<open>keyword arguments of another family are refused by the call\<close>
  "generate_by_family g family args =
     (if family \<notin> {''philly'', ''burst'', ''ali'', ''aiserve'', ''aimix''} then op_raise ValueError
      else if family_name args \<noteq> family then op_raise TypeError
      else run_family g args)"

section \<open>Philly's raw format\<close>

record clock_parsers =
  cp_iso :: "string \<Rightarrow> real option"
  cp_strp :: "string \<Rightarrow> real option"   \<comment> \<open>\<^verbatim>\<open>strptime\<close> with a space between date and time\<close>
  cp_strp_t :: "string \<Rightarrow> real option" \<comment> \<open>\<^verbatim>\<open>strptime\<close> with a T\<close>

definition parse_philly_ts :: "clock_parsers \<Rightarrow> json \<Rightarrow> py_error + real option" where
  "parse_philly_ts cp s =
     (if \<not> truthy s \<or> s = JStr ''None'' \<or> s = JStr ''null'' then Inr None
      else
        (case s of
           JStr t \<Rightarrow>
             (case cp_iso cp (str_replace_char (CHR ''/'') ''-'' t) of
                Some x \<Rightarrow> Inr (Some x)
              | None \<Rightarrow> Inr (cp_strp cp t))
         | _ \<Rightarrow> Inl AttributeError))"

definition true_ts :: "real option \<Rightarrow> real option" where
  \<comment> \<open>\<^verbatim>\<open>if ts\<close>: a zero time stamp counts as none\<close>
  "true_ts x = (case x of Some v \<Rightarrow> if v = 0 then None else Some v | None \<Rightarrow> None)"

fun best_attempt :: "clock_parsers \<Rightarrow> json list \<Rightarrow> (real \<times> jobj) option \<Rightarrow> py_error + (real \<times> jobj) option" where
  "best_attempt cp [] best = Inr best"
| "best_attempt cp (a # as) best =
     res_bind (as_obj a) (\<lambda>att.
     res_bind (parse_philly_ts cp (j_get att ''start_time'' JNull)) (\<lambda>start.
     res_bind (parse_philly_ts cp (j_get att ''end_time'' JNull)) (\<lambda>fin.
       best_attempt cp as
         (case (true_ts start, true_ts fin) of
            (Some x, Some y) \<Rightarrow>
              if x < y \<and> (case best of None \<Rightarrow> True | Some (r, _) \<Rightarrow> r < y - x) then Some (y - x, att) else best
          | _ \<Rightarrow> best))))"

definition j_len :: "json \<Rightarrow> py_error + int" where
  "j_len v =
     (case v of JList xs \<Rightarrow> Inr (int (length xs)) | JStr s \<Rightarrow> Inr (int (length s))
      | JObj d \<Rightarrow> Inr (int (length d)) | _ \<Rightarrow> Inl TypeError)"

definition attempt_gpus :: "jobj \<Rightarrow> py_error + int" where
  "attempt_gpus att =
     res_bind (as_list (j_or (j_get att ''detail'' (JList [])) (JList []))) (\<lambda>ds.
     res_bind (res_map (\<lambda>d. res_bind (as_obj d) (\<lambda>o1. j_len (j_get o1 ''gpus'' (JList [])))) ds) (\<lambda>ks.
       Inr (sum_list ks)))"

definition philly_entry :: "clock_parsers \<Rightarrow> json \<Rightarrow> py_error + (jobj \<times> real \<times> real \<times> int) option" where
  \<comment> \<open>an entry that becomes a job: its object, submit time, run time and GPU count\<close>
  "philly_entry cp e =
     res_bind (as_obj e) (\<lambda>entry.
     res_bind (parse_philly_ts cp (j_get entry ''submitted_time'' JNull)) (\<lambda>sub.
       (let attempts = j_or (j_get entry ''attempts'' JNull) (JList []) in
        case true_ts sub of
          None \<Rightarrow> Inr None
        | Some t \<Rightarrow>
            if \<not> truthy attempts then Inr None
            else
              res_bind (as_list attempts) (\<lambda>as.
              res_bind (best_attempt cp as None) (\<lambda>best.
                case best of
                  None \<Rightarrow> Inr None
                | Some (rt, att) \<Rightarrow>
                    res_bind (attempt_gpus att) (\<lambda>gc. Inr (if gc \<le> 0 then None else Some (entry, t, rt, gc))))))))"

fun philly_jobs ::
  "clock_parsers \<Rightarrow> rng \<Rightarrow> int option \<Rightarrow> real \<Rightarrow> json list \<Rightarrow> job list \<Rightarrow> job list drawn" where
  "philly_jobs cp g max_jobs share [] jobs = op_return jobs"
| "philly_jobs cp g max_jobs share (e # es) jobs =
     (case philly_entry cp e of
        Inl err \<Rightarrow> op_raise err
      | Inr None \<Rightarrow> philly_jobs cp g max_jobs share es jobs
      | Inr (Some (entry, t, rt, gc)) \<Rightarrow>
          op_bind (draw_mps g share MPS_FRACTIONAL_TIERS gc) (\<lambda>mps.
            (let j = mk_job (py_str (j_get entry ''jobid'' (JInt (int (length jobs)))))
                       (py_str (j_get entry ''user'' (JStr ''anon''))) gc
                       (py_str (j_get entry ''vc'' (JStr ''rtx4070''))) t rt 0 mps;
                 jobs' = jobs @ [j]
             in if (case max_jobs of None \<Rightarrow> False | Some m \<Rightarrow> m \<noteq> 0 \<and> m \<le> int (length jobs'))
                then op_return jobs'
                else philly_jobs cp g max_jobs share es jobs')))"

definition load_philly :: "clock_parsers \<Rightarrow> rng \<Rightarrow> int option \<Rightarrow> real \<Rightarrow> json \<Rightarrow> job list drawn" where
  "load_philly cp g max_jobs share raw =
     (case as_list raw of
        Inl e \<Rightarrow> op_raise e
      | Inr es \<Rightarrow> philly_jobs cp g max_jobs share es [])"

definition is_philly :: "json \<Rightarrow> py_error + bool" where
  \<comment> \<open>\<^verbatim>\<open>isinstance(raw, list) and raw and "submitted_time" in raw[0]\<close>\<close>
  "is_philly raw =
     (case raw of
        JList (x # _) \<Rightarrow>
          (case x of
             JObj d \<Rightarrow> Inr (dict_has ''submitted_time'' d)
           | JList ys \<Rightarrow> Inr (JStr ''submitted_time'' \<in> set ys)
           | JStr s \<Rightarrow> Inr (str_contains ''submitted_time'' s)
           | _ \<Rightarrow> Inl TypeError)
      | _ \<Rightarrow> Inr False)"

definition load_auto :: "clock_parsers \<Rightarrow> rng \<Rightarrow> int option \<Rightarrow> real \<Rightarrow> json \<Rightarrow> job list drawn" where
  "load_auto cp g max_jobs share raw =
     (case is_philly raw of
        Inl e \<Rightarrow> op_raise e
      | Inr True \<Rightarrow> load_philly cp g max_jobs share raw
      | Inr False \<Rightarrow>
          (\<lambda>k. (res_bind (as_list raw) (res_map job_from_dict), k)))"

end
