(* ===== verification/SimVec.thy ===== *)
theory SimVec
  imports SimGym SimLoader
begin

text \<open>
  Vectorised environments (\<^verbatim>\<open>sim/vec_env.py\<close>): the job factory, the specification of a sub-environment,
  resetting and stepping one with its automatic reset, the in-process backend, and the backend with
  one process per sub-environment as a step relation on pipes.

  \<open>np seed k high\<close> is the \<open>k\<close>-th answer of \<^verbatim>\<open>numpy.random.default_rng(seed).integers(0, high)\<close>, \<open>py seed\<close> the
  generator \<^verbatim>\<open>random.Random(seed)\<close>. The noise of slot \<open>i\<close> in an episode is \<open>nz i k\<close>, where \<open>k\<close> counts the
  draws its factory has made, so that every episode has its own.
\<close>

section \<open>Job factories\<close>

text \<open>The arguments a family gets when only the number of jobs is given.\<close>

definition default_args :: "string \<Rightarrow> int \<Rightarrow> family_args option" where
  "default_args family n =
     (if family = ''philly'' then Some (PhillyArgs n 432000 40)
      else if family = ''burst'' then Some (BurstArgs n 432000 40 21600 7200 (4 / 5))
      else if family = ''ali'' then Some (AliArgs n 432000 60)
      else if family = ''aiserve'' then Some (ServingArgs n 2 (7 / 10) (3 / 5) 20 4 (1 / 4))
      else if family = ''aimix'' then
        Some (MixArgs n 2 (7 / 10) 20 4
          [(3 / 10, ''inference''), (3 / 10, ''training''), (3 / 10, ''llm''), (1 / 10, ''batch'')])
      else None)"

record job_factory =
  ff_families :: "string list"
  ff_n_jobs :: int
  ff_total_gpus :: int
  ff_seed :: int
  ff_drawn :: nat

definition new_factory :: "string list \<Rightarrow> int \<Rightarrow> int \<Rightarrow> int \<Rightarrow> job_factory" where
  "new_factory families n_jobs gpu_limit seed =
     \<lparr>ff_families = families, ff_n_jobs = n_jobs, ff_total_gpus = gpu_limit, ff_seed = seed, ff_drawn = 0\<rparr>"

type_synonym np_ints = "int \<Rightarrow> nat \<Rightarrow> nat \<Rightarrow> nat"

definition call_factory ::
  "np_ints \<Rightarrow> (int \<Rightarrow> rng) \<Rightarrow> job_factory \<Rightarrow> py_error + (job list \<times> job_factory)" where
  "call_factory np py f =
     (if ff_families f = [] then Inl ValueError
      else
        (let family = ff_families f ! np (ff_seed f) (ff_drawn f) (length (ff_families f));
             seed = int (np (ff_seed f) (ff_drawn f + 1) (2 ^ 31 - 1))
         in case default_args family (ff_n_jobs f) of
              None \<Rightarrow> Inl ValueError
            | Some args \<Rightarrow>
                (case fst (generate_by_family (py seed) family args 0) of
                   Inl e \<Rightarrow> Inl e
                 | Inr jobs \<Rightarrow>
                     Inr (filter (\<lambda>j. gpu_count j \<le> ff_total_gpus f) jobs, f\<lparr>ff_drawn := ff_drawn f + 2\<rparr>))))"

text \<open>Pickling keeps the arguments and the position in the stream.\<close>

definition factory_getstate :: "job_factory \<Rightarrow> string list \<times> int \<times> int \<times> int \<times> nat" where
  "factory_getstate f = (ff_families f, ff_n_jobs f, ff_total_gpus f, ff_seed f, ff_drawn f)"

definition factory_setstate :: "string list \<times> int \<times> int \<times> int \<times> nat \<Rightarrow> job_factory" where
  "factory_setstate st =
     (case st of (families, n_jobs, gpu_limit, seed, rng_state) \<Rightarrow>
        (new_factory families n_jobs gpu_limit seed)\<lparr>ff_drawn := rng_state\<rparr>)"

section \<open>Sub-environments\<close>

record env_spec =
  es_families :: "string list"
  es_n_jobs :: int
  es_total_gpus :: int
  es_n_nodes :: nat
  es_gpus_per_node :: nat
  es_mps_per_gpu :: int
  es_top_k :: nat
  es_max_steps :: nat
  es_reward_mode :: string
  es_reward_scale :: real
  es_potential_shaping :: bool
  es_runtime_sigma :: real
  es_interference :: real
  es_colocation_actions :: bool
  es_slo_penalty :: real
  es_base_seed :: int

text \<open>The configuration \<^verbatim>\<open>build\<close> passes on; the other arguments keep the defaults of the environment.\<close>

definition spec_cfg :: "env_spec \<Rightarrow> env_cfg" where
  "spec_cfg sp =
     \<lparr>ec_nodes = es_n_nodes sp, ec_gpus = es_gpus_per_node sp, ec_cap = es_mps_per_gpu sp, ec_top_k = es_top_k sp,
      ec_max_steps = es_max_steps sp, ec_reward_mode = es_reward_mode sp, ec_reward_scale = es_reward_scale sp,
      ec_placement_scale = 1 / 100, ec_potential = es_potential_shaping sp, ec_balance = 0, ec_fairness = 0,
      ec_speeds = None, ec_gpu_types = None, ec_rams = None, ec_sigma = es_runtime_sigma sp,
      ec_interference = es_interference sp, ec_oom_sigma = 0, ec_oom_penalty = 0, ec_overcommit = 1,
      ec_colocation = es_colocation_actions sp, ec_slo_penalty = es_slo_penalty sp, ec_noop_penalty = 0,
      ec_ablation = None\<rparr>"

record sub_env =
  se_env :: env
  se_factory :: job_factory

definition build :: "env_spec \<Rightarrow> nat \<Rightarrow> py_error + sub_env" where
  "build sp index =
     (case make_env (spec_cfg sp) of
        Inl e \<Rightarrow> Inl e
      | Inr en \<Rightarrow>
          Inr \<lparr>se_env = en,
               se_factory = new_factory (es_families sp) (es_n_jobs sp) (es_total_gpus sp)
                 (es_base_seed sp + 7919 * (int index + 1))\<rparr>)"

definition mask_of :: "env \<Rightarrow> bool list" where
  "mask_of en = (case en_state en of None \<Rightarrow> [] | Some s \<Rightarrow> action_mask (en_cfg en) s)"

definition reset_sub ::
  "np_ints \<Rightarrow> (int \<Rightarrow> rng) \<Rightarrow> int option \<Rightarrow> sub_env \<Rightarrow> py_error + (real list \<times> sub_env)" where
  \<comment> \<open>\<^verbatim>\<open>env.reset(seed)\<close>, which calls the factory\<close>
  "reset_sub np py seed w =
     (case call_factory np py (se_factory w) of
        Inl e \<Rightarrow> Inl e
      | Inr (jobs, f) \<Rightarrow>
          (case reset_env seed jobs (se_env w) of
             Inl e \<Rightarrow> Inl e
           | Inr (obs, en) \<Rightarrow> Inr (obs, \<lparr>se_env = en, se_factory = f\<rparr>)))"

definition reset_one ::
  "np_ints \<Rightarrow> (int \<Rightarrow> rng) \<Rightarrow> int option \<Rightarrow> sub_env \<Rightarrow> py_error + ((real list \<times> bool list) \<times> sub_env)" where
  "reset_one np py seed w =
     (case reset_sub np py seed w of
        Inl e \<Rightarrow> Inl e
      | Inr (obs, w') \<Rightarrow> Inr ((obs, mask_of (se_env w')), w'))"

record step_out =
  so_obs :: "real list"
  so_mask :: "bool list"
  so_reward :: real
  so_done :: bool
  so_avg_jct :: "real option"
  so_final :: "(real list \<times> bool list) option"

definition step_one ::
  "np_ints \<Rightarrow> (int \<Rightarrow> rng) \<Rightarrow> (nat \<Rightarrow> noise) \<Rightarrow> nat \<Rightarrow> sub_env \<Rightarrow> py_error + (step_out \<times> sub_env)" where
  "step_one np py nz action w =
     (case step (nz (ff_drawn (se_factory w))) action (se_env w) of
        Inl e \<Rightarrow> Inl e
      | Inr (res, en) \<Rightarrow>
          (let dn = (sr_terminated res \<or> sr_truncated res); w1 = w\<lparr>se_env := en\<rparr> in
           if dn then
             (case reset_sub np py None w1 of
                Inl e \<Rightarrow> Inl e
              | Inr (obs, w2) \<Rightarrow>
                  Inr (\<lparr>so_obs = obs, so_mask = mask_of (se_env w2), so_reward = sr_reward res, so_done = True,
                        so_avg_jct = sr_avg_jct res, so_final = Some (sr_obs res, mask_of en)\<rparr>, w2))
           else
             Inr (\<lparr>so_obs = sr_obs res, so_mask = mask_of en, so_reward = sr_reward res, so_done = False,
                   so_avg_jct = sr_avg_jct res, so_final = None\<rparr>, w1)))"

section \<open>The in-process backend\<close>

text \<open>One operation of each environment in turn, until one raises; \<open>zip\<close> stops at the shorter list.\<close>

fun each_in_turn :: "(nat \<Rightarrow> 'c \<Rightarrow> 's \<Rightarrow> py_error + ('r \<times> 's)) \<Rightarrow> nat \<Rightarrow> 's list \<Rightarrow> 'c list \<Rightarrow> py_error + ('r list \<times> 's list)" where
  "each_in_turn f i [] cs = Inr ([], [])"
| "each_in_turn f i (w # ws) [] = Inr ([], w # ws)"
| "each_in_turn f i (w # ws) (c # cs) =
     (case f i c w of
        Inl e \<Rightarrow> Inl e
      | Inr (r, w') \<Rightarrow>
          (case each_in_turn f (Suc i) ws cs of
             Inl e \<Rightarrow> Inl e
           | Inr (rs, ws') \<Rightarrow> Inr (r # rs, w' # ws')))"

definition sync_reset ::
  "np_ints \<Rightarrow> (int \<Rightarrow> rng) \<Rightarrow> int option \<Rightarrow> sub_env list \<Rightarrow> py_error + ((real list \<times> bool list) list \<times> sub_env list)" where
  "sync_reset np py seed ws =
     each_in_turn (\<lambda>i _ w. reset_one np py (map_option (\<lambda>s. s + int i) seed) w) 0 ws (replicate (length ws) ())"

definition sync_step ::
  "np_ints \<Rightarrow> (int \<Rightarrow> rng) \<Rightarrow> (nat \<Rightarrow> nat \<Rightarrow> noise) \<Rightarrow> nat list \<Rightarrow> sub_env list \<Rightarrow> py_error + (step_out list \<times> sub_env list)" where
  "sync_step np py nz actions ws = each_in_turn (\<lambda>i a w. step_one np py (nz i) a w) 0 ws actions"

text \<open>The score heuristic of every environment; all draw their fallback choice from one stream, a draw each.\<close>

definition sync_score_actions :: "(nat \<Rightarrow> nat list \<Rightarrow> nat) \<Rightarrow> nat \<Rightarrow> sub_env list \<Rightarrow> nat list" where
  "sync_score_actions choice k ws =
     map (\<lambda>(i, w). score_warmup_action (se_env w) (mask_of (se_env w)) (choice (k + i))) (zip [0..<length ws] ws)"

section \<open>The backend with processes\<close>

text \<open>
  The parent sends every worker its command, then receives every worker's reply, in the order of the
  workers. A worker takes the next command of its pipe, answers it, and dies of an exception; from a
  dead worker the parent can neither receive a reply that was never sent nor send to it.
\<close>

record ('c, 's, 'r) worker =
  wk_state :: 's
  wk_inbox :: "'c list"
  wk_outbox :: "'r list"
  wk_alive :: bool

record ('c, 'r) parent =
  pa_send :: "(nat \<times> 'c) list"
  pa_recv :: "nat list"
  pa_got :: "'r list"
  pa_broken :: bool

inductive vec_step ::
  "(nat \<Rightarrow> 'c \<Rightarrow> 's \<Rightarrow> py_error + ('r \<times> 's)) \<Rightarrow> ('c, 'r) parent \<times> ('c, 's, 'r) worker list \<Rightarrow>
   ('c, 'r) parent \<times> ('c, 's, 'r) worker list \<Rightarrow> bool"
  for serve where
  send: "pa_send p = (i, c) # rest \<Longrightarrow> i < length ws \<Longrightarrow> wk_alive (ws ! i) \<Longrightarrow>
    vec_step serve (p, ws) (p\<lparr>pa_send := rest\<rparr>, ws[i := (ws ! i)\<lparr>wk_inbox := wk_inbox (ws ! i) @ [c]\<rparr>])"
| broken_pipe: "pa_send p = (i, c) # rest \<Longrightarrow> i < length ws \<Longrightarrow> \<not> wk_alive (ws ! i) \<Longrightarrow>
    vec_step serve (p, ws) (p\<lparr>pa_send := [], pa_recv := [], pa_broken := True\<rparr>, ws)"
| answer: "i < length ws \<Longrightarrow> wk_alive (ws ! i) \<Longrightarrow> wk_inbox (ws ! i) = c # cs \<Longrightarrow>
    serve i c (wk_state (ws ! i)) = Inr (r, s) \<Longrightarrow>
    vec_step serve (p, ws)
      (p, ws[i := (ws ! i)\<lparr>wk_state := s, wk_inbox := cs, wk_outbox := wk_outbox (ws ! i) @ [r]\<rparr>])"
| die: "i < length ws \<Longrightarrow> wk_alive (ws ! i) \<Longrightarrow> wk_inbox (ws ! i) = c # cs \<Longrightarrow>
    serve i c (wk_state (ws ! i)) = Inl e \<Longrightarrow>
    vec_step serve (p, ws) (p, ws[i := (ws ! i)\<lparr>wk_inbox := cs, wk_alive := False\<rparr>])"
| receive: "pa_send p = [] \<Longrightarrow> pa_recv p = i # is \<Longrightarrow> i < length ws \<Longrightarrow> wk_outbox (ws ! i) = r # rs \<Longrightarrow>
    vec_step serve (p, ws)
      (p\<lparr>pa_recv := is, pa_got := pa_got p @ [r]\<rparr>, ws[i := (ws ! i)\<lparr>wk_outbox := rs\<rparr>])"
| end_of_file: "pa_send p = [] \<Longrightarrow> pa_recv p = i # is \<Longrightarrow> i < length ws \<Longrightarrow> wk_outbox (ws ! i) = [] \<Longrightarrow>
    \<not> wk_alive (ws ! i) \<Longrightarrow>
    vec_step serve (p, ws) (p\<lparr>pa_recv := [], pa_broken := True\<rparr>, ws)"

inductive vec_run ::
  "(nat \<Rightarrow> 'c \<Rightarrow> 's \<Rightarrow> py_error + ('r \<times> 's)) \<Rightarrow> ('c, 'r) parent \<times> ('c, 's, 'r) worker list \<Rightarrow>
   ('c, 'r) parent \<times> ('c, 's, 'r) worker list \<Rightarrow> bool"
  for serve where
  vec_refl: "vec_run serve x x"
| vec_trans: "vec_run serve x y \<Longrightarrow> vec_step serve y z \<Longrightarrow> vec_run serve x z"

definition stuck ::
  "(nat \<Rightarrow> 'c \<Rightarrow> 's \<Rightarrow> py_error + ('r \<times> 's)) \<Rightarrow> ('c, 'r) parent \<times> ('c, 's, 'r) worker list \<Rightarrow> bool" where
  "stuck serve x \<longleftrightarrow> (\<nexists>y. vec_step serve x y)"

text \<open>A worker between two calls, and the start of a call.\<close>

definition resting :: "'s \<Rightarrow> ('c, 's, 'r) worker" where
  "resting s = \<lparr>wk_state = s, wk_inbox = [], wk_outbox = [], wk_alive = True\<rparr>"

definition call :: "'c list \<Rightarrow> 's list \<Rightarrow> ('c, 'r) parent \<times> ('c, 's, 'r) worker list" where
  "call cmds ss =
     (\<lparr>pa_send = zip [0..<length ss] cmds, pa_recv = [0..<length ss], pa_got = [], pa_broken = False\<rparr>,
      map resting ss)"

text \<open>The commands of the workers and what they answer. A worker's own stream gives its fallback choices.\<close>

datatype command = Reset "int option" | Step nat | ScoreAction

datatype reply = ResetReply "real list" "bool list" | StepReply step_out | ActionReply nat

record worker_env =
  we_sub :: sub_env
  we_choices :: nat

definition vec_worker ::
  "np_ints \<Rightarrow> (int \<Rightarrow> rng) \<Rightarrow> (nat \<Rightarrow> nat \<Rightarrow> noise) \<Rightarrow> (nat \<Rightarrow> nat \<Rightarrow> nat list \<Rightarrow> nat) \<Rightarrow>
   nat \<Rightarrow> command \<Rightarrow> worker_env \<Rightarrow> py_error + (reply \<times> worker_env)" where
  "vec_worker np py nz choice i cmd w =
     (case cmd of
        Reset seed \<Rightarrow>
          (case reset_one np py seed (we_sub w) of
             Inl e \<Rightarrow> Inl e
           | Inr ((obs, mk), s) \<Rightarrow> Inr (ResetReply obs mk, w\<lparr>we_sub := s\<rparr>))
      | Step a \<Rightarrow>
          (case step_one np py (nz i) a (we_sub w) of
             Inl e \<Rightarrow> Inl e
           | Inr (r, s) \<Rightarrow> Inr (StepReply r, w\<lparr>we_sub := s\<rparr>))
      | ScoreAction \<Rightarrow>
          Inr (ActionReply (score_warmup_action (se_env (we_sub w)) (mask_of (se_env (we_sub w))) (choice i (we_choices w))),
            w\<lparr>we_choices := we_choices w + 1\<rparr>))"

definition async_reset :: "int option \<Rightarrow> worker_env list \<Rightarrow> (command, reply) parent \<times> (command, worker_env, reply) worker list" where
  "async_reset seed ws = call (map (\<lambda>i. Reset (map_option (\<lambda>s. s + int i) seed)) [0..<length ws]) ws"

definition async_step :: "nat list \<Rightarrow> worker_env list \<Rightarrow> (command, reply) parent \<times> (command, worker_env, reply) worker list" where
  "async_step actions ws = call (map Step actions) ws"

definition async_score_actions :: "worker_env list \<Rightarrow> (command, reply) parent \<times> (command, worker_env, reply) worker list" where
  "async_score_actions ws = call (replicate (length ws) ScoreAction) ws"

text \<open>\<^verbatim>\<open>make_vector_env\<close>: whether processes are used, and for how many environments.\<close>

definition make_vector_env :: "nat \<Rightarrow> bool \<Rightarrow> bool \<times> nat" where
  "make_vector_env num_envs asynchronous =
     (if num_envs \<le> 1 \<or> \<not> asynchronous then (False, max 1 num_envs) else (True, num_envs))"

end
