(* ===== verification/SimLoaderFacts.thy ===== *)
theory SimLoaderFacts
  imports SimLoader SimRunnerFacts SimGymFacts
begin

text \<open>
  What the trace generators and readers produce: whatever the random stream answers within its
  documented ranges, a generator returns, and returns jobs the runner and the environment accept.
  \<open>sound_job\<close> is the shape of one job, \<open>sound_trace\<close> that of a generated list.
\<close>

section \<open>Names\<close>

lemma nat_of_digits_zeros: "nat_of_digits (replicate k (CHR ''0'') @ ds) = nat_of_digits ds"
proof -
  have "foldl (\<lambda>n c. 10 * n + digit_val c) 0 (replicate k (CHR ''0'')) = 0"
    by (induction k) (simp_all add: digit_val_def)
  then show ?thesis
    by (simp add: nat_of_digits_def)
qed

lemma pad_inj: "pad w i = pad w k \<longleftrightarrow> i = k"
  unfolding pad_def by (metis nat_of_digits_zeros nat_of_digits_dec_nat)

lemma distinct_padded: "distinct (map (\<lambda>i. prefix @ pad w i) [0..<n])"
  by (simp add: distinct_map inj_on_def pad_inj)

section \<open>One job\<close>

definition sound_job :: "job \<Rightarrow> bool" where
  "sound_job j \<longleftrightarrow>
     1 \<le> gpu_count j \<and> 0 < mps_req j \<and> mps_req j \<le> MPS_PER_GPU \<and> 1 \<le> runtime j \<and> 0 \<le> submit_ts j \<and>
     0 \<le> ram_req j \<and> 0 \<le> slo_s j"

definition made :: "string \<Rightarrow> nat \<Rightarrow> real \<Rightarrow> job \<Rightarrow> bool" where
  "made prefix i t j \<longleftrightarrow> job_id j = prefix @ pad 5 i \<and> submit_ts j = py_round 3 t \<and> sound_job j"

lemma yields_draw: "(\<And>i. Q (f i)) \<Longrightarrow> yields Q (draw f)"
  by (simp add: yields_def draw_def)

lemma rng_okD:
  assumes "rng_ok g"
  shows "a \<le> b \<Longrightarrow> a \<le> rn_uniform g i a b" "a \<le> b \<Longrightarrow> rn_uniform g i a b \<le> b"
    "0 < l \<Longrightarrow> 0 \<le> rn_expo g i l" "0 < n \<Longrightarrow> rn_below g i n < n"
    "ws \<noteq> [] \<Longrightarrow> rn_weighted g i ws < length ws"
  using assms unfolding rng_ok_def by blast+

lemma yields_choice:
  assumes "rng_ok g" "xs \<noteq> []" "\<And>x. x \<in> set xs \<Longrightarrow> Q x"
  shows "yields Q (rng_choice g xs)"
  unfolding rng_choice_def if_not_P [OF assms(2)]
  using assms by (intro yields_bind [where R = "\<lambda>k. k < length xs"] yields_draw yields_return)
    (auto simp: rng_okD)

lemma yields_choices:
  assumes "rng_ok g" "xs \<noteq> []" "length ws = length xs" "0 < sum_list ws" "\<And>x. x \<in> set xs \<Longrightarrow> Q x"
  shows "yields Q (rng_choices g xs ws)"
proof -
  have "ws \<noteq> []"
    using assms(2,3) by auto
  then have "rn_weighted g i ws < length ws" for i
    by (rule rng_okD(5) [OF assms(1)])
  moreover have "\<not> (length ws \<noteq> length xs \<or> sum_list ws \<le> 0)"
    using assms(3,4) by simp
  ultimately show ?thesis
    unfolding rng_choices_def if_not_P [OF assms(2)]
    using assms
    by (simp only: if_False, intro yields_bind [where R = "\<lambda>k. k < length ws"] yields_draw yields_return)
      (auto simp: rng_okD)
qed

lemma yields_card: "rng_ok g \<Longrightarrow> yields (\<lambda>_. True) (draw_card g)"
  unfolding draw_card_def by (rule yields_choices) (simp_all add: card_names_def card_weights_def)

lemma yields_mps:
  assumes "rng_ok g" "tiers \<noteq> []" "\<And>m. m \<in> set tiers \<Longrightarrow> 0 < m \<and> m \<le> MPS_PER_GPU"
  shows "yields (\<lambda>m. 0 < m \<and> m \<le> MPS_PER_GPU) (draw_mps g share tiers gc)"
proof -
  have whole: "yields (\<lambda>m. 0 < m \<and> m \<le> MPS_PER_GPU) (op_return MPS_PER_GPU)"
    by (simp add: yields_return MPS_PER_GPU_def)
  show ?thesis
    unfolding draw_mps_def
    by (intro yields_if whole yields_bind [OF yields_draw [where Q = "\<lambda>_. True"]]
        yields_choice [OF assms(1,2)]) (simp_all add: assms(3))
qed

lemma yields_gap:
  assumes "rng_ok g"
  shows "yields (\<lambda>d. 0 \<le> d) (draw_gap g mean_gap)"
  unfolding draw_gap_def
  by (intro yields_if yields_draw yields_return) (auto simp: rng_okD [OF assms])

lemma tiers_ok:
  "m \<in> set MPS_FRACTIONAL_TIERS \<Longrightarrow> 0 < m \<and> m \<le> MPS_PER_GPU"
  "m \<in> set MPS_SMALL_TIERS \<Longrightarrow> 0 < m \<and> m \<le> MPS_PER_GPU"
  "MPS_FRACTIONAL_TIERS \<noteq> []" "MPS_SMALL_TIERS \<noteq> []"
  by (auto simp: MPS_FRACTIONAL_TIERS_def MPS_SMALL_TIERS_def MPS_PER_GPU_def)

lemma yields_finish:
  assumes "rng_ok g" "users \<noteq> []" "1 \<le> gc" "0 < mps \<and> mps \<le> MPS_PER_GPU" "1 \<le> rt" "0 \<le> t" "0 \<le> slo" "0 \<le> ram"
  shows "yields (made prefix i t) (finish_job g users prefix i gc mps rt cls slo ram t)"
proof -
  have "1 \<le> py_round 3 rt" "0 \<le> py_round 3 t"
    using py_round_ge [of 1 rt 3] py_round_ge [of 0 t 3] assms(5,6) by simp_all
  then show ?thesis
    unfolding finish_job_def
    by (intro yields_bind [OF yields_choice [OF assms(1,2), where Q = "\<lambda>_. True"]]
        yields_bind [OF yields_card [OF assms(1)]] yields_return)
      (use assms in \<open>auto simp: made_def sound_job_def mk_job_def\<close>)
qed

lemma yields_sized:
  assumes "rng_ok g" "users \<noteq> []" "0 \<le> t" "sizes \<noteq> []" "length weights = length sizes" "0 < sum_list weights"
    "\<And>k. k \<in> set sizes \<Longrightarrow> 1 \<le> k" "tiers \<noteq> []" "\<And>m. m \<in> set tiers \<Longrightarrow> 0 < m \<and> m \<le> MPS_PER_GPU"
  shows "yields (made prefix i t) (sized_job g users prefix sizes weights mu sigma share tiers i t)"
  unfolding sized_job_def
proof (rule yields_bind [OF yields_choices [OF assms(1,4,5,6,7)]], assumption)
  fix gc :: int
  assume gc: "1 \<le> gc"
  show "yields (made prefix i t) (op_bind (draw (\<lambda>k. max 60 (rn_lognorm g k mu sigma))) (\<lambda>rt.
     op_bind (draw_mps g share tiers gc) (\<lambda>mps. finish_job g users prefix i gc mps rt ''batch'' 0 0 t)))"
    by (rule yields_bind [OF yields_draw [where Q = "\<lambda>rt. 60 \<le> rt"]], simp,
        rule yields_bind [OF yields_mps [OF assms(1,8,9)]], assumption,
        rule yields_finish [OF assms(1,2) gc _ _ assms(3)]) auto
qed

lemma yields_philly_job:
  assumes "rng_ok g" "users \<noteq> []" "0 \<le> t"
  shows "yields (made prefix i t) (philly_job g users prefix i t)"
  unfolding philly_job_def
  by (rule yields_sized [OF assms])
    (auto simp: philly_gpus_def philly_weights_def tiers_ok)

section \<open>Traces\<close>

definition sound_trace :: "nat \<Rightarrow> job list \<Rightarrow> bool" where
  "sound_trace n jobs \<longleftrightarrow>
     length jobs = n \<and> distinct (map job_id jobs) \<and> sorted (map submit_ts jobs) \<and> (\<forall>j \<in> set jobs. sound_job j)"

lemma yields_arrivals:
  assumes "yields (\<lambda>d. 0 \<le> d) gap"
    "\<And>i x t. (i, x) \<in> set xs \<Longrightarrow> 0 \<le> t \<Longrightarrow> yields (made prefix i t) (mk i x t)" "0 \<le> t0"
  shows "yields (\<lambda>js. map job_id js = map (\<lambda>(i, x). prefix @ pad 5 i) xs \<and> sorted (map submit_ts js) \<and>
    (\<forall>j \<in> set js. sound_job j \<and> py_round 3 t0 \<le> submit_ts j)) (arrivals gap mk xs t0)"
  using assms(2,3)
proof (induction xs arbitrary: t0)
  case Nil
  show ?case by (simp add: yields_return)
next
  case (Cons e xs)
  obtain i x where e: "e = (i, x)"
    by fastforce
  show ?case
    unfolding e arrivals.simps
  proof (rule yields_bind [OF assms(1)])
    fix d :: real
    assume d: "0 \<le> d"
    then have t: "0 \<le> t0 + d" "py_round 3 t0 \<le> py_round 3 (t0 + d)"
      using Cons.prems(2) by (simp_all add: py_round_mono)
    have mk: "yields (made prefix i (t0 + d)) (mk i x (t0 + d))"
      using Cons.prems(1) [of i x] e t(1) by simp
    have rest: "yields (\<lambda>js. map job_id js = map (\<lambda>(i, x). prefix @ pad 5 i) xs \<and> sorted (map submit_ts js) \<and>
       (\<forall>j \<in> set js. sound_job j \<and> py_round 3 (t0 + d) \<le> submit_ts j)) (arrivals gap mk xs (t0 + d))"
      by (rule Cons.IH [OF _ t(1)]) (use Cons.prems(1) in simp)
    show "yields (\<lambda>js. map job_id js = map (\<lambda>(i, x). prefix @ pad 5 i) ((i, x) # xs) \<and>
        sorted (map submit_ts js) \<and> (\<forall>j \<in> set js. sound_job j \<and> py_round 3 t0 \<le> submit_ts j))
      (op_bind (mk i x (t0 + d)) (\<lambda>j. op_bind (arrivals gap mk xs (t0 + d)) (\<lambda>js. op_return (j # js))))"
      by (rule yields_bind [OF mk], rule yields_bind [OF rest], rule yields_return)
        (use t(2) in \<open>auto simp: made_def intro: order_trans\<close>)
  qed
qed

lemma enumerated_ids:
  "map (\<lambda>(i, x). prefix @ pad 5 i) (enumerated xs) = map (\<lambda>i. prefix @ pad 5 i) [0..<length xs]"
  by (intro nth_equalityI) (auto simp: enumerated_def)

lemma enumerated_mem: "(i, x) \<in> set (enumerated xs) \<Longrightarrow> x \<in> set xs"
  by (auto simp: enumerated_def dest: set_zip_rightD)

lemma trace_of_arrivals:
  assumes "yields (\<lambda>d. 0 \<le> d) gap"
    "\<And>i x t. x \<in> set xs \<Longrightarrow> 0 \<le> t \<Longrightarrow> yields (made prefix i t) (mk i x t)"
  shows "yields (sound_trace (length xs)) (arrivals gap mk (enumerated xs) 0)"
proof (rule yields_mono [OF yields_arrivals [OF assms(1), where prefix = prefix]])
  fix i x t
  assume "(i, x) \<in> set (enumerated xs)" "0 \<le> (t :: real)"
  with assms(2) enumerated_mem show "yields (made prefix i t) (mk i x t)"
    by metis
next
  fix js
  assume js: "map job_id js = map (\<lambda>(i, x). prefix @ pad 5 i) (enumerated xs) \<and> sorted (map submit_ts js) \<and>
    (\<forall>j \<in> set js. sound_job j \<and> py_round 3 0 \<le> submit_ts j)"
  then have "length js = length xs"
    by (metis enumerated_ids length_map length_upt minus_nat.diff_0)
  with js show "sound_trace (length xs) js"
    by (simp add: sound_trace_def enumerated_ids distinct_padded)
qed simp

lemma trace_of_map:
  assumes "sorted ts" "\<And>t. t \<in> set ts \<Longrightarrow> 0 \<le> t" "\<And>i t. 0 \<le> t \<Longrightarrow> yields (made prefix i t) (mk i t)"
  shows "yields (sound_trace (length ts)) (op_map (\<lambda>(i, t). mk i t) (enumerated ts))"
proof (rule yields_mono [OF yields_map [where Q = "\<lambda>(i, t). made prefix i t"]])
  fix x
  assume "x \<in> set (enumerated ts)"
  moreover obtain i t where "x = (i, t)"
    by fastforce
  ultimately have "x = (i, t)" "t \<in> set ts"
    using enumerated_mem [of i t ts] by simp_all
  with assms(2,3) show "yields (case x of (i, t) \<Rightarrow> made prefix i t) (case x of (i, t) \<Rightarrow> mk i t)"
    by simp
next
  fix js
  assume rel: "list_all2 (\<lambda>(i, t). made prefix i t) (enumerated ts) js"
  then have len: "length js = length ts"
    by (auto dest!: list_all2_lengthD simp: enumerated_def)
  have nth: "made prefix i (ts ! i) (js ! i)" if "i < length ts" for i
    using list_all2_nthD [OF rel, of i] that by (simp add: enumerated_def)
  have "map job_id js = map (\<lambda>i. prefix @ pad 5 i) [0..<length ts]"
    using len nth by (intro nth_equalityI) (auto simp: made_def)
  moreover have "map submit_ts js = map (py_round 3) ts"
    using len nth by (intro nth_equalityI) (auto simp: made_def)
  moreover have "sorted (map (py_round 3) ts)"
    using assms(1) by (auto simp: sorted_iff_nth_mono py_round_mono)
  moreover have "sound_job j" if "j \<in> set js" for j
    using that len nth by (auto simp: in_set_conv_nth made_def)
  ultimately show "sound_trace (length ts) js"
    using len distinct_padded [of prefix 5 "length ts"] by (simp add: sound_trace_def)
qed

section \<open>The generators\<close>

lemma users_nonempty: "1 \<le> n \<Longrightarrow> user_names n \<noteq> []"
  by (simp add: user_names_def)

lemma yields_philly:
  assumes "rng_ok g" "1 \<le> u"
  shows "yields (sound_trace (nat n)) (generate_philly_like g n h u)"
  unfolding generate_philly_like_def
  using trace_of_arrivals [OF yields_gap [OF assms(1)],
      of "[0..<nat n]" "''phl-''" "\<lambda>i _. philly_job g (user_names u) ''phl-'' i"]
    yields_philly_job [OF assms(1) users_nonempty [OF assms(2)]] by simp

lemma trace_of_submits:
  assumes "yields (\<lambda>ts. length ts = n \<and> sorted ts \<and> (\<forall>t \<in> set ts. 0 \<le> t)) m"
    "\<And>i t. 0 \<le> t \<Longrightarrow> yields (made prefix i t) (mk i t)"
  shows "yields (sound_trace n) (op_bind m (\<lambda>ts. op_map (\<lambda>(i, t). mk i t) (enumerated ts)))"
  by (rule yields_bind [OF assms(1)]) (use trace_of_map [OF _ _ assms(2)] in auto)

lemma yields_uniform: "rng_ok g \<Longrightarrow> 0 \<le> b \<Longrightarrow> yields (\<lambda>t. 0 \<le> t) (draw (\<lambda>i. rn_uniform g i 0 b))"
  by (rule yields_draw) (simp add: rng_okD)

lemma yields_burst_submits:
  assumes "rng_ok g" "0 \<le> n" "0 \<le> h" "0 < p" "0 \<le> a" "0 \<le> c" "c \<le> 1"
  shows "yields (\<lambda>ts. length ts = nat n \<and> sorted ts \<and> (\<forall>t \<in> set ts. 0 \<le> t)) (burst_submits g n h p a c)"
proof -
  let ?nb = "half_even (of_int n * c)"
  have "half_even (of_int 0) \<le> ?nb" "?nb \<le> half_even (of_int n)"
    using assms(2,6,7) by (intro half_even_mono; simp add: mult_left_le)+
  then have nb: "0 \<le> ?nb" "?nb \<le> n"
    by (simp_all only: half_even_of_int)
  have burst: "yields (\<lambda>t. 0 \<le> t) (op_bind (draw (\<lambda>i. rn_below g i k)) (\<lambda>cyc.
      op_bind (draw (\<lambda>i. rn_uniform g i 0 a)) (\<lambda>off. op_return (real cyc * p + off))))" for k
    by (rule yields_bind [OF yields_draw [where Q = "\<lambda>_. True"]], simp,
        rule yields_bind [OF yields_uniform [OF assms(1,5)]], rule yields_return)
      (use assms(4) in simp)
  show ?thesis
    unfolding burst_submits_def Let_def if_not_P [OF less_imp_neq [OF assms(4), symmetric]]
    by (rule yields_bind [OF yields_repeat [OF burst]],
        rule yields_bind [OF yields_repeat [OF yields_uniform [OF assms(1,3)]]], rule yields_return)
      (use nb in \<open>auto simp: list_all_iff\<close>)
qed

lemma yields_burst:
  assumes "rng_ok g" "0 \<le> n" "1 \<le> u" "0 \<le> h" "0 < p" "0 \<le> a" "0 \<le> c" "c \<le> 1"
  shows "yields (sound_trace (nat n)) (generate_burst_heavy g n h u p a c)"
  unfolding generate_burst_heavy_def
  by (rule trace_of_submits [OF yields_burst_submits [OF assms(1,2,4-8)]
        yields_philly_job [OF assms(1) users_nonempty [OF assms(3)]]])

lemma yields_ali_submits:
  assumes "rng_ok g" "0 \<le> h"
  shows "yields (\<lambda>ts. length ts = nat n \<and> sorted ts \<and> (\<forall>t \<in> set ts. 0 \<le> t)) (ali_submits g n h)"
proof -
  have accept: "yields (\<lambda>_. True) (op_bind (draw (rn_random g)) (\<lambda>x. op_return (x < day_envelope t)))" for t
    by (intro yields_bind [OF yields_draw [where Q = "\<lambda>_. True"]] yields_return) simp_all
  show ?thesis
    unfolding ali_submits_def
  proof (rule yields_bind [OF yields_repeat [OF yields_uniform [OF assms]]])
    fix raw :: "real list"
    assume raw: "length raw = nat (n * 3) \<and> list_all (\<lambda>t. 0 \<le> t) raw"
    show "yields (\<lambda>ts. length ts = nat n \<and> sorted ts \<and> (\<forall>t \<in> set ts. 0 \<le> t))
      (op_bind (op_filter (\<lambda>t. op_bind (draw (rn_random g)) (\<lambda>x. op_return (x < day_envelope t))) raw) (\<lambda>kept.
         let submits = take (nat n) (sort kept) in
          op_bind (op_repeat (nat n - length submits) (draw (\<lambda>i. rn_uniform g i 0 h))) (\<lambda>more.
            op_return (sort (submits @ more)))))"
    proof (rule yields_bind [OF yields_filter [OF accept]], unfold Let_def)
      fix kept
      assume "set kept \<subseteq> set raw"
      then have pos: "\<forall>t \<in> set (take (nat n) (sort kept)). 0 \<le> t"
        using raw set_take_subset [of "nat n" "sort kept"] by (auto simp: list_all_iff)
      show "yields (\<lambda>ts. length ts = nat n \<and> sorted ts \<and> (\<forall>t \<in> set ts. 0 \<le> t))
        (op_bind (op_repeat (nat n - length (take (nat n) (sort kept))) (draw (\<lambda>i. rn_uniform g i 0 h))) (\<lambda>more.
            op_return (sort (take (nat n) (sort kept) @ more))))"
        by (rule yields_bind [OF yields_repeat [OF yields_uniform [OF assms]]], rule yields_return)
          (use pos in \<open>auto simp: list_all_iff\<close>)
    qed
  qed
qed

lemma yields_ali:
  assumes "rng_ok g" "1 \<le> u" "0 \<le> h"
  shows "yields (sound_trace (nat n)) (generate_ali_like g n h u)"
  unfolding generate_ali_like_def
  by (rule trace_of_submits [OF yields_ali_submits [OF assms(1,3)]],
      rule yields_sized [OF assms(1) users_nonempty [OF assms(2)]])
    (auto simp: tiers_ok)

text \<open>The features of a mixed workload.\<close>

definition sound_feat :: "feat \<Rightarrow> bool" where
  "sound_feat f \<longleftrightarrow>
     (case f of (cls, gc, mps, rt, slo) \<Rightarrow> 1 \<le> gc \<and> 0 < mps \<and> mps \<le> MPS_PER_GPU \<and> 1 \<le> rt \<and> 0 \<le> slo)"

lemma yields_ai_jobs:
  assumes "rng_ok g" "1 \<le> u" "list_all sound_feat feats" "\<And>cls. 0 \<le> ram_fn cls"
  shows "yields (sound_trace (length feats)) (ai_jobs g (user_names u) prefix ram_fn gap feats)"
  unfolding ai_jobs_def
proof (rule trace_of_arrivals [OF yields_gap [OF assms(1)]])
  fix i x t
  assume x: "x \<in> set feats" and t: "0 \<le> (t :: real)"
  obtain cls gc mps rt slo where f: "x = (cls, gc, mps, rt, slo)"
    by (cases x)
  with x assms(3) have ok: "1 \<le> gc" "0 < mps \<and> mps \<le> MPS_PER_GPU" "1 \<le> rt" "0 \<le> slo"
    by (auto simp: list_all_iff sound_feat_def)
  have "0 \<le> py_round 3 slo"
    using py_round_ge [of 0 slo 3] ok(4) by simp
  from yields_finish [OF assms(1) users_nonempty [OF assms(2)] ok(1-3) t this assms(4)]
  show "yields (made prefix i t) ((\<lambda>(cls, gc, mps, rt, slo) t. finish_job g (user_names u) prefix i gc mps rt cls
      (py_round 3 slo) (ram_fn cls) t) x t)"
    by (simp add: f)
qed

lemma draw_max: "yields (\<lambda>rt :: real. b \<le> rt) (draw (\<lambda>i. max b (f i)))"
  by (rule yields_draw) (rule max.cobounded1)

lemma yields_serving_feat:
  assumes "rng_ok g" "0 \<le> sf"
  shows "yields sound_feat (serving_feat g fr sf gf)"
proof -
  have inf: "yields sound_feat (op_bind (draw (\<lambda>i. max 2 (rn_lognorm g i (ln 20) (7 / 10)))) (\<lambda>rt.
            op_bind (rng_choice g MPS_SMALL_TIERS) (\<lambda>mps.
              op_return (''inference'', 1, mps, rt, rt * sf))))"
    by (rule yields_bind [OF draw_max], rule yields_bind [OF yields_choice [OF assms(1) tiers_ok(4) tiers_ok(2)]],
        assumption, rule yields_return) (use assms(2) in \<open>simp add: sound_feat_def\<close>)
  have gang: "yields sound_feat (op_return (''training'', 2, MPS_PER_GPU, rt, 0))" if "60 \<le> rt" for rt
    using that by (intro yields_return) (simp add: sound_feat_def MPS_PER_GPU_def)
  have solo: "yields sound_feat (op_bind (rng_choice g [75, MPS_PER_GPU]) (\<lambda>mps. op_return (''training'', 1, mps, rt, 0)))"
    if "60 \<le> rt" for rt
    by (rule yields_bind [OF yields_choice [OF assms(1), where Q = "\<lambda>m. 0 < m \<and> m \<le> MPS_PER_GPU"]])
      (use that in \<open>auto intro!: yields_return simp: sound_feat_def MPS_PER_GPU_def\<close>)
  show ?thesis
    unfolding serving_feat_def
    by (rule yields_bind [OF yields_draw [where Q = "\<lambda>_. True"]], simp, rule yields_if [OF inf],
        rule yields_bind [OF draw_max], rule yields_bind [OF yields_draw [where Q = "\<lambda>_. True"]], simp,
        rule yields_if, rule gang, assumption, rule solo)
qed

lemma yields_serving:
  assumes "rng_ok g" "1 \<le> u" "0 \<le> sf"
  shows "yields (sound_trace (nat n)) (generate_ai_serving g n k l fr u sf gf)"
  unfolding generate_ai_serving_def
proof (rule yields_bind [OF yields_repeat [OF yields_serving_feat [OF assms(1,3)]]])
  fix feats
  assume "length feats = nat n \<and> list_all sound_feat feats"
  with yields_ai_jobs [OF assms(1,2), of feats "\<lambda>_. 0"]
  show "yields (sound_trace (nat n)) (ai_jobs g (user_names u) ''ai-'' (\<lambda>_. 0) (mean_gap_of feats n k l) feats)"
    by simp
qed

lemma yields_mix_draw:
  assumes "rng_ok g" "0 \<le> sf"
  shows "yields (\<lambda>f. sound_feat (cls, f)) (mix_draw g sf cls)"
proof -
  have pick: "yields (\<lambda>f. sound_feat (cls, f)) (op_bind (draw (\<lambda>i. max b (rn_lognorm g i mu sg))) (\<lambda>rt.
      op_bind (rng_choice g ms) (\<lambda>mps. op_return (1, mps, rt, slo rt))))"
    if "2 \<le> b" "ms \<noteq> []" "\<And>m. m \<in> set ms \<Longrightarrow> 0 < m \<and> m \<le> MPS_PER_GPU" "\<And>rt. b \<le> rt \<Longrightarrow> 0 \<le> slo rt" for b mu sg ms slo
    by (rule yields_bind [OF draw_max], rule yields_bind [OF yields_choice [OF assms(1) that(2,3)]], assumption,
        rule yields_return) (use that in \<open>auto simp: sound_feat_def intro: order_trans\<close>)
  have whole: "yields (\<lambda>f. sound_feat (cls, f)) (op_bind (draw (\<lambda>i. max 20 (rn_lognorm g i (ln 120) (7 / 10))))
      (\<lambda>rt. op_return (1, MPS_PER_GPU, rt, 0)))"
    by (rule yields_bind [OF draw_max], rule yields_return) (simp add: sound_feat_def MPS_PER_GPU_def)
  show ?thesis
    unfolding mix_draw_def
    by (intro yields_if pick whole)
      (use assms(2) in \<open>auto simp: MPS_SMALL_TIERS_def MPS_PER_GPU_def\<close>)
qed

lemma yields_mix:
  assumes "rng_ok g" "1 \<le> u" "0 \<le> sf" "0 < sum_list (map fst mix)"
  shows "yields (sound_trace (nat n)) (generate_ai_mix g n k l u sf mix)"
proof -
  have "mix \<noteq> []"
    using assms(4) by auto
  then have feat: "yields sound_feat (mix_feat g sf mix)"
    unfolding mix_feat_def
    by (intro yields_bind [OF yields_choices [OF assms(1), where Q = "\<lambda>_. True"]]
        yields_bind [OF yields_mix_draw [OF assms(1,3)]] yields_return) (use assms(4) in auto)
  have ram: "0 \<le> dict_get RAM_REQ_GB cls 1" for cls
    by (auto simp: dict_get_def RAM_REQ_GB_def)
  show ?thesis
    unfolding generate_ai_mix_def
  proof (rule yields_bind [OF yields_repeat [OF feat]])
    fix feats
    assume "length feats = nat n \<and> list_all sound_feat feats"
    with yields_ai_jobs [OF assms(1,2), of feats "\<lambda>cls. dict_get RAM_REQ_GB cls 1"] ram
    show "yields (sound_trace (nat n)) (ai_jobs g (user_names u) ''aimix-'' (\<lambda>cls. dict_get RAM_REQ_GB cls 1)
        (mean_gap_of feats n k l) feats)"
      by simp
  qed
qed

section \<open>Every family\<close>

fun family_size :: "family_args \<Rightarrow> int" where
  "family_size (PhillyArgs n h u) = n"
| "family_size (BurstArgs n h u p a c) = n"
| "family_size (AliArgs n h u) = n"
| "family_size (ServingArgs n k l f u s q) = n"
| "family_size (MixArgs n k l u s m) = n"

fun args_ok :: "family_args \<Rightarrow> bool" where
  "args_ok (PhillyArgs n h u) \<longleftrightarrow> 1 \<le> u"
| "args_ok (BurstArgs n h u p a c) \<longleftrightarrow> 0 \<le> n \<and> 1 \<le> u \<and> 0 \<le> h \<and> 0 < p \<and> 0 \<le> a \<and> 0 \<le> c \<and> c \<le> 1"
| "args_ok (AliArgs n h u) \<longleftrightarrow> 1 \<le> u \<and> 0 \<le> h"
| "args_ok (ServingArgs n k l f u s q) \<longleftrightarrow> 1 \<le> u \<and> 0 \<le> s"
| "args_ok (MixArgs n k l u s m) \<longleftrightarrow> 1 \<le> u \<and> 0 \<le> s \<and> 0 < sum_list (map fst m)"

lemma yields_family:
  assumes "rng_ok g" "args_ok args"
  shows "yields (sound_trace (nat (family_size args))) (generate_by_family g (family_name args) args)"
proof -
  have "generate_by_family g (family_name args) args = run_family g args"
    by (cases args) (simp_all add: generate_by_family_def)
  with assms show ?thesis
    by (cases args) (auto intro!: yields_philly yields_burst yields_ali yields_serving yields_mix)
qed

lemma sound_trace_accepted:
  assumes "sound_trace n jobs"
  shows "jobs_ok jobs" "gym_jobs_ok jobs"
proof -
  have "job_ok j \<and> 0 \<le> runtime j \<and> 0 \<le> submit_ts j" if "j \<in> set jobs" for j
    using assms that unfolding sound_trace_def sound_job_def job_ok_def by force
  with assms show "jobs_ok jobs" "gym_jobs_ok jobs"
    by (simp_all add: sound_trace_def jobs_ok_def gym_jobs_ok_def)
qed

section \<open>Reading back\<close>

lemma job_from_as_dict: "job_from_dict (JObj (job_as_dict shown j)) = Inr j"
  by (simp add: job_from_dict_def item_at_def item_get_def as_obj_def job_as_dict_def Let_def j_get_def
      dict_get_def py_int_def py_float_def py_str_def)

lemma res_map_inverse: "(\<And>x. x \<in> set xs \<Longrightarrow> f (h x) = Inr x) \<Longrightarrow> res_map f (map h xs) = Inr xs"
  by (induction xs) simp_all

lemma load_written: "load_auto cp g m share (write_normalized shown jobs) k = (Inr jobs, k)"
proof -
  have "is_philly (write_normalized shown jobs) = Inr False"
    by (cases jobs) (simp_all add: is_philly_def write_normalized_def job_as_dict_def dict_has_def Let_def)
  then show ?thesis
    by (simp add: load_auto_def write_normalized_def as_list_def res_map_inverse job_from_as_dict)
qed

section \<open>Philly's raw format\<close>

definition philly_job_ok :: "job \<Rightarrow> bool" where
  "philly_job_ok j \<longleftrightarrow>
     1 \<le> gpu_count j \<and> 0 < runtime j \<and> submit_ts j \<noteq> 0 \<and> 0 < mps_req j \<and> mps_req j \<le> MPS_PER_GPU \<and>
     (mps_req j < MPS_PER_GPU \<longrightarrow> gpu_count j = 1)"

lemma best_attempt_positive:
  "best_attempt cp as best = Inr (Some (rt, att)) \<Longrightarrow> (\<And>r a. best = Some (r, a) \<Longrightarrow> 0 < r) \<Longrightarrow> 0 < rt"
proof (induction as arbitrary: best)
  case Nil
  then show ?case by simp
next
  case (Cons a as)
  obtain o1 st fin where "as_obj a = Inr o1" and
    go: "best_attempt cp as (case (true_ts st, true_ts fin) of
            (Some x, Some y) \<Rightarrow>
              if x < y \<and> (case best of None \<Rightarrow> True | Some (r, _) \<Rightarrow> r < y - x) then Some (y - x, o1) else best
          | _ \<Rightarrow> best) = Inr (Some (rt, att))"
    using Cons.prems(1) by (auto simp: res_bind_Inr)
  show ?case
    by (rule Cons.IH [OF go]) (use Cons.prems(2) in \<open>auto split: option.splits if_splits\<close>)
qed

lemma philly_entry_ok:
  assumes "philly_entry cp e = Inr (Some (entry, t, rt, gc))"
  shows "1 \<le> gc \<and> 0 < rt \<and> t \<noteq> 0"
  using assms best_attempt_positive
  by (fastforce simp: philly_entry_def res_bind_Inr Let_def true_ts_def split: option.splits if_splits)

lemma draw_mps_single:
  assumes "draw_mps g share tiers gc k = (Inr m, k')" "m < MPS_PER_GPU"
  shows "gc = 1"
  using assms by (auto simp: draw_mps_def op_return_def split: if_splits)

lemma philly_jobs_ok:
  assumes "rng_ok g" "philly_jobs cp g mj share es jobs k = (Inr out, k')" "\<forall>j \<in> set jobs. philly_job_ok j"
    "\<And>m. mj = Some m \<Longrightarrow> 0 < m \<and> int (length jobs) < m"
  shows "(\<forall>j \<in> set out. philly_job_ok j) \<and> (\<forall>m. mj = Some m \<longrightarrow> int (length out) \<le> m)"
  using assms(2-)
proof (induction es arbitrary: jobs k)
  case Nil
  then show ?case
    by (fastforce simp: op_return_def)
next
  case (Cons e es)
  consider "philly_entry cp e = Inr None" |
    entry t rt gc where "philly_entry cp e = Inr (Some (entry, t, rt, gc))"
    using Cons.prems(1) by (cases "philly_entry cp e") (auto simp: op_raise_def split: option.splits)
  then show ?case
  proof cases
    case none: 1
    with Cons.prems(1) have "philly_jobs cp g mj share es jobs k = (Inr out, k')"
      by simp
    from Cons.IH [OF this Cons.prems(2,3)] show ?thesis
      by blast
  next
    case (2 entry t rt gc)
    note some = this
    obtain m k1 where m: "draw_mps g share MPS_FRACTIONAL_TIERS gc k = (Inr m, k1)" "0 < m \<and> m \<le> MPS_PER_GPU"
      using yieldsD [OF yields_mps [OF assms(1) tiers_ok(3,1)]] by blast
    let ?j = "mk_job (py_str (j_get entry ''jobid'' (JInt (int (length jobs)))))
       (py_str (j_get entry ''user'' (JStr ''anon''))) gc (py_str (j_get entry ''vc'' (JStr ''rtx4070''))) t rt 0 m"
    have "philly_job_ok ?j"
      using philly_entry_ok [OF some] m draw_mps_single [OF m(1)] by (auto simp: philly_job_ok_def mk_job_def)
    with Cons.prems(2) have jobs: "\<forall>j \<in> set (jobs @ [?j]). philly_job_ok j"
      by simp
    show ?thesis
    proof (cases "case mj of None \<Rightarrow> False | Some l \<Rightarrow> l \<noteq> 0 \<and> l \<le> int (length (jobs @ [?j]))")
      case True
      with Cons.prems(1) some m(1) have "out = jobs @ [?j]"
        by (simp add: op_bind_def op_return_def Let_def)
      with jobs Cons.prems(3) show ?thesis
        by fastforce
    next
      case False
      with Cons.prems(1) some m(1) have "philly_jobs cp g mj share es (jobs @ [?j]) k1 = (Inr out, k')"
        by (simp add: op_bind_def Let_def)
      note rec = this
      have "0 < l \<and> int (length (jobs @ [?j])) < l" if "mj = Some l" for l
        using False Cons.prems(3) [OF that] that by simp
      from Cons.IH [OF rec jobs this] show ?thesis
        by blast
    qed
  qed
qed

section \<open>A lawful generator for the examples\<close>

definition demo_rng :: rng where
  "demo_rng = \<lparr>rn_random = (\<lambda>_. 0), rn_uniform = (\<lambda>_ a _. a), rn_expo = (\<lambda>_ _. 0), rn_lognorm = (\<lambda>_ _ _. 5),
     rn_below = (\<lambda>_ _. 0), rn_weighted = (\<lambda>_ _. 0)\<rparr>"

lemma demo_rng_ok: "rng_ok demo_rng"
  by (simp add: rng_ok_def demo_rng_def)

end
