(* ===== verification/SimVecFacts.thy ===== *)
theory SimVecFacts
  imports SimVec SimLoaderFacts SimGymFacts
begin

text \<open>
  Facts about the vectorised environments. A call of the process backend keeps the invariant
  \<open>call_inv\<close>, which says how far the parent and each worker have come; from it follow that every
  schedule ends, that no schedule gets stuck before the replies are in or a worker has died, and that
  the replies are those of the in-process backend. A sub-environment never raises.
\<close>

section \<open>The invariant of a call\<close>

definition phase_ok ::
  "(nat \<Rightarrow> 'c \<Rightarrow> 's \<Rightarrow> py_error + ('r \<times> 's)) \<Rightarrow> 'c list \<Rightarrow> 's list \<Rightarrow> nat \<Rightarrow> nat \<Rightarrow> nat \<Rightarrow> ('c, 's, 'r) worker \<Rightarrow> bool" where
  "phase_ok serve cs ss k m i w \<longleftrightarrow>
     (if k \<le> i then w = resting (ss ! i)
      else if i < m then \<exists>r s. serve i (cs ! i) (ss ! i) = Inr (r, s) \<and> w = resting s
      else w = (resting (ss ! i))\<lparr>wk_inbox := [cs ! i]\<rparr> \<or>
        (\<exists>r s. serve i (cs ! i) (ss ! i) = Inr (r, s) \<and> w = (resting s)\<lparr>wk_outbox := [r]\<rparr>) \<or>
        (\<exists>e. serve i (cs ! i) (ss ! i) = Inl e \<and> w = (resting (ss ! i))\<lparr>wk_alive := False\<rparr>))"

definition going ::
  "(nat \<Rightarrow> 'c \<Rightarrow> 's \<Rightarrow> py_error + ('r \<times> 's)) \<Rightarrow> 'c list \<Rightarrow> 's list \<Rightarrow> nat \<Rightarrow> nat \<Rightarrow>
   ('c, 'r) parent \<times> ('c, 's, 'r) worker list \<Rightarrow> bool" where
  "going serve cs ss k m x \<longleftrightarrow>
     \<not> pa_broken (fst x) \<and> k \<le> length ss \<and> m \<le> length ss \<and> (0 < m \<longrightarrow> k = length ss) \<and>
     pa_send (fst x) = drop k (zip [0..<length ss] cs) \<and> pa_recv (fst x) = [m..<length ss] \<and>
     length (pa_got (fst x)) = m \<and> (\<forall>i<m. \<exists>s. serve i (cs ! i) (ss ! i) = Inr (pa_got (fst x) ! i, s)) \<and>
     (\<forall>i<length ss. phase_ok serve cs ss k m i (snd x ! i))"

definition call_inv ::
  "(nat \<Rightarrow> 'c \<Rightarrow> 's \<Rightarrow> py_error + ('r \<times> 's)) \<Rightarrow> 'c list \<Rightarrow> 's list \<Rightarrow>
   ('c, 'r) parent \<times> ('c, 's, 'r) worker list \<Rightarrow> bool" where
  "call_inv serve cs ss x \<longleftrightarrow> length (snd x) = length ss \<and>
     ((\<exists>k m. going serve cs ss k m x) \<or>
      (pa_broken (fst x) \<and> pa_send (fst x) = [] \<and> pa_recv (fst x) = [] \<and>
       (\<exists>i<length ss. \<exists>e. serve i (cs ! i) (ss ! i) = Inl e)))"

lemma call_inv_start: "length cs = length ss \<Longrightarrow> call_inv serve cs ss (call cs ss)"
  unfolding call_inv_def by (intro conjI disjI1 exI [of _ 0]) (simp_all add: call_def going_def phase_ok_def)

lemma resting_sel [simp]: "wk_state (resting s) = s" "wk_inbox (resting s) = []" "wk_outbox (resting s) = []"
  "wk_alive (resting s)"
  by (simp_all add: resting_def)

lemma drop_sends:
  assumes "drop k (zip [0..<n] cs) = (i, c) # rest" "length cs = n"
  shows "k < n" "i = k" "c = cs ! k" "rest = drop (Suc k) (zip [0..<n] cs)"
proof -
  have k: "k < length (zip [0..<n] cs)"
    using assms(1) by (metis drop_all list.distinct(1) not_le)
  then show "k < n"
    using assms(2) by simp
  have "drop k (zip [0..<n] cs) = zip [0..<n] cs ! k # drop (Suc k) (zip [0..<n] cs)"
    using Cons_nth_drop_Suc [OF k] by simp
  moreover have "zip [0..<n] cs ! k = (k, cs ! k)"
    using k assms(2) by simp
  ultimately show "i = k" "c = cs ! k" "rest = drop (Suc k) (zip [0..<n] cs)"
    using assms(1) by simp_all
qed

lemma goingD:
  assumes "going serve cs ss k m x"
  shows "\<not> pa_broken (fst x)" "k \<le> length ss" "m \<le> length ss" "0 < m \<Longrightarrow> k = length ss"
    "pa_send (fst x) = drop k (zip [0..<length ss] cs)" "pa_recv (fst x) = [m..<length ss]"
    "length (pa_got (fst x)) = m" "i < m \<Longrightarrow> \<exists>s. serve i (cs ! i) (ss ! i) = Inr (pa_got (fst x) ! i, s)"
    "i < length ss \<Longrightarrow> phase_ok serve cs ss k m i (snd x ! i)"
  using assms by (simp_all add: going_def)

lemma going_worker:
  \<comment> \<open>one worker moves on, the parent does not\<close>
  assumes "going serve cs ss k m (p, ws)" "i < length ws" "length ws = length ss" "phase_ok serve cs ss k m i w"
  shows "going serve cs ss k m (p, ws[i := w])"
  using assms by (simp add: going_def nth_list_update)

lemma phase_okD:
  assumes "phase_ok serve cs ss k m i w"
  shows "wk_inbox w = c # rest \<Longrightarrow> i < k \<and> m \<le> i \<and> c = cs ! i \<and> w = (resting (ss ! i))\<lparr>wk_inbox := [cs ! i]\<rparr>"
    "wk_outbox w = r # rs \<Longrightarrow> i < k \<and> m \<le> i \<and> (\<exists>s. serve i (cs ! i) (ss ! i) = Inr (r, s) \<and> w = (resting s)\<lparr>wk_outbox := [r]\<rparr>)"
    "\<not> wk_alive w \<Longrightarrow> i < k \<and> m \<le> i \<and> (\<exists>e. serve i (cs ! i) (ss ! i) = Inl e)"
  using assms by (auto simp: phase_ok_def split: if_splits)

lemma phase_ok_other: "phase_ok serve cs ss k m i w \<Longrightarrow> i \<noteq> k \<Longrightarrow> phase_ok serve cs ss (Suc k) m i w"
  "phase_ok serve cs ss k m i w \<Longrightarrow> i \<noteq> m \<Longrightarrow> i < k \<Longrightarrow> phase_ok serve cs ss k (Suc m) i w"
  by (auto simp: phase_ok_def)

lemma call_inv_worker:
  assumes "call_inv serve cs ss (p, ws)" "length ws' = length ws"
    "\<And>k m. going serve cs ss k m (p, ws) \<Longrightarrow> going serve cs ss k m (p, ws')"
  shows "call_inv serve cs ss (p, ws')"
  using assms unfolding call_inv_def by (metis fst_conv snd_conv)

lemma call_inv_step:
  assumes "vec_step serve x y" "call_inv serve cs ss x" "length cs = length ss"
  shows "call_inv serve cs ss y"
  using assms(1,2)
proof (cases rule: vec_step.cases)
  case (send p i c rest ws)
  then obtain k m where g: "going serve cs ss k m (p, ws)" and len: "length ws = length ss"
    using assms(2) by (auto simp: call_inv_def going_def)
  have "drop k (zip [0..<length ss] cs) = (i, c) # rest"
    using goingD(5) [OF g] send(3) by simp
  note d = drop_sends [OF this assms(3)]
  have m: "m = 0"
    using goingD(4) [OF g] d(1) by auto
  have w: "ws ! k = resting (ss ! k)"
    using goingD(9) [OF g d(1)] by (simp add: phase_ok_def)
  have "phase_ok serve cs ss (Suc k) 0 j (ws[k := (ws ! k)\<lparr>wk_inbox := [c]\<rparr>] ! j)" if "j < length ss" for j
  proof (cases "j = k")
    case True
    then show ?thesis
      using d(1,3) w len by (simp add: phase_ok_def)
  next
    case False
    then show ?thesis
      using phase_ok_other(1) [of serve cs ss k 0 j "ws ! j"] goingD(9) [OF g that] m by simp
  qed
  then have "going serve cs ss (Suc k) 0 y"
    using goingD(1,3,6,7) [OF g] d m w by (simp add: going_def send(2))
  then show ?thesis
    using send(2) len by (auto simp: call_inv_def)
next
  case (broken_pipe p i c rest ws)
  then obtain k m where g: "going serve cs ss k m (p, ws)"
    using assms(2) by (auto simp: call_inv_def going_def)
  have "drop k (zip [0..<length ss] cs) = (i, c) # rest"
    using goingD(5) [OF g] broken_pipe(3) by simp
  note d = drop_sends [OF this assms(3)]
  have False
    using goingD(9) [OF g d(1)] broken_pipe(5) d(2) by (simp add: phase_ok_def)
  then show ?thesis ..
next
  case (answer i ws c cs' r s p)
  let ?w = "(ws ! i)\<lparr>wk_state := s, wk_inbox := cs', wk_outbox := wk_outbox (ws ! i) @ [r]\<rparr>"
  have len: "length ws = length ss"
    using assms(2) answer(1) by (simp add: call_inv_def)
  have "going serve cs ss k m (p, ws[i := ?w])" if g: "going serve cs ss k m (p, ws)" for k m
  proof -
    have "phase_ok serve cs ss k m i (ws ! i)"
      using goingD(9) [OF g] answer(3) len by simp
    note d = phase_okD(1) [OF this answer(5)]
    then have "phase_ok serve cs ss k m i ?w"
      using answer(5,6) by (auto simp: phase_ok_def resting_def)
    from going_worker [OF g answer(3) len this] show ?thesis .
  qed
  from call_inv_worker [OF _ _ this] assms(2) show ?thesis
    unfolding answer(1,2) by simp
next
  case (die i ws c cs' e p)
  let ?w = "(ws ! i)\<lparr>wk_inbox := cs', wk_alive := False\<rparr>"
  have len: "length ws = length ss"
    using assms(2) die(1) by (simp add: call_inv_def)
  have "going serve cs ss k m (p, ws[i := ?w])" if g: "going serve cs ss k m (p, ws)" for k m
  proof -
    have "phase_ok serve cs ss k m i (ws ! i)"
      using goingD(9) [OF g] die(3) len by simp
    note d = phase_okD(1) [OF this die(5)]
    then have "phase_ok serve cs ss k m i ?w"
      using die(5,6) by (auto simp: phase_ok_def resting_def)
    from going_worker [OF g die(3) len this] show ?thesis .
  qed
  from call_inv_worker [OF _ _ this] assms(2) show ?thesis
    unfolding die(1,2) by simp
next
  case (receive p i "is" ws r rs)
  then obtain k m where g: "going serve cs ss k m (p, ws)" and len: "length ws = length ss"
    using assms(2) by (auto simp: call_inv_def going_def)
  have "[m..<length ss] = i # is"
    using goingD(6) [OF g] receive(4) by simp
  then have d: "i = m" "m < length ss" "is = [Suc m..<length ss]"
    by (auto simp: upt_eq_Cons_conv)
  have k: "k = length ss"
    using goingD(2,5) [OF g] receive(3) assms(3) by simp
  from phase_okD(2) [OF goingD(9) [OF g d(2)]] receive(6) d(1) obtain s where
    s: "serve m (cs ! m) (ss ! m) = Inr (r, s)" "ws ! m = (resting s)\<lparr>wk_outbox := [r]\<rparr>" "rs = []"
    by auto
  have "phase_ok serve cs ss k (Suc m) j (ws[m := (ws ! m)\<lparr>wk_outbox := rs\<rparr>] ! j)" if "j < length ss" for j
  proof (cases "j = m")
    case True
    then show ?thesis
      using d(2) s len k by (simp add: phase_ok_def resting_def)
  next
    case False
    then show ?thesis
      using phase_ok_other(2) [of serve cs ss k m j "ws ! j"] goingD(9) [OF g that] k that by simp
  qed
  moreover have "\<exists>s. serve j (cs ! j) (ss ! j) = Inr ((pa_got p @ [r]) ! j, s)" if "j < Suc m" for j
    using goingD(7) [OF g] goingD(8) [OF g, of j] s(1) that by (auto simp: nth_append less_Suc_eq)
  ultimately have "going serve cs ss k (Suc m) y"
    using goingD(1,5,7) [OF g] d k by (simp add: going_def receive(2))
  then show ?thesis
    using receive(2) len by (auto simp: call_inv_def)
next
  case (end_of_file p i "is" ws)
  then obtain k m where g: "going serve cs ss k m (p, ws)" and len: "length ws = length ss"
    using assms(2) by (auto simp: call_inv_def going_def)
  have i: "i < length ss"
    using end_of_file(5) len by simp
  show ?thesis
    using phase_okD(3) [OF goingD(9) [OF g i]] end_of_file i len by (auto simp: call_inv_def)
qed

lemma call_inv_run: "vec_run serve x y \<Longrightarrow> call_inv serve cs ss x \<Longrightarrow> length cs = length ss \<Longrightarrow> call_inv serve cs ss y"
  by (induction rule: vec_run.induct) (auto intro: call_inv_step)

section \<open>Schedules end, and only with every reply or a dead worker\<close>

definition call_weight :: "('c, 'r) parent \<times> ('c, 's, 'r) worker list \<Rightarrow> nat" where
  "call_weight x = 4 * length (pa_send (fst x)) + length (pa_recv (fst x)) +
     sum_list (map (\<lambda>w. 3 * length (wk_inbox w) + length (wk_outbox w)) (snd x))"

lemma sum_list_replace:
  "i < length xs \<Longrightarrow> sum_list (map f (xs[i := x])) + f (xs ! i) = sum_list (map f xs) + (f x :: nat)"
  by (induction xs arbitrary: i) (auto split: nat.splits)

lemma step_weight: "vec_step serve x y \<Longrightarrow> call_weight y < call_weight x"
proof (induction rule: vec_step.induct)
  case (send p i c rest ws)
  then show ?case
    using sum_list_replace [of i ws "\<lambda>w. 3 * length (wk_inbox w) + length (wk_outbox w)"
        "(ws ! i)\<lparr>wk_inbox := wk_inbox (ws ! i) @ [c]\<rparr>"]
    by (simp add: call_weight_def)
next
  case (answer i ws c cs r s p)
  then show ?case
    using sum_list_replace [of i ws "\<lambda>w. 3 * length (wk_inbox w) + length (wk_outbox w)"
        "(ws ! i)\<lparr>wk_state := s, wk_inbox := cs, wk_outbox := wk_outbox (ws ! i) @ [r]\<rparr>"]
    by (simp add: call_weight_def)
next
  case (die i ws c cs e p)
  then show ?case
    using sum_list_replace [of i ws "\<lambda>w. 3 * length (wk_inbox w) + length (wk_outbox w)"
        "(ws ! i)\<lparr>wk_inbox := cs, wk_alive := False\<rparr>"]
    by (simp add: call_weight_def)
next
  case (receive p i "is" ws r rs)
  then show ?case
    using sum_list_replace [of i ws "\<lambda>w. 3 * length (wk_inbox w) + length (wk_outbox w)" "(ws ! i)\<lparr>wk_outbox := rs\<rparr>"]
    by (simp add: call_weight_def)
qed (simp_all add: call_weight_def)

lemma run_weight: "vec_run serve x y \<Longrightarrow> call_weight y \<le> call_weight x"
  by (induction rule: vec_run.induct) (auto dest: step_weight)

text \<open>Every state can be run until it is stuck.\<close>

lemma run_to_end: "\<exists>y. vec_run serve x y \<and> stuck serve y"
proof (induction "call_weight x" arbitrary: x rule: less_induct)
  case less
  show ?case
  proof (cases "stuck serve x")
    case True
    then show ?thesis
      using vec_refl by blast
  next
    case False
    then obtain z where z: "vec_step serve x z"
      by (auto simp: stuck_def)
    have run: "vec_run serve a c" if "vec_run serve b c" "vec_step serve a b" for a b c
      using that by (induction rule: vec_run.induct) (auto intro: vec_run.intros)
    show ?thesis
      using less [OF step_weight [OF z]] run z by blast
  qed
qed

lemma going_stuck:
  assumes "going serve cs ss k m (p, ws)" "length ws = length ss" "length cs = length ss" "stuck serve (p, ws)"
  shows "m = length ss"
proof (rule ccontr)
  assume "m \<noteq> length ss"
  then have m: "m < length ss"
    using goingD(3) [OF assms(1)] by simp
  have recv: "pa_recv p = m # [Suc m..<length ss]"
    using goingD(6) [OF assms(1)] m by (simp add: upt_conv_Cons)
  have "\<exists>y. vec_step serve (p, ws) y"
  proof (cases "k < length ss")
    case True
    then have "pa_send p = (k, cs ! k) # drop (Suc k) (zip [0..<length ss] cs)"
      using goingD(5) [OF assms(1)] assms(3) by (simp add: Cons_nth_drop_Suc [symmetric])
    moreover have "wk_alive (ws ! k)"
      using goingD(9) [OF assms(1) True] by (simp add: phase_ok_def)
    ultimately show ?thesis
      using vec_step.send True assms(2) by metis
  next
    case False
    then have k: "k = length ss" and send: "pa_send p = []"
      using goingD(2,5) [OF assms(1)] assms(3) by simp_all
    have "phase_ok serve cs ss k m m (ws ! m)"
      using goingD(9) [OF assms(1) m] by simp
    then consider (sent) "ws ! m = (resting (ss ! m))\<lparr>wk_inbox := [cs ! m]\<rparr>"
      | (served) r s where "ws ! m = (resting s)\<lparr>wk_outbox := [r]\<rparr>"
      | (dead) "ws ! m = (resting (ss ! m))\<lparr>wk_alive := False\<rparr>"
      using m k by (auto simp: phase_ok_def)
    then show ?thesis
    proof cases
      case sent
      show ?thesis
      proof (cases "serve m (cs ! m) (ss ! m)")
        case (Inl e)
        then show ?thesis
          using vec_step.die [of m ws "cs ! m" "[]" serve e p] sent m assms(2) by (auto simp: resting_def)
      next
        case (Inr x)
        then show ?thesis
          using vec_step.answer [of m ws "cs ! m" "[]" serve "fst x" "snd x" p] sent m assms(2)
          by (cases x) (auto simp: resting_def)
      qed
    next
      case (served r s)
      then show ?thesis
        using vec_step.receive [OF send recv, of ws r "[]" serve] m assms(2) by auto
    next
      case dead
      then show ?thesis
        using vec_step.end_of_file [OF send recv, of ws serve] m assms(2) by auto
    qed
  qed
  with assms(4) show False
    by (auto simp: stuck_def)
qed

text \<open>The in-process backend, position by position.\<close>

lemma each_in_turn_result:
  assumes "length cs = length ss"
  shows "each_in_turn f k ss cs =
    (case find (\<lambda>i. isl (f (k + i) (cs ! i) (ss ! i))) [0..<length ss] of
       Some i \<Rightarrow> Inl (projl (f (k + i) (cs ! i) (ss ! i)))
     | None \<Rightarrow> Inr (map (\<lambda>i. fst (projr (f (k + i) (cs ! i) (ss ! i)))) [0..<length ss],
                    map (\<lambda>i. snd (projr (f (k + i) (cs ! i) (ss ! i)))) [0..<length ss]))"
  using assms
proof (induction f k ss cs rule: each_in_turn.induct)
  case (3 f k w ws c cs)
  have shift: "[0..<Suc (length ws)] = 0 # map Suc [0..<length ws]"
    using upt_conv_Cons [of 0 "Suc (length ws)"] by (simp add: map_Suc_upt del: upt_Suc)
  have find_map: "find P (map Suc xs) = map_option Suc (find (P \<circ> Suc) xs)" for P xs
    by (induction xs) auto
  show ?case
  proof (cases "f k c w")
    case (Inl e)
    then show ?thesis
      by (simp add: shift del: upt_Suc)
  next
    case (Inr x)
    then show ?thesis
      using "3.IH" [OF Inr, of "fst x" "snd x"] "3.prems"
      by (cases x) (simp add: shift find_map comp_def del: upt_Suc split: option.split)
  qed
qed simp_all

theorem call_result:
  assumes "length cs = length ss" "vec_run serve (call cs ss) (p, ws)" "stuck serve (p, ws)"
  shows "case each_in_turn serve 0 ss cs of
      Inr (rs, ss') \<Rightarrow> pa_got p = rs \<and> ws = map resting ss' \<and> pa_recv p = [] \<and> \<not> pa_broken p
    | Inl e \<Rightarrow> pa_broken p \<and> pa_recv p = []"
proof -
  have inv: "call_inv serve cs ss (p, ws)"
    by (rule call_inv_run [OF assms(2) call_inv_start [OF assms(1)] assms(1)])
  then have len: "length ws = length ss"
    by (simp add: call_inv_def)
  note result = each_in_turn_result [OF assms(1), of serve 0, unfolded add_0]
  from inv consider (run) k m where "going serve cs ss k m (p, ws)"
    | (broken) i e where "pa_broken p" "pa_recv p = []" "i < length ss" "serve i (cs ! i) (ss ! i) = Inl e"
    by (auto simp: call_inv_def)
  then show ?thesis
  proof cases
    case run
    have m: "m = length ss"
      by (rule going_stuck [OF run len assms(1,3)])
    have all: "\<exists>s. serve i (cs ! i) (ss ! i) = Inr (pa_got p ! i, s) \<and> ws ! i = resting s" if i: "i < length ss" for i
    proof -
      obtain s where s: "serve i (cs ! i) (ss ! i) = Inr (pa_got p ! i, s)"
        using goingD(8) [OF run, of i] i m by auto
      have "0 < m"
        using i m by linarith
      then have "k = length ss"
        by (rule goingD(4) [OF run])
      then have "ws ! i = resting s"
        using goingD(9) [OF run i] i m s by (auto simp: phase_ok_def)
      with s show ?thesis
        by blast
    qed
    then have none: "find (\<lambda>i. isl (serve i (cs ! i) (ss ! i))) [0..<length ss] = None"
      by (fastforce simp: find_None_iff)
    have "map (\<lambda>i. fst (projr (serve i (cs ! i) (ss ! i)))) [0..<length ss] = pa_got p"
      using all goingD(7) [OF run] m by (intro nth_equalityI) fastforce+
    moreover have "map resting (map (\<lambda>i. snd (projr (serve i (cs ! i) (ss ! i)))) [0..<length ss]) = ws"
      using all len by (intro nth_equalityI) fastforce+
    ultimately show ?thesis
      using goingD(1,6) [OF run] m by (simp add: result none)
  next
    case broken
    then have "isl (serve i (cs ! i) (ss ! i))" "i \<in> set [0..<length ss]"
      by simp_all
    then have "find (\<lambda>i. isl (serve i (cs ! i) (ss ! i))) [0..<length ss] \<noteq> None"
      unfolding find_None_iff by blast
    with broken(1,2) show ?thesis
      by (auto simp: result)
  qed
qed

section \<open>A sub-environment never raises\<close>

text \<open>What numpy documents of bounded integers.\<close>

definition ints_ok :: "np_ints \<Rightarrow> bool" where
  "ints_ok np \<longleftrightarrow> (\<forall>s k h. 0 < h \<longrightarrow> np s k h < h)"

lemma default_args_ok:
  assumes "default_args family n = Some args" "0 \<le> n"
  shows "args_ok args" "family_name args = family"
  using assms by (auto simp: default_args_def split: if_splits)

lemma default_trace_jobs:
  assumes "default_args family n = Some args" "0 \<le> n" "rng_ok g"
  shows "\<exists>jobs. fst (generate_by_family g family args 0) = Inr jobs \<and> gym_jobs_ok (filter (\<lambda>j. gpu_count j \<le> limit) jobs)"
proof -
  note ok = default_args_ok [OF assms(1,2)]
  obtain jobs k where jobs: "generate_by_family g family args 0 = (Inr jobs, k)" "sound_trace (nat (family_size args)) jobs"
    using yieldsD [OF yields_family [OF assms(3) ok(1)], of 0] ok(2) by auto
  have "gym_jobs_ok (filter (\<lambda>j. gpu_count j \<le> limit) jobs)"
    using sound_trace_accepted(2) [OF jobs(2)] by (auto simp: gym_jobs_ok_def distinct_map_filter)
  with jobs(1) show ?thesis
    by simp
qed

lemma factory_jobs:
  assumes "ff_families f \<noteq> []" "list_all (\<lambda>x. default_args x (ff_n_jobs f) \<noteq> None) (ff_families f)" "0 \<le> ff_n_jobs f"
    "ints_ok np" "\<And>s. rng_ok (py s)"
  shows "\<exists>jobs. call_factory np py f = Inr (jobs, f\<lparr>ff_drawn := ff_drawn f + 2\<rparr>) \<and> gym_jobs_ok jobs"
proof -
  let ?fam = "ff_families f ! np (ff_seed f) (ff_drawn f) (length (ff_families f))"
  let ?seed = "int (np (ff_seed f) (ff_drawn f + 1) (2 ^ 31 - 1))"
  have "?fam \<in> set (ff_families f)"
    using assms(1,4) by (simp add: ints_ok_def)
  then obtain args where args: "default_args ?fam (ff_n_jobs f) = Some args"
    using assms(2) by (auto simp: list_all_iff)
  from default_trace_jobs [OF args assms(3,5), of ?seed "ff_total_gpus f"] show ?thesis
    using assms(1) args by (auto simp: call_factory_def Let_def)
qed

definition spec_ok :: "env_spec \<Rightarrow> bool" where
  "spec_ok sp \<longleftrightarrow> es_families sp \<noteq> [] \<and> list_all (\<lambda>x. default_args x (es_n_jobs sp) \<noteq> None) (es_families sp) \<and>
     0 \<le> es_n_jobs sp \<and> 0 \<le> es_mps_per_gpu sp \<and> es_reward_mode sp \<in> {''jct_aligned'', ''mo''}"

definition built_from :: "env_spec \<Rightarrow> sub_env \<Rightarrow> bool" where
  "built_from sp w \<longleftrightarrow> en_cfg (se_env w) = spec_cfg sp \<and> ff_families (se_factory w) = es_families sp \<and>
     ff_n_jobs (se_factory w) = es_n_jobs sp"

definition sub_ok :: "env_spec \<Rightarrow> sub_env \<Rightarrow> bool" where
  "sub_ok sp w \<longleftrightarrow> built_from sp w \<and>
     (\<exists>jobs c s. en_state (se_env w) = Some s \<and> gym_jobs_ok jobs \<and> gym_inv jobs c s \<and> 0 \<le> mps_per_gpu c)"

lemma build_ok: "spec_ok sp \<Longrightarrow> \<exists>w. build sp i = Inr w \<and> built_from sp w"
  by (auto simp: build_def make_env_def spec_cfg_def spec_ok_def built_from_def new_factory_def none_if_empty_def)

lemma reset_sub_ok:
  assumes "spec_ok sp" "built_from sp w" "ints_ok np" "\<And>s. rng_ok (py s)"
  shows "\<exists>w' s. reset_sub np py seed w = Inr (build_obs (spec_cfg sp) s, w') \<and> en_state (se_env w') = Some s \<and> sub_ok sp w'"
proof -
  have f: "ff_families (se_factory w) = es_families sp" "ff_n_jobs (se_factory w) = es_n_jobs sp"
    and cfg: "en_cfg (se_env w) = spec_cfg sp"
    using assms(2) by (simp_all add: built_from_def)
  obtain jobs where jobs: "call_factory np py (se_factory w) = Inr (jobs, (se_factory w)\<lparr>ff_drawn := ff_drawn (se_factory w) + 2\<rparr>)"
      "gym_jobs_ok jobs"
    using factory_jobs [of "se_factory w" np py] f assms(1,3,4) by (auto simp: spec_ok_def)
  have sel: "ec_cap (spec_cfg sp) = es_mps_per_gpu sp" "ec_speeds (spec_cfg sp) = None" "ec_gpu_types (spec_cfg sp) = None"
    "ec_rams (spec_cfg sp) = None" "ec_overcommit (spec_cfg sp) = 1"
    by (simp_all add: spec_cfg_def)
  have "make_cluster (ec_nodes (spec_cfg sp)) (ec_gpus (spec_cfg sp)) (ec_cap (spec_cfg sp)) (ec_speeds (spec_cfg sp))
      (ec_gpu_types (spec_cfg sp)) (ec_rams (spec_cfg sp)) (ec_overcommit (spec_cfg sp)) =
      Inr (empty_cluster (ec_nodes (spec_cfg sp)) (ec_gpus (spec_cfg sp)) (ec_cap (spec_cfg sp)))"
    unfolding sel by (rule make_cluster_default)
  note c = this
  have "0 \<le> ec_cap (spec_cfg sp)" "0 \<le> ec_overcommit (spec_cfg sp)"
    "\<forall>r \<in> set (or_default (ec_rams (spec_cfg sp)) (ec_nodes (spec_cfg sp)) 1000000000). 0 \<le> r"
    using assms(1) by (simp_all add: sel spec_ok_def or_default_def)
  from reset_env_ok [OF c cfg jobs(2) this, of seed] obtain s en' where
    "reset_env seed jobs (se_env w) = Inr (build_obs (spec_cfg sp) s, en')" "en_state en' = Some s" "en_cfg en' = spec_cfg sp"
    "gym_inv jobs (empty_cluster (ec_nodes (spec_cfg sp)) (ec_gpus (spec_cfg sp)) (ec_cap (spec_cfg sp))) s"
    "0 \<le> mps_per_gpu (empty_cluster (ec_nodes (spec_cfg sp)) (ec_gpus (spec_cfg sp)) (ec_cap (spec_cfg sp)))"
    by blast
  with jobs f show ?thesis
    by (auto simp: reset_sub_def sub_ok_def built_from_def)
qed

lemma step_one_ok:
  assumes "spec_ok sp" "sub_ok sp w" "ints_ok np" "\<And>s. rng_ok (py s)"
  shows "\<exists>r w'. step_one np py nz a w = Inr (r, w') \<and> sub_ok sp w' \<and>
    length (so_obs r) = length (build_obs (spec_cfg sp) undefined) \<and> length (so_mask r) = n_act (spec_cfg sp) \<and>
    (so_final r = None \<longleftrightarrow> \<not> so_done r)"
proof -
  obtain jobs c s where s: "en_state (se_env w) = Some s" "gym_jobs_ok jobs" "gym_inv jobs c s" "0 \<le> mps_per_gpu c"
    and b: "built_from sp w"
    using assms(2) by (auto simp: sub_ok_def)
  have cfg: "en_cfg (se_env w) = spec_cfg sp"
    using b by (simp add: built_from_def)
  obtain res en' s' where st: "step (nz (ff_drawn (se_factory w))) a (se_env w) = Inr (res, en')" "en_state en' = Some s'"
      "en_cfg en' = spec_cfg sp" "gym_inv jobs c s'" "sr_obs res = build_obs (spec_cfg sp) s'"
    using step_cases [OF s(2,1,3,4)] unfolding cfg by metis
  have len: "length (build_obs (spec_cfg sp) x) = length (build_obs (spec_cfg sp) y)" for x y
    by (simp add: length_build_obs)
  have b': "built_from sp (w\<lparr>se_env := en'\<rparr>)"
    using b st(3) by (simp add: built_from_def)
  show ?thesis
  proof (cases "sr_terminated res \<or> sr_truncated res")
    case True
    obtain w' s2 where "reset_sub np py None (w\<lparr>se_env := en'\<rparr>) = Inr (build_obs (spec_cfg sp) s2, w')"
        "en_state (se_env w') = Some s2" "sub_ok sp w'"
      using reset_sub_ok [OF assms(1) b' assms(3), of py None] assms(4) by blast
    then show ?thesis
      using st True len by (auto simp: step_one_def mask_of_def sub_ok_def built_from_def)
  next
    case False
    have "sub_ok sp (w\<lparr>se_env := en'\<rparr>)"
      unfolding sub_ok_def using b' s(2,4) st(2,4) by auto
    then show ?thesis
      using st False len by (auto simp: step_one_def mask_of_def)
  qed
qed

end
