(* ===== verification/PyLoads.thy ===== *)
theory PyLoads
  imports PyJson
begin

text \<open>
  \<^verbatim>\<open>json.loads\<close> on a text: white space, literals, numbers, strings with their escapes, arrays and
  objects, where a repeated key keeps its last value. The three spellings of non-finite numbers
  that Python also accepts have no real value and are rejected, a float keeps its spelling as its
  printed form, and an unpaired surrogate is encoded like any other code point. The parser
  consumes a character at least at every second recursive call, so that twice the length of the
  text is enough fuel.
\<close>

definition json_space :: "char \<Rightarrow> bool" where
  "json_space c \<longleftrightarrow> c = CHR 0x20 \<or> c = CHR 0x09 \<or> c = CHR 0x0A \<or> c = CHR 0x0D"

abbreviation skip_ws :: "string \<Rightarrow> string" where
  "skip_ws \<equiv> dropWhile json_space"

section \<open>Strings\<close>

definition hex_val :: "char \<Rightarrow> nat option" where
  "hex_val c =
     (let n = (of_char c :: nat) in
      if is_digit c then Some (digit_val c)
      else if 65 \<le> n \<and> n \<le> 70 then Some (n - 55)
      else if 97 \<le> n \<and> n \<le> 102 then Some (n - 87) else None)"

fun hex4 :: "string \<Rightarrow> (nat \<times> string) option" where
  "hex4 (a # b # c # d # r) =
     (case (hex_val a, hex_val b, hex_val c, hex_val d) of
        (Some w, Some x, Some y, Some z) \<Rightarrow> Some (((w * 16 + x) * 16 + y) * 16 + z, r)
      | _ \<Rightarrow> None)"
| "hex4 _ = None"

definition utf8 :: "nat \<Rightarrow> string" where
  "utf8 n =
     (if n < 128 then [char_of n]
      else if n < 2048 then [char_of (192 + n div 64), char_of (128 + n mod 64)]
      else if n < 65536 then
        [char_of (224 + n div 4096), char_of (128 + n div 64 mod 64), char_of (128 + n mod 64)]
      else [char_of (240 + n div 262144), char_of (128 + n div 4096 mod 64),
            char_of (128 + n div 64 mod 64), char_of (128 + n mod 64)])"

definition unicode_escape :: "string \<Rightarrow> (string \<times> string) option" where
  \<comment> \<open>what follows \<^verbatim>\<open>\u\<close>: four digits, and a second escape when they are a high surrogate\<close>
  "unicode_escape s =
     (case hex4 s of
        None \<Rightarrow> None
      | Some (n, r) \<Rightarrow>
          (case r of
             c # d # r2 \<Rightarrow>
               if 55296 \<le> n \<and> n < 56320 \<and> c = CHR 0x5C \<and> d = CHR ''u'' then
                 (case hex4 r2 of
                    Some (m, r3) \<Rightarrow>
                      if 56320 \<le> m \<and> m < 57344
                      then Some (utf8 (65536 + (n - 55296) * 1024 + (m - 56320)), r3)
                      else Some (utf8 n, r)
                  | None \<Rightarrow> Some (utf8 n, r))
               else Some (utf8 n, r)
           | _ \<Rightarrow> Some (utf8 n, r)))"

definition simple_escape :: "char \<Rightarrow> char option" where
  "simple_escape c =
     map_of [(CHR 0x22, CHR 0x22), (CHR 0x5C, CHR 0x5C), (CHR 0x2F, CHR 0x2F), (CHR ''b'', CHR 0x08),
             (CHR ''f'', CHR 0x0C), (CHR ''n'', CHR 0x0A), (CHR ''r'', CHR 0x0D), (CHR ''t'', CHR 0x09)] c"

fun scan_string :: "nat \<Rightarrow> string \<Rightarrow> (string \<times> string) option" where
  \<comment> \<open>the content up to the closing quote, and what follows it\<close>
  "scan_string 0 s = None"
| "scan_string (Suc k) [] = None"
| "scan_string (Suc k) (c # s) =
     (if c = CHR 0x22 then Some ([], s)
      else if c = CHR 0x5C then
        (case s of
           [] \<Rightarrow> None
         | e # r \<Rightarrow>
             (case (if e = CHR ''u'' then unicode_escape r
                    else map_option (\<lambda>x. ([x], r)) (simple_escape e)) of
                None \<Rightarrow> None
              | Some (t, r2) \<Rightarrow> map_option (\<lambda>(u, r3). (t @ u, r3)) (scan_string k r2)))
      else if (of_char c :: nat) < 32 then None
      else map_option (\<lambda>(u, r). (c # u, r)) (scan_string k s))"

section \<open>Numbers\<close>

definition scan_number :: "string \<Rightarrow> (json \<times> string) option" where
  "scan_number s =
     (let (sign, b) = (case s of c # r \<Rightarrow> if c = CHR ''-'' then ([c], r) else ([], s) | [] \<Rightarrow> ([], []));
          ip = (case b of c # _ \<Rightarrow> if c = CHR ''0'' then [c] else takeWhile is_digit b | [] \<Rightarrow> []);
          r1 = drop (length ip) b;
          fp = (case r1 of c # r \<Rightarrow> if c = CHR ''.'' \<and> takeWhile is_digit r \<noteq> [] then c # takeWhile is_digit r
                                     else [] | [] \<Rightarrow> []);
          r2 = drop (length fp) r1;
          ep = (case r2 of
                  c # r \<Rightarrow>
                    if c = CHR ''e'' \<or> c = CHR ''E'' then
                      (let (sg, ds) = (case r of d # q \<Rightarrow> if d = CHR ''+'' \<or> d = CHR ''-'' then ([d], q) else ([], r)
                                               | [] \<Rightarrow> ([], []))
                       in if takeWhile is_digit ds = [] then [] else c # sg @ takeWhile is_digit ds)
                    else []
                | [] \<Rightarrow> []);
          r3 = drop (length ep) r2
      in if ip = [] then None
         else if fp = [] \<and> ep = [] then
           Some (JInt (if sign = [] then int (nat_of_digits ip) else - int (nat_of_digits ip)), r3)
         else map_option (\<lambda>x. (JFloat (sign @ ip @ fp @ ep) x, r3)) (float_of_str (sign @ ip @ fp @ ep)))"

section \<open>Values\<close>

fun p_value :: "nat \<Rightarrow> string \<Rightarrow> (json \<times> string) option"
  and p_items :: "nat \<Rightarrow> string \<Rightarrow> (json list \<times> string) option"
  and p_members :: "nat \<Rightarrow> string \<Rightarrow> ((string \<times> json) list \<times> string) option" where
  "p_value 0 s = None"
| "p_value (Suc k) s =
     (case s of
        [] \<Rightarrow> None
      | c # r \<Rightarrow>
          if c = CHR 0x22 then map_option (\<lambda>(t, r2). (JStr t, r2)) (scan_string (length s) r)
          else if c = CHR 0x7B then
            (case skip_ws r of
               [] \<Rightarrow> None
             | d # r2 \<Rightarrow> if d = CHR 0x7D then Some (JObj [], r2)
                         else map_option (\<lambda>(ms, r3). (JObj (dict_of ms), r3)) (p_members k (d # r2)))
          else if c = CHR 0x5B then
            (case skip_ws r of
               [] \<Rightarrow> None
             | d # r2 \<Rightarrow> if d = CHR 0x5D then Some (JList [], r2)
                         else map_option (\<lambda>(xs, r3). (JList xs, r3)) (p_items k (d # r2)))
          else if startswith s ''null'' then Some (JNull, drop 4 s)
          else if startswith s ''true'' then Some (JBool True, drop 4 s)
          else if startswith s ''false'' then Some (JBool False, drop 5 s)
          else scan_number s)"
| "p_items 0 s = None"
| "p_items (Suc k) s =
     (case p_value k s of
        None \<Rightarrow> None
      | Some (v, r) \<Rightarrow>
          (case skip_ws r of
             c # r2 \<Rightarrow>
               if c = CHR 0x5D then Some ([v], r2)
               else if c = CHR '','' then map_option (\<lambda>(vs, r3). (v # vs, r3)) (p_items k (skip_ws r2))
               else None
           | [] \<Rightarrow> None))"
| "p_members 0 s = None"
| "p_members (Suc k) s =
     (case s of
        q # s1 \<Rightarrow>
          if q \<noteq> CHR 0x22 then None
          else (case scan_string (length s) s1 of
             None \<Rightarrow> None
           | Some (key, r) \<Rightarrow>
               (case skip_ws r of
                  c # r2 \<Rightarrow>
                    if c \<noteq> CHR '':'' then None
                    else (case p_value k (skip_ws r2) of
                       None \<Rightarrow> None
                     | Some (v, r3) \<Rightarrow>
                         (case skip_ws r3 of
                            d # r4 \<Rightarrow>
                              if d = CHR 0x7D then Some ([(key, v)], r4)
                              else if d = CHR '','' then
                                map_option (\<lambda>(ms, r5). ((key, v) # ms, r5)) (p_members k (skip_ws r4))
                              else None
                          | [] \<Rightarrow> None))
                | [] \<Rightarrow> None))
      | [] \<Rightarrow> None)"

definition json_loads :: "string \<Rightarrow> py_error + json" where
  "json_loads s =
     (case p_value (2 * length s + 2) (skip_ws s) of
        Some (v, r) \<Rightarrow> if skip_ws r = [] then Inr v else Inl ValueError
      | None \<Rightarrow> Inl ValueError)"

definition json_loads_value :: "json \<Rightarrow> py_error + json" where
  \<comment> \<open>\<^verbatim>\<open>json.loads(x)\<close> of any value: only text can be loaded\<close>
  "json_loads_value j = (case j of JStr s \<Rightarrow> json_loads s | _ \<Rightarrow> Inl TypeError)"

end
