(* ===== verification/RlSnapshot.thy ===== *)
theory RlSnapshot
  imports PyJson PyLoads
begin

text \<open>
  The view of the cluster the learned scheduler is fed with
  (\<^verbatim>\<open>services/rl_scheduler/snapshot_agent.py\<close>): the tolerant readers of slurmrestd's fields, the view of
  a pending job and of a GPU node, the snapshot and one round of the agent. The dicts the agent
  posts have fixed keys and are records here. Tokens and HTTP are the parameters of \<open>run_once\<close>.
\<close>

section \<open>Readers\<close>

definition state_tokens :: "json \<Rightarrow> string list" where
  "state_tokens raw =
     (case raw of
        JList xs \<Rightarrow> map (\<lambda>x. str_upper (py_str x)) xs
      | _ \<Rightarrow> map str_upper (str_words (str_replace_char (CHR '','') '' '' (py_str (j_or raw (JStr []))))))"

definition number :: "json \<Rightarrow> real \<Rightarrow> real" where
  "number v d =
     (case v of
        JObj o1 \<Rightarrow> (case map_of o1 ''number'' of None \<Rightarrow> d | Some w \<Rightarrow> res_else (py_float w) d)
      | _ \<Rightarrow> res_else (py_float v) d)"

definition py_trunc :: "real \<Rightarrow> int" where
  \<comment> \<open>\<^verbatim>\<open>int\<close> of a float\<close>
  "py_trunc x = (if x < 0 then \<lceil>x\<rceil> else \<lfloor>x\<rfloor>)"

text \<open>The three patterns of \<^verbatim>\<open>_parse_tres_int\<close>, on text in lower case: \<^verbatim>\<open>name=(\d+)\<close>,
  \<^verbatim>\<open>name:(?:[^,:]+:)?(\d+)\<close> and \<^verbatim>\<open>gres/name=(\d+)\<close>. The optional part of the second cannot hold a
  colon, so only its longest run can be followed by one.\<close>

definition match_after :: "string \<Rightarrow> string \<Rightarrow> nat option" where
  "match_after p s = (if startswith s p then match_digits (drop (length p) s) else None)"

definition match_typed :: "string \<Rightarrow> string \<Rightarrow> nat option" where
  "match_typed p s =
     (if startswith s p then
        (let r = drop (length p) s;
             typ = takeWhile (\<lambda>c. c \<noteq> CHR '','' \<and> c \<noteq> CHR '':'') r;
             rest = dropWhile (\<lambda>c. c \<noteq> CHR '','' \<and> c \<noteq> CHR '':'') r;
             typed = (if typ = [] then None else
                        (case rest of c # t \<Rightarrow> if c = CHR '':'' then match_digits t else None | [] \<Rightarrow> None))
         in case typed of Some n \<Rightarrow> Some n | None \<Rightarrow> match_digits r)
      else None)"

definition tres_patterns :: "string \<Rightarrow> (string \<Rightarrow> nat option) list" where
  "tres_patterns name =
     [search_field (match_after (name @ ''='')), search_field (match_typed (name @ '':'')),
      search_field (match_after (''gres/'' @ name @ ''=''))]"

fun first_match :: "(string \<Rightarrow> nat option) list \<Rightarrow> string \<Rightarrow> nat option" where
  "first_match [] s = None"
| "first_match (p # ps) s = (case p s of Some n \<Rightarrow> Some n | None \<Rightarrow> first_match ps s)"

definition parse_tres_int :: "string \<Rightarrow> string list \<Rightarrow> int \<Rightarrow> int" where
  "parse_tres_int t names d =
     (if t = [] then d
      else case first_match (concat (map tres_patterns names)) (str_lower t) of
             Some n \<Rightarrow> int n | None \<Rightarrow> d)"

definition or_int :: "int \<Rightarrow> int \<Rightarrow> int" where
  \<comment> \<open>\<^verbatim>\<open>a or b\<close> of two ints\<close>
  "or_int a b = (if a = 0 then b else a)"

definition GPU_TEXTS :: "string list" where
  "GPU_TEXTS = [''rtx4070'', ''rtx3080'', ''generic'']"

definition gpu_type_from_text :: "string \<Rightarrow> string" where
  "gpu_type_from_text t =
     (case List.find (\<lambda>g. str_contains g (str_lower t)) GPU_TEXTS of Some g \<Rightarrow> g | None \<Rightarrow> ''rtx4070'')"

definition tres_text :: "jobj \<Rightarrow> string" where
  \<comment> \<open>\<^verbatim>\<open>",".join(str(item.get(k, "") or "") for k in (...))\<close>, with the keys of both callers\<close>
  "tres_text item =
     str_join '','' (map (\<lambda>k. py_str (j_or (j_get item k (JStr [])) (JStr [])))
       [''tres_req_str'', ''tres_per_node'', ''gres''])"

definition str_or_empty :: "json \<Rightarrow> string" where
  \<comment> \<open>\<^verbatim>\<open>str(x or "")\<close>\<close>
  "str_or_empty j = py_str (j_or j (JStr []))"

section \<open>Jobs\<close>

record snap_job =
  sj_job_id :: string
  sj_mps_req :: int
  sj_gpu_count :: int
  sj_gpu_type :: string
  sj_runtime :: real
  sj_submit_ts :: real
  sj_can_fit :: bool

definition gpu_count_of :: "string \<Rightarrow> jobj \<Rightarrow> int" where
  "gpu_count_of tres item =
     or_int (or_int (parse_tres_int tres [''gpu''] 0) (py_trunc (number (j_get item ''gpus_total'' JNull) 1))) 1"

definition snap_job_view :: "real \<Rightarrow> real \<Rightarrow> int \<Rightarrow> jobj \<Rightarrow> snap_job option" where
  "snap_job_view now default_runtime default_mps item =
     (if ''PENDING'' \<notin> set (state_tokens (j_get item ''job_state'' JNull)) then None
      else
        (let tres = tres_text item;
             r0 = number (j_get item ''time_limit'' JNull) 0 * 60
         in Some \<lparr>sj_job_id = py_str (j_get item ''job_id'' (JStr [])),
              sj_mps_req = or_int (parse_tres_int tres [''mps''] 0) default_mps,
              sj_gpu_count = gpu_count_of tres item,
              sj_gpu_type = gpu_type_from_text tres,
              sj_runtime = (if r0 \<le> 0 then default_runtime else r0),
              sj_submit_ts = number (j_get item ''submit_time'' JNull) now,
              sj_can_fit = True\<rparr>))"

section \<open>Nodes\<close>

record snap_gpu =
  sg_free_mps :: int
  sg_running_jobs :: int
  sg_gpu_type :: string

type_synonym snap_node = "snap_gpu list"

definition node_text_name :: "jobj \<Rightarrow> string" where
  "node_text_name node =
     str_or_empty (j_or (j_or (j_get node ''name'' JNull) (j_get node ''node_name'' JNull))
       (j_get node ''hostname'' JNull))"

definition node_tokens :: "jobj \<Rightarrow> string list" where
  "node_tokens node = state_tokens (j_or (j_get node ''state'' JNull) (j_get node ''state_flags'' JNull))"

definition tres_value :: "json \<Rightarrow> json" where
  "tres_value v =
     (case v of
        JObj o1 \<Rightarrow> JStr (str_join '','' (map (\<lambda>(k, w). k @ ''='' @ py_str w) o1))
      | JList xs \<Rightarrow> JStr (str_join '','' (map py_str xs))
      | _ \<Rightarrow> v)"

definition node_tres_text :: "jobj \<Rightarrow> string list \<Rightarrow> string" where
  "node_tres_text node keys =
     str_join '','' (map py_str (filter truthy (map (\<lambda>k. tres_value (j_get node k JNull)) keys)))"

definition mentions_gpu :: "string \<Rightarrow> bool" where
  \<comment> \<open>\<^verbatim>\<open>re.search(r"(gpu|mps)", text, re.IGNORECASE)\<close>; the alternative \<^verbatim>\<open>gres/mps\<close> is subsumed\<close>
  "mentions_gpu t \<longleftrightarrow> str_contains ''gpu'' (str_lower t) \<or> str_contains ''mps'' (str_lower t)"

definition down_states :: "string list" where
  "down_states = [''DOWN'', ''DRAIN'', ''NOT_RESPONDING'', ''FAIL'']"

definition busy_tokens :: "string list" where
  "busy_tokens = [''ALLOCATED'', ''MIXED'', ''COMPLETING'']"

definition has_token :: "string list \<Rightarrow> string list \<Rightarrow> bool" where
  "has_token states toks \<longleftrightarrow> list_ex (\<lambda>t. t \<in> set states) toks"

definition snap_node_view :: "int \<Rightarrow> int \<Rightarrow> jobj \<Rightarrow> snap_node option" where
  "snap_node_view mps_cap default_gpus node =
     (let states = node_tokens node;
          cfg = node_tres_text node [''tres'', ''cfg_tres'', ''gres'', ''gres_detail'', ''features'',
                  ''active_features'', ''available_features'']
      in if has_token states down_states then None
         else if \<not> mentions_gpu (cfg @ '','' @ node_text_name node) then None
         else
           (let alloc = node_tres_text node [''alloc_tres'', ''alloc_gres'', ''tres_used''];
                parsed = or_int (parse_tres_int cfg [''gpu''] 0) default_gpus;
                gpu_n = min (max 1 parsed) (max 1 default_gpus);
                total_mps = or_int (parse_tres_int cfg [''mps''] 0) (parsed * mps_cap);
                alloc_mps = parse_tres_int alloc [''mps''] 0;
                free_total = max 0 (total_mps - alloc_mps);
                per_gpu = max 0 (min mps_cap (free_total div max 1 gpu_n))
            in Some (replicate (nat (max 1 gpu_n))
                 \<lparr>sg_free_mps = per_gpu, sg_running_jobs = (if has_token states busy_tokens then 1 else 0),
                  sg_gpu_type = gpu_type_from_text (if cfg \<noteq> [] then cfg else node_text_name node)\<rparr>)))"

section \<open>The snapshot\<close>

record snap_doc =
  sd_ts :: real
  sd_now :: real
  sd_pending_jobs :: "snap_job list"
  sd_nodes :: "snap_node list"
  sd_n_nodes :: nat
  sd_gpus_per_node :: int
  sd_mps_per_gpu :: int

definition doc_items :: "jobj \<Rightarrow> string \<Rightarrow> py_error + jobj list" where
  \<comment> \<open>iterating over \<^verbatim>\<open>doc.get(key, [])\<close> and using each element as an object\<close>
  "doc_items doc key = res_bind (as_list (j_get doc key (JList []))) (res_map as_obj)"

definition build_snapshot :: "real \<Rightarrow> int \<Rightarrow> int \<Rightarrow> real \<Rightarrow> jobj \<Rightarrow> jobj \<Rightarrow> py_error + snap_doc" where
  "build_snapshot now mps_cap default_gpus default_runtime jobs_doc nodes_doc =
     res_bind (doc_items jobs_doc ''jobs'') (\<lambda>js.
     res_bind (doc_items nodes_doc ''nodes'') (\<lambda>ns.
       let nodes = List.map_filter (snap_node_view mps_cap default_gpus) ns in
       Inr \<lparr>sd_ts = now, sd_now = now,
         sd_pending_jobs = List.map_filter (snap_job_view now default_runtime mps_cap) js,
         sd_nodes = nodes, sd_n_nodes = length nodes,
         sd_gpus_per_node = (case map (\<lambda>n. int (length n)) nodes of [] \<Rightarrow> default_gpus | k # ks \<Rightarrow> foldl max k ks),
         sd_mps_per_gpu = mps_cap\<rparr>))"

text \<open>One round of the agent: two requests to slurmrestd and one post, each of which may raise.\<close>

definition run_once ::
  "py_error + jobj \<Rightarrow> py_error + jobj \<Rightarrow> (snap_doc \<Rightarrow> py_error + unit) \<Rightarrow> real \<Rightarrow> int \<Rightarrow> int \<Rightarrow> real \<Rightarrow>
   py_error + snap_doc" where
  "run_once jobs_answer nodes_answer post_snapshot now mps_cap default_gpus default_runtime =
     res_bind jobs_answer (\<lambda>jobs.
     res_bind nodes_answer (\<lambda>nodes.
     res_bind (build_snapshot now mps_cap default_gpus default_runtime jobs nodes) (\<lambda>snap.
     res_bind (post_snapshot snap) (\<lambda>_. Inr snap))))"

section \<open>Facts\<close>

lemma number_trunc_default: "number JNull d = d"
  by (simp add: number_def py_float_def res_else_def)

text \<open>What a snapshot offers per GPU is between nothing and one GPU's slots, and a node in one of the
  unavailable states is not in it.\<close>

lemma snap_node_bounds:
  assumes "snap_node_view cap k node = Some gs" "0 \<le> cap" "g \<in> set gs"
  shows "0 \<le> sg_free_mps g \<and> sg_free_mps g \<le> cap" "int (length gs) \<le> max 1 k"
    "\<not> has_token (node_tokens node) down_states"
proof -
  obtain avail r ty parsed where gs: "gs = replicate (nat (max 1 (min (max 1 parsed) (max 1 k))))
      \<lparr>sg_free_mps = max 0 (min cap avail), sg_running_jobs = r, sg_gpu_type = ty\<rparr>"
    and up: "\<not> has_token (node_tokens node) down_states"
    using assms(1) unfolding snap_node_view_def Let_def by (metis (lifting) option.distinct(1) option.inject)
  from gs assms(2,3) show "0 \<le> sg_free_mps g \<and> sg_free_mps g \<le> cap"
    by (metis in_set_replicate max.cobounded1 max.bounded_iff min.cobounded1 snap_gpu.select_convs(1))
  from gs show "int (length gs) \<le> max 1 k"
    by (simp del: max.absorb1 max.absorb2)
  from up show "\<not> has_token (node_tokens node) down_states" .
qed

lemma snapshot_nodes:
  assumes "build_snapshot now cap k dr jd nd = Inr sn" "0 \<le> cap" "n \<in> set (sd_nodes sn)" "g \<in> set n"
  shows "0 \<le> sg_free_mps g \<and> sg_free_mps g \<le> cap"
  using assms snap_node_bounds(1)
  by (fastforce simp: build_snapshot_def res_bind_Inr Let_def map_filter_def)

lemma snapshot_pending:
  assumes "build_snapshot now cap k dr jd nd = Inr sn" "j \<in> set (sd_pending_jobs sn)" "0 < dr"
  shows "0 < sj_runtime j"
  using assms
  by (auto simp: build_snapshot_def res_bind_Inr Let_def map_filter_def snap_job_view_def split: if_splits)

end
