(* ===== verification/SimTrace.thy ===== *)
theory SimTrace
  imports SimLoader RlSnapshot
begin

text \<open>
  Traces of the live cluster (\<^verbatim>\<open>sim/live_trace.py\<close>): the text \<^verbatim>\<open>sacct\<close> prints, read with the state
  machine of Python's \<^verbatim>\<open>csv\<close> module and \<^verbatim>\<open>DictReader\<close>'s pairing with the header, becomes a list of
  normalized jobs with a count of what was skipped and why. The fixed keys of the emitted dicts are
  a record; \<open>live_json\<close> is the dict that is written.
\<close>

section \<open>Delimited text\<close>

text \<open>The reader of \<^verbatim>\<open>csv\<close> with delimiter bar, double quotes and no strictness. \<open>f\<close> is the field
  being read, \<open>r\<close> the record; a record ends at a newline outside quotes and at the end of the text.\<close>

datatype csv_state = StartRecord | StartField | InField | InQuoted | QuoteInQuoted

abbreviation bar :: char where "bar \<equiv> CHR ''|''"
abbreviation newline :: char where "newline \<equiv> CHR 0x0A"
abbreviation dquote :: char where "dquote \<equiv> CHR 0x22"

fun csv_scan :: "csv_state \<Rightarrow> string \<Rightarrow> string list \<Rightarrow> string \<Rightarrow> string list list" where
  "csv_scan st f r [] = (if st = StartRecord then [] else [r @ [f]])"
| "csv_scan StartRecord f r (c # cs) =
     (if c = newline then csv_scan StartRecord [] [] cs
      else if c = dquote then csv_scan InQuoted [] [] cs
      else if c = bar then csv_scan StartField [] [[]] cs
      else csv_scan InField [c] [] cs)"
| "csv_scan StartField f r (c # cs) =
     (if c = newline then (r @ [f]) # csv_scan StartRecord [] [] cs
      else if c = dquote then csv_scan InQuoted f r cs
      else if c = bar then csv_scan StartField [] (r @ [f]) cs
      else csv_scan InField (f @ [c]) r cs)"
| "csv_scan InField f r (c # cs) =
     (if c = newline then (r @ [f]) # csv_scan StartRecord [] [] cs
      else if c = bar then csv_scan StartField [] (r @ [f]) cs
      else csv_scan InField (f @ [c]) r cs)"
| "csv_scan InQuoted f r (c # cs) =
     (if c = dquote then csv_scan QuoteInQuoted f r cs else csv_scan InQuoted (f @ [c]) r cs)"
| "csv_scan QuoteInQuoted f r (c # cs) =
     (if c = dquote then csv_scan InQuoted (f @ [c]) r cs
      else if c = bar then csv_scan StartField [] (r @ [f]) cs
      else if c = newline then (r @ [f]) # csv_scan StartRecord [] [] cs
      else csv_scan InField (f @ [c]) r cs)"

text \<open>A row: the value of each header field, \<^verbatim>\<open>None\<close> where the record is short, and whether the record
  is longer than the header (then the row has the key \<^verbatim>\<open>None\<close>).\<close>

record csv_row =
  cr_fields :: "(string, string option) dict"
  cr_extra :: bool

definition csv_row_of :: "string list \<Rightarrow> string list \<Rightarrow> csv_row" where
  "csv_row_of header r =
     \<lparr>cr_fields = dict_of (zip header (map Some r) @ map (\<lambda>k. (k, None)) (drop (length r) header)),
      cr_extra = (length header < length r)\<rparr>"

definition rows_from_sacct :: "string \<Rightarrow> csv_row list" where
  "rows_from_sacct t =
     (case csv_scan StartRecord [] [] (str_join [newline] (nonblank_lines t)) of
        [] \<Rightarrow> []
      | header # rs \<Rightarrow> map (csv_row_of header) rs)"

fun pick_name ::
  "(string, string option) dict \<Rightarrow> (string, string option) dict \<Rightarrow> string list \<Rightarrow> string" where
  "pick_name row lowered [] = []"
| "pick_name row lowered (n # ns) =
     (case map_of row n of
        Some (Some (c # v)) \<Rightarrow> c # v
      | _ \<Rightarrow> (case map_of lowered (str_lower n) of
               Some (Some (c # v)) \<Rightarrow> c # v
             | _ \<Rightarrow> pick_name row lowered ns))"

definition row_get :: "csv_row \<Rightarrow> string list \<Rightarrow> py_error + string" where
  \<comment> \<open>\<^verbatim>\<open>_get\<close>; the key \<^verbatim>\<open>None\<close> of an overlong row has no \<^verbatim>\<open>lower\<close>\<close>
  "row_get row names =
     (if cr_extra row then Inl AttributeError
      else Inr (pick_name (cr_fields row)
             (dict_of (map (\<lambda>(k, v). (str_lower k, v)) (cr_fields row))) names))"

section \<open>Fields\<close>

definition unknown_value :: "string \<Rightarrow> bool" where
  "unknown_value v \<longleftrightarrow> v \<in> {[], ''Unknown'', ''None'', ''N/A''}"

definition parse_slurm_time :: "clock_parsers \<Rightarrow> string \<Rightarrow> real option" where
  "parse_slurm_time cp value0 =
     (let v = str_strip value0 in
      if unknown_value v then None
      else (case cp_iso cp v of
              Some x \<Rightarrow> Some x
            | None \<Rightarrow> (case cp_strp_t cp v of Some x \<Rightarrow> Some x | None \<Rightarrow> cp_strp cp v)))"

definition int_part :: "string \<Rightarrow> int option" where
  \<comment> \<open>\<^verbatim>\<open>int(float(x))\<close>\<close>
  "int_part s = map_option py_trunc (float_of_str s)"

definition clock_parts :: "string list \<Rightarrow> int option" where
  "clock_parts parts =
     (case parts of
        [h, m, s] \<Rightarrow>
          (case (int_part h, int_part m, int_part s) of
             (Some h', Some m', Some s') \<Rightarrow> Some (h' * 3600 + m' * 60 + s')
           | _ \<Rightarrow> None)
      | [m, s] \<Rightarrow>
          (case (int_part m, int_part s) of (Some m', Some s') \<Rightarrow> Some (m' * 60 + s') | _ \<Rightarrow> None)
      | _ \<Rightarrow> None)"

definition parse_elapsed_seconds :: "string \<Rightarrow> real option" where
  "parse_elapsed_seconds value0 =
     (let v = str_strip value0 in
      if unknown_value v then None
      else if list_all is_digit v then Some (of_nat (nat_of_digits v))
      else
        (let (days, rest) =
           (case str_partition (CHR ''-'') v of
              (left, True, right) \<Rightarrow>
                (if left \<noteq> [] \<and> list_all is_digit left then int (nat_of_digits left) else 0, right)
            | (left, False, _) \<Rightarrow> (0, left))
         in map_option (\<lambda>k. of_int (days * 86400 + k)) (clock_parts (str_split (CHR '':'') rest))))"

definition trace_tres_int :: "string \<Rightarrow> string list \<Rightarrow> int" where
  "trace_tres_int t names = parse_tres_int t names 0"

definition infer_gpu_type :: "string list \<Rightarrow> string" where
  "infer_gpu_type texts =
     (case List.find (\<lambda>g. str_contains g (str_lower (str_join '' '' texts))) [''rtx4070'', ''rtx3080''] of
        Some g \<Rightarrow> g | None \<Rightarrow> ''rtx4070'')"

definition is_step :: "string \<Rightarrow> bool" where
  "is_step jid \<longleftrightarrow> CHR ''.'' \<in> set jid"

definition TERMINAL_OK :: "string list" where
  "TERMINAL_OK = [''COMPLETED'', ''CANCELLED'', ''FAILED'', ''TIMEOUT'', ''NODE_FAIL'', ''OUT_OF_MEMORY'', ''PREEMPTED'']"

definition state_ok :: "string \<Rightarrow> bool" where
  "state_ok state \<longleftrightarrow> list_ex (startswith (str_upper state)) TERMINAL_OK"

definition classify_latency :: "string \<Rightarrow> string \<Rightarrow> string \<Rightarrow> string" where
  "classify_latency part node_list state =
     (if str_contains ''held'' (str_lower state) \<or> str_contains ''hold'' (str_lower state) then ''hard_placement''
      else if str_contains ''gpu'' (str_lower part) \<or> str_contains ''gpu'' (str_lower node_list) then ''gpu_warm''
      else ''cpu_warm'')"

section \<open>Conversion\<close>

record trace_job =
  lj_id :: string
  lj_user :: string
  lj_gpu_count :: int
  lj_gpu_type :: string
  lj_submit :: real
  lj_runtime :: real
  lj_mem :: real
  lj_mps :: int
  lj_start :: real
  lj_end :: "real option"
  lj_wait :: real
  lj_state :: string
  lj_partition :: string
  lj_nodes :: string
  lj_alloc :: string
  lj_req :: string
  lj_latency :: string

record trace_stats =
  ts_raw :: nat
  ts_emitted :: nat
  ts_steps :: nat
  ts_cpu :: nat
  ts_state :: nat
  ts_time :: nat

datatype row_result = Emit trace_job | SkipStep | SkipCpu | SkipState | SkipTime

definition row_tres :: "csv_row \<Rightarrow> py_error + string" where
  "row_tres row =
     res_bind (res_map (row_get row)
       [[''AllocTRES'', ''AllocTres''], [''ReqTRES'', ''ReqTres''], [''TRESReq'', ''TresReq''],
        [''TRES_PER_NODE'', ''TresPerNode'']]) (\<lambda>xs.
       Inr (str_join '','' (filter (\<lambda>x. x \<noteq> []) xs)))"

definition live_runtime :: "real \<Rightarrow> real \<Rightarrow> real option \<Rightarrow> real option \<Rightarrow> real" where
  "live_runtime min_runtime start fin elapsed =
     max min_runtime
       (case fin of
          Some e \<Rightarrow> if start \<le> e then e - start else (case elapsed of None \<Rightarrow> 0 | Some x \<Rightarrow> x)
        | None \<Rightarrow> (case elapsed of None \<Rightarrow> 0 | Some x \<Rightarrow> x))"

definition emit_row ::
  "bool \<Rightarrow> real \<Rightarrow> csv_row \<Rightarrow> string \<Rightarrow> string \<Rightarrow> real \<Rightarrow> real \<Rightarrow> real option \<Rightarrow> real option \<Rightarrow> py_error + row_result" where
  "emit_row include_cpu min_runtime row jid state sub start fin elapsed =
     res_bind (row_tres row) (\<lambda>tres.
       (let mps0 = trace_tres_int tres [''mps''];
            gpu0 = trace_tres_int tres [''gpu''];
            gpu1 = (if gpu0 \<le> 0 \<and> 0 < mps0 then 1 else gpu0)
        in if gpu1 \<le> 0 \<and> \<not> include_cpu then Inr SkipCpu
           else
             res_bind (row_get row [''Partition'']) (\<lambda>part.
             res_bind (row_get row [''NodeList'', ''Nodelist'']) (\<lambda>node_list.
             res_bind (row_get row [''User'']) (\<lambda>u.
             res_bind (row_get row [''JobName'']) (\<lambda>name.
             res_bind (row_get row [''AllocTRES'', ''AllocTres'']) (\<lambda>alloc.
             res_bind (row_get row [''ReqTRES'', ''ReqTres'', ''TRESReq'', ''TresReq'']) (\<lambda>req.
               Inr (Emit \<lparr>lj_id = jid, lj_user = (if u = [] then ''live'' else u),
                 lj_gpu_count = (if gpu1 \<le> 0 then 1 else gpu1),
                 lj_gpu_type = infer_gpu_type [part, node_list, tres, name], lj_submit = sub,
                 lj_runtime = live_runtime min_runtime start fin elapsed,
                 lj_mem = of_int (trace_tres_int tres [''mem'']),
                 lj_mps = (if mps0 \<le> 0 then MPS_PER_GPU else mps0), lj_start = start, lj_end = fin,
                 lj_wait = max 0 (start - sub), lj_state = state, lj_partition = part, lj_nodes = node_list,
                 lj_alloc = alloc, lj_req = req, lj_latency = classify_latency part node_list state\<rparr>)))))))))"

definition convert_row :: "clock_parsers \<Rightarrow> bool \<Rightarrow> real \<Rightarrow> csv_row \<Rightarrow> py_error + row_result" where
  "convert_row cp include_cpu min_runtime row =
     res_bind (row_get row [''JobIDRaw'', ''JobID'', ''JobId'']) (\<lambda>jid.
       if jid = [] \<or> is_step jid then Inr SkipStep
       else
         res_bind (row_get row [''State'']) (\<lambda>state.
           if \<not> state_ok state then Inr SkipState
           else
             res_bind (row_get row [''Submit'']) (\<lambda>sub0.
             res_bind (row_get row [''Start'']) (\<lambda>start0.
             res_bind (row_get row [''End'']) (\<lambda>end0.
             res_bind (row_get row [''ElapsedRaw'', ''Elapsed'']) (\<lambda>el.
               case (parse_slurm_time cp sub0, parse_slurm_time cp start0) of
                 (Some sub, Some start) \<Rightarrow>
                   emit_row include_cpu min_runtime row jid state sub start (parse_slurm_time cp end0)
                     (parse_elapsed_seconds el)
               | _ \<Rightarrow> Inr SkipTime))))))"

fun emitted :: "row_result list \<Rightarrow> trace_job list" where
  "emitted [] = []"
| "emitted (Emit j # rs) = j # emitted rs"
| "emitted (_ # rs) = emitted rs"

definition shift_job :: "real \<Rightarrow> trace_job \<Rightarrow> trace_job" where
  "shift_job t0 j =
     j\<lparr>lj_submit := lj_submit j - t0, lj_start := lj_start j - t0, lj_end := map_option (\<lambda>e. e - t0) (lj_end j)\<rparr>"

definition relative_jobs :: "bool \<Rightarrow> trace_job list \<Rightarrow> trace_job list" where
  "relative_jobs relative jobs =
     (case jobs of
        [] \<Rightarrow> []
      | j # js \<Rightarrow>
          if relative then map (shift_job (foldl min (lj_submit j) (map lj_submit js))) jobs else jobs)"

definition sacct_to_normalized ::
  "clock_parsers \<Rightarrow> bool \<Rightarrow> bool \<Rightarrow> real \<Rightarrow> string \<Rightarrow> py_error + trace_job list \<times> trace_stats" where
  "sacct_to_normalized cp include_cpu relative min_runtime t =
     (let rows = rows_from_sacct t in
      res_bind (res_map (convert_row cp include_cpu min_runtime) rows) (\<lambda>rs.
        (let jobs = sort_key (\<lambda>j. (lj_submit j, lj_id j)) (relative_jobs relative (emitted rs)) in
         Inr (jobs,
           \<lparr>ts_raw = length rows, ts_emitted = length jobs,
            ts_steps = length (filter (\<lambda>r. r = SkipStep) rs), ts_cpu = length (filter (\<lambda>r. r = SkipCpu) rs),
            ts_state = length (filter (\<lambda>r. r = SkipState) rs), ts_time = length (filter (\<lambda>r. r = SkipTime) rs)\<rparr>))))"

section \<open>The written trace\<close>

definition live_json :: "(real \<Rightarrow> string) \<Rightarrow> trace_job \<Rightarrow> jobj" where
  "live_json shown j =
     (let fl = (\<lambda>x. JFloat (shown x) x) in
      [(''job_id'', JStr (lj_id j)), (''user'', JStr (lj_user j)), (''gpu_count'', JInt (lj_gpu_count j)),
       (''gpu_type'', JStr (lj_gpu_type j)), (''submit_ts'', fl (lj_submit j)), (''runtime'', fl (lj_runtime j)),
       (''mem_req'', fl (lj_mem j)), (''mps_req'', JInt (lj_mps j)), (''live_start_ts'', fl (lj_start j)),
       (''live_end_ts'', case lj_end j of None \<Rightarrow> JNull | Some e \<Rightarrow> fl e), (''live_wait'', fl (lj_wait j)),
       (''live_state'', JStr (lj_state j)), (''partition'', JStr (lj_partition j)),
       (''node_list'', JStr (lj_nodes j)), (''alloc_tres'', JStr (lj_alloc j)), (''req_tres'', JStr (lj_req j)),
       (''latency_class'', JStr (lj_latency j))])"

definition write_trace :: "(real \<Rightarrow> string) \<Rightarrow> trace_job list \<Rightarrow> json" where
  "write_trace shown jobs = JList (map (\<lambda>j. JObj (live_json shown j)) jobs)"

end
