(* ===== verification/SimTraceFacts.thy ===== *)
theory SimTraceFacts
  imports SimTrace SimLoaderFacts
begin

text \<open>
  What the conversion of \<^verbatim>\<open>sacct\<close> output guarantees: every row is accounted for, the emitted jobs are
  ordered and well formed, time starts at the first submission, and the simulator's loader reads
  the written trace back.
\<close>

section \<open>Accounting\<close>

lemma emitted_count:
  "length rs = length (emitted rs) + length (filter (\<lambda>r. r = SkipStep) rs) + length (filter (\<lambda>r. r = SkipCpu) rs) +
     length (filter (\<lambda>r. r = SkipState) rs) + length (filter (\<lambda>r. r = SkipTime) rs)"
  by (induction rs rule: emitted.induct) simp_all

lemma emitted_mem: "j \<in> set (emitted rs) \<longleftrightarrow> Emit j \<in> set rs"
  by (induction rs rule: emitted.induct) auto

lemma length_relative: "length (relative_jobs b js) = length js"
  by (cases js) (simp_all add: relative_jobs_def)

section \<open>Emitted jobs\<close>

definition live_ok :: "real \<Rightarrow> trace_job \<Rightarrow> bool" where
  "live_ok min_runtime j \<longleftrightarrow>
     lj_id j \<noteq> [] \<and> \<not> is_step (lj_id j) \<and> state_ok (lj_state j) \<and> 1 \<le> lj_gpu_count j \<and> 0 < lj_mps j \<and>
     min_runtime \<le> lj_runtime j \<and> 0 \<le> lj_wait j"

lemma emit_row_ok:
  assumes "emit_row inc mr row jid state sub start fin el = Inr (Emit j)" "jid \<noteq> []" "\<not> is_step jid" "state_ok state"
  shows "live_ok mr j"
  using assms
  by (auto simp: emit_row_def res_bind_Inr Let_def live_ok_def live_runtime_def MPS_PER_GPU_def split: if_splits)

lemma convert_row_ok:
  assumes "convert_row cp inc mr row = Inr (Emit j)"
  shows "live_ok mr j"
  using assms
  by (auto simp: convert_row_def res_bind_Inr split: if_splits option.splits intro: emit_row_ok)

lemma live_ok_shift: "live_ok mr (shift_job t0 j) = live_ok mr j"
  by (simp add: live_ok_def shift_job_def)

lemma relative_mem: "j \<in> set (relative_jobs b js) \<Longrightarrow> \<exists>k \<in> set js. j = k \<or> (\<exists>t0. j = shift_job t0 k)"
  by (cases js) (auto simp: relative_jobs_def split: if_splits)

section \<open>Relative time\<close>

lemma foldl_min: "foldl min a xs \<le> a \<and> (\<forall>x \<in> set xs. foldl min a xs \<le> x) \<and> foldl min a xs \<in> insert a (set xs)"
  for a :: "'a :: linorder"
proof (induction xs arbitrary: a)
  case Nil
  show ?case by simp
next
  case (Cons x xs)
  from Cons [of "min a x"] show ?case
    by (auto simp: min_def split: if_splits)
qed

lemma relative_submits:
  assumes "js \<noteq> []"
  shows "\<forall>j \<in> set (relative_jobs True js). 0 \<le> lj_submit j" "\<exists>j \<in> set (relative_jobs True js). lj_submit j = 0"
proof -
  obtain j0 rest where js: "js = j0 # rest"
    using assms by (cases js) auto
  let ?t = "foldl min (lj_submit j0) (map lj_submit rest)"
  have "?t \<le> lj_submit j" if "j \<in> set js" for j
    using foldl_min [of "lj_submit j0" "map lj_submit rest"] that js by auto
  then show "\<forall>j \<in> set (relative_jobs True js). 0 \<le> lj_submit j"
    by (auto simp: relative_jobs_def js shift_job_def)
  have "?t \<in> lj_submit ` set js"
    using foldl_min [of "lj_submit j0" "map lj_submit rest"] js by auto
  then obtain j where "j \<in> set js" "lj_submit j = ?t"
    by auto
  moreover have "relative_jobs True js = map (shift_job ?t) js"
    by (simp add: relative_jobs_def js)
  moreover have "lj_submit (shift_job ?t j) = 0"
    by (simp add: shift_job_def \<open>lj_submit j = ?t\<close>)
  ultimately have "shift_job ?t j \<in> set (relative_jobs True js)" "lj_submit (shift_job ?t j) = 0"
    by (metis imageI list.set_map \<open>j \<in> set js\<close>, blast)
  then show "\<exists>j \<in> set (relative_jobs True js). lj_submit j = 0"
    by blast
qed

lemma hd_sort_key_min: "xs \<noteq> [] \<Longrightarrow> x \<in> set xs \<Longrightarrow> f (hd (sort_key f xs)) \<le> f x"
proof -
  assume "xs \<noteq> []" "x \<in> set xs"
  then obtain y ys where s: "sort_key f xs = y # ys"
    by (metis list.exhaust list.set(1) set_empty set_sort)
  have "sorted (map f (y # ys))"
    by (metis s sorted_sort_key)
  moreover have "x \<in> set (y # ys)"
    using \<open>x \<in> set xs\<close> by (metis s set_sort)
  ultimately show ?thesis
    by (auto simp: s)
qed

section \<open>The converted trace\<close>

lemma sacct_counts:
  assumes "sacct_to_normalized cp inc rel mr t = Inr (jobs, st)"
  shows "ts_raw st = ts_emitted st + ts_steps st + ts_cpu st + ts_state st + ts_time st"
    "ts_raw st = length (rows_from_sacct t)" "ts_emitted st = length jobs"
proof -
  obtain rs where rs: "res_map (convert_row cp inc mr) (rows_from_sacct t) = Inr rs"
    using assms by (auto simp: sacct_to_normalized_def res_bind_Inr Let_def)
  then have "length rs = length (rows_from_sacct t)"
    by (rule res_map_length)
  then show "ts_raw st = ts_emitted st + ts_steps st + ts_cpu st + ts_state st + ts_time st"
    "ts_raw st = length (rows_from_sacct t)" "ts_emitted st = length jobs"
    using assms rs emitted_count [of rs]
    by (auto simp: sacct_to_normalized_def res_bind_Inr Let_def length_relative)
qed

lemma sacct_jobs:
  assumes "sacct_to_normalized cp inc rel mr t = Inr (jobs, st)"
  shows "sorted (map (\<lambda>j. (lj_submit j, lj_id j)) jobs)" "\<forall>j \<in> set jobs. live_ok mr j"
proof -
  obtain rs where rs: "res_map (convert_row cp inc mr) (rows_from_sacct t) = Inr rs"
    and jobs: "jobs = sort_key (\<lambda>j. (lj_submit j, lj_id j)) (relative_jobs rel (emitted rs))"
    using assms by (auto simp: sacct_to_normalized_def res_bind_Inr Let_def)
  show "sorted (map (\<lambda>j. (lj_submit j, lj_id j)) jobs)"
    by (simp add: jobs)
  have "live_ok mr j" if "Emit j \<in> set rs" for j
    using res_map_set [OF rs that] convert_row_ok by blast
  then have "live_ok mr j" if "j \<in> set (relative_jobs rel (emitted rs))" for j
    using relative_mem [OF that] emitted_mem live_ok_shift by metis
  then show "\<forall>j \<in> set jobs. live_ok mr j"
    by (simp add: jobs)
qed

lemma sacct_from_zero:
  assumes "sacct_to_normalized cp inc True mr t = Inr (jobs, st)" "jobs \<noteq> []"
  shows "lj_submit (hd jobs) = 0"
proof -
  obtain js where jobs: "jobs = sort_key (\<lambda>j. (lj_submit j, lj_id j)) (relative_jobs True js)"
    using assms(1) by (auto simp: sacct_to_normalized_def res_bind_Inr Let_def)
  then have "js \<noteq> []"
    using assms(2) by (auto simp: relative_jobs_def)
  note rel = relative_submits [OF this]
  then obtain j where j: "j \<in> set (relative_jobs True js)" "lj_submit j = 0"
    by blast
  then have "relative_jobs True js \<noteq> []"
    by auto
  then have "(lj_submit (hd jobs), lj_id (hd jobs)) \<le> (lj_submit j, lj_id j)"
    using hd_sort_key_min [of "relative_jobs True js" j "\<lambda>j. (lj_submit j, lj_id j)"] j(1)
    unfolding jobs by blast
  then have "lj_submit (hd jobs) \<le> 0"
    using j(2) by (auto simp: less_eq_prod_def)
  moreover have "hd jobs \<in> set (relative_jobs True js)"
    using assms(2) by (metis jobs list.set_sel(1) set_sort)
  ultimately show ?thesis
    using rel(1) by force
qed

section \<open>Plain delimited text\<close>

definition plain_field :: "string \<Rightarrow> bool" where
  "plain_field x \<longleftrightarrow> bar \<notin> set x \<and> newline \<notin> set x \<and> dquote \<notin> set x"

lemma csv_field: "plain_field x \<Longrightarrow> csv_scan InField f r (x @ cs) = csv_scan InField (f @ x) r cs"
  by (induction x arbitrary: f) (auto simp: plain_field_def)

lemma csv_start:
  "plain_field x \<Longrightarrow> c \<in> {bar, newline} \<Longrightarrow> csv_scan StartField f r (x @ c # cs) = csv_scan InField (f @ x) r (c # cs)"
  using csv_field [of "tl x" "f @ [hd x]" r "c # cs"] by (cases x) (auto simp: plain_field_def)

lemma csv_last: "plain_field x \<Longrightarrow> csv_scan StartField f r x = [r @ [f @ x]]"
  using csv_field [of "tl x" "f @ [hd x]" r "[]"] by (cases x) (auto simp: plain_field_def)

lemma csv_record:
  "list_all plain_field (x # fs) \<Longrightarrow>
     csv_scan StartField [] r (str_join [bar] (x # fs) @ newline # cs) = (r @ x # fs) # csv_scan StartRecord [] [] cs"
proof (induction fs arbitrary: x r)
  case Nil
  then show ?case by (simp add: csv_start)
next
  case (Cons y fs)
  then show ?case using csv_start [of x bar "[]" r] by simp
qed

lemma csv_final:
  "list_all plain_field (x # fs) \<Longrightarrow> csv_scan StartField [] r (str_join [bar] (x # fs)) = [r @ x # fs]"
proof (induction fs arbitrary: x r)
  case Nil
  then show ?case by (simp add: csv_last)
next
  case (Cons y fs)
  then show ?case using csv_start [of x bar "[]" r] by simp
qed

lemma csv_record_start: "t \<noteq> [] \<Longrightarrow> hd t \<noteq> newline \<Longrightarrow> csv_scan StartRecord [] [] t = csv_scan StartField [] [] t"
  by (cases t) auto

definition plain_record :: "string list \<Rightarrow> bool" where
  "plain_record r \<longleftrightarrow> r \<noteq> [] \<and> r \<noteq> [[]] \<and> list_all plain_field r"

lemma join_head:
  assumes "plain_record r"
  shows "str_join [bar] r \<noteq> []" "hd (str_join [bar] r @ cs) \<noteq> newline"
proof -
  obtain x fs where r: "r = x # fs"
    using assms by (cases r) (auto simp: plain_record_def)
  then show "str_join [bar] r \<noteq> []" "hd (str_join [bar] r @ cs) \<noteq> newline"
    using assms by (cases fs; cases x; auto simp: plain_record_def plain_field_def)+
qed

lemma csv_of_plain:
  "list_all plain_record rs \<Longrightarrow>
     csv_scan StartRecord [] [] (str_join [newline] (map (str_join [bar]) rs)) = rs"
proof (induction rs)
  case Nil
  show ?case by simp
next
  case (Cons r rs)
  obtain x fs where r: "r = x # fs"
    using Cons.prems by (cases r) (auto simp: plain_record_def)
  then have plain: "list_all plain_field (x # fs)"
    using Cons.prems by (simp add: plain_record_def)
  show ?case
  proof (cases rs)
    case Nil
    then show ?thesis
      using Cons.prems csv_final [OF plain, of "[]"] join_head(1) [of r] join_head(2) [of r "[]"] by (simp add: csv_record_start r)
  next
    case (Cons r' rs')
    then show ?thesis
      using Cons.prems Cons.IH csv_record [OF plain, of "[]"] join_head(1) [of r]
        join_head(2) [of r "newline # str_join [newline] (map (str_join [bar]) rs)"]
      by (simp add: csv_record_start r)
  qed
qed

section \<open>Loading\<close>

definition live_as_job :: "trace_job \<Rightarrow> job" where
  "live_as_job j =
     \<lparr>job_id = lj_id j, user = lj_user j, gpu_count = lj_gpu_count j, gpu_type = lj_gpu_type j,
      submit_ts = lj_submit j, runtime = lj_runtime j, mem_req = lj_mem j, mps_req = lj_mps j,
      latency_class = lj_latency j, job_class = ''batch'', slo_s = 0, ram_req = 0\<rparr>"

lemma job_from_live: "job_from_dict (JObj (live_json shown j)) = Inr (live_as_job j)"
  by (simp add: job_from_dict_def item_at_def item_get_def as_obj_def live_json_def live_as_job_def Let_def j_get_def
      dict_get_def py_int_def py_float_def py_str_def)

lemma load_live: "load_auto cp g m share (write_trace shown jobs) k = (Inr (map live_as_job jobs), k)"
proof -
  have "is_philly (write_trace shown jobs) = Inr False"
    by (cases jobs) (simp_all add: is_philly_def write_trace_def live_json_def dict_has_def Let_def)
  moreover have "res_map job_from_dict (map (\<lambda>j. JObj (live_json shown j)) jobs) = Inr (map live_as_job jobs)"
    by (induction jobs) (simp_all add: job_from_live)
  ultimately show ?thesis
    by (simp add: load_auto_def write_trace_def as_list_def)
qed

end
