(* ===== verification/TraceProps.thy ===== *)
theory TraceProps
  imports SimLoaderFacts SimTraceFacts
begin

text \<open>
  The properties of the traces: generated ones, written ones read back, and those converted from
  the live cluster, each ending where the simulator takes over.
\<close>

section \<open>Generated traces\<close>



section \<open>Written traces\<close>

text \<open>C14. The loader reads a trace the generators or the converters have written back unchanged,
  without being mistaken for Philly's raw format and without drawing from the random stream; a live
  trace comes back with the fields the simulator knows.\<close>

theorem trace_roundtrip:
  "load_auto cp g mj share (write_normalized shown jobs) k = (Inr jobs, k) \<and>
   load_auto cp g mj share (write_trace shown live) k = (Inr (map live_as_job live), k)"
  by (simp add: load_written load_live)

section \<open>Live traces\<close>

text \<open>C15. Converting the text \<^verbatim>\<open>sacct\<close> printed accounts for every row: the raw count is the sum of the
  emitted and of the four kinds of skipped rows. The emitted jobs are in order of submission and
  id, are no job steps, have an accepted state, ask for at least one GPU and a positive share, run
  at least the minimum run time and waited a non-negative time; relative time starts at 0.\<close>

theorem sacct_rows_accounted:
  assumes "sacct_to_normalized cp inc rel mr t = Inr (jobs, st)"
  shows "ts_raw st = length (rows_from_sacct t) \<and> ts_emitted st = length jobs \<and>
    ts_raw st = ts_emitted st + ts_steps st + ts_cpu st + ts_state st + ts_time st \<and>
    sorted (map (\<lambda>j. (lj_submit j, lj_id j)) jobs) \<and> (\<forall>j \<in> set jobs. live_ok mr j) \<and>
    (rel \<and> jobs \<noteq> [] \<longrightarrow> lj_submit (hd jobs) = 0)"
  using sacct_counts [OF assms] sacct_jobs [OF assms] sacct_from_zero [of cp inc mr t jobs st] assms by auto

definition demo_clock :: clock_parsers where
  "demo_clock =
     \<lparr>cp_iso = (\<lambda>v. if list_all is_digit v then Some (of_nat (nat_of_digits v)) else None),
      cp_strp = (\<lambda>_. None), cp_strp_t = (\<lambda>_. None)\<rparr>"

definition demo_sacct :: "string list list" where
  "demo_sacct =
     [[''JobID'', ''State'', ''Submit'', ''Start'', ''ReqTRES''],
      [''7'', ''FAILED'', ''30'', ''40'', ''mps=50''],
      [''7.0'', ''FAILED'', ''30'', ''40'', ''mps=50'']]"

definition demo_sacct_text :: string where
  "demo_sacct_text = str_join [newline] (map (str_join [bar]) demo_sacct)"

lemma demo_sacct_plain: "list_all plain_record demo_sacct"
  by (simp add: demo_sacct_def plain_record_def plain_field_def)

lemma demo_sacct_lines: "nonblank_lines demo_sacct_text = map (str_join [bar]) demo_sacct"
  by code_simp

lemma demo_sacct_first:
  "case convert_row demo_clock False 1 (csv_row_of (hd demo_sacct) (demo_sacct ! 1)) of
     Inr (Emit j) \<Rightarrow> lj_mps j = 50 | _ \<Rightarrow> False"
  by code_simp

lemma demo_sacct_second: "convert_row demo_clock False 1 (csv_row_of (hd demo_sacct) (demo_sacct ! 2)) = Inr SkipStep"
  by code_simp

theorem sacct_rows_accounted_witness:
  "\<exists>j st. sacct_to_normalized demo_clock False True 1 demo_sacct_text = Inr ([j], st) \<and>
     ts_raw st = 2 \<and> ts_steps st = 1 \<and> lj_submit j = 0"
proof -
  have "rows_from_sacct demo_sacct_text = map (csv_row_of (hd demo_sacct)) [demo_sacct ! 1, demo_sacct ! 2]"
    unfolding rows_from_sacct_def demo_sacct_lines csv_of_plain [OF demo_sacct_plain] by (simp add: demo_sacct_def)
  moreover obtain j where "convert_row demo_clock False 1 (csv_row_of (hd demo_sacct) (demo_sacct ! 1)) = Inr (Emit j)"
    using demo_sacct_first by (auto split: sum.splits row_result.splits)
  ultimately obtain j' st where run: "sacct_to_normalized demo_clock False True 1 demo_sacct_text = Inr ([j'], st)"
    and st: "ts_raw st = 2" "ts_steps st = 1"
    by (auto simp: sacct_to_normalized_def demo_sacct_second Let_def relative_jobs_def)
  have "lj_submit (hd [j']) = 0"
    using sacct_rows_accounted [OF run] by blast
  with run st show ?thesis
    by auto
qed

text \<open>Delimited text without quotes is read as it was written: joining the fields of records with
  bars and the records with newlines, and scanning the result, gives the records, for every list of
  non-blank records whose fields hold no bar, quote or newline.\<close>

lemma csv_roundtrip:
  assumes "list_all plain_record rs"
  shows "csv_scan StartRecord [] [] (str_join [newline] (map (str_join [bar]) rs)) = rs"
  by (rule csv_of_plain [OF assms])

end
