(* ===== verification/VecProps.thy ===== *)
theory VecProps
  imports SimVecFacts TraceProps
begin

text \<open>
  The properties of the vectorised environments: both backends compute the same, and the one with
  processes neither blocks nor fails.
\<close>

lemma each_in_turn_map:
  assumes "\<And>i c w. h i (g c) w = (case f i c (sel w) of Inl e \<Rightarrow> Inl e | Inr (r, s) \<Rightarrow> Inr (k r, upd s w))"
    "\<And>s w. sel (upd s w) = s"
  shows "case each_in_turn f i (map sel ws) cs of
      Inl e \<Rightarrow> each_in_turn h i ws (map g cs) = Inl e
    | Inr (rs, ss) \<Rightarrow> \<exists>ws'. each_in_turn h i ws (map g cs) = Inr (map k rs, ws') \<and> map sel ws' = ss"
proof (induction ws cs arbitrary: i rule: list_induct2')
  case (4 w ws c cs)
  show ?case
  proof (cases "f i c (sel w)")
    case (Inl e)
    then show ?thesis
      by (simp add: assms(1))
  next
    case (Inr x)
    then show ?thesis
      using "4.IH" [of "Suc i"] assms
      by (cases x) (auto split: sum.splits prod.splits)
  qed
qed (auto intro: exI [of _ "[]"])

section \<open>Both backends compute the same\<close>

lemma step_call_result:
  assumes "length actions = length ws"
    "vec_run (vec_worker np py nz choice) (async_step actions ws) (p, ws')"
    "stuck (vec_worker np py nz choice) (p, ws')"
  shows "case sync_step np py nz actions (map we_sub ws) of
      Inr (outs, subs) \<Rightarrow> pa_got p = map StepReply outs \<and> map (\<lambda>w. we_sub (wk_state w)) ws' = subs \<and>
        (\<exists>vs. ws' = map resting vs) \<and> \<not> pa_broken p
    | Inl e \<Rightarrow> pa_broken p"
proof -
  have "length (map Step actions) = length ws"
    using assms(1) by simp
  note r = call_result [OF this assms(2) [unfolded async_step_def] assms(3)]
  have "case sync_step np py nz actions (map we_sub ws) of
      Inl e \<Rightarrow> each_in_turn (vec_worker np py nz choice) 0 ws (map Step actions) = Inl e
    | Inr (rs, ss) \<Rightarrow> \<exists>vs. each_in_turn (vec_worker np py nz choice) 0 ws (map Step actions) = Inr (map StepReply rs, vs) \<and>
        map we_sub vs = ss"
    unfolding sync_step_def
    by (rule each_in_turn_map [where upd = "\<lambda>s w. w\<lparr>we_sub := s\<rparr>"]) (simp_all add: vec_worker_def)
  then show ?thesis
  proof (cases "sync_step np py nz actions (map we_sub ws)")
    case (Inr x)
    with \<open>case sync_step _ _ _ _ _ of Inl e \<Rightarrow> _ e | Inr y \<Rightarrow> _ y\<close> obtain vs where
      "each_in_turn (vec_worker np py nz choice) 0 ws (map Step actions) = Inr (map StepReply (fst x), vs)"
      "map we_sub vs = snd x"
      by (auto split: prod.splits)
    with r Inr show ?thesis
      by (auto split: prod.splits)
  qed (use r in simp)
qed

text \<open>C11. Every complete schedule of a step of the process backend, in whatever order the parent and the
  workers act, gives the replies of the in-process backend, in the order of the environments, and
  leaves the workers in its states with empty pipes; where a step raises, the parent is told by a
  broken pipe.\<close>

theorem process_backend_matches:
  assumes "length actions = length ws"
    "vec_run (vec_worker np py nz choice) (async_step actions ws) (p, ws')"
    "stuck (vec_worker np py nz choice) (p, ws')"
  shows "case sync_step np py nz actions (map we_sub ws) of
      Inr (outs, subs) \<Rightarrow> pa_got p = map StepReply outs \<and> map (\<lambda>w. we_sub (wk_state w)) ws' = subs \<and>
        (\<exists>vs. ws' = map resting vs) \<and> \<not> pa_broken p
    | Inl e \<Rightarrow> pa_broken p"
  using step_call_result [OF assms] .

definition demo_spec :: env_spec where
  "demo_spec = \<lparr>es_families = [''ali''], es_n_jobs = 2, es_total_gpus = 1, es_n_nodes = 1, es_gpus_per_node = 1,
     es_mps_per_gpu = 100, es_top_k = 16, es_max_steps = 100, es_reward_mode = ''jct_aligned'', es_reward_scale = 20000,
     es_potential_shaping = True, es_runtime_sigma = 0, es_interference = 0, es_colocation_actions = False,
     es_slo_penalty = 0, es_base_seed = 0\<rparr>"

lemma demo_spec_ok: "spec_ok demo_spec"
  by (simp add: spec_ok_def demo_spec_def default_args_def)

lemma demo_ints_ok: "ints_ok (\<lambda>s k h. 0)"
  by (simp add: ints_ok_def)

lemma demo_sub:
  obtains w where "sub_ok demo_spec w"
proof -
  obtain w where "built_from demo_spec w"
    using build_ok [OF demo_spec_ok] by blast
  from reset_sub_ok [OF demo_spec_ok this demo_ints_ok, of "\<lambda>_. demo_rng" "Some 7"] demo_rng_ok that show ?thesis
    by blast
qed

lemma all_answered:
  assumes "spec_ok sp" "ints_ok np" "\<And>s. rng_ok (py s)" "list_all (sub_ok sp) ss" "length actions = length ss"
  shows "\<exists>outs ss'. each_in_turn (\<lambda>i a w. step_one np py (nz i) a w) k ss actions = Inr (outs, ss') \<and>
    length outs = length ss \<and> list_all (sub_ok sp) ss'"
  using assms(4,5)
proof (induction ss actions arbitrary: k rule: list_induct2')
  case (4 w ss a actions)
  obtain r w' where "step_one np py (nz k) a w = Inr (r, w')" "sub_ok sp w'"
    using step_one_ok [of sp w np py "nz k" a] assms(1-3) "4.prems"(1) by auto
  with "4.IH" [of "Suc k"] "4.prems" show ?case
    by auto
qed simp_all

theorem process_backend_matches_witness:
  "\<exists>ws p ws'. length ws = 2 \<and> vec_run (vec_worker (\<lambda>s k h. 0) (\<lambda>_. demo_rng) (\<lambda>_ _. no_noise) (\<lambda>_ _ l. hd l))
     (async_step [0, 1] ws) (p, ws') \<and> \<not> pa_broken p \<and> length (pa_got p) = 2"
proof -
  let ?serve = "vec_worker (\<lambda>s k h. 0) (\<lambda>_. demo_rng) (\<lambda>_ _. no_noise) (\<lambda>_ _ l. hd l)"
  obtain w where w: "sub_ok demo_spec w"
    by (rule demo_sub)
  let ?ws = "[\<lparr>we_sub = w, we_choices = 0\<rparr>, \<lparr>we_sub = w, we_choices = 0\<rparr>]"
  obtain p ws' where run: "vec_run ?serve (async_step [0, 1] ?ws) (p, ws')" "stuck ?serve (p, ws')"
    using run_to_end [of ?serve "async_step [0, 1] ?ws"] by auto
  obtain outs subs where s: "sync_step (\<lambda>s k h. 0) (\<lambda>_. demo_rng) (\<lambda>_ _. no_noise) [0, 1] (map we_sub ?ws) = Inr (outs, subs)"
      "length outs = 2"
    using all_answered [OF demo_spec_ok demo_ints_ok, of "\<lambda>_. demo_rng" "[w, w]" "[0, 1]" "\<lambda>_ _. no_noise" 0] w demo_rng_ok
    by (auto simp: sync_step_def)
  have "pa_got p = map StepReply outs \<and> \<not> pa_broken p"
    using process_backend_matches [OF _ run] s(1) by simp
  with run s(2) show ?thesis
    by (intro exI [of _ ?ws] exI [of _ p] exI [of _ ws']) simp
qed

section \<open>The backend with processes does not block\<close>



lemma stuck_resting:
  assumes "pa_send p = []" "\<And>w. w \<in> set ws \<Longrightarrow> wk_inbox w = [] \<and> wk_outbox w = [] \<and> wk_alive w"
  shows "stuck serve (p, ws)"
  unfolding stuck_def
proof
  assume "\<exists>y. vec_step serve (p, ws) y"
  then obtain y where "vec_step serve (p, ws) y" ..
  then show False
  proof (cases rule: vec_step.cases)
    case (receive i "is" r rs)
    then show ?thesis
      using assms(2) [of "ws ! i"] nth_mem [of i ws] by simp
  next
    case (end_of_file i "is")
    then show ?thesis
      using assms(2) [of "ws ! i"] nth_mem [of i ws] by simp
  qed (use assms nth_mem in \<open>fastforce+\<close>)
qed

text \<open>A call with too few actions never returns: here the parent waits for a worker it sent nothing to,
  where the in-process backend returns the one row.\<close>

lemma too_few_actions_block:
  assumes "step_one np py (nz 0) a w = Inr (r, w')"
  shows "sync_step np py nz [a] [w, v] = Inr ([r], [w', v])"
    "\<exists>p ws. vec_run (vec_worker np py nz choice)
       (async_step [a] [\<lparr>we_sub = w, we_choices = 0\<rparr>, \<lparr>we_sub = v, we_choices = 0\<rparr>]) (p, ws) \<and>
       stuck (vec_worker np py nz choice) (p, ws) \<and> pa_recv p = [1] \<and> \<not> pa_broken p"
proof -
  show "sync_step np py nz [a] [w, v] = Inr ([r], [w', v])"
    using assms by (simp add: sync_step_def)
  let ?serve = "vec_worker np py nz choice"
  let ?w = "\<lparr>we_sub = w, we_choices = 0\<rparr>" and ?v = "\<lparr>we_sub = v, we_choices = 0\<rparr>" and ?w' = "\<lparr>we_sub = w', we_choices = 0\<rparr>"
  let ?p0 = "\<lparr>pa_send = [(0, Step a)], pa_recv = [0, 1], pa_got = [], pa_broken = False\<rparr>"
  have s: "?serve 0 (Step a) ?w = Inr (StepReply r, ?w')"
    using assms by (simp add: vec_worker_def)
  have a1: "vec_step ?serve (?p0, [resting ?w, resting ?v])
      (?p0\<lparr>pa_send := []\<rparr>, [(resting ?w)\<lparr>wk_inbox := [Step a]\<rparr>, resting ?v])"
    using vec_step.send [of ?p0 0 "Step a" "[]" "[resting ?w, resting ?v]" ?serve] by simp
  have a2: "vec_step ?serve (?p0\<lparr>pa_send := []\<rparr>, [(resting ?w)\<lparr>wk_inbox := [Step a]\<rparr>, resting ?v])
      (?p0\<lparr>pa_send := []\<rparr>, [(resting ?w')\<lparr>wk_outbox := [StepReply r]\<rparr>, resting ?v])"
    using vec_step.answer [of 0 "[(resting ?w)\<lparr>wk_inbox := [Step a]\<rparr>, resting ?v]" "Step a" "[]" ?serve "StepReply r" ?w'] s
    by (simp add: resting_def)
  have a3: "vec_step ?serve (?p0\<lparr>pa_send := []\<rparr>, [(resting ?w')\<lparr>wk_outbox := [StepReply r]\<rparr>, resting ?v])
      (?p0\<lparr>pa_send := [], pa_recv := [1], pa_got := [StepReply r]\<rparr>, [resting ?w', resting ?v])"
    using vec_step.receive [of "?p0\<lparr>pa_send := []\<rparr>" 0 "[1]" "[(resting ?w')\<lparr>wk_outbox := [StepReply r]\<rparr>, resting ?v]" "StepReply r" "[]" ?serve]
    by (simp add: resting_def)
  have a0: "async_step [a] [?w, ?v] = (?p0, [resting ?w, resting ?v])"
    by (simp add: async_step_def call_def upt_rec)
  have run: "vec_run ?serve (async_step [a] [?w, ?v])
      (?p0\<lparr>pa_send := [], pa_recv := [1], pa_got := [StepReply r]\<rparr>, [resting ?w', resting ?v])"
    unfolding a0 by (rule vec_trans [OF vec_trans [OF vec_trans [OF vec_refl a1] a2] a3])
  have "stuck ?serve (?p0\<lparr>pa_send := [], pa_recv := [1], pa_got := [StepReply r]\<rparr>, [resting ?w', resting ?v])"
    by (rule stuck_resting) auto
  with run show "\<exists>p ws. vec_run ?serve (async_step [a] [?w, ?v]) (p, ws) \<and> stuck ?serve (p, ws) \<and> pa_recv p = [1] \<and> \<not> pa_broken p"
    by (intro exI [of _ "?p0\<lparr>pa_send := [], pa_recv := [1], pa_got := [StepReply r]\<rparr>"] exI [of _ "[resting ?w', resting ?v]"])
      simp
qed

text \<open>Pickling a factory and restoring it gives the same stream of traces.\<close>

lemma factory_pickles: "factory_setstate (factory_getstate f) = f"
  by (simp add: factory_setstate_def factory_getstate_def new_factory_def)

end
