(* ===== verification/OpPolicy.thy ===== *)
theory OpPolicy
  imports Prelude
begin

text \<open>
  The scaling policy of the operator: the data classes of \<^verbatim>\<open>operator/models.py\<close>, the pure decision
  function of \<^verbatim>\<open>operator/policy.py\<close> and the start-up validation of \<^verbatim>\<open>operator/main.py\<close>. The
  environment defaults of \<^verbatim>\<open>Config\<close> are not modelled; its fields that the modelled code reads are.
\<close>

section \<open>Data\<close>

record partition_config =
  pc_partition :: string
  worker_statefulset :: string
  min_replicas :: int
  max_replicas :: int
  scale_up_step :: int
  scale_down_step :: int
  scale_down_cooldown :: int
  checkpoint_path :: string
  max_checkpoint_age_seconds :: int
  checkpoint_grace_seconds :: int
  drain_timeout_seconds :: int
  match_features :: "string list"
  match_gres :: "string list"
  cpus_per_node :: int
  memory_mb_per_node :: int
  fallback :: bool

record config =
  poll_interval :: int
  reconcile_period_seconds :: int
  checkpoint_guard_enabled :: bool
  default_partition :: string
  default_worker_statefulset :: string
  default_min_replicas :: int
  default_max_replicas :: int
  default_scale_up_step :: int
  default_scale_down_step :: int
  default_scale_down_cooldown :: int
  provisioning_timeout_seconds :: int
  provisioning_retry_seconds :: int
  default_checkpoint_path :: string
  default_max_checkpoint_age_seconds :: int
  default_checkpoint_grace_seconds :: int
  default_drain_timeout_seconds :: int

record partition_state =
  ps_partition :: string
  ps_statefulset :: string
  current_replicas :: int
  pending_jobs :: int
  running_jobs :: int
  busy_nodes :: int
  scale_pending_jobs :: int

datatype scale_action = ScaleUp | ScaleDown | Keep

record scaling_decision =
  target_replicas :: int
  d_action :: scale_action
  d_reason :: string

section \<open>The policy\<close>

definition clamp :: "int \<Rightarrow> int \<Rightarrow> int \<Rightarrow> int" where
  "clamp x low high = max low (min x high)"

definition to_decision :: "int \<Rightarrow> int \<Rightarrow> string \<Rightarrow> scaling_decision" where
  "to_decision current target reason =
     (if current < target then \<lparr>target_replicas = target, d_action = ScaleUp, d_reason = reason\<rparr>
      else if target < current then \<lparr>target_replicas = target, d_action = ScaleDown, d_reason = reason\<rparr>
      else \<lparr>target_replicas = target, d_action = Keep, d_reason = reason\<rparr>)"

definition keep_decision :: "int \<Rightarrow> string \<Rightarrow> scaling_decision" where
  "keep_decision current reason = \<lparr>target_replicas = current, d_action = Keep, d_reason = reason\<rparr>"

text \<open>\<^verbatim>\<open>CheckpointAwareQueuePolicy.evaluate\<close>, with the guard flag of the policy object and the two
  checkpoint arguments it is given.\<close>

definition evaluate :: "bool \<Rightarrow> partition_config \<Rightarrow> partition_state \<Rightarrow> int option \<Rightarrow> real option \<Rightarrow>
    scaling_decision" where
  "evaluate guard_enabled cfg st checkpoint_age missing_since =
     (if 0 < scale_pending_jobs st then
        (let target = clamp (current_replicas st + scale_up_step cfg) (min_replicas cfg) (max_replicas cfg)
         in to_decision (current_replicas st) target ''resource_pending_jobs'')
      else if 0 < pending_jobs st then
        keep_decision (current_replicas st) ''pending_jobs_not_blocked_by_resources''
      else
        (let safe_floor = max (min_replicas cfg) (busy_nodes st);
             candidate_target = clamp (current_replicas st - scale_down_step cfg) safe_floor (max_replicas cfg)
         in if candidate_target < current_replicas st \<and> 0 < running_jobs st
            then keep_decision (current_replicas st) ''running_jobs_block_scale_down''
            else to_decision (current_replicas st) candidate_target ''no_pending_jobs''))"

section \<open>Start-up validation\<close>

fun validate_pools :: "(string \<times> string) list \<Rightarrow> int \<Rightarrow> partition_config list \<Rightarrow> py_error + int" where
  "validate_pools seen fallbacks [] = Inr fallbacks"
| "validate_pools seen fallbacks (p # ps) =
     (let sig = (pc_partition p, worker_statefulset p);
          fallbacks' = (if fallback p then fallbacks + 1 else fallbacks)
      in if sig \<in> set seen then Inl ValueError
         else if min_replicas p < 0 \<or> max_replicas p < 0 then Inl ValueError
         else if max_replicas p < min_replicas p then Inl ValueError
         else if scale_up_step p \<le> 0 \<or> scale_down_step p \<le> 0 then Inl ValueError
         else validate_pools (sig # seen) fallbacks' ps)"

definition validate_config :: "config \<Rightarrow> partition_config list \<Rightarrow> py_error + unit" where
  "validate_config cfg pools =
     (if poll_interval cfg \<le> 0 then Inl ValueError
      else case validate_pools [] 0 pools of
             Inl e \<Rightarrow> Inl e
           | Inr fallbacks \<Rightarrow> if 1 < fallbacks then Inl ValueError else Inr ())"

section \<open>Facts\<close>

definition pool_ok :: "partition_config \<Rightarrow> bool" where
  "pool_ok p \<longleftrightarrow> 0 \<le> min_replicas p \<and> min_replicas p \<le> max_replicas p \<and>
     0 < scale_up_step p \<and> 0 < scale_down_step p"

definition pool_sig :: "partition_config \<Rightarrow> string \<times> string" where
  "pool_sig p = (pc_partition p, worker_statefulset p)"

lemma clamp_bounds: "low \<le> high \<Longrightarrow> low \<le> clamp x low high \<and> clamp x low high \<le> high"
  by (auto simp: clamp_def)

lemma to_decision_simps [simp]:
  "target_replicas (to_decision c t r) = t"
  "d_action (to_decision c t r) = ScaleUp \<longleftrightarrow> c < t"
  "d_action (to_decision c t r) = ScaleDown \<longleftrightarrow> t < c"
  "d_action (to_decision c t r) = Keep \<longleftrightarrow> t = c"
  "d_reason (to_decision c t r) = r"
  by (auto simp: to_decision_def)

lemma keep_decision_simps [simp]:
  "target_replicas (keep_decision c r) = c" "d_action (keep_decision c r) = Keep"
  "d_reason (keep_decision c r) = r"
  by (simp_all add: keep_decision_def)

text \<open>The three branches, as the properties and the reconciler use them.\<close>

lemma evaluate_ignores: "evaluate g cfg st age missing = evaluate g' cfg st age' missing'"
  by (simp add: evaluate_def)

lemma evaluate_scale_up:
  "d_action (evaluate g cfg st age missing) = ScaleUp \<Longrightarrow>
     current_replicas st < target_replicas (evaluate g cfg st age missing)"
  by (auto simp: evaluate_def Let_def split: if_splits)

lemma evaluate_scale_down:
  assumes "d_action (evaluate g cfg st age missing) = ScaleDown" "pending_jobs st \<ge> 0" "scale_pending_jobs st \<le> pending_jobs st"
    "current_replicas st \<le> max_replicas cfg" "0 < scale_up_step cfg"
  shows "pending_jobs st = 0" "running_jobs st \<le> 0"
    "max (min_replicas cfg) (busy_nodes st) \<le> target_replicas (evaluate g cfg st age missing)"
    "target_replicas (evaluate g cfg st age missing) < current_replicas st"
  using assms by (auto simp: evaluate_def Let_def clamp_def split: if_splits)

lemma validate_pools_sound:
  "validate_pools seen k ps = Inr n \<Longrightarrow>
     (\<forall>p \<in> set ps. pool_ok p) \<and> distinct (map pool_sig ps) \<and> set (map pool_sig ps) \<inter> set seen = {} \<and>
     n = k + int (length (filter fallback ps))"
  by (induction ps arbitrary: seen k)
    (auto simp: Let_def pool_ok_def pool_sig_def split: if_splits, force+)

lemma validate_pools_complete:
  assumes "\<forall>p \<in> set ps. pool_ok p" "distinct (map pool_sig ps)" "set (map pool_sig ps) \<inter> set seen = {}"
  shows "validate_pools seen k ps = Inr (k + int (length (filter fallback ps)))"
  using assms
proof (induction ps arbitrary: seen k)
  case Nil
  show ?case by simp
next
  case (Cons p ps)
  have "validate_pools (pool_sig p # seen) j ps = Inr (j + int (length (filter fallback ps)))" for j
    using Cons.prems by (intro Cons.IH) auto
  then show ?case
    using Cons.prems by (auto simp: Let_def pool_ok_def pool_sig_def)
qed

end
