(* ===== verification/OpReconciler.thy ===== *)
theory OpReconciler
  imports OpPolicy OpMonad PyText
begin

text \<open>
  One reconcile of one pool: \<^verbatim>\<open>operator/reconciler.py\<close> and \<^verbatim>\<open>operator/scale_actions.py\<close>.
  The in-memory dictionaries of \<^verbatim>\<open>OperatorApp\<close> are the state; what the world answers (the
  clock, the ready replicas, the allocated CPUs of a node, the age of the checkpoint file, whether
  a call raises) is an environment indexed by the number of calls made so far, so that every
  interleaving of answers is an instance. Calls that change the cluster are recorded, in order,
  with whether they were accepted. The log lines are kept as pairs of event type and reason;
  metrics and tracing spans are not modelled (tracing is the disabled case).
\<close>

section \<open>Environment and state\<close>

datatype ann_value = AnnEmpty | AnnTime real | AnnMarker real int int | AnnText string

datatype annotation = LastScaleUpAt | LastScaleActionAt | ProvisioningMarker | ProvisioningRetryAt

datatype effect =
    Resume string
  | Drain string
  | CancelJobs string
  | Down string string
  | Future string string
  | Patch string int
  | Annotate string annotation ann_value

record op_env =
  env_clock :: "nat \<Rightarrow> real"
  env_fails :: "nat \<Rightarrow> bool"
  env_ready :: "nat \<Rightarrow> string \<Rightarrow> int"
  env_alloc :: "nat \<Rightarrow> string \<Rightarrow> int"
  env_ckpt :: "nat \<Rightarrow> string \<Rightarrow> int option"

record op_state =
  os_calls :: nat
  os_effects :: "(effect \<times> bool) list"
  os_events :: "(string \<times> string) list"
  provisioning :: "(string, real \<times> int \<times> int) dict"
  provisioning_retry_at :: "(string, real) dict"
  last_scale_action_at :: "(string, real) dict"
  draining_nodes :: "(string, string list) dict"
  draining_started :: "(string, (string, real) dict) dict"
  checkpoint_missing_since :: "(string, real) dict"

definition op_tick :: "(op_state, nat) op" where
  "op_tick s = (Inr (os_calls s), s\<lparr>os_calls := os_calls s + 1\<rparr>)"

definition op_time :: "op_env \<Rightarrow> (op_state, real) op" where
  "op_time env = op_bind op_tick (\<lambda>i. op_return (env_clock env i))"

definition op_call :: "op_env \<Rightarrow> effect \<Rightarrow> (op_state, unit) op" where
  "op_call env e = op_bind op_tick (\<lambda>i.
     op_then (op_modify (\<lambda>s. s\<lparr>os_effects := os_effects s @ [(e, \<not> env_fails env i)]\<rparr>))
       (if env_fails env i then op_raise ApiError else op_return ()))"

text \<open>\<^verbatim>\<open>get_ready_replicas\<close> turns its own failures into 0; \<^verbatim>\<open>get_node_cpu_alloc\<close> and the checkpoint
  query run a command in the controller pod and may raise.\<close>

definition op_ready :: "op_env \<Rightarrow> string \<Rightarrow> (op_state, int) op" where
  "op_ready env key = op_bind op_tick (\<lambda>i. op_return (if env_fails env i then 0 else env_ready env i key))"

definition op_cpu_alloc :: "op_env \<Rightarrow> string \<Rightarrow> (op_state, int) op" where
  "op_cpu_alloc env node = op_bind op_tick (\<lambda>i.
     if env_fails env i then op_raise ApiError else op_return (env_alloc env i node))"

definition op_checkpoint_age :: "op_env \<Rightarrow> string \<Rightarrow> (op_state, int option) op" where
  "op_checkpoint_age env path =
     (if path = [] then op_return None
      else op_bind op_tick (\<lambda>i. if env_fails env i then op_raise ApiError else op_return (env_ckpt env i path)))"

definition op_emit :: "string \<Rightarrow> string \<Rightarrow> (op_state, unit) op" where
  "op_emit event reason = op_modify (\<lambda>s. s\<lparr>os_events := os_events s @ [(event, reason)]\<rparr>)"

definition node_name :: "string \<Rightarrow> int \<Rightarrow> string" where
  "node_name key i = key @ ''-'' @ dec_int i"

definition set_annotation :: "op_env \<Rightarrow> string \<Rightarrow> annotation \<Rightarrow> ann_value \<Rightarrow> (op_state, unit) op" where
  \<comment> \<open>\<^verbatim>\<open>ReconcilerMixin._set_annotation\<close>: best effort\<close>
  "set_annotation env key name v = op_ignore (op_call env (Annotate key name v))"

section \<open>Scaling up\<close>

definition do_scale_up ::
  "op_env \<Rightarrow> partition_config \<Rightarrow> partition_state \<Rightarrow> scaling_decision \<Rightarrow> string \<Rightarrow> real \<Rightarrow>
   (op_state, unit) op" where
  "do_scale_up env cfg st d key now =
     op_bind (op_get (\<lambda>s. dict_get (draining_nodes s) key [])) (\<lambda>draining.
     op_then (op_modify (\<lambda>s. s\<lparr>draining_nodes := dict_pop key (draining_nodes s),
                              draining_started := dict_pop key (draining_started s)\<rparr>)) (
     op_then (op_for (set_union draining
                       (map (node_name (worker_statefulset cfg)) [0..target_replicas d - 1]))
                (\<lambda>n. op_ignore (op_call env (Resume n)))) (
     op_then (op_call env (Annotate (worker_statefulset cfg) ProvisioningMarker
                (AnnMarker now (current_replicas st) (target_replicas d)))) (
     op_then (op_modify (\<lambda>s. s\<lparr>provisioning :=
                dict_set key (now, current_replicas st, target_replicas d) (provisioning s)\<rparr>)) (
     op_then (op_call env (Patch (worker_statefulset cfg) (target_replicas d))) (
     op_then (op_modify (\<lambda>s. s\<lparr>provisioning_retry_at := dict_pop key (provisioning_retry_at s),
                              last_scale_action_at := dict_set key now (last_scale_action_at s)\<rparr>)) (
     op_then (op_ignore (
       op_then (op_call env (Annotate (worker_statefulset cfg) LastScaleUpAt (AnnTime now))) (
       op_then (op_call env (Annotate (worker_statefulset cfg) LastScaleActionAt (AnnTime now)))
               (op_call env (Annotate (worker_statefulset cfg) ProvisioningRetryAt AnnEmpty)))))
     (op_emit ''scale_action'' (d_reason d)))))))))"

section \<open>Scaling down\<close>

text \<open>Force-kill a node whose drain has timed out; the result says whether it was killed.\<close>

definition force_kill_node ::
  "op_env \<Rightarrow> partition_config \<Rightarrow> (string, real) dict \<Rightarrow> real \<Rightarrow> string \<Rightarrow> (op_state, bool) op" where
  "force_kill_node env cfg started now_ts node =
     (case map_of started node of
        None \<Rightarrow> op_return False
      | Some drain_started \<Rightarrow>
          op_bind (op_cpu_alloc env node) (\<lambda>alloc.
            if alloc = 0 then op_return False
            else if now_ts - drain_started \<le> of_int (drain_timeout_seconds cfg) then op_return False
            else
              op_bind (op_ignore (op_then (op_call env (CancelJobs node))
                         (op_call env (Down node ''drain-timeout'')))) (\<lambda>_.
              op_bind (op_emit ''drain_timeout_force_kill'' node) (\<lambda>_. op_return True))))"

fun force_kill_all ::
  "op_env \<Rightarrow> partition_config \<Rightarrow> (string, real) dict \<Rightarrow> real \<Rightarrow> string list \<Rightarrow> (op_state, string list) op" where
  "force_kill_all env cfg started now_ts [] = op_return []"
| "force_kill_all env cfg started now_ts (n # ns) =
     op_bind (force_kill_node env cfg started now_ts n) (\<lambda>killed.
     op_bind (force_kill_all env cfg started now_ts ns) (\<lambda>rest.
       op_return (if killed then n # rest else rest)))"

definition drain_new :: "op_env \<Rightarrow> string \<Rightarrow> real \<Rightarrow> string list \<Rightarrow> (op_state, unit) op" where
  "drain_new env key now_ts nodes =
     op_for nodes (\<lambda>n.
       op_then (op_ignore (op_call env (Drain n)))
         (op_modify (\<lambda>s. s\<lparr>draining_started :=
            dict_set key (dict_set n now_ts (dict_get (draining_started s) key [])) (draining_started s)\<rparr>)))"

definition node_idle :: "op_env \<Rightarrow> string list \<Rightarrow> string \<Rightarrow> (op_state, bool) op" where
  "node_idle env killed n =
     (if n \<in> set killed then op_return True
      else op_bind (op_cpu_alloc env n) (\<lambda>a. op_return (a = 0)))"

definition finish_scale_down ::
  "op_env \<Rightarrow> partition_config \<Rightarrow> scaling_decision \<Rightarrow> string \<Rightarrow> real \<Rightarrow> string list \<Rightarrow> (op_state, unit) op" where
  "finish_scale_down env cfg d key now_ts nodes_to_drain =
     op_then (op_call env (Patch (worker_statefulset cfg) (target_replicas d))) (
     op_then (op_for (sort nodes_to_drain)
                (\<lambda>n. op_ignore (op_call env (Future n ''operator-scale-down'')))) (
     op_then (op_modify (\<lambda>s. s\<lparr>draining_nodes := dict_pop key (draining_nodes s),
                              draining_started := dict_pop key (draining_started s),
                              last_scale_action_at := dict_set key now_ts (last_scale_action_at s)\<rparr>)) (
     op_then (op_ignore (op_call env
                (Annotate (worker_statefulset cfg) LastScaleActionAt (AnnTime now_ts))))
     (op_emit ''scale_action'' (d_reason d)))))"

definition nodes_between :: "partition_config \<Rightarrow> int \<Rightarrow> int \<Rightarrow> string list" where
  "nodes_between cfg low high = map (node_name (worker_statefulset cfg)) [low..high - 1]"

definition do_scale_down ::
  "op_env \<Rightarrow> partition_config \<Rightarrow> partition_state \<Rightarrow> scaling_decision \<Rightarrow> string \<Rightarrow> real \<Rightarrow>
   (op_state, unit) op" where
  "do_scale_down env cfg st d key cooldown_elapsed =
     (if 0 < running_jobs st then op_emit ''scale_skipped'' ''running_jobs_block_scale_down''
      else if cooldown_elapsed < of_int (scale_down_cooldown cfg) then
        op_emit ''scale_skipped'' ''scale_down_cooldown''
      else
        (let nodes_to_drain = nodes_between cfg (target_replicas d) (current_replicas st) in
         op_bind (op_get (\<lambda>s. dict_get (draining_nodes s) key [])) (\<lambda>draining0.
         op_then (op_modify (\<lambda>s. s\<lparr>draining_started := dict_setdefault key [] (draining_started s)\<rparr>)) (
         let new_nodes = set_diff nodes_to_drain draining0; draining = set_union draining0 new_nodes in
         op_bind (op_time env) (\<lambda>now_ts.
         op_then (drain_new env key now_ts new_nodes) (
         op_then (op_when (new_nodes \<noteq> []) (
                    op_then (op_modify (\<lambda>s. s\<lparr>draining_nodes := dict_set key draining (draining_nodes s)\<rparr>))
                            (op_emit ''drain_initiated'' ''''))) (
         op_bind (op_get (\<lambda>s. dict_get (draining_started s) key [])) (\<lambda>started.
         op_bind (if 0 < drain_timeout_seconds cfg
                  then force_kill_all env cfg started now_ts draining else op_return []) (\<lambda>killed.
         op_bind (op_all draining (node_idle env killed)) (\<lambda>all_idle.
           if all_idle then finish_scale_down env cfg d key now_ts nodes_to_drain
           else op_emit ''scale_skipped'' ''waiting_for_drain''))))))))))"

section \<open>Keeping\<close>

definition guard_reasons :: "string list" where
  "guard_reasons = [''checkpoint_unknown_block_scale_down'', ''checkpoint_stale_block_scale_down'']"

definition do_keep :: "scaling_decision \<Rightarrow> (op_state, unit) op" where
  "do_keep d =
     op_then (op_emit ''metric_scale_skipped''
                (if d_reason d \<in> set guard_reasons then ''checkpoint_guard'' else ''no_action''))
             (op_emit ''scale_skipped'' (d_reason d))"

section \<open>The reconcile\<close>

definition finish_provisioning ::
  "op_env \<Rightarrow> partition_config \<Rightarrow> string \<Rightarrow> int \<Rightarrow> int \<Rightarrow> (op_state, unit) op" where
  "finish_provisioning env cfg key prov_from prov_target =
     op_then (op_modify (\<lambda>s. s\<lparr>provisioning := dict_pop key (provisioning s),
                              provisioning_retry_at := dict_pop key (provisioning_retry_at s)\<rparr>)) (
     op_then (set_annotation env key ProvisioningMarker AnnEmpty) (
     op_then (set_annotation env key ProvisioningRetryAt AnnEmpty)
     (op_ignore (op_for (nodes_between cfg prov_from prov_target) (\<lambda>n. op_call env (Resume n))))))"

definition rollback_provisioning ::
  "op_env \<Rightarrow> config \<Rightarrow> partition_config \<Rightarrow> string \<Rightarrow> int \<Rightarrow> int \<Rightarrow> (op_state, unit) op" where
  "rollback_provisioning env oc cfg key prov_from prov_target =
     op_then (op_for (nodes_between cfg prov_from prov_target)
                (\<lambda>n. op_ignore (op_call env (Future n ''provisioning-timeout'')))) (
     op_then (op_call env (Patch key prov_from)) (
     op_bind (op_time env) (\<lambda>now.
       let retry_at = now + of_int (provisioning_retry_seconds oc) in
       op_then (op_modify (\<lambda>s. s\<lparr>last_scale_action_at := dict_set key now (last_scale_action_at s),
                                provisioning_retry_at := dict_set key retry_at (provisioning_retry_at s),
                                provisioning := dict_pop key (provisioning s)\<rparr>)) (
       op_then (set_annotation env key ProvisioningMarker AnnEmpty) (
       op_then (set_annotation env key LastScaleActionAt (AnnTime now)) (
       op_then (set_annotation env key ProvisioningRetryAt (AnnTime retry_at))
       (op_emit ''provisioning_timeout'' '''')))))))"

definition track_provisioning ::
  "op_env \<Rightarrow> config \<Rightarrow> partition_config \<Rightarrow> string \<Rightarrow> int \<Rightarrow> (op_state, unit) op" where
  "track_provisioning env oc cfg key ready =
     op_bind (op_get (\<lambda>s. map_of (provisioning s) key)) (\<lambda>marker.
       case marker of
         None \<Rightarrow> op_return ()
       | Some (prov_start, prov_from, prov_target) \<Rightarrow>
           if prov_target \<le> ready then
             op_bind (op_time env) (\<lambda>_. finish_provisioning env cfg key prov_from prov_target)
           else if 0 < provisioning_timeout_seconds oc then
             op_bind (op_time env) (\<lambda>now.
               op_when (of_int (provisioning_timeout_seconds oc) \<le> now - prov_start)
                 (rollback_provisioning env oc cfg key prov_from prov_target))
           else op_return ())"

definition track_checkpoint ::
  "op_env \<Rightarrow> partition_config \<Rightarrow> string \<Rightarrow> int option \<Rightarrow> (op_state, real option) op" where
  "track_checkpoint env cfg key age =
     op_then
       (if checkpoint_path cfg \<noteq> [] \<and> age = None then
          op_bind (op_time env) (\<lambda>now. op_modify (\<lambda>s. s\<lparr>checkpoint_missing_since :=
            dict_setdefault key now (checkpoint_missing_since s)\<rparr>))
        else op_modify (\<lambda>s. s\<lparr>checkpoint_missing_since := dict_pop key (checkpoint_missing_since s)\<rparr>))
       (op_bind (op_get (\<lambda>s. map_of (checkpoint_missing_since s) key)) (\<lambda>first.
          case first of
            None \<Rightarrow> op_return None
          | Some t0 \<Rightarrow> op_bind (op_time env) (\<lambda>now. op_return (Some (now - t0)))))"

definition act_on ::
  "op_env \<Rightarrow> partition_config \<Rightarrow> partition_state \<Rightarrow> scaling_decision \<Rightarrow> string \<Rightarrow> real \<Rightarrow> real \<Rightarrow>
   (op_state, unit) op" where
  "act_on env cfg st d key now cooldown_elapsed =
     op_bind (op_get (\<lambda>s. dict_get (provisioning_retry_at s) key 0)) (\<lambda>retry_at.
     op_bind (op_get (\<lambda>s. dict_has key (provisioning s))) (\<lambda>in_flight.
       if d_action d = ScaleUp \<and> now < retry_at then
         do_keep (keep_decision (current_replicas st) ''provisioning_retry_backoff'')
       else if d_action d = ScaleUp \<and> in_flight then
         op_then (op_emit ''scale_deferred'' ''provisioning_in_flight'')
           (do_keep (keep_decision (current_replicas st) ''provisioning_in_flight''))
       else if d_action d = ScaleUp then
         op_then (op_when (retry_at \<noteq> 0) (
             op_then (op_modify (\<lambda>s. s\<lparr>provisioning_retry_at := dict_pop key (provisioning_retry_at s)\<rparr>))
                     (set_annotation env key ProvisioningRetryAt AnnEmpty)))
           (do_scale_up env cfg st d key now)
       else if d_action d = ScaleDown then do_scale_down env cfg st d key cooldown_elapsed
       else do_keep d))"

definition process_pool_body ::
  "op_env \<Rightarrow> config \<Rightarrow> partition_config \<Rightarrow> (string, partition_state) dict \<Rightarrow> (op_state, unit) op" where
  "process_pool_body env oc cfg all_states =
     (let key = worker_statefulset cfg in
      case map_of all_states key of
        None \<Rightarrow> op_raise KeyError
      | Some st \<Rightarrow>
          op_bind (op_ready env key) (\<lambda>ready.
          op_then (track_provisioning env oc cfg key ready) (
          op_then (op_when (current_replicas st = 0 \<and> ready = 0 \<and> 0 < running_jobs st)
                     (op_emit ''ghost_jobs_detected'' '''')) (
          op_bind (op_checkpoint_age env (checkpoint_path cfg)) (\<lambda>age.
          op_bind (track_checkpoint env cfg key age) (\<lambda>missing_since.
          let d = evaluate (checkpoint_guard_enabled oc) cfg st age missing_since in
          op_bind (op_time env) (\<lambda>now.
          op_bind (op_get (\<lambda>s. map_of (last_scale_action_at s) key)) (\<lambda>last.
            case last of
              None \<Rightarrow> op_raise KeyError
            | Some t0 \<Rightarrow>
                op_then (op_emit ''loop_observation'' (d_reason d))
                  (act_on env cfg st d key now (now - t0))))))))))"

definition process_pool ::
  "op_env \<Rightarrow> config \<Rightarrow> partition_config \<Rightarrow> (string, partition_state) dict \<Rightarrow> (op_state, unit) op" where
  "process_pool env oc cfg all_states =
     op_catch (process_pool_body env oc cfg all_states) (\<lambda>_. op_emit ''error'' '''')"

end
