(* ===== verification/OpReconcilerFacts.thy ===== *)
theory OpReconcilerFacts
  imports OpReconciler
begin

text \<open>
  What a reconcile may do to the cluster. \<open>effs s0 Q s\<close> says that the calls recorded since \<open>s0\<close>
  all satisfy \<open>Q\<close>; it is an invariant of every computation whose calls do. On top of it: which
  replica patches a reconcile can issue, what a scale-down has observed before it patches, that
  a scale-up writes its marker first, and that the gates for provisioning in flight and for the
  retry backoff hold.
\<close>

section \<open>The record of calls\<close>

definition effs :: "op_state \<Rightarrow> (effect \<Rightarrow> bool) \<Rightarrow> op_state \<Rightarrow> bool" where
  "effs s0 Q s \<longleftrightarrow> os_calls s0 \<le> os_calls s \<and>
     (\<exists>ext. os_effects s = os_effects s0 @ ext \<and> (\<forall>x \<in> set ext. Q (fst x)))"

definition new_effects :: "op_state \<Rightarrow> op_state \<Rightarrow> effect list" where
  "new_effects s0 s = map fst (drop (length (os_effects s0)) (os_effects s))"

lemma effs_refl: "effs s Q s"
  by (simp add: effs_def)

lemma effs_new: "effs s0 Q s \<Longrightarrow> e \<in> set (new_effects s0 s) \<Longrightarrow> Q e"
  by (auto simp: effs_def new_effects_def)

lemma effs_weaken: "effs s0 Q s \<Longrightarrow> (\<And>e. Q e \<Longrightarrow> R e) \<Longrightarrow> effs s0 R s"
  unfolding effs_def by blast

text \<open>A state predicate that depends only on the dictionaries and holds of the effects.\<close>

lemma keeps_tick [op_keeps]: "(\<And>s. P s \<Longrightarrow> P (s\<lparr>os_calls := os_calls s + 1\<rparr>)) \<Longrightarrow> keeps P op_tick"
  by (rule keepsI) (auto simp: op_tick_def)

lemma effs_tick: "effs s0 Q s \<Longrightarrow> effs s0 Q (s\<lparr>os_calls := os_calls s + 1\<rparr>)"
  by (auto simp: effs_def)

lemma effs_append: "effs s0 Q s \<Longrightarrow> Q e \<Longrightarrow> effs s0 Q (s\<lparr>os_effects := os_effects s @ [(e, b)]\<rparr>)"
proof -
  assume "effs s0 Q s" "Q e"
  then obtain ext where "os_effects s = os_effects s0 @ ext" "\<forall>x \<in> set ext. Q (fst x)" "os_calls s0 \<le> os_calls s"
    by (auto simp: effs_def)
  with \<open>Q e\<close> show ?thesis
    unfolding effs_def by (intro conjI exI [where x = "ext @ [(e, b)]"]) auto
qed

lemma keeps_call [op_keeps]: "Q e \<Longrightarrow> keeps (effs s0 Q) (op_call env e)"
  unfolding op_call_def by (intro op_keeps effs_tick effs_append)

lemma keeps_time [op_keeps]: "keeps (effs s0 Q) (op_time env)"
  unfolding op_time_def by (intro op_keeps effs_tick)

lemma keeps_ready [op_keeps]: "keeps (effs s0 Q) (op_ready env key)"
  unfolding op_ready_def by (intro op_keeps effs_tick)

lemma keeps_cpu_alloc [op_keeps]: "keeps (effs s0 Q) (op_cpu_alloc env n)"
  unfolding op_cpu_alloc_def by (intro op_keeps effs_tick)

lemma keeps_checkpoint_age [op_keeps]: "keeps (effs s0 Q) (op_checkpoint_age env p)"
  unfolding op_checkpoint_age_def by (intro op_keeps effs_tick)

lemma keeps_emit [op_keeps]: "keeps (effs s0 Q) (op_emit e r)"
  unfolding op_emit_def by (intro op_keeps) (simp add: effs_def)

lemma keeps_set_annotation [op_keeps]:
  "Q (Annotate key name v) \<Longrightarrow> keeps (effs s0 Q) (set_annotation env key name v)"
  unfolding set_annotation_def by (intro op_keeps)

lemma keeps_dicts [op_keeps]:
  "(\<And>s. os_effects (f s) = os_effects s \<and> os_calls (f s) = os_calls s) \<Longrightarrow> keeps (effs s0 Q) (op_modify f)"
  by (intro keeps_modify) (simp add: effs_def)

section \<open>The calls of each part\<close>

text \<open>The shape of the calls a scale-up, a scale-down, the end and the rollback of a provisioning
  make.\<close>

fun is_patch :: "effect \<Rightarrow> bool" where
  "is_patch (Patch k n) = True"
| "is_patch _ = False"

lemma keeps_do_keep [op_keeps]: "keeps (effs s0 Q) (do_keep d)"
  unfolding do_keep_def by (intro op_keeps)

lemma keeps_scale_up:
  assumes "\<And>e. \<not> is_patch e \<Longrightarrow> Q e" "Q (Patch (worker_statefulset cfg) (target_replicas d))"
  shows "keeps (effs s0 Q) (do_scale_up env cfg st d key now)"
  unfolding do_scale_up_def by (intro op_keeps assms) simp_all

lemma keeps_force_kill_node:
  assumes "\<And>e. \<not> is_patch e \<Longrightarrow> Q e"
  shows "keeps (effs s0 Q) (force_kill_node env cfg started now_ts n)"
  unfolding force_kill_node_def by (intro op_keeps assms) simp_all

lemma keeps_force_kill_all:
  assumes "\<And>e. \<not> is_patch e \<Longrightarrow> Q e"
  shows "keeps (effs s0 Q) (force_kill_all env cfg started now_ts ns)"
  by (induction ns) (auto intro!: op_keeps keeps_force_kill_node assms)

lemma keeps_drain_new:
  assumes "\<And>e. \<not> is_patch e \<Longrightarrow> Q e"
  shows "keeps (effs s0 Q) (drain_new env key now_ts ns)"
  unfolding drain_new_def by (intro op_keeps assms) simp_all

lemma keeps_node_idle [op_keeps]: "keeps (effs s0 Q) (node_idle env killed n)"
  unfolding node_idle_def by (intro op_keeps)

lemma keeps_finish_scale_down:
  assumes "\<And>e. \<not> is_patch e \<Longrightarrow> Q e" "Q (Patch (worker_statefulset cfg) (target_replicas d))"
  shows "keeps (effs s0 Q) (finish_scale_down env cfg d key now_ts ns)"
  unfolding finish_scale_down_def by (intro op_keeps assms) simp_all

lemma keeps_finish_provisioning:
  assumes "\<And>e. \<not> is_patch e \<Longrightarrow> Q e"
  shows "keeps (effs s0 Q) (finish_provisioning env cfg key f t)"
  unfolding finish_provisioning_def by (intro op_keeps assms) simp_all

lemma keeps_rollback:
  assumes "\<And>e. \<not> is_patch e \<Longrightarrow> Q e" "Q (Patch key f)"
  shows "keeps (effs s0 Q) (rollback_provisioning env oc cfg key f t)"
  unfolding rollback_provisioning_def Let_def by (intro op_keeps assms) simp_all

lemma keeps_track_checkpoint [op_keeps]: "keeps (effs s0 Q) (track_checkpoint env cfg key age)"
  unfolding track_checkpoint_def by (intro op_keeps) simp_all

lemma keeps_scale_down:
  assumes "\<And>e. \<not> is_patch e \<Longrightarrow> Q e"
    "running_jobs st \<le> 0 \<Longrightarrow> of_int (scale_down_cooldown cfg) \<le> el \<Longrightarrow>
      Q (Patch (worker_statefulset cfg) (target_replicas d))"
  shows "keeps (effs s0 Q) (do_scale_down env cfg st d key el)"
  unfolding do_scale_down_def Let_def
  by (intro op_keeps assms keeps_drain_new keeps_force_kill_all keeps_finish_scale_down) simp_all


section \<open>Predicates that the observations do not touch\<close>

text \<open>\<open>mild P\<close>: \<open>P\<close> does not depend on the call counter, the log and the checkpoint tracking;
  \<open>blind P\<close>: nor on the recorded effects.\<close>

definition mild :: "(op_state \<Rightarrow> bool) \<Rightarrow> bool" where
  "mild P \<longleftrightarrow> (\<forall>s. P s \<longrightarrow> P (s\<lparr>os_calls := os_calls s + 1\<rparr>) \<and> (\<forall>x. P (s\<lparr>os_events := x\<rparr>)) \<and>
     (\<forall>x. P (s\<lparr>checkpoint_missing_since := x\<rparr>)))"

lemma mild_tick: "mild P \<Longrightarrow> keeps P op_tick"
  by (rule keepsI) (auto simp: op_tick_def mild_def)

lemma mild_keeps:
  assumes "mild P"
  shows "keeps P (op_time env)" "keeps P (op_ready env key)" "keeps P (op_cpu_alloc env n)"
    "keeps P (op_checkpoint_age env p)" "keeps P (op_emit e r)" "keeps P (do_keep d)"
    "keeps P (track_checkpoint env cfg key age)"
proof -
  note tick = mild_tick [OF assms]
  show t: "keeps P (op_time env)"
    unfolding op_time_def by (intro keeps_bind tick keeps_return)
  show "keeps P (op_ready env key)"
    unfolding op_ready_def by (intro keeps_bind tick keeps_return)
  show "keeps P (op_cpu_alloc env n)"
    unfolding op_cpu_alloc_def by (intro keeps_bind tick keeps_if keeps_return keeps_raise)
  show "keeps P (op_checkpoint_age env p)"
    unfolding op_checkpoint_age_def by (intro keeps_bind tick keeps_if keeps_return keeps_raise)
  have emit: "keeps P (op_emit e r)" for e r
    using assms unfolding op_emit_def by (intro keeps_modify) (simp add: mild_def)
  show "keeps P (op_emit e r)"
    by (rule emit)
  show "keeps P (do_keep d)"
    unfolding do_keep_def by (intro keeps_then emit)
  have ckpt: "keeps P (op_modify (\<lambda>s. s\<lparr>checkpoint_missing_since := f s\<rparr>))" for f
    using assms by (intro keeps_modify) (simp add: mild_def)
  show "keeps P (track_checkpoint env cfg key age)"
    unfolding track_checkpoint_def
    by (intro keeps_bind keeps_then keeps_if keeps_option keeps_return keeps_get ckpt t)
qed

section \<open>A reconcile never raises\<close>

lemma process_pool_returns: "\<exists>s'. process_pool env oc cfg all_states s = (Inr (), s')"
  by (simp add: process_pool_def op_catch_def op_emit_def op_modify_def split: prod.splits sum.splits)

lemma process_pool_unknown:
  assumes "map_of all_states (worker_statefulset cfg) = None"
  shows "process_pool env oc cfg all_states s = (Inr (), s\<lparr>os_events := os_events s @ [(''error'', '''')]\<rparr>)"
  using assms by (simp add: process_pool_def process_pool_body_def op_catch_def op_raise_def
      op_emit_def op_modify_def)

section \<open>Which patches a reconcile issues\<close>

lemma mild_effs_const: "mild (\<lambda>s. effs s0 Q s \<and> provisioning s = p0 \<and> provisioning_retry_at s = r0)"
  by (auto simp: mild_def effs_def)

lemma track_provisioning_effs:
  assumes "\<And>e. \<not> is_patch e \<Longrightarrow> Q e" "\<And>t f tgt. map_of p0 key = Some (t, f, tgt) \<Longrightarrow> Q (Patch key f)"
  shows "op_triple (\<lambda>s. effs s0 Q s \<and> provisioning s = p0) (track_provisioning env oc cfg key ready)
    (\<lambda>_. effs s0 Q) (effs s0 Q)"
proof -
  have branch: "keeps (effs s0 Q) (case marker of
         None \<Rightarrow> op_return ()
       | Some (prov_start, prov_from, prov_target) \<Rightarrow>
           if prov_target \<le> ready then
             op_bind (op_time env) (\<lambda>_. finish_provisioning env cfg key prov_from prov_target)
           else if 0 < provisioning_timeout_seconds oc then
             op_bind (op_time env) (\<lambda>now.
               op_when (of_int (provisioning_timeout_seconds oc) \<le> now - prov_start)
                 (rollback_provisioning env oc cfg key prov_from prov_target))
           else op_return ())"
    if m: "marker = map_of p0 key" for marker
  proof (cases marker)
    case None
    then show ?thesis
      by (simp add: keeps_return)
  next
    case (Some mk)
    obtain t f tgt where mk: "mk = (t, f, tgt)"
      by (cases mk)
    have "Q (Patch key f)"
      by (rule assms(2)) (unfold m [symmetric] Some mk, rule refl)
    then show ?thesis
      unfolding Some mk option.case prod.case
      by (intro op_keeps keeps_finish_provisioning [OF assms(1)] keeps_rollback [OF assms(1)])
  qed
  show ?thesis
    unfolding track_provisioning_def
    by (rule triple_bind [where R = "\<lambda>m s. effs s0 Q s \<and> m = map_of p0 key"])
      (rule triple_get, simp, rule triple_pure, erule branch [unfolded keeps_def])
qed

lemma act_on_effs:
  assumes "\<And>e. \<not> is_patch e \<Longrightarrow> Q e"
    "d_action d = ScaleUp \<Longrightarrow> Q (Patch (worker_statefulset cfg) (target_replicas d))"
    "d_action d = ScaleDown \<Longrightarrow> running_jobs st \<le> 0 \<Longrightarrow> of_int (scale_down_cooldown cfg) \<le> el \<Longrightarrow>
      Q (Patch (worker_statefulset cfg) (target_replicas d))"
  shows "keeps (effs s0 Q) (act_on env cfg st d key now el)"
  unfolding act_on_def by (intro op_keeps keeps_scale_up keeps_scale_down assms) simp_all

text \<open>The whole reconcile: a patch addresses the pool, and either undoes a provisioning that the
  pool had in flight or is the target of the policy.\<close>

lemma process_pool_patches:
  assumes st: "map_of all_states (worker_statefulset cfg) = Some st"
    and run: "process_pool env oc cfg all_states s = (r, s')"
    and patch: "Patch k n \<in> set (new_effects s s')"
  shows "k = worker_statefulset cfg \<and>
    ((\<exists>t tgt. map_of (provisioning s) k = Some (t, n, tgt)) \<or>
     (n = target_replicas (evaluate g cfg st age missing) \<and>
      (current_replicas st < n \<or> (n < current_replicas st \<and> running_jobs st \<le> 0))))"
proof -
  let ?key = "worker_statefulset cfg"
  define Q where "Q e \<longleftrightarrow> (\<forall>k n. e = Patch k n \<longrightarrow> k = ?key \<and>
    ((\<exists>t tgt. map_of (provisioning s) k = Some (t, n, tgt)) \<or>
     (n = target_replicas (evaluate g cfg st age missing) \<and>
      (current_replicas st < n \<or> (n < current_replicas st \<and> running_jobs st \<le> 0)))))" for e
  have np: "Q e" if "\<not> is_patch e" for e
    using that by (auto simp: Q_def)
  have dec: "evaluate (checkpoint_guard_enabled oc) cfg st a m = evaluate g cfg st age missing" for a m
    by (rule evaluate_ignores)
  have act: "keeps (effs s Q) (act_on env cfg st (evaluate g cfg st age missing) ?key now el)" for now el
    by (rule act_on_effs) (auto simp: Q_def np evaluate_def Let_def split: if_splits)
  have "op_triple (\<lambda>s'. effs s Q s' \<and> provisioning s' = provisioning s \<and>
      provisioning_retry_at s' = provisioning_retry_at s)
      (process_pool_body env oc cfg all_states) (\<lambda>_. effs s Q) (effs s Q)"
  proof -
    have ready: "op_triple (\<lambda>s'. effs s Q s' \<and> provisioning s' = provisioning s \<and>
        provisioning_retry_at s' = provisioning_retry_at s) (op_ready env ?key)
        (\<lambda>_ s'. effs s Q s' \<and> provisioning s' = provisioning s) (effs s Q)"
      by (rule triple_conseq [OF mild_keeps(2) [OF mild_effs_const, unfolded keeps_def]]) auto
    have track: "op_triple (\<lambda>s'. effs s Q s' \<and> provisioning s' = provisioning s)
        (track_provisioning env oc cfg ?key ready) (\<lambda>_. effs s Q) (effs s Q)" for ready
      by (rule track_provisioning_effs [OF np]) (auto simp: Q_def)
    have rest: "keeps (effs s Q) (op_then (op_when (current_replicas st = 0 \<and> ready = 0 \<and> 0 < running_jobs st)
                     (op_emit ''ghost_jobs_detected'' '''')) (
          op_bind (op_checkpoint_age env (checkpoint_path cfg)) (\<lambda>age'.
          op_bind (track_checkpoint env cfg ?key age') (\<lambda>missing_since.
          op_bind (op_time env) (\<lambda>now.
          op_bind (op_get (\<lambda>s. map_of (last_scale_action_at s) ?key)) (\<lambda>last.
            case last of
              None \<Rightarrow> op_raise KeyError
            | Some t0 \<Rightarrow>
                op_then (op_emit ''loop_observation'' (d_reason (evaluate g cfg st age missing)))
                  (act_on env cfg st (evaluate g cfg st age missing) ?key now (now - t0))))))))" for ready
      by (intro op_keeps act)
    show ?thesis
      unfolding process_pool_body_def Let_def st option.case dec
      by (rule triple_bind [OF ready], rule triple_then [OF track]) (use rest in \<open>simp add: keeps_def\<close>)
  qed
  then have tri: "op_triple (\<lambda>s'. effs s Q s' \<and> provisioning s' = provisioning s \<and>
      provisioning_retry_at s' = provisioning_retry_at s)
      (process_pool env oc cfg all_states) (\<lambda>_. effs s Q) (effs s Q)"
    unfolding process_pool_def by (rule triple_catch [OF _ keeps_emit [unfolded keeps_def]])
  have "process_pool env oc cfg all_states s = (Inr (), s')"
    using run process_pool_returns [of env oc cfg all_states s] by auto
  from triple_Inr [OF tri _ this] have "effs s Q s'"
    by (simp add: effs_refl)
  then have "Q (Patch k n)"
    using patch by (rule effs_new)
  then show ?thesis
    unfolding Q_def by blast
qed

section \<open>What a scale-down has seen before it patches\<close>

text \<open>\<open>idle_seen env s0 n\<close>: some answer since \<open>s0\<close> said that no CPU of the node is allocated.
  The calls so far cancel the jobs of every node the force-kill loop reports as killed.\<close>

definition idle_seen :: "op_env \<Rightarrow> op_state \<Rightarrow> string \<Rightarrow> bool" where
  "idle_seen env s0 n \<longleftrightarrow> (\<exists>i\<ge>os_calls s0. \<not> env_fails env i \<and> env_alloc env i n = 0)"

definition cancelled :: "op_state \<Rightarrow> op_state \<Rightarrow> string \<Rightarrow> bool" where
  "cancelled s0 s n \<longleftrightarrow> CancelJobs n \<in> set (new_effects s0 s)"

definition trace_ext :: "op_state \<Rightarrow> op_state \<Rightarrow> bool" where
  "trace_ext s0 s \<longleftrightarrow> effs s0 (\<lambda>_. True) s"

lemma new_effects_append:
  "effs s0 Q s \<Longrightarrow> new_effects s0 (s\<lparr>os_effects := os_effects s @ [(e, b)]\<rparr>) = new_effects s0 s @ [e]"
  by (auto simp: effs_def new_effects_def)

text \<open>Predicates that survive any further call.\<close>

definition grows :: "(op_state \<Rightarrow> bool) \<Rightarrow> bool" where
  "grows P \<longleftrightarrow> mild P \<and> (\<forall>s e b. P s \<longrightarrow> P (s\<lparr>os_effects := os_effects s @ [(e, b)]\<rparr>))"

lemma grows_call: "grows P \<Longrightarrow> keeps P (op_call env e)"
  unfolding op_call_def
  by (intro keeps_bind keeps_then keeps_if keeps_return keeps_raise mild_tick keeps_modify)
    (auto simp: grows_def)

lemma grows_cancelled: "grows (\<lambda>s. trace_ext s0 s \<and> cancelled s0 s n)"
  by (auto simp: grows_def mild_def trace_ext_def cancelled_def new_effects_append effs_append effs_tick)
    (auto simp: effs_def new_effects_def)

lemma grows_trace: "grows (trace_ext s0)"
  by (auto simp: grows_def mild_def trace_ext_def effs_append effs_tick) (auto simp: effs_def)

definition seen :: "op_state \<Rightarrow> string list \<Rightarrow> op_state \<Rightarrow> bool" where
  "seen s0 ns s \<longleftrightarrow> trace_ext s0 s \<and> (\<forall>n \<in> set ns. cancelled s0 s n)"

lemma grows_seen: "grows (seen s0 ns)"
  using grows_trace [of s0] grows_cancelled [of s0] by (simp add: grows_def mild_def seen_def)

lemma mild_seen: "mild (seen s0 ns)"
  using grows_seen by (simp add: grows_def)

lemma seen_trace: "seen s0 ns s \<Longrightarrow> trace_ext s0 s"
  by (simp add: seen_def)

lemma seen_mono: "seen s0 ns s \<Longrightarrow> set ms \<subseteq> set ns \<Longrightarrow> seen s0 ms s"
  by (auto simp: seen_def)

lemma triple_cancel:
  "op_triple (seen s0 ns) (op_call env (CancelJobs n)) (\<lambda>_. seen s0 (n # ns)) (seen s0 (n # ns))"
proof -
  have step: "seen s0 (n # ns) (s\<lparr>os_calls := os_calls s + 1, os_effects := os_effects s @ [(CancelJobs n, b)]\<rparr>)"
    if "seen s0 ns s" for s b
  proof -
    have "seen s0 ns (s\<lparr>os_calls := os_calls s + 1\<rparr>)"
      using that mild_seen by (auto simp: mild_def)
    then have "seen s0 ns (s\<lparr>os_calls := os_calls s + 1, os_effects := os_effects s @ [(CancelJobs n, b)]\<rparr>)"
      using grows_seen [of s0 ns] by (fastforce simp: grows_def)
    moreover have "effs s0 (\<lambda>_. True) (s\<lparr>os_calls := os_calls s + 1\<rparr>)"
      using that by (intro effs_tick) (simp add: seen_def trace_ext_def)
    ultimately show ?thesis
      using new_effects_append [of s0 _ "s\<lparr>os_calls := os_calls s + 1\<rparr>" "CancelJobs n" b]
      by (simp add: seen_def cancelled_def)
  qed
  show ?thesis
    by (rule tripleI)
      (auto simp: op_call_def op_tick_def op_defs split: if_splits dest: step [of _ True] step [of _ False])
qed

lemma triple_keeps: "keeps P m \<Longrightarrow> (\<And>s. P s \<Longrightarrow> E s) \<Longrightarrow> op_triple P m (\<lambda>_. P) E"
  unfolding keeps_def by (erule triple_conseq) auto

lemma triple_force_kill_node:
  "op_triple (seen s0 ns) (force_kill_node env cfg started now_ts n)
     (\<lambda>b. seen s0 (if b then n # ns else ns)) (trace_ext s0)"
proof -
  have kill: "op_triple (seen s0 ns) (op_ignore (op_then (op_call env (CancelJobs n))
      (op_call env (Down n ''drain-timeout'')))) (\<lambda>_. seen s0 (n # ns)) (trace_ext s0)"
    by (rule triple_ignore, rule triple_then [OF triple_cancel])
      (use grows_call [OF grows_seen] in \<open>simp add: keeps_def\<close>)
  have emit: "op_triple (seen s0 (n # ns)) (op_emit e r) (\<lambda>_. seen s0 (n # ns)) (trace_ext s0)" for e r
    by (rule triple_keeps [OF mild_keeps(5) [OF mild_seen] seen_trace])
  have alloc: "op_triple (seen s0 ns) (op_cpu_alloc env n) (\<lambda>_. seen s0 ns) (trace_ext s0)"
    by (rule triple_keeps [OF mild_keeps(3) [OF mild_seen] seen_trace])
  show ?thesis
  proof (cases "map_of started n")
    case None
    then show ?thesis
      by (simp add: force_kill_node_def triple_return)
  next
    case (Some t)
    show ?thesis
      unfolding force_kill_node_def Some option.case
      by (rule triple_bind [OF alloc])
        (auto intro!: triple_if triple_return triple_bind [OF kill] triple_bind [OF emit])
  qed
qed

lemma triple_force_kill_all:
  "op_triple (seen s0 []) (force_kill_all env cfg started now_ts ns) (\<lambda>ks. seen s0 ks) (trace_ext s0)"
proof -
  have "op_triple (seen s0 ks) (force_kill_all env cfg started now_ts ns)
      (\<lambda>ks'. seen s0 (ks' @ ks)) (trace_ext s0)" for ks
  proof (induction ns arbitrary: ks)
    case Nil
    show ?case by (simp add: triple_return)
  next
    case (Cons n ns)
    have "op_triple (seen s0 (if b then n # ks else ks)) (op_bind (force_kill_all env cfg started now_ts ns)
        (\<lambda>rest. op_return (if b then n # rest else rest))) (\<lambda>ks'. seen s0 (ks' @ ks)) (trace_ext s0)" for b
      by (rule triple_bind [OF Cons.IH]) (auto intro!: triple_return elim: seen_mono)
    then show ?case
      unfolding force_kill_all.simps by (rule triple_bind [OF triple_force_kill_node])
  qed
  from this [of "[]"] show ?thesis
    by simp
qed

definition released :: "op_env \<Rightarrow> op_state \<Rightarrow> string list \<Rightarrow> string \<Rightarrow> bool" where
  "released env s0 killed n \<longleftrightarrow> n \<in> set killed \<or> idle_seen env s0 n"

lemma triple_node_idle:
  "op_triple (seen s0 ks) (node_idle env ks n) (\<lambda>b s. seen s0 ks s \<and> (b \<longrightarrow> released env s0 ks n)) (trace_ext s0)"
proof (cases "n \<in> set ks")
  case True
  then show ?thesis
    by (auto simp: node_idle_def released_def intro: triple_return)
next
  case False
  have "op_triple (seen s0 ks) (op_cpu_alloc env n)
      (\<lambda>a s. seen s0 ks s \<and> (a = 0 \<longrightarrow> idle_seen env s0 n)) (trace_ext s0)"
  proof (rule tripleI)
    fix s a s' assume "seen s0 ks s" "op_cpu_alloc env n s = (Inr a, s')"
    then show "seen s0 ks s' \<and> (a = 0 \<longrightarrow> idle_seen env s0 n)"
      using mild_seen [of s0 ks]
      by (auto simp: op_cpu_alloc_def op_tick_def op_defs idle_seen_def mild_def seen_def trace_ext_def
          effs_def split: if_splits)
  next
    fix s e s' assume "seen s0 ks s" "op_cpu_alloc env n s = (Inl e, s')"
    then show "trace_ext s0 s'"
      by (auto simp: op_cpu_alloc_def op_tick_def op_defs seen_def trace_ext_def effs_def split: if_splits)
  qed
  then show ?thesis
    using False unfolding node_idle_def
    by (auto intro!: triple_bind triple_return simp: released_def)
qed

lemma triple_all_idle:
  "op_triple (seen s0 ks) (op_all ns (node_idle env ks))
     (\<lambda>b s. seen s0 ks s \<and> (b \<longrightarrow> (\<forall>n \<in> set ns. released env s0 ks n))) (trace_ext s0)"
proof (induction ns)
  case Nil
  show ?case by (simp add: triple_return)
next
  case (Cons n ns)
  have "op_triple (\<lambda>s. seen s0 ks s \<and> (b \<longrightarrow> released env s0 ks n))
      (if b then op_all ns (node_idle env ks) else op_return False)
      (\<lambda>b' s. seen s0 ks s \<and> (b' \<longrightarrow> (\<forall>m \<in> set (n # ns). released env s0 ks m))) (trace_ext s0)" for b
    by (cases b) (auto intro!: triple_pure triple_return Cons.IH)
  then show ?case
    unfolding op_all.simps by (rule triple_bind [OF triple_node_idle])
qed

lemma triple_conj:
  "op_triple P m Q E \<Longrightarrow> op_triple P' m Q' E' \<Longrightarrow>
     op_triple (\<lambda>s. P s \<and> P' s) m (\<lambda>x s. Q x s \<and> Q' x s) (\<lambda>s. E s \<and> E' s)"
  by (rule tripleI) (auto dest: triple_Inr triple_Inl)

abbreviation no_patch :: "op_state \<Rightarrow> op_state \<Rightarrow> bool" where
  "no_patch s0 \<equiv> effs s0 (\<lambda>e. \<not> is_patch e)"

lemma no_patch_seen: "no_patch s0 s \<Longrightarrow> seen s0 [] s"
  by (auto simp: seen_def trace_ext_def elim: effs_weaken)

definition justified ::
  "op_env \<Rightarrow> partition_config \<Rightarrow> partition_state \<Rightarrow> scaling_decision \<Rightarrow> real \<Rightarrow> op_state \<Rightarrow> string list \<Rightarrow>
   effect \<Rightarrow> bool" where
  "justified env cfg st d el s0 ks e \<longleftrightarrow>
     (is_patch e \<longrightarrow> e = Patch (worker_statefulset cfg) (target_replicas d) \<and> running_jobs st \<le> 0 \<and>
        of_int (scale_down_cooldown cfg) \<le> el \<and>
        (\<forall>n \<in> set (nodes_between cfg (target_replicas d) (current_replicas st)). released env s0 ks n))"

definition scale_down_post where
  "scale_down_post env cfg st d el s0 s \<longleftrightarrow> (\<exists>ks. seen s0 ks s \<and> effs s0 (justified env cfg st d el s0 ks) s)"

lemma no_patch_post: "no_patch s0 s \<Longrightarrow> scale_down_post env cfg st d el s0 s"
  unfolding scale_down_post_def
  by (intro exI [where x = "[]"] conjI no_patch_seen) (auto simp: justified_def elim: effs_weaken)

lemma seen_np: "op_triple (seen s0 ks) m Q (trace_ext s0) \<Longrightarrow> keeps (no_patch s0) m \<Longrightarrow>
    op_triple (\<lambda>s. no_patch s0 s \<and> seen s0 ks s) m (\<lambda>x s. no_patch s0 s \<and> Q x s)
      (scale_down_post env cfg st d el s0)"
  unfolding keeps_def by (drule (1) triple_conj [rotated]) (auto elim: triple_conseq intro: no_patch_post)

lemma triple_finish_scale_down:
  assumes ok: "running_jobs st \<le> 0" "of_int (scale_down_cooldown cfg) \<le> el"
    "\<forall>n \<in> set (nodes_between cfg (target_replicas d) (current_replicas st)). released env s0 ks n"
  shows "op_triple (\<lambda>s. no_patch s0 s \<and> seen s0 ks s) (finish_scale_down env cfg d key now_ts ns)
    (\<lambda>_. scale_down_post env cfg st d el s0) (scale_down_post env cfg st d el s0)"
proof -
  let ?J = "justified env cfg st d el s0 ks"
  have "keeps (effs s0 ?J) (finish_scale_down env cfg d key now_ts ns)"
    using ok by (intro keeps_finish_scale_down) (simp_all add: justified_def)
  moreover have "keeps (seen s0 ks) (finish_scale_down env cfg d key now_ts ns)"
    unfolding finish_scale_down_def
    by (intro keeps_then keeps_for keeps_ignore grows_call grows_seen mild_keeps mild_seen keeps_modify)
      (simp add: seen_def trace_ext_def effs_def cancelled_def new_effects_def)
  ultimately have "op_triple (\<lambda>s. effs s0 ?J s \<and> seen s0 ks s) (finish_scale_down env cfg d key now_ts ns)
      (\<lambda>_ s. effs s0 ?J s \<and> seen s0 ks s) (\<lambda>s. effs s0 ?J s \<and> seen s0 ks s)"
    unfolding keeps_def by (rule triple_conj)
  then show ?thesis
    by (rule triple_conseq) (auto simp: scale_down_post_def justified_def elim: effs_weaken)
qed

lemma do_scale_down_post:
  "op_triple (no_patch s0) (do_scale_down env cfg st d key el)
     (\<lambda>_. scale_down_post env cfg st d el s0) (scale_down_post env cfg st d el s0)"
proof -
  have kp: "keeps (no_patch s0) m \<Longrightarrow> op_triple (no_patch s0) m (\<lambda>_. no_patch s0) (scale_down_post env cfg st d el s0)"
    and kp': "keeps (no_patch s0) m' \<Longrightarrow> op_triple (no_patch s0) m' (\<lambda>_. scale_down_post env cfg st d el s0)
      (scale_down_post env cfg st d el s0)" for m :: "(op_state, 'x) op" and m' :: "(op_state, 'y) op"
    unfolding keeps_def by (auto elim: triple_conseq intro: no_patch_post)
  have np: "\<not> is_patch e \<Longrightarrow> \<not> is_patch e" for e .
  have tail: "op_triple (no_patch s0)
      (op_bind (if 0 < drain_timeout_seconds cfg
                  then force_kill_all env cfg started now_ts draining else op_return []) (\<lambda>killed.
         op_bind (op_all draining (node_idle env killed)) (\<lambda>all_idle.
           if all_idle then finish_scale_down env cfg d key now_ts (nodes_between cfg (target_replicas d) (current_replicas st))
           else op_emit ''scale_skipped'' ''waiting_for_drain'')))
      (\<lambda>_. scale_down_post env cfg st d el s0) (scale_down_post env cfg st d el s0)"
    if ok: "running_jobs st \<le> 0" "of_int (scale_down_cooldown cfg) \<le> el"
      and sub: "set (nodes_between cfg (target_replicas d) (current_replicas st)) \<subseteq> set draining"
    for started now_ts draining
  proof (rule triple_bind)
    show "op_triple (no_patch s0) (if 0 < drain_timeout_seconds cfg
        then force_kill_all env cfg started now_ts draining else op_return [])
        (\<lambda>ks s. no_patch s0 s \<and> seen s0 ks s) (scale_down_post env cfg st d el s0)"
      by (rule triple_conseq [OF triple_if [OF seen_np [OF triple_force_kill_all keeps_force_kill_all [OF np]]
            triple_return]]) (auto intro: no_patch_seen)
    have fin: "op_triple (\<lambda>s. no_patch s0 s \<and> seen s0 ks s \<and> (b \<longrightarrow> (\<forall>n \<in> set draining. released env s0 ks n)))
        (if b then finish_scale_down env cfg d key now_ts (nodes_between cfg (target_replicas d) (current_replicas st))
         else op_emit ''scale_skipped'' ''waiting_for_drain'')
        (\<lambda>_. scale_down_post env cfg st d el s0) (scale_down_post env cfg st d el s0)" for ks b
    proof (cases b)
      case True
      show ?thesis
        unfolding if_P [OF True]
        by (rule triple_conseq [OF triple_pure [OF triple_finish_scale_down [OF ok],
              of "\<forall>n \<in> set draining. released env s0 ks n"]]) (use True sub in auto)
    next
      case False
      show ?thesis
        unfolding if_not_P [OF False]
        by (rule triple_conseq [OF kp' [OF keeps_emit]]) auto
    qed
    show "op_triple (\<lambda>s. no_patch s0 s \<and> seen s0 killed s)
        (op_bind (op_all draining (node_idle env killed)) (\<lambda>all_idle.
           if all_idle then finish_scale_down env cfg d key now_ts (nodes_between cfg (target_replicas d) (current_replicas st))
           else op_emit ''scale_skipped'' ''waiting_for_drain''))
        (\<lambda>_. scale_down_post env cfg st d el s0) (scale_down_post env cfg st d el s0)" for killed
      by (rule triple_bind [OF seen_np [OF triple_all_idle keeps_all [OF keeps_node_idle]] fin])
  qed
  show ?thesis
    unfolding do_scale_down_def Let_def
    by (intro triple_if kp' keeps_emit triple_bind [OF kp [OF keeps_get]] triple_then [OF kp [OF keeps_dicts]]
        triple_bind [OF kp [OF keeps_time]] triple_then [OF kp [OF keeps_drain_new [OF np]]]
        triple_then [OF kp [OF keeps_when]] keeps_then keeps_dicts tail) auto
qed

text \<open>A scale-down that patches does so with no running job, after the cooldown, and for each node
  it removes it has either seen no allocated CPU or cancelled its jobs.\<close>

lemma do_scale_down_safe:
  assumes "do_scale_down env cfg st d key el s = (r, s')" "Patch k n \<in> set (new_effects s s')"
  shows "k = worker_statefulset cfg \<and> n = target_replicas d \<and> running_jobs st \<le> 0 \<and>
    of_int (scale_down_cooldown cfg) \<le> el \<and>
    (\<forall>i. n \<le> i \<and> i < current_replicas st \<longrightarrow>
       idle_seen env s (node_name k i) \<or> CancelJobs (node_name k i) \<in> set (new_effects s s'))"
proof -
  have "scale_down_post env cfg st d el s s'"
    using assms(1) triple_Inr [OF do_scale_down_post effs_refl, of env cfg st d key el s]
      triple_Inl [OF do_scale_down_post effs_refl, of env cfg st d key el s]
    by (cases r) simp_all
  then obtain ks where ks: "seen s ks s'" "effs s (justified env cfg st d el s ks) s'"
    by (auto simp: scale_down_post_def)
  have "justified env cfg st d el s ks (Patch k n)"
    by (rule effs_new [OF ks(2) assms(2)])
  then show ?thesis
    using ks(1) by (auto simp: justified_def released_def seen_def cancelled_def nodes_between_def)
qed

section \<open>The gates\<close>

text \<open>While a provisioning is in flight, neither complete nor timed out, no reconcile raises the
  replicas; nor while the retry backoff lasts.\<close>

definition no_raise :: "partition_state \<Rightarrow> effect \<Rightarrow> bool" where
  "no_raise st e \<longleftrightarrow> (\<forall>k n. e = Patch k n \<longrightarrow> n < current_replicas st)"

definition gate :: "op_state \<Rightarrow> partition_state \<Rightarrow> (string, real \<times> int \<times> int) dict \<Rightarrow> (string, real) dict \<Rightarrow>
    op_state \<Rightarrow> bool" where
  "gate s0 st p r s \<longleftrightarrow> effs s0 (no_raise st) s \<and> provisioning s = p \<and> provisioning_retry_at s = r"

lemma mild_gate: "mild (gate s0 st p r)"
  by (auto simp: mild_def gate_def effs_def)

definition blocked :: "op_env \<Rightarrow> config \<Rightarrow> string \<Rightarrow> (string, real \<times> int \<times> int) dict \<Rightarrow> (string, real) dict \<Rightarrow> bool" where
  "blocked env oc key p r \<longleftrightarrow>
     (\<exists>t f tgt. map_of p key = Some (t, f, tgt) \<and> 0 < tgt \<and> (\<forall>i. env_ready env i key < tgt) \<and>
        (\<forall>i. provisioning_timeout_seconds oc \<le> 0 \<or>
           env_clock env i - t < of_int (provisioning_timeout_seconds oc))) \<or>
     (map_of p key = None \<and> (\<forall>i. env_clock env i < dict_get r key 0))"

lemma ready_bound:
  "op_triple (gate s0 st p r) (op_ready env key)
     (\<lambda>x s. gate s0 st p r s \<and> (\<exists>i. x = env_ready env i key \<or> x = 0)) (gate s0 st p r)"
  by (rule tripleI)
    (auto simp: op_ready_def op_tick_def op_defs gate_def effs_def split: if_splits)

lemma time_bound:
  "op_triple (gate s0 st p r) (op_time env) (\<lambda>x s. gate s0 st p r s \<and> (\<exists>i. x = env_clock env i)) (gate s0 st p r)"
  by (rule tripleI) (auto simp: op_time_def op_tick_def op_defs gate_def effs_def)

lemma blocked_track:
  assumes "blocked env oc key p r" "\<exists>i. ready = env_ready env i key \<or> ready = 0"
  shows "op_triple (gate s0 st p r) (track_provisioning env oc cfg key ready) (\<lambda>_. gate s0 st p r) (gate s0 st p r)"
proof -
  let ?body = "\<lambda>marker. case marker of
         None \<Rightarrow> op_return ()
       | Some (prov_start, prov_from, prov_target) \<Rightarrow>
           if prov_target \<le> ready then
             op_bind (op_time env) (\<lambda>_. finish_provisioning env cfg key prov_from prov_target)
           else if 0 < provisioning_timeout_seconds oc then
             op_bind (op_time env) (\<lambda>now.
               op_when (of_int (provisioning_timeout_seconds oc) \<le> now - prov_start)
                 (rollback_provisioning env oc cfg key prov_from prov_target))
           else op_return ()"
  have "op_triple (gate s0 st p r) (?body (map_of p key)) (\<lambda>_. gate s0 st p r) (gate s0 st p r)"
  proof (cases "map_of p key")
    case None
    then show ?thesis
      by (simp add: triple_return)
  next
    case (Some mk)
    obtain t f tgt where mk: "mk = (t, f, tgt)"
      by (cases mk)
    have b: "0 < tgt" "\<And>i. env_ready env i key < tgt"
        "\<And>i. provisioning_timeout_seconds oc \<le> 0 \<or> env_clock env i - t < of_int (provisioning_timeout_seconds oc)"
      using assms(1) Some mk by (auto simp: blocked_def)
    have not_ready: "\<not> tgt \<le> ready"
      using assms(2) b(1,2) by (auto simp: not_le)
    have young: "env_clock env i - t < of_int (provisioning_timeout_seconds oc)"
      if "0 < provisioning_timeout_seconds oc" for i
      using b(3) [of i] that by simp
    have wait: "op_triple (gate s0 st p r) (op_bind (op_time env) (\<lambda>now.
        op_when (of_int (provisioning_timeout_seconds oc) \<le> now - t)
          (rollback_provisioning env oc cfg key f tgt))) (\<lambda>_. gate s0 st p r) (gate s0 st p r)"
      if "0 < provisioning_timeout_seconds oc"
      by (rule triple_bind [OF time_bound], rule triple_pure, rule triple_when)
        (use young [OF that] in \<open>auto simp: not_le [symmetric]\<close>)
    show ?thesis
      unfolding Some mk option.case prod.case
      using not_ready by (auto intro!: wait triple_return)
  qed
  then show ?thesis
    unfolding track_provisioning_def
    by (rule triple_get_bind [where v = "map_of p key", rotated]) (simp add: gate_def)
qed

lemma blocked_act:
  assumes b: "blocked env oc key p r" "\<exists>i. now = env_clock env i"
    and d: "d_action d = ScaleDown \<Longrightarrow> target_replicas d < current_replicas st"
  shows "op_triple (gate s0 st p r) (act_on env cfg st d key now el) (\<lambda>_. effs s0 (no_raise st)) (effs s0 (no_raise st))"
proof -
  have np: "\<not> is_patch e \<Longrightarrow> no_raise st e" for e
    by (auto simp: no_raise_def)
  have kp: "keeps (effs s0 (no_raise st)) m \<Longrightarrow>
      op_triple (gate s0 st p r) m (\<lambda>_. effs s0 (no_raise st)) (effs s0 (no_raise st))" for m :: "(op_state, 'z) op"
    unfolding keeps_def by (erule triple_conseq) (simp_all add: gate_def)
  have down: "keeps (effs s0 (no_raise st)) (do_scale_down env cfg st d key el)" if "d_action d = ScaleDown"
    using d [OF that] by (intro keeps_scale_down) (auto simp: no_raise_def intro: np)
  have closed: "dict_has key p \<or> now < dict_get r key 0"
    using b by (auto simp: blocked_def dict_has_def)
  have body: "op_triple (gate s0 st p r)
      (if d_action d = ScaleUp \<and> now < dict_get r key 0 then
         do_keep (keep_decision (current_replicas st) ''provisioning_retry_backoff'')
       else if d_action d = ScaleUp \<and> dict_has key p then
         op_then (op_emit ''scale_deferred'' ''provisioning_in_flight'')
           (do_keep (keep_decision (current_replicas st) ''provisioning_in_flight''))
       else if d_action d = ScaleUp then up
       else if d_action d = ScaleDown then do_scale_down env cfg st d key el
       else do_keep d) (\<lambda>_. effs s0 (no_raise st)) (effs s0 (no_raise st))" for up
  proof (cases "d_action d")
    case ScaleUp
    then show ?thesis
      using closed by (cases "now < dict_get r key 0") (simp_all add: kp keeps_do_keep keeps_then keeps_emit)
  next
    case ScaleDown
    then show ?thesis
      by (simp add: kp down)
  next
    case Keep
    then show ?thesis
      by (simp add: kp keeps_do_keep)
  qed
  show ?thesis
    unfolding act_on_def
    by (rule triple_get_bind [where v = "dict_get r key 0"], simp add: gate_def,
        rule triple_get_bind [where v = "dict_has key p"], simp add: gate_def, rule body)
qed

lemma blocked_no_raise:
  assumes st: "map_of all_states (worker_statefulset cfg) = Some st"
    and b: "blocked env oc (worker_statefulset cfg) (provisioning s) (provisioning_retry_at s)"
    and run: "process_pool env oc cfg all_states s = (r, s')"
    and patch: "Patch k n \<in> set (new_effects s s')"
  shows "n < current_replicas st"
proof -
  let ?key = "worker_statefulset cfg"
  let ?G = "gate s st (provisioning s) (provisioning_retry_at s)"
  let ?E = "effs s (no_raise st)"
  have kg: "keeps ?G m \<Longrightarrow> op_triple ?G m (\<lambda>_. ?G) ?E" for m :: "(op_state, 'z) op"
    unfolding keeps_def by (erule triple_conseq) (simp_all add: gate_def)
  have weak: "op_triple ?G m Q ?G \<Longrightarrow> op_triple ?G m Q ?E" for m :: "(op_state, 'z) op" and Q
    by (erule triple_conseq) (simp_all add: gate_def)
  have body: "op_triple ?G (process_pool_body env oc cfg all_states) (\<lambda>_. ?E) ?E"
    unfolding process_pool_body_def Let_def st option.case
  proof (rule triple_bind [OF weak [OF ready_bound]], rule triple_pure, rule triple_then)
    fix ready assume "\<exists>i. ready = env_ready env i ?key \<or> ready = 0"
    then show "op_triple ?G (track_provisioning env oc cfg ?key ready) (\<lambda>_. ?G) ?E"
      by (rule weak [OF blocked_track [OF b]])
    show "op_triple ?G (op_then (op_when (current_replicas st = 0 \<and> ready = 0 \<and> 0 < running_jobs st)
            (op_emit ''ghost_jobs_detected'' '''')) (
          op_bind (op_checkpoint_age env (checkpoint_path cfg)) (\<lambda>age.
          op_bind (track_checkpoint env cfg ?key age) (\<lambda>missing_since.
          op_bind (op_time env) (\<lambda>now.
          op_bind (op_get (\<lambda>s. map_of (last_scale_action_at s) ?key)) (\<lambda>last.
            case last of
              None \<Rightarrow> op_raise KeyError
            | Some t0 \<Rightarrow>
                op_then (op_emit ''loop_observation''
                    (d_reason (evaluate (checkpoint_guard_enabled oc) cfg st age missing_since)))
                  (act_on env cfg st (evaluate (checkpoint_guard_enabled oc) cfg st age missing_since)
                    ?key now (now - t0)))))))) (\<lambda>_. ?E) ?E"
    proof (rule triple_then [OF kg [OF keeps_when [OF mild_keeps(5) [OF mild_gate]]]],
        rule triple_bind [OF kg [OF mild_keeps(4) [OF mild_gate]]],
        rule triple_bind [OF kg [OF mild_keeps(7) [OF mild_gate]]])
      fix age missing
      let ?d = "evaluate (checkpoint_guard_enabled oc) cfg st age missing"
      have "op_triple ?G (case last of None \<Rightarrow> op_raise KeyError
          | Some t0 \<Rightarrow> op_then (op_emit ''loop_observation'' (d_reason ?d)) (act_on env cfg st ?d ?key now (now - t0)))
          (\<lambda>_. ?E) ?E" if "\<exists>i. now = env_clock env i" for now last
      proof (cases last)
        case None
        then show ?thesis
          by (auto intro!: triple_raise simp: gate_def)
      next
        case (Some t0)
        have "op_triple ?G (act_on env cfg st ?d ?key now (now - t0)) (\<lambda>_. ?E) ?E"
          by (rule blocked_act [OF b that]) (auto simp: evaluate_def Let_def split: if_splits)
        then show ?thesis
          unfolding Some option.case by (rule triple_then [OF kg [OF mild_keeps(5) [OF mild_gate]]])
      qed
      then show "op_triple ?G (op_bind (op_time env) (\<lambda>now.
          op_bind (op_get (\<lambda>s. map_of (last_scale_action_at s) ?key)) (\<lambda>last.
            case last of
              None \<Rightarrow> op_raise KeyError
            | Some t0 \<Rightarrow>
                op_then (op_emit ''loop_observation'' (d_reason ?d))
                  (act_on env cfg st ?d ?key now (now - t0))))) (\<lambda>_. ?E) ?E"
        by (intro triple_bind [OF weak [OF time_bound]] triple_pure triple_bind [OF kg [OF keeps_get]])
    qed
  qed
  then have tri: "op_triple ?G (process_pool env oc cfg all_states) (\<lambda>_. ?E) ?E"
    unfolding process_pool_def by (rule triple_catch [OF _ keeps_emit [unfolded keeps_def]])
  have "process_pool env oc cfg all_states s = (Inr (), s')"
    using run process_pool_returns [of env oc cfg all_states s] by auto
  from triple_Inr [OF tri _ this] have "?E s'"
    by (simp add: gate_def effs_refl)
  then have "no_raise st (Patch k n)"
    using patch by (rule effs_new)
  then show ?thesis
    by (simp add: no_raise_def)
qed

section \<open>The marker is written before the patch\<close>

definition marked :: "op_state \<Rightarrow> string \<Rightarrow> ann_value \<Rightarrow> op_state \<Rightarrow> bool" where
  "marked s0 key v s \<longleftrightarrow>
     (\<exists>pre post. os_effects s = os_effects s0 @ pre @ [(Annotate key ProvisioningMarker v, True)] @ post \<and>
        (\<forall>x \<in> set pre. \<not> is_patch (fst x)) \<and>
        (\<forall>x \<in> set post. \<forall>w. fst x \<noteq> Annotate key ProvisioningMarker w))"

lemma mild_marked: "mild (marked s0 key v)"
  by (simp add: mild_def) (simp add: marked_def)

lemma marked_call:
  assumes "\<And>w. e \<noteq> Annotate key ProvisioningMarker w"
  shows "keeps (marked s0 key v) (op_call env e)"
proof -
  have "marked s0 key v (s\<lparr>os_effects := os_effects s @ [(e, b)]\<rparr>)" if m: "marked s0 key v s" for s b
  proof -
    obtain pre post where "os_effects s = os_effects s0 @ pre @ [(Annotate key ProvisioningMarker v, True)] @ post"
        "\<forall>x \<in> set pre. \<not> is_patch (fst x)" "\<forall>x \<in> set post. \<forall>w. fst x \<noteq> Annotate key ProvisioningMarker w"
      using m by (auto simp: marked_def)
    then show ?thesis
      using assms unfolding marked_def by (intro exI [where x = pre] exI [where x = "post @ [(e, b)]"]) simp
  qed
  then show ?thesis
    unfolding op_call_def
    by (intro keeps_bind keeps_then keeps_if keeps_return keeps_raise mild_tick mild_marked keeps_modify)
qed

lemma keeps_marked_modify:
  "(\<And>s. os_effects (f s) = os_effects s) \<Longrightarrow> keeps (marked s0 key v) (op_modify f)"
  by (intro keeps_modify) (simp add: marked_def)

lemma triple_marker:
  "op_triple (no_patch s0) (op_call env (Annotate key ProvisioningMarker v)) (\<lambda>_. marked s0 key v) (no_patch s0)"
proof (rule tripleI)
  fix s x s' assume s: "no_patch s0 s" "op_call env (Annotate key ProvisioningMarker v) s = (Inr x, s')"
  obtain ext where "os_effects s = os_effects s0 @ ext" "\<forall>x \<in> set ext. \<not> is_patch (fst x)"
    using s(1) by (auto simp: effs_def)
  then show "marked s0 key v s'"
    using s(2) unfolding marked_def
    by (intro exI [where x = ext] exI [where x = "[]"])
      (auto simp: op_call_def op_tick_def op_defs split: if_splits)
next
  fix s x s' assume "no_patch s0 s" "op_call env (Annotate key ProvisioningMarker v) s = (Inl x, s')"
  then show "no_patch s0 s'"
    using keepsD [OF keeps_call [of "\<lambda>e. \<not> is_patch e" "Annotate key ProvisioningMarker v" s0 env]] by fastforce
qed

lemma do_scale_up_marked:
  "op_triple (no_patch s0) (do_scale_up env cfg st d key now)
     (\<lambda>_. marked s0 (worker_statefulset cfg) (AnnMarker now (current_replicas st) (target_replicas d)))
     (\<lambda>s. no_patch s0 s \<or>
        marked s0 (worker_statefulset cfg) (AnnMarker now (current_replicas st) (target_replicas d)) s)"
    (is "op_triple _ _ (\<lambda>_. ?M) ?E")
proof -
  have kp: "keeps (no_patch s0) m \<Longrightarrow> op_triple (no_patch s0) m (\<lambda>_. no_patch s0) ?E" for m :: "(op_state, 'z) op"
    unfolding keeps_def by (erule triple_conseq) auto
  have km: "keeps ?M m \<Longrightarrow> op_triple ?M m (\<lambda>_. ?M) ?E" for m :: "(op_state, 'z) op"
    unfolding keeps_def by (erule triple_conseq) auto
  have mark: "op_triple (no_patch s0) (op_call env (Annotate (worker_statefulset cfg) ProvisioningMarker
      (AnnMarker now (current_replicas st) (target_replicas d)))) (\<lambda>_. ?M) ?E"
    by (rule triple_conseq [OF triple_marker]) auto
  show ?thesis
    unfolding do_scale_up_def
  proof (rule triple_bind [OF kp [OF keeps_get]])
    fix draining
    show "op_triple (no_patch s0) (
       op_then (op_modify (\<lambda>s. s\<lparr>draining_nodes := dict_pop key (draining_nodes s),
                              draining_started := dict_pop key (draining_started s)\<rparr>)) (
       op_then (op_for (set_union draining
                       (map (node_name (worker_statefulset cfg)) [0..target_replicas d - 1]))
                (\<lambda>n. op_ignore (op_call env (Resume n)))) (
       op_then (op_call env (Annotate (worker_statefulset cfg) ProvisioningMarker
                (AnnMarker now (current_replicas st) (target_replicas d)))) (
       op_then (op_modify (\<lambda>s. s\<lparr>provisioning :=
                dict_set key (now, current_replicas st, target_replicas d) (provisioning s)\<rparr>)) (
       op_then (op_call env (Patch (worker_statefulset cfg) (target_replicas d))) (
       op_then (op_modify (\<lambda>s. s\<lparr>provisioning_retry_at := dict_pop key (provisioning_retry_at s),
                              last_scale_action_at := dict_set key now (last_scale_action_at s)\<rparr>)) (
       op_then (op_ignore (
         op_then (op_call env (Annotate (worker_statefulset cfg) LastScaleUpAt (AnnTime now))) (
         op_then (op_call env (Annotate (worker_statefulset cfg) LastScaleActionAt (AnnTime now)))
                 (op_call env (Annotate (worker_statefulset cfg) ProvisioningRetryAt AnnEmpty)))))
       (op_emit ''scale_action'' (d_reason d))))))))) (\<lambda>_. ?M) ?E"
      by (rule triple_then [OF kp], intro op_keeps, simp,
          rule triple_then [OF kp], intro op_keeps, simp,
          rule triple_then [OF mark],
          intro triple_then [OF km] km keeps_then keeps_ignore marked_call keeps_marked_modify
            mild_keeps(5) [OF mild_marked])
        simp_all
  qed
qed

lemma do_scale_up_marker_first:
  assumes "do_scale_up env cfg st d key now s = (r, s')" "Patch k n \<in> set (new_effects s s')"
  shows "\<exists>pre post. os_effects s' = os_effects s @ pre @
      [(Annotate (worker_statefulset cfg) ProvisioningMarker
          (AnnMarker now (current_replicas st) (target_replicas d)), True)] @ post \<and>
    (\<forall>x \<in> set pre. \<not> is_patch (fst x)) \<and>
    (\<forall>x \<in> set post. \<forall>w. fst x \<noteq> Annotate (worker_statefulset cfg) ProvisioningMarker w)"
proof -
  note tri = triple_Inr [OF do_scale_up_marked effs_refl, of env cfg st d key now s]
    triple_Inl [OF do_scale_up_marked effs_refl, of env cfg st d key now s]
  have "\<not> no_patch s s'"
    using assms(2) effs_new by fastforce
  then have "marked s (worker_statefulset cfg) (AnnMarker now (current_replicas st) (target_replicas d)) s'"
    using assms(1) tri by (cases r) auto
  then show ?thesis
    by (simp add: marked_def)
qed

section \<open>Other pools are not touched\<close>

definition others :: "string \<Rightarrow> op_state \<Rightarrow> op_state \<Rightarrow> bool" where
  "others key s0 s \<longleftrightarrow> (\<forall>k. k \<noteq> key \<longrightarrow>
     map_of (provisioning s) k = map_of (provisioning s0) k \<and>
     map_of (provisioning_retry_at s) k = map_of (provisioning_retry_at s0) k \<and>
     map_of (last_scale_action_at s) k = map_of (last_scale_action_at s0) k \<and>
     map_of (draining_nodes s) k = map_of (draining_nodes s0) k \<and>
     map_of (draining_started s) k = map_of (draining_started s0) k \<and>
     map_of (checkpoint_missing_since s) k = map_of (checkpoint_missing_since s0) k)"

lemma others_call: "keeps (others key s0) (op_call env e)"
  unfolding op_call_def op_tick_def
  by (rule keepsI) (auto simp: others_def op_defs split: if_splits)

lemma others_tick: "keeps (others key s0) op_tick"
  by (rule keepsI) (auto simp: op_tick_def others_def)

lemma others_modify:
  "(\<And>s. others key s0 s \<Longrightarrow> others key s0 (f s)) \<Longrightarrow> keeps (others key s0) (op_modify f)"
  by (rule keeps_modify)

lemmas others_defs = op_time_def op_ready_def op_cpu_alloc_def op_checkpoint_age_def op_emit_def
  set_annotation_def do_keep_def

lemma others_pieces:
  "keeps (others key s0) (op_time env)" "keeps (others key s0) (op_ready env k)"
  "keeps (others key s0) (op_cpu_alloc env n)" "keeps (others key s0) (op_checkpoint_age env p)"
  "keeps (others key s0) (op_emit e r)" "keeps (others key s0) (set_annotation env k a v)"
  "keeps (others key s0) (do_keep d)"
  unfolding others_defs
  by (intro keeps_bind keeps_then keeps_if keeps_return keeps_raise keeps_ignore others_tick others_call
      others_modify; simp add: others_def)+

lemmas others_rules = others_pieces others_call keeps_bind keeps_then keeps_if keeps_return keeps_raise
  keeps_ignore keeps_for keeps_when keeps_get keeps_all keeps_option others_modify

lemma others_scale_up: "keeps (others key s0) (do_scale_up env cfg st d key now)"
  unfolding do_scale_up_def by (intro others_rules) (simp_all add: others_def)

lemma others_force_kill: "keeps (others key s0) (force_kill_all env cfg started now_ts ns)"
  by (induction ns) (auto simp: force_kill_node_def intro!: others_rules)

lemma others_scale_down: "keeps (others key s0) (do_scale_down env cfg st d key el)"
  unfolding do_scale_down_def Let_def finish_scale_down_def drain_new_def node_idle_def
  by (intro others_rules others_force_kill) (simp_all add: others_def dict_setdefault_def)

lemma others_track: "keeps (others key s0) (track_provisioning env oc cfg key ready)"
  unfolding track_provisioning_def finish_provisioning_def rollback_provisioning_def Let_def
  by (auto intro!: others_rules split: option.split) (simp_all add: others_def)

lemma others_checkpoint: "keeps (others key s0) (track_checkpoint env cfg key age)"
  unfolding track_checkpoint_def by (intro others_rules) (simp_all add: others_def dict_setdefault_def)

lemma others_process_pool: "keeps (others (worker_statefulset cfg) s0) (process_pool env oc cfg all_states)"
  unfolding process_pool_def process_pool_body_def act_on_def Let_def
  by (intro others_rules keeps_catch others_track others_checkpoint others_scale_up others_scale_down)
    (simp_all add: others_def)

end
