(* ===== verification/OpQueue.thy ===== *)
theory OpQueue
  imports Prelude
begin

text \<open>
  The deduplicating work queue between the watcher threads and the reconcile loop
  (\<^verbatim>\<open>operator/app.py\<close>, \<^verbatim>\<open>_PoolEventQueue\<close>). \<^verbatim>\<open>put\<close> and \<^verbatim>\<open>get\<close> are two atomic actions each: the
  locked access to the set of pending keys and the access to the thread-safe queue, with other
  threads running in between. \<open>queue_step\<close> is every interleaving of any number of producers with
  the one consumer; \<open>queue_put\<close> and \<open>queue_get\<close> are the undisturbed calls.
\<close>

section \<open>State and calls\<close>

record queue_item =
  qi_key :: string
  qi_source :: string
  qi_time :: real

text \<open>\<open>q_adding\<close> holds the items of producers between the two actions of \<^verbatim>\<open>put\<close>, \<open>q_held\<close> the item
  of the consumer between the two actions of \<^verbatim>\<open>get\<close>.\<close>

record event_queue =
  q_items :: "queue_item list"
  q_pending :: "string list"
  q_adding :: "queue_item list"
  q_held :: "queue_item option"

definition queue_empty :: event_queue where
  "queue_empty = \<lparr>q_items = [], q_pending = [], q_adding = [], q_held = None\<rparr>"

text \<open>\<^verbatim>\<open>put\<close>: the locked check, then the insertion.\<close>

definition put_lock :: "string \<Rightarrow> event_queue \<Rightarrow> bool \<times> event_queue" where
  "put_lock key q =
     (if key \<in> set (q_pending q) then (False, q) else (True, q\<lparr>q_pending := key # q_pending q\<rparr>))"

definition put_item :: "queue_item \<Rightarrow> event_queue \<Rightarrow> event_queue" where
  "put_item it q = q\<lparr>q_items := q_items q @ [it]\<rparr>"

definition queue_put :: "string \<Rightarrow> string \<Rightarrow> real \<Rightarrow> event_queue \<Rightarrow> bool \<times> event_queue" where
  "queue_put key source now q =
     (let (fresh, q1) = put_lock key q in
      if \<not> fresh then (False, q1)
      else (True, put_item \<lparr>qi_key = key, qi_source = source, qi_time = now\<rparr> q1))"

text \<open>\<^verbatim>\<open>get\<close>: the queue's own blocking read (\<open>None\<close> is its timeout), then the locked removal.\<close>

definition get_item :: "event_queue \<Rightarrow> (queue_item \<times> event_queue) option" where
  "get_item q = (case q_items q of [] \<Rightarrow> None | it # its \<Rightarrow> Some (it, q\<lparr>q_items := its\<rparr>))"

definition get_unlock :: "queue_item \<Rightarrow> event_queue \<Rightarrow> event_queue" where
  "get_unlock it q = q\<lparr>q_pending := filter (\<lambda>k. k \<noteq> qi_key it) (q_pending q)\<rparr>"

definition queue_get :: "event_queue \<Rightarrow> queue_item option \<times> event_queue" where
  "queue_get q =
     (case get_item q of None \<Rightarrow> (None, q) | Some (it, q1) \<Rightarrow> (Some it, get_unlock it q1))"

section \<open>Interleavings\<close>

datatype queue_event = PutBegin string | PutDropped string | PutEnd string | GetBegin string | GetEnd string

inductive queue_step :: "event_queue \<Rightarrow> queue_event \<Rightarrow> event_queue \<Rightarrow> bool" where
  put_begin: "put_lock (qi_key it) q = (True, q1) \<Longrightarrow>
     queue_step q (PutBegin (qi_key it)) (q1\<lparr>q_adding := it # q_adding q1\<rparr>)"
| put_dropped: "put_lock key q = (False, q1) \<Longrightarrow> queue_step q (PutDropped key) q1"
| put_end: "it \<in> set (q_adding q) \<Longrightarrow>
     queue_step q (PutEnd (qi_key it)) (put_item it (q\<lparr>q_adding := remove1 it (q_adding q)\<rparr>))"
| get_begin: "q_held q = None \<Longrightarrow> get_item q = Some (it, q1) \<Longrightarrow>
     queue_step q (GetBegin (qi_key it)) (q1\<lparr>q_held := Some it\<rparr>)"
| get_end: "q_held q = Some it \<Longrightarrow> queue_step q (GetEnd (qi_key it)) (get_unlock it (q\<lparr>q_held := None\<rparr>))"

inductive_cases queue_stepE: "queue_step q e q'"

inductive queue_run :: "event_queue \<Rightarrow> queue_event list \<Rightarrow> event_queue \<Rightarrow> bool" where
  run_nil: "queue_run q [] q"
| run_snoc: "queue_run q es q' \<Longrightarrow> queue_step q' e q'' \<Longrightarrow> queue_run q (es @ [e]) q''"

section \<open>The invariant\<close>

definition held_keys :: "event_queue \<Rightarrow> string list" where
  "held_keys q = (case q_held q of None \<Rightarrow> [] | Some it \<Rightarrow> [qi_key it])"

definition live_keys :: "event_queue \<Rightarrow> string list" where
  "live_keys q = map qi_key (q_items q) @ map qi_key (q_adding q) @ held_keys q"

definition queue_inv :: "event_queue \<Rightarrow> bool" where
  "queue_inv q \<longleftrightarrow> distinct (live_keys q) \<and> set (q_pending q) = set (live_keys q)"

lemma queue_empty_inv: "queue_inv queue_empty"
  by (simp add: queue_inv_def queue_empty_def live_keys_def held_keys_def)

lemma held_keys_simps [simp]:
  "held_keys (q\<lparr>q_items := its\<rparr>) = held_keys q" "held_keys (q\<lparr>q_pending := ks\<rparr>) = held_keys q"
  "held_keys (q\<lparr>q_adding := its\<rparr>) = held_keys q" "held_keys (q\<lparr>q_held := None\<rparr>) = []"
  "held_keys (q\<lparr>q_held := Some it\<rparr>) = [qi_key it]"
  by (simp_all add: held_keys_def)

text \<open>How each step changes the collection of live keys.\<close>

lemma live_put_begin:
  "mset (live_keys (q\<lparr>q_pending := ks, q_adding := it # q_adding q\<rparr>)) = add_mset (qi_key it) (mset (live_keys q))"
  by (simp add: live_keys_def)

lemma live_put_end:
  assumes "it \<in> set (q_adding q)"
  shows "mset (live_keys (put_item it (q\<lparr>q_adding := remove1 it (q_adding q)\<rparr>))) = mset (live_keys q)"
proof -
  have "image_mset qi_key (mset (q_adding q)) = add_mset (qi_key it) (image_mset qi_key (mset (q_adding q) - {#it#}))"
    using assms by (metis image_mset_add_mset insert_DiffM set_mset_mset)
  then show ?thesis
    by (simp add: live_keys_def put_item_def)
qed

lemma live_get_begin:
  "q_items q = it # its \<Longrightarrow> q_held q = None \<Longrightarrow>
     mset (live_keys (q\<lparr>q_items := its, q_held := Some it\<rparr>)) = mset (live_keys q)"
  by (simp add: live_keys_def) (simp add: held_keys_def)

lemma live_get_end:
  "q_held q = Some it \<Longrightarrow>
     mset (live_keys q) = add_mset (qi_key it) (mset (live_keys (get_unlock it (q\<lparr>q_held := None\<rparr>))))"
  by (simp add: live_keys_def get_unlock_def) (simp add: held_keys_def)

lemma queue_inv_mset:
  assumes "mset (live_keys q') = mset (live_keys q)" "q_pending q' = q_pending q" "queue_inv q"
  shows "queue_inv q'"
  using assms mset_eq_setD [OF assms(1)] mset_eq_imp_distinct_iff [OF assms(1)] by (simp add: queue_inv_def)

lemma mset_add_set: "mset xs = add_mset x (mset ys) \<Longrightarrow> set xs = insert x (set ys)"
  by (metis set_mset_add_mset_insert set_mset_mset)

lemma mset_add_distinct: "mset xs = add_mset x (mset ys) \<Longrightarrow> distinct xs \<longleftrightarrow> x \<notin> set ys \<and> distinct ys"
  using mset_eq_imp_distinct_iff [of xs "x # ys"] by simp

lemma queue_step_inv:
  assumes "queue_step q e q'" "queue_inv q"
  shows "queue_inv q'"
  using assms(1)
proof (cases rule: queue_step.cases)
  case (put_begin it q1)
  then have q': "q' = q\<lparr>q_pending := qi_key it # q_pending q, q_adding := it # q_adding q\<rparr>"
      "qi_key it \<notin> set (q_pending q)"
    by (auto simp: put_lock_def split: if_splits)
  note m = live_put_begin [where q = q and ks = "qi_key it # q_pending q" and it = it]
  show ?thesis
    using assms(2) q'(2) mset_add_set [OF m] mset_add_distinct [OF m] by (simp add: queue_inv_def q'(1))
next
  case (put_dropped key)
  then show ?thesis
    using assms(2) by (auto simp: put_lock_def split: if_splits)
next
  case (put_end it)
  then show ?thesis
    using queue_inv_mset [OF live_put_end [OF put_end(3)] _ assms(2)] by (simp add: put_item_def)
next
  case (get_begin it q1)
  then obtain its where its: "q_items q = it # its" "q' = q\<lparr>q_items := its, q_held := Some it\<rparr>"
    by (auto simp: get_item_def split: list.splits)
  show ?thesis
    using queue_inv_mset [OF live_get_begin [OF its(1) get_begin(3)] _ assms(2)] by (simp add: its(2))
next
  case (get_end it)
  note m = live_get_end [OF get_end(3)]
  have "set (q_pending q') = set (q_pending q) - {qi_key it}"
    unfolding get_end(2) get_unlock_def by auto
  then show ?thesis
    using assms(2) mset_add_set [OF m] mset_add_distinct [OF m] unfolding queue_inv_def get_end(2) by auto
qed

lemma queue_run_inv: "queue_run q es q' \<Longrightarrow> queue_inv q \<Longrightarrow> queue_inv q'"
  by (induction rule: queue_run.induct) (auto intro: queue_step_inv)

text \<open>A key that was offered, dropped or not, is live until a \<^verbatim>\<open>get\<close> of it completes.\<close>

lemma live_step:
  assumes "queue_step q e q'" "k \<in> set (live_keys q)" "e \<noteq> GetEnd k"
  shows "k \<in> set (live_keys q')"
  using assms(1)
proof (cases rule: queue_step.cases)
  case (put_begin it q1)
  then show ?thesis
    using assms(2) mset_add_set [OF live_put_begin [where q = q and ks = "qi_key it # q_pending q" and it = it]]
    by (auto simp: put_lock_def split: if_splits)
next
  case (put_dropped key)
  then show ?thesis
    using assms(2) by (auto simp: put_lock_def split: if_splits)
next
  case (put_end it)
  then show ?thesis
    using assms(2) mset_eq_setD [OF live_put_end [OF put_end(3)]] by simp
next
  case (get_begin it q1)
  then obtain its where its: "q_items q = it # its" "q' = q\<lparr>q_items := its, q_held := Some it\<rparr>"
    by (auto simp: get_item_def split: list.splits)
  then show ?thesis
    using assms(2) mset_eq_setD [OF live_get_begin [OF its(1) get_begin(3)]] by simp
next
  case (get_end it)
  then show ?thesis
    using assms(2,3) mset_add_set [OF live_get_end [OF get_end(3)]] by auto
qed

definition offered :: "queue_event \<Rightarrow> string \<Rightarrow> bool" where
  "offered e k \<longleftrightarrow> e = PutBegin k \<or> e = PutDropped k"

lemma offered_live:
  assumes "queue_step q e q'" "queue_inv q" "offered e k"
  shows "k \<in> set (live_keys q')"
  using assms(1)
proof (cases rule: queue_step.cases)
  case (put_begin it q1)
  then show ?thesis
    using assms(3) by (simp add: offered_def live_keys_def)
next
  case (put_dropped key)
  then show ?thesis
    using assms(2,3) by (auto simp: offered_def put_lock_def queue_inv_def split: if_splits)
qed (use assms(3) in \<open>simp_all add: offered_def\<close>)

text \<open>No event is lost: after the last offer of a key, either a \<^verbatim>\<open>get\<close> of it has completed, so that
  a reconcile of the pool starts after the offer, or the key is still live.\<close>

lemma no_lost_event:
  "queue_run q es q' \<Longrightarrow> queue_inv q \<Longrightarrow>
     \<forall>i<length es. offered (es ! i) k \<longrightarrow>
       (\<exists>j<length es. i < j \<and> es ! j = GetEnd k) \<or> k \<in> set (live_keys q')"
proof (induction rule: queue_run.induct)
  case (run_nil q)
  show ?case by simp
next
  case (run_snoc q es q' e q'')
  have inv: "queue_inv q'"
    using run_snoc.hyps(1) run_snoc.prems by (rule queue_run_inv)
  show ?case
  proof (intro allI impI)
    fix i assume i: "i < length (es @ [e])" "offered ((es @ [e]) ! i) k"
    show "(\<exists>j<length (es @ [e]). i < j \<and> (es @ [e]) ! j = GetEnd k) \<or> k \<in> set (live_keys q'')"
    proof (cases "i < length es")
      case False
      with i have "offered e k"
        by (simp add: nth_append)
      then show ?thesis
        using offered_live [OF run_snoc.hyps(2) inv] by blast
    next
      case True
      then have "offered (es ! i) k"
        using i(2) by (simp add: nth_append)
      with True run_snoc.IH [OF run_snoc.prems] consider
        j where "j < length es" "i < j" "es ! j = GetEnd k" | "k \<in> set (live_keys q')"
        by blast
      then show ?thesis
      proof cases
        case 1
        then show ?thesis
          by (intro disjI1 exI [where x = j]) (simp add: nth_append)
      next
        case 2
        show ?thesis
        proof (cases "e = GetEnd k")
          case True
          then show ?thesis
            using \<open>i < length es\<close> by (intro disjI1 exI [where x = "length es"]) simp
        next
          case False
          then show ?thesis
            using live_step [OF run_snoc.hyps(2) 2] by blast
        qed
      qed
    qed
  qed
qed

lemma queue_get_fifo:
  "q_items q = it # its \<Longrightarrow> queue_get q = (Some it, get_unlock it (q\<lparr>q_items := its\<rparr>))"
  by (simp add: queue_get_def get_item_def)

text \<open>An undisturbed call is the two steps run one after the other.\<close>

lemma queue_put_steps:
  assumes "queue_put key source now q = (True, q')"
  shows "queue_run q [PutBegin key, PutEnd key] q'"
proof -
  let ?it = "\<lparr>qi_key = key, qi_source = source, qi_time = now\<rparr>"
  have fresh: "put_lock (qi_key ?it) q = (True, q\<lparr>q_pending := key # q_pending q\<rparr>)"
    and q': "q' = put_item ?it (q\<lparr>q_pending := key # q_pending q\<rparr>)"
    using assms by (auto simp: queue_put_def put_lock_def split: if_splits)
  have one: "queue_run q [PutBegin key] (q\<lparr>q_pending := key # q_pending q, q_adding := ?it # q_adding q\<rparr>)"
    using run_snoc [OF run_nil put_begin [OF fresh]] by simp
  have "queue_step (q\<lparr>q_pending := key # q_pending q, q_adding := ?it # q_adding q\<rparr>) (PutEnd key) q'"
    using put_end [of ?it "q\<lparr>q_pending := key # q_pending q, q_adding := ?it # q_adding q\<rparr>"]
    by (simp add: q' put_item_def)
  from run_snoc [OF one this] show ?thesis
    by simp
qed

end
