(* ===== verification/OpApp.thy ===== *)
theory OpApp
  imports OpReconcilerFacts OpQueue
begin

text \<open>
  The operator process around the reconcile (\<^verbatim>\<open>operator/app.py\<close>): what the constructor restores from
  the annotations of a StatefulSet, one iteration of the main loop with its circuit breaker, and
  the return from the fallback to the REST client. An annotation is its parsed content: empty, a
  number, the provisioning marker, or other text, which neither \<^verbatim>\<open>float\<close> nor the marker parser
  accepts. Starting threads, the HTTP metrics server and the liveness files are not modelled.
\<close>

section \<open>Restart\<close>

text \<open>The value of an annotation after a sequence of calls: the last accepted write.\<close>

definition stored_annotation :: "(effect \<times> bool) list \<Rightarrow> string \<Rightarrow> annotation \<Rightarrow> ann_value option" where
  "stored_annotation effects key name =
     foldl (\<lambda>v x. case x of
              (Annotate k n w, True) \<Rightarrow> if k = key \<and> n = name then Some w else v
            | _ \<Rightarrow> v) None effects"

definition ann_truthy :: "ann_value option \<Rightarrow> bool" where
  "ann_truthy v \<longleftrightarrow> v \<noteq> None \<and> v \<noteq> Some AnnEmpty"

definition ann_float :: "ann_value \<Rightarrow> py_error + real" where
  "ann_float v = (case v of AnnTime t \<Rightarrow> Inr t | _ \<Rightarrow> Inl ValueError)"

definition restore_last_action :: "(annotation \<Rightarrow> ann_value option) \<Rightarrow> real" where
  "restore_last_action ann =
     (let raw = (if ann_truthy (ann LastScaleActionAt) then ann LastScaleActionAt else ann LastScaleUpAt)
      in if \<not> ann_truthy raw then 0
         else case ann_float (the raw) of Inl _ \<Rightarrow> 0 | Inr t \<Rightarrow> t)"

definition restore_provisioning ::
  "op_env \<Rightarrow> string \<Rightarrow> (annotation \<Rightarrow> ann_value option) \<Rightarrow> (op_state, unit) op" where
  "restore_provisioning env key ann =
     (let clear = op_call env (Annotate key ProvisioningMarker AnnEmpty) in
      if \<not> ann_truthy (ann ProvisioningMarker) then op_return ()
      else case ann ProvisioningMarker of
             Some (AnnMarker started_at from_replicas target) \<Rightarrow>
               if 0 < started_at \<and> from_replicas < target then
                 op_modify (\<lambda>s. s\<lparr>provisioning := dict_set key (started_at, from_replicas, target) (provisioning s),
                                  last_scale_action_at := dict_set key
                                    (max (dict_get (last_scale_action_at s) key 0) started_at) (last_scale_action_at s)\<rparr>)
               else op_catch clear (\<lambda>_. op_ignore clear)
           | _ \<Rightarrow> op_ignore clear)"

text \<open>The last block catches conversion errors only: an error of the API call that clears an
  expired retry time leaves the constructor.\<close>

definition restore_retry ::
  "op_env \<Rightarrow> string \<Rightarrow> (annotation \<Rightarrow> ann_value option) \<Rightarrow> (op_state, unit) op" where
  "restore_retry env key ann =
     (let raw = ann ProvisioningRetryAt in
      case (if ann_truthy raw then ann_float (the raw) else Inr 0) of
        Inl _ \<Rightarrow> op_modify (\<lambda>s. s\<lparr>provisioning_retry_at := dict_pop key (provisioning_retry_at s)\<rparr>)
      | Inr retry_at \<Rightarrow>
          op_bind (op_time env) (\<lambda>now.
            if now < retry_at then
              op_modify (\<lambda>s. s\<lparr>provisioning_retry_at := dict_set key retry_at (provisioning_retry_at s)\<rparr>)
            else op_when (ann_truthy raw) (op_call env (Annotate key ProvisioningRetryAt AnnEmpty))))"

definition restore_pool ::
  "op_env \<Rightarrow> string \<Rightarrow> (annotation \<Rightarrow> ann_value option) \<Rightarrow> (op_state, unit) op" where
  "restore_pool env key ann =
     op_then (op_modify (\<lambda>s. s\<lparr>last_scale_action_at :=
                dict_set key (restore_last_action ann) (last_scale_action_at s)\<rparr>)) (
     op_then (restore_provisioning env key ann) (restore_retry env key ann))"

section \<open>The main loop\<close>

record loop_state =
  ls_ops :: op_state
  ls_errors :: nat
  ls_sleeps :: "real list"

definition backoff :: "nat \<Rightarrow> real" where
  "backoff errors = min (2 ^ min errors 6) 60"

definition pool_by_key :: "partition_config list \<Rightarrow> (string, partition_config) dict" where
  "pool_by_key pools = dict_of (map (\<lambda>p. (worker_statefulset p, p)) pools)"

fun process_keys ::
  "op_env \<Rightarrow> config \<Rightarrow> (string, partition_config) dict \<Rightarrow> (string, partition_state) dict \<Rightarrow> string list \<Rightarrow>
   op_state \<Rightarrow> op_state" where
  "process_keys env oc by_key states [] s = s"
| "process_keys env oc by_key states (k # ks) s =
     (case map_of by_key k of
        None \<Rightarrow> process_keys env oc by_key states ks s
      | Some cfg \<Rightarrow> process_keys env oc by_key states ks (snd (process_pool env oc cfg states s)))"

text \<open>One iteration, for the item the queue gave (\<open>None\<close> is the timeout, a full reconcile) and the
  outcome of collecting the states.\<close>

definition loop_once ::
  "op_env \<Rightarrow> config \<Rightarrow> partition_config list \<Rightarrow> queue_item option \<Rightarrow>
   py_error + (string, partition_state) dict \<Rightarrow> loop_state \<Rightarrow> loop_state" where
  "loop_once env oc pools item collected ls =
     (let by_key = pool_by_key pools;
          keys = (case item of None \<Rightarrow> dict_keys by_key | Some it \<Rightarrow> [qi_key it])
      in case collected of
           Inl _ \<Rightarrow> ls\<lparr>ls_errors := ls_errors ls + 1, ls_sleeps := ls_sleeps ls @ [backoff (ls_errors ls + 1)]\<rparr>
         | Inr states \<Rightarrow> ls\<lparr>ls_errors := 0, ls_ops := process_keys env oc by_key states keys (ls_ops ls)\<rparr>)"

text \<open>Startup enqueues every pool; \<^verbatim>\<open>_restore_rest_if_available\<close> decides from the configured client,
  the one in use, the monotonic clock and the answer of one ping.\<close>

definition startup_queue :: "partition_config list \<Rightarrow> real \<Rightarrow> event_queue" where
  "startup_queue pools now =
     foldl (\<lambda>q k. snd (queue_put k ''startup'' now q)) queue_empty (dict_keys (pool_by_key pools))"

record rest_state =
  rest_configured :: bool
  rest_in_use :: bool
  rest_retry_at :: real

definition restore_rest :: "real \<Rightarrow> bool \<Rightarrow> rest_state \<Rightarrow> rest_state" where
  "restore_rest now ping r =
     (if rest_in_use r \<or> \<not> rest_configured r then r
      else if now < rest_retry_at r then r
      else if ping then r\<lparr>rest_retry_at := now + 30, rest_in_use := True\<rparr>
      else r\<lparr>rest_retry_at := now + 30\<rparr>)"

section \<open>Facts\<close>

lemma backoff_bounds: "1 \<le> n \<Longrightarrow> 2 \<le> backoff n \<and> backoff n \<le> 60"
proof -
  assume "1 \<le> n"
  then have "(2::real) ^ 1 \<le> 2 ^ min n 6"
    by (intro power_increasing) auto
  then show ?thesis
    by (simp add: backoff_def)
qed

lemma backoff_mono: "m \<le> n \<Longrightarrow> backoff m \<le> backoff n"
proof -
  assume "m \<le> n"
  then have "(2::real) ^ min m 6 \<le> 2 ^ min n 6"
    by (intro power_increasing) auto
  then show ?thesis
    unfolding backoff_def by (intro min.mono) auto
qed

lemma stored_annotation_append:
  "stored_annotation (es @ [(e, b)]) key name =
     (case (e, b) of
        (Annotate k n w, True) \<Rightarrow> if k = key \<and> n = name then Some w else stored_annotation es key name
      | _ \<Rightarrow> stored_annotation es key name)"
  unfolding stored_annotation_def by simp

lemma restore_provisioning_marker:
  assumes "ann ProvisioningMarker = Some (AnnMarker t f g)" "0 < t" "f < g"
  shows "restore_provisioning env key ann s =
    (Inr (), s\<lparr>provisioning := dict_set key (t, f, g) (provisioning s),
      last_scale_action_at := dict_set key (max (dict_get (last_scale_action_at s) key 0) t) (last_scale_action_at s)\<rparr>)"
  using assms by (simp add: restore_provisioning_def ann_truthy_def op_modify_def)

lemma restore_retry_provisioning:
  "provisioning (snd (restore_retry env key ann s)) = provisioning s"
  "last_scale_action_at (snd (restore_retry env key ann s)) = last_scale_action_at s"
  by (simp_all add: restore_retry_def Let_def op_defs op_time_def op_tick_def op_call_def
      split: sum.splits)

text \<open>A restart after a scale-up finds the marker: the provisioning is in flight again, and the
  cooldown starts no earlier than the scale-up.\<close>

lemma restore_pool_marker:
  assumes "ann ProvisioningMarker = Some (AnnMarker t f g)" "0 < t" "f < g"
  shows "map_of (provisioning (snd (restore_pool env key ann s))) key = Some (t, f, g)"
    and "t \<le> dict_get (last_scale_action_at (snd (restore_pool env key ann s))) key 0"
proof -
  let ?s1 = "s\<lparr>last_scale_action_at := dict_set key (restore_last_action ann) (last_scale_action_at s)\<rparr>"
  let ?s2 = "?s1\<lparr>provisioning := dict_set key (t, f, g) (provisioning ?s1),
      last_scale_action_at := dict_set key (max (dict_get (last_scale_action_at ?s1) key 0) t) (last_scale_action_at ?s1)\<rparr>"
  have "restore_pool env key ann s = restore_retry env key ann ?s2"
    unfolding restore_pool_def op_then_def op_bind_def
    by (simp add: op_modify_def restore_provisioning_marker [where ann = ann, OF assms])
  then show "map_of (provisioning (snd (restore_pool env key ann s))) key = Some (t, f, g)"
    and "t \<le> dict_get (last_scale_action_at (snd (restore_pool env key ann s))) key 0"
    by (simp_all add: restore_retry_provisioning dict_get_def)
qed

text \<open>After the marker no other value is written to its annotation by the scale-up.\<close>

lemma stored_marker_no_overwrite:
  assumes "\<forall>x \<in> set post. \<forall>w. fst x \<noteq> Annotate key ProvisioningMarker w"
  shows "stored_annotation (es @ [(Annotate key ProvisioningMarker v, True)] @ post) key ProvisioningMarker = Some v"
  using assms
proof (induction post rule: rev_induct)
  case Nil
  show ?case by (simp add: stored_annotation_def)
next
  case (snoc x post)
  obtain e b where x: "x = (e, b)"
    by (cases x)
  have "stored_annotation (es @ [(Annotate key ProvisioningMarker v, True)] @ post) key ProvisioningMarker = Some v"
    using snoc by simp
  moreover have "\<forall>w. e \<noteq> Annotate key ProvisioningMarker w"
    using snoc.prems x by simp
  ultimately show ?case
    using stored_annotation_append [of "es @ [(Annotate key ProvisioningMarker v, True)] @ post" e b key ProvisioningMarker]
    by (auto simp: x split: effect.splits bool.splits)
qed

end
