(* ===== verification/OpFragmentation.thy ===== *)
theory OpFragmentation
  imports PyStats PyText
begin

text \<open>
  The fragmentation detector, the requeue decider and their reconciler
  (\<^verbatim>\<open>operator/fragmentation.py\<close>). The reason a decision reports is a datatype, one constructor per
  text of the source; the rate limiter's history is the state of the decider. The adapters from
  Slurm's REST fields are in \<open>OpFragmentationRest\<close>.
\<close>

section \<open>Data\<close>

record job_view =
  jv_job_id :: string
  jv_user :: string
  jv_partition :: string
  jv_state :: string
  jv_priority :: int
  jv_mps_req :: int
  jv_gpu_count :: int
  jv_nodes :: "string list"
  jv_submit_ts :: real
  jv_runtime_seconds :: real

record node_view =
  nv_node_id :: string
  nv_free_mps :: int
  nv_total_mps :: int

record requeue_candidate =
  rc_victim :: job_view
  rc_target :: job_view
  rc_node_id :: string
  rc_slots_freed :: int

record frag_snapshot =
  fs_timestamp :: real
  fs_score :: real
  fs_free_mps_per_node :: "int list"
  fs_pending_blocked :: "job_view list"
  fs_candidates :: "requeue_candidate list"

datatype frag_reason =
    NoFragmentation
  | MinInterval
  | HourlyCap
  | NoCandidatesForHead
  | NoVictims
  | Unblock string string nat int

record requeue_decision =
  rd_target_job_ids :: "string list"
  rd_blocked_job_ids :: "string list"
  rd_reason :: frag_reason
  rd_snapshot_score :: real
  rd_timestamp :: real

definition nv_used_mps :: "node_view \<Rightarrow> int" where
  "nv_used_mps n = nv_total_mps n - nv_free_mps n"

definition has_actionable_fragmentation :: "frag_snapshot \<Rightarrow> bool" where
  "has_actionable_fragmentation s \<longleftrightarrow> fs_pending_blocked s \<noteq> [] \<and> fs_candidates s \<noteq> []"

section \<open>Detector\<close>

record detector =
  fd_mps_per_node :: int
  fd_priority_gap :: int

definition fits_anywhere :: "job_view \<Rightarrow> node_view list \<Rightarrow> bool" where
  "fits_anywhere j nodes \<longleftrightarrow> list_ex (\<lambda>n. jv_mps_req j \<le> nv_free_mps n) nodes"

definition fragmentation_score :: "int list \<Rightarrow> real" where
  "fragmentation_score free =
     (if length free < 2 then 0
      else let fs = map of_int free; m = mean fs in
        if m = 0 then 0 else max 0 (min 1 (pstdev fs / m)))"

definition add_running :: "(string, job_view list) dict \<Rightarrow> string \<times> job_view \<Rightarrow> (string, job_view list) dict" where
  \<comment> \<open>\<^verbatim>\<open>running_by_node.setdefault(nid, []).append(r)\<close>\<close>
  "add_running d x = dict_set (fst x) (dict_get d (fst x) [] @ [snd x]) d"

definition running_by_node :: "job_view list \<Rightarrow> (string, job_view list) dict" where
  "running_by_node running =
     foldl add_running [] (concat (map (\<lambda>r. map (\<lambda>nid. (nid, r)) (jv_nodes r)) running))"

definition blocked_jobs :: "job_view list \<Rightarrow> node_view list \<Rightarrow> job_view list" where
  "blocked_jobs jobs nodes =
     sort_key (\<lambda>j. (- jv_priority j, jv_submit_ts j, jv_job_id j))
       (filter (\<lambda>j. \<not> fits_anywhere j nodes) (filter (\<lambda>j. str_upper (jv_state j) = ''PENDING'') jobs))"

definition victims_for :: "detector \<Rightarrow> job_view \<Rightarrow> job_view list \<Rightarrow> job_view list" where
  "victims_for fd target occupants =
     sort_key (\<lambda>v. (jv_priority v, - jv_runtime_seconds v, jv_job_id v))
       (filter (\<lambda>v. fd_priority_gap fd < jv_priority target - jv_priority v) occupants)"

definition candidates_on ::
  "detector \<Rightarrow> (string, node_view) dict \<Rightarrow> job_view \<Rightarrow> string \<times> job_view list \<Rightarrow> requeue_candidate list" where
  "candidates_on fd node_idx target entry =
     (case map_of node_idx (fst entry) of
        None \<Rightarrow> []
      | Some node \<Rightarrow>
          if jv_mps_req target - nv_free_mps node \<le> 0 then []
          else map (\<lambda>v. \<lparr>rc_victim = v, rc_target = target, rc_node_id = fst entry,
                          rc_slots_freed = jv_mps_req v\<rparr>) (victims_for fd target (snd entry)))"

definition take_snapshot :: "detector \<Rightarrow> job_view list \<Rightarrow> node_view list \<Rightarrow> real \<Rightarrow> frag_snapshot" where
  "take_snapshot fd jobs nodes now =
     (let free = map nv_free_mps nodes;
          running = filter (\<lambda>j. str_upper (jv_state j) = ''RUNNING'') jobs;
          blocked = blocked_jobs jobs nodes;
          node_idx = dict_of (map (\<lambda>n. (nv_node_id n, n)) nodes);
          by_node = running_by_node running
      in \<lparr>fs_timestamp = now, fs_score = fragmentation_score free, fs_free_mps_per_node = free,
          fs_pending_blocked = blocked,
          fs_candidates = concat (map (\<lambda>target. concat (map (candidates_on fd node_idx target) by_node)) blocked)\<rparr>)"

section \<open>Decider\<close>

record decider =
  min_interval_seconds :: real
  max_requeues_per_hour :: int
  max_targets_per_decision :: int
  rd_history :: "real list"

definition trim_history :: "real \<Rightarrow> decider \<Rightarrow> decider" where
  "trim_history now dc = dc\<lparr>rd_history := filter (\<lambda>t. now - 3600 \<le> t) (rd_history dc)\<rparr>"

definition rate_limited :: "real \<Rightarrow> decider \<Rightarrow> frag_reason option \<times> decider" where
  "rate_limited now dc0 =
     (let dc = trim_history now dc0 in
      if rd_history dc \<noteq> [] \<and> now - last (rd_history dc) < min_interval_seconds dc then (Some MinInterval, dc)
      else if max_requeues_per_hour dc \<le> int (length (rd_history dc)) then (Some HourlyCap, dc)
      else (None, dc))"

text \<open>The greedy walk over the chosen node's candidates.\<close>

fun pick_victims ::
  "int \<Rightarrow> int \<Rightarrow> requeue_candidate list \<Rightarrow> requeue_candidate list \<Rightarrow> string list \<Rightarrow> int \<Rightarrow>
   requeue_candidate list \<times> int" where
  "pick_victims needed cap [] chosen seen freed = (chosen, freed)"
| "pick_victims needed cap (c # cs) chosen seen freed =
     (if jv_job_id (rc_victim c) \<in> set seen then pick_victims needed cap cs chosen seen freed
      else let chosen' = chosen @ [c]; freed' = freed + rc_slots_freed c in
        if needed \<le> freed' then (chosen', freed')
        else if cap \<le> int (length chosen') then (chosen', freed')
        else pick_victims needed cap cs chosen' (jv_job_id (rc_victim c) # seen) freed')"

definition node_freed :: "requeue_candidate list \<Rightarrow> string \<Rightarrow> int" where
  "node_freed per_target nid = sum_list (map rc_slots_freed (filter (\<lambda>c. rc_node_id c = nid) per_target))"

definition choose_node :: "requeue_candidate list \<Rightarrow> string" where
  "choose_node per_target =
     hd (sort_key (\<lambda>nid. - node_freed per_target nid) (set_of (map rc_node_id per_target)))"

definition decide :: "frag_snapshot \<Rightarrow> real \<Rightarrow> decider \<Rightarrow> (requeue_decision option \<times> frag_reason) \<times> decider" where
  "decide snapshot now dc0 =
     (if \<not> has_actionable_fragmentation snapshot then ((None, NoFragmentation), dc0)
      else case rate_limited now dc0 of
        (Some limit, dc) \<Rightarrow> ((None, limit), dc)
      | (None, dc) \<Rightarrow>
          (let target = hd (fs_pending_blocked snapshot);
               per_target = filter (\<lambda>c. jv_job_id (rc_target c) = jv_job_id target) (fs_candidates snapshot)
           in if per_target = [] then ((None, NoCandidatesForHead), dc)
              else
                (let ranked = sort_key (\<lambda>c. (- rc_slots_freed c, jv_priority (rc_victim c))) per_target;
                     node = choose_node per_target;
                     on_node = filter (\<lambda>c. rc_node_id c = node) ranked;
                     (chosen, freed) = pick_victims (jv_mps_req target) (max_targets_per_decision dc) on_node [] [] 0
                 in if chosen = [] then ((None, NoVictims), dc)
                    else
                      (let reason = Unblock (jv_job_id target) node (length chosen) freed;
                           decision = \<lparr>rd_target_job_ids = map (\<lambda>c. jv_job_id (rc_victim c)) chosen,
                                       rd_blocked_job_ids = [jv_job_id target], rd_reason = reason,
                                       rd_snapshot_score = fs_score snapshot, rd_timestamp = now\<rparr>
                       in ((Some decision, reason), dc\<lparr>rd_history := rd_history dc @ [now]\<rparr>)))))"

section \<open>Reconciler\<close>

record reconcile_result =
  rr_snapshot :: frag_snapshot
  rr_decision :: "requeue_decision option"
  rr_reason :: frag_reason
  rr_requeued :: "string list"
  rr_shadow :: bool
  rr_actuator_errors :: "(string \<times> py_error) list"

text \<open>The actuator is a parameter: the requeue command of one job, which may raise.\<close>

fun actuate :: "(string \<Rightarrow> py_error + unit) \<Rightarrow> string list \<Rightarrow> string list \<times> (string \<times> py_error) list" where
  "actuate act [] = ([], [])"
| "actuate act (jid # jids) =
     (let (ok, errs) = actuate act jids in
      case act jid of Inr _ \<Rightarrow> (jid # ok, errs) | Inl e \<Rightarrow> (ok, (jid, e) # errs))"

definition reconcile ::
  "detector \<Rightarrow> (string \<Rightarrow> py_error + unit) \<Rightarrow> bool \<Rightarrow> job_view list \<Rightarrow> node_view list \<Rightarrow> real \<Rightarrow> decider \<Rightarrow>
   reconcile_result \<times> decider" where
  "reconcile fd act shadow_mode jobs nodes now dc =
     (let snapshot = take_snapshot fd jobs nodes now;
          ((decision, reason), dc') = decide snapshot now dc
      in case decision of
           None \<Rightarrow> (\<lparr>rr_snapshot = snapshot, rr_decision = None, rr_reason = reason, rr_requeued = [],
                     rr_shadow = shadow_mode, rr_actuator_errors = []\<rparr>, dc')
         | Some d \<Rightarrow>
             if shadow_mode then
               (\<lparr>rr_snapshot = snapshot, rr_decision = Some d, rr_reason = reason, rr_requeued = [],
                 rr_shadow = True, rr_actuator_errors = []\<rparr>, dc')
             else
               (let (ok, errs) = actuate act (rd_target_job_ids d) in
                (\<lparr>rr_snapshot = snapshot, rr_decision = Some d, rr_reason = reason, rr_requeued = ok,
                  rr_shadow = False, rr_actuator_errors = errs\<rparr>, dc')))"

definition reason_label :: "frag_reason \<Rightarrow> string" where
  \<comment> \<open>the metric bucket of \<^verbatim>\<open>_fragmentation_tick\<close>\<close>
  "reason_label r =
     (case r of
        MinInterval \<Rightarrow> ''rate-limited'' | HourlyCap \<Rightarrow> ''rate-limited''
      | NoFragmentation \<Rightarrow> ''no-fragmentation''
      | NoCandidatesForHead \<Rightarrow> ''no-victims'' | NoVictims \<Rightarrow> ''no-victims''
      | Unblock _ _ _ _ \<Rightarrow> ''unblock'')"

section \<open>What the detector reports\<close>

lemma add_running_lookup:
  "map_of (foldl add_running d xs) nid =
     (let vs = map snd (filter (\<lambda>x. fst x = nid) xs) in
      case map_of d nid of None \<Rightarrow> if vs = [] then None else Some vs | Some us \<Rightarrow> Some (us @ vs))"
proof (induction xs arbitrary: d)
  case Nil
  show ?case by (auto split: option.split)
next
  case (Cons x xs)
  show ?case
    unfolding foldl.simps Cons.IH by (auto simp: add_running_def dict_get_def Let_def split: option.split)
qed

lemma add_running_distinct: "distinct (map fst d) \<Longrightarrow> distinct (map fst (foldl add_running d xs))"
  by (induction xs arbitrary: d) (simp_all add: add_running_def)

lemma running_by_node_mem:
  assumes "(nid, occupants) \<in> set (running_by_node running)" "v \<in> set occupants"
  shows "v \<in> set running \<and> nid \<in> set (jv_nodes v)"
proof -
  have "distinct (map fst (running_by_node running))"
    unfolding running_by_node_def by (rule add_running_distinct) simp
  with assms(1) have "map_of (running_by_node running) nid = Some occupants"
    by (simp add: map_of_is_SomeI)
  then have "occupants = map snd (filter (\<lambda>x. fst x = nid)
      (concat (map (\<lambda>r. map (\<lambda>nid. (nid, r)) (jv_nodes r)) running)))"
    by (simp add: running_by_node_def add_running_lookup Let_def split: if_splits)
  then show ?thesis
    using assms(2) by auto
qed

definition candidate_ok :: "detector \<Rightarrow> job_view list \<Rightarrow> node_view list \<Rightarrow> requeue_candidate \<Rightarrow> bool" where
  "candidate_ok fd jobs nodes c \<longleftrightarrow>
     rc_victim c \<in> set jobs \<and> str_upper (jv_state (rc_victim c)) = ''RUNNING'' \<and>
     rc_node_id c \<in> set (jv_nodes (rc_victim c)) \<and> rc_node_id c \<in> nv_node_id ` set nodes \<and>
     rc_target c \<in> set (blocked_jobs jobs nodes) \<and>
     jv_priority (rc_victim c) + fd_priority_gap fd < jv_priority (rc_target c) \<and>
     rc_slots_freed c = jv_mps_req (rc_victim c)"

lemma snapshot_candidates_ok:
  assumes "c \<in> set (fs_candidates (take_snapshot fd jobs nodes now))"
  shows "candidate_ok fd jobs nodes c"
proof -
  let ?run = "filter (\<lambda>j. str_upper (jv_state j) = ''RUNNING'') jobs"
  obtain target entry where t: "target \<in> set (blocked_jobs jobs nodes)"
      "entry \<in> set (running_by_node ?run)"
      "c \<in> set (candidates_on fd (dict_of (map (\<lambda>n. (nv_node_id n, n)) nodes)) target entry)"
    using assms by (auto simp: take_snapshot_def Let_def)
  obtain node v where node: "map_of (dict_of (map (\<lambda>n. (nv_node_id n, n)) nodes)) (fst entry) = Some node"
    and v: "v \<in> set (victims_for fd target (snd entry))"
    and c: "c = \<lparr>rc_victim = v, rc_target = target, rc_node_id = fst entry, rc_slots_freed = jv_mps_req v\<rparr>"
    using t(3) by (cases "map_of (dict_of (map (\<lambda>n. (nv_node_id n, n)) nodes)) (fst entry)")
      (auto simp: candidates_on_def split: if_splits)
  have "fst entry \<in> fst ` set (dict_of (map (\<lambda>n. (nv_node_id n, n)) nodes))"
    using node by (metis fst_conv image_eqI map_of_SomeD)
  then have "fst entry \<in> nv_node_id ` set nodes"
    unfolding keys_dict_of by force
  moreover have "v \<in> set (snd entry)" "fd_priority_gap fd < jv_priority target - jv_priority v"
    using v by (auto simp: victims_for_def)
  moreover have "v \<in> set ?run \<and> fst entry \<in> set (jv_nodes v)"
    using running_by_node_mem [of "fst entry" "snd entry" ?run v] t(2) calculation(2) by simp
  ultimately show ?thesis
    using t(1) by (simp add: c candidate_ok_def)
qed

lemma blocked_jobs_iff:
  "j \<in> set (blocked_jobs jobs nodes) \<longleftrightarrow>
     j \<in> set jobs \<and> str_upper (jv_state j) = ''PENDING'' \<and> (\<forall>n \<in> set nodes. nv_free_mps n < jv_mps_req j)"
  by (auto simp: blocked_jobs_def fits_anywhere_def list_ex_iff not_le)

lemma fragmentation_score_bounds: "0 \<le> fragmentation_score free \<and> fragmentation_score free \<le> 1"
  by (simp add: fragmentation_score_def Let_def)

end
