(* ===== verification/OpFragmentationFacts.thy ===== *)
theory OpFragmentationFacts
  imports OpFragmentation
begin

text \<open>
  What the decider may ask for, and how often: the victims it picks, the two rate limits over
  any sequence of calls, and what the reconciler adds.
\<close>

section \<open>The greedy walk\<close>

abbreviation victim_id :: "requeue_candidate \<Rightarrow> string" where
  "victim_id c \<equiv> jv_job_id (rc_victim c)"

lemma pick_subset:
  "pick_victims needed cap cs chosen seen freed = (out, tot) \<Longrightarrow> set out \<subseteq> set chosen \<union> set cs"
  by (induction needed cap cs chosen seen freed rule: pick_victims.induct)
    (fastforce simp: Let_def split: if_splits)+

lemma pick_extends:
  "pick_victims needed cap cs chosen seen freed = (out, tot) \<Longrightarrow> \<exists>zs. out = chosen @ zs"
  by (induction needed cap cs chosen seen freed rule: pick_victims.induct)
    (fastforce simp: Let_def split: if_splits)+

lemma pick_distinct:
  "pick_victims needed cap cs chosen seen freed = (out, tot) \<Longrightarrow>
     distinct (map victim_id chosen) \<Longrightarrow> set seen = victim_id ` set chosen \<Longrightarrow> distinct (map victim_id out)"
  by (induction needed cap cs chosen seen freed rule: pick_victims.induct)
    (auto simp: Let_def split: if_splits)

lemma pick_length:
  "pick_victims needed cap cs chosen seen freed = (out, tot) \<Longrightarrow>
     int (length chosen) < max cap 1 \<Longrightarrow> int (length out) \<le> max cap 1"
  by (induction needed cap cs chosen seen freed rule: pick_victims.induct)
    (auto simp: Let_def split: if_splits)

lemma pick_total:
  "pick_victims needed cap cs chosen seen freed = (out, tot) \<Longrightarrow>
     freed = sum_list (map rc_slots_freed chosen) \<Longrightarrow> tot = sum_list (map rc_slots_freed out)"
  by (induction needed cap cs chosen seen freed rule: pick_victims.induct)
    (auto simp: Let_def split: if_splits)

text \<open>The walk stops early only when enough is freed or the cap is reached.\<close>

lemma pick_complete:
  "pick_victims needed cap cs chosen seen freed = (out, tot) \<Longrightarrow> set seen = victim_id ` set chosen \<Longrightarrow>
     needed \<le> tot \<or> cap \<le> int (length out) \<or> victim_id ` set cs \<subseteq> victim_id ` set out"
proof (induction needed cap cs chosen seen freed rule: pick_victims.induct)
  case (1 needed cap chosen seen freed)
  then show ?case by simp
next
  case (2 needed cap c cs chosen seen freed)
  show ?case
  proof (cases "victim_id c \<in> set seen")
    case True
    then have "victim_id c \<in> victim_id ` set out"
      using 2(4) pick_extends [OF 2(3)] 2(4) by fastforce
    then show ?thesis
      using 2(1) [OF True] 2(3,4) True by auto
  next
    case False
    show ?thesis
    proof (cases "needed \<le> freed + rc_slots_freed c \<or> cap \<le> int (length (chosen @ [c]))")
      case True
      then show ?thesis
        using 2(3) False by (auto simp: Let_def split: if_splits)
    next
      case go: False
      have rest: "pick_victims needed cap cs (chosen @ [c]) (victim_id c # seen) (freed + rc_slots_freed c) = (out, tot)"
        using 2(3) False go by (simp add: Let_def)
      have "set (victim_id c # seen) = victim_id ` set (chosen @ [c])"
        using 2(4) by auto
      from 2(2) [OF False refl refl _ _ rest this] go
      have "needed \<le> tot \<or> cap \<le> int (length out) \<or> victim_id ` set cs \<subseteq> victim_id ` set out"
        by simp
      moreover have "victim_id c \<in> victim_id ` set out"
        using pick_extends [OF rest] by auto
      ultimately show ?thesis
        by auto
    qed
  qed
qed

lemma pick_nonempty:
  assumes "pick_victims needed cap (c # cs) [] [] 0 = (out, tot)"
  shows "out \<noteq> []"
  using assms pick_extends [of needed cap cs "[c]" "[victim_id c]" "rc_slots_freed c" out tot]
  by (auto simp: Let_def split: if_splits)

section \<open>A decision\<close>

lemma choose_node_mem:
  assumes "per_target \<noteq> []"
  shows "choose_node per_target \<in> rc_node_id ` set per_target"
proof -
  let ?xs = "sort_key (\<lambda>nid. - node_freed per_target nid) (set_of (map rc_node_id per_target))"
  have "set ?xs = rc_node_id ` set per_target"
    by simp
  moreover have "?xs \<noteq> []"
    using assms calculation by (metis empty_set image_is_empty set_empty)
  ultimately show ?thesis
    unfolding choose_node_def by (metis hd_in_set)
qed

text \<open>The node with the most slots to free among the candidates of the target.\<close>

lemma choose_node_best:
  assumes "c \<in> set per_target"
  shows "node_freed per_target (rc_node_id c) \<le> node_freed per_target (choose_node per_target)"
proof -
  let ?f = "\<lambda>nid. - node_freed per_target nid"
  let ?xs = "sort_key ?f (set_of (map rc_node_id per_target))"
  have mem: "rc_node_id c \<in> set ?xs"
    using assms by simp
  then obtain i where i: "i < length ?xs" "?xs ! i = rc_node_id c"
    by (meson in_set_conv_nth)
  have "sorted (map ?f ?xs)"
    by simp
  then have "?f (?xs ! 0) \<le> ?f (?xs ! i)"
    using i(1) by (intro sorted_key_nth_le) auto
  moreover have "choose_node per_target = ?xs ! 0"
    unfolding choose_node_def using mem by (intro hd_conv_nth) (metis empty_iff list.set(1))
  ultimately show ?thesis
    using i(2) by simp
qed

definition decision_ok :: "frag_snapshot \<Rightarrow> int \<Rightarrow> requeue_decision \<Rightarrow> bool" where
  "decision_ok snapshot cap d \<longleftrightarrow>
     rd_target_job_ids d \<noteq> [] \<and> distinct (rd_target_job_ids d) \<and>
     int (length (rd_target_job_ids d)) \<le> max cap 1 \<and>
     rd_blocked_job_ids d = [jv_job_id (hd (fs_pending_blocked snapshot))] \<and>
     (\<exists>node. \<forall>jid \<in> set (rd_target_job_ids d). \<exists>c \<in> set (fs_candidates snapshot).
        victim_id c = jid \<and> rc_node_id c = node \<and>
        jv_job_id (rc_target c) = jv_job_id (hd (fs_pending_blocked snapshot)))"

lemma decide_ok:
  assumes "decide snapshot now dc = ((Some d, reason), dc')"
  shows "decision_ok snapshot (max_targets_per_decision dc) d" "rd_reason d = reason" "rd_timestamp d = now"
    "rd_history dc' = rd_history (trim_history now dc) @ [now]"
    "fst (rate_limited now dc) = None"
proof -
  let ?target = "hd (fs_pending_blocked snapshot)"
  let ?per = "filter (\<lambda>c. jv_job_id (rc_target c) = jv_job_id ?target) (fs_candidates snapshot)"
  let ?ranked = "sort_key (\<lambda>c. (- rc_slots_freed c, jv_priority (rc_victim c))) ?per"
  let ?on = "filter (\<lambda>c. rc_node_id c = choose_node ?per) ?ranked"
  obtain lim dc1 where rl: "rate_limited now dc = (lim, dc1)"
    by (cases "rate_limited now dc")
  have lim: "lim = None"
    using assms rl by (auto simp: decide_def split: if_splits option.splits)
  have dc1: "dc1 = trim_history now dc"
    using rl by (auto simp: rate_limited_def Let_def split: if_splits)
  have per: "?per \<noteq> []"
    using assms rl lim by (auto simp: decide_def Let_def split: if_splits)
  obtain chosen freed where pick:
    "pick_victims (jv_mps_req ?target) (max_targets_per_decision dc1) ?on [] [] 0 = (chosen, freed)"
    by (cases "pick_victims (jv_mps_req ?target) (max_targets_per_decision dc1) ?on [] [] 0")
  have res: "chosen \<noteq> []" "rd_target_job_ids d = map victim_id chosen" "rd_blocked_job_ids d = [jv_job_id ?target]"
      "rd_reason d = reason" "rd_timestamp d = now" "dc' = dc1\<lparr>rd_history := rd_history dc1 @ [now]\<rparr>"
    using assms rl lim per pick by (auto simp: decide_def Let_def split: if_splits)
  have cap: "max_targets_per_decision dc1 = max_targets_per_decision dc"
    by (simp add: dc1 trim_history_def)
  have sub: "set chosen \<subseteq> set ?on"
    using pick_subset [OF pick] by simp
  have cand: "\<exists>c' \<in> set (fs_candidates snapshot). victim_id c' = jid \<and> rc_node_id c' = choose_node ?per \<and>
      jv_job_id (rc_target c') = jv_job_id ?target" if jid: "jid \<in> set (rd_target_job_ids d)" for jid
  proof -
    obtain c where "c \<in> set chosen" "victim_id c = jid"
      using jid res(2) by auto
    then show ?thesis
      using sub by auto
  qed
  show "decision_ok snapshot (max_targets_per_decision dc) d"
    using res(1-3) pick_distinct [OF pick] pick_length [OF pick] cap cand
    by (auto simp: decision_ok_def)
  show "rd_reason d = reason" "rd_timestamp d = now"
    by (fact res)+
  show "rd_history dc' = rd_history (trim_history now dc) @ [now]"
    by (simp add: res(6) dc1)
  show "fst (rate_limited now dc) = None"
    using rl lim by simp
qed

lemma decide_none:
  assumes "decide snapshot now dc = ((None, reason), dc')"
  shows "dc' = dc \<or> dc' = trim_history now dc"
  using assms by (auto simp: decide_def rate_limited_def Let_def split: if_splits prod.splits)

lemma decide_params:
  "decide snapshot now dc = (r, dc') \<Longrightarrow>
     min_interval_seconds dc' = min_interval_seconds dc \<and> max_requeues_per_hour dc' = max_requeues_per_hour dc \<and>
     max_targets_per_decision dc' = max_targets_per_decision dc"
  by (auto simp: decide_def rate_limited_def trim_history_def Let_def split: if_splits prod.splits)

section \<open>The rate limits over a run\<close>

text \<open>A run calls \<open>decide\<close> with one snapshot per tick; the times of the decisions it makes, oldest
  first.\<close>

fun decision_times :: "(frag_snapshot \<times> real) list \<Rightarrow> decider \<Rightarrow> real list" where
  "decision_times [] dc = []"
| "decision_times ((snapshot, now) # ticks) dc =
     (case decide snapshot now dc of
        ((Some d, _), dc') \<Rightarrow> now # decision_times ticks dc'
      | ((None, _), dc') \<Rightarrow> decision_times ticks dc')"

definition in_window :: "real \<Rightarrow> real list \<Rightarrow> real list" where
  "in_window now ts = filter (\<lambda>t. now - 3600 \<le> t) ts"

text \<open>The invariant: \<open>past\<close> lists all decisions so far, the history is what an earlier trim left of
  it.\<close>

definition history_of :: "real \<Rightarrow> real list \<Rightarrow> decider \<Rightarrow> bool" where
  "history_of now past dc \<longleftrightarrow>
     (\<exists>cut \<le> now - 3600. rd_history dc = filter (\<lambda>t. cut \<le> t) past) \<and> sorted past \<and> (\<forall>t \<in> set past. t \<le> now)"

lemma trim_history_of:
  assumes "history_of now past dc" "now \<le> now'"
  shows "rd_history (trim_history now' dc) = in_window now' past" "history_of now' past (trim_history now' dc)"
proof -
  obtain cut where cut: "cut \<le> now - 3600" "rd_history dc = filter (\<lambda>t. cut \<le> t) past"
    using assms(1) by (auto simp: history_of_def)
  have "filter (\<lambda>t. now' - 3600 \<le> t \<and> cut \<le> t) past = filter (\<lambda>t. now' - 3600 \<le> t) past"
    using cut(1) assms(2) by (intro filter_cong) auto
  then show eq: "rd_history (trim_history now' dc) = in_window now' past"
    by (simp add: trim_history_def in_window_def cut(2) conj_commute)
  show "history_of now' past (trim_history now' dc)"
    unfolding history_of_def eq in_window_def using assms by (force simp: history_of_def)
qed

lemma history_of_mono:
  assumes "history_of now past dc" "now \<le> now'"
  shows "history_of now' past dc"
proof -
  obtain cut where "cut \<le> now - 3600" "rd_history dc = filter (\<lambda>t. cut \<le> t) past"
    using assms(1) by (auto simp: history_of_def)
  moreover have "cut \<le> now' - 3600"
    using calculation(1) assms(2) by simp
  moreover have "\<forall>t \<in> set past. t \<le> now'"
    using assms by (force simp: history_of_def)
  ultimately show ?thesis
    using assms(1) unfolding history_of_def by blast
qed

lemma rate_limited_None:
  assumes "rate_limited now dc = (None, dc')"
  shows "dc' = trim_history now dc" "int (length (rd_history dc')) < max_requeues_per_hour dc"
    "rd_history dc' \<noteq> [] \<Longrightarrow> min_interval_seconds dc \<le> now - last (rd_history dc')"
  using assms by (auto simp: rate_limited_def Let_def trim_history_def split: if_splits)

lemma sorted_le_last: "sorted ts \<Longrightarrow> t \<in> set ts \<Longrightarrow> t \<le> last (ts :: real list)"
  by (induction ts) auto

text \<open>\<open>spaced gap cap ts\<close>: two decisions are \<open>gap\<close> apart, or more than an hour, and the hour that ends at
  a decision holds at most \<open>cap\<close> of them.\<close>

definition spaced :: "real \<Rightarrow> int \<Rightarrow> real list \<Rightarrow> bool" where
  "spaced gap cap ts \<longleftrightarrow>
     (\<forall>i<length ts. (\<forall>j<i. gap \<le> ts ! i - ts ! j \<or> 3600 < ts ! i - ts ! j) \<and>
        int (length (in_window (ts ! i) (take (Suc i) ts))) \<le> cap)"

lemma spaced_snoc:
  assumes "spaced gap cap past" "\<And>t. t \<in> set past \<Longrightarrow> gap \<le> now - t \<or> 3600 < now - t"
    "int (length (in_window now past)) < cap"
  shows "spaced gap cap (past @ [now])"
  unfolding spaced_def
proof (intro allI impI)
  fix i assume i: "i < length (past @ [now])"
  show "(\<forall>j<i. gap \<le> (past @ [now]) ! i - (past @ [now]) ! j \<or> 3600 < (past @ [now]) ! i - (past @ [now]) ! j) \<and>
      int (length (in_window ((past @ [now]) ! i) (take (Suc i) (past @ [now])))) \<le> cap"
  proof (cases "i < length past")
    case True
    then show ?thesis
      using assms(1) by (simp add: spaced_def nth_append)
  next
    case False
    then have "i = length past"
      using i by simp
    then show ?thesis
      using assms(2,3) by (auto simp: nth_append in_window_def)
  qed
qed

lemma decision_times_spaced:
  assumes "history_of t0 past dc" "spaced (min_interval_seconds dc) (max_requeues_per_hour dc) past"
    "sorted (t0 # map snd ticks)"
  shows "spaced (min_interval_seconds dc) (max_requeues_per_hour dc) (past @ decision_times ticks dc)"
  using assms
proof (induction ticks arbitrary: t0 past dc)
  case Nil
  then show ?case by simp
next
  case (Cons tick ticks)
  obtain snapshot now where tick: "tick = (snapshot, now)"
    by (cases tick)
  have le: "t0 \<le> now" and sorted: "sorted (now # map snd ticks)"
    using Cons.prems(3) by (auto simp: tick)
  obtain od reason dc' where dec: "decide snapshot now dc = ((od, reason), dc')"
    by (metis prod.collapse)
  note params = decide_params [OF dec]
  have trim: "history_of now past (trim_history now dc)" "rd_history (trim_history now dc) = in_window now past"
    using trim_history_of [OF Cons.prems(1) le] by simp_all
  show ?case
  proof (cases od)
    case None
    have "history_of now past dc"
      by (rule history_of_mono [OF Cons.prems(1) le])
    then have "history_of now past dc'"
      using decide_none [of snapshot now dc reason dc'] dec None trim(1) by auto
    from Cons.IH [OF this _ sorted] Cons.prems(2) params show ?thesis
      by (simp add: tick dec None)
  next
    case (Some d)
    note ok = decide_ok [OF dec [unfolded Some]]
    obtain dc1 where rl: "rate_limited now dc = (None, dc1)"
      using ok(5) by (cases "rate_limited now dc") simp
    note none = rate_limited_None [OF rl]
    have hist: "rd_history dc1 = in_window now past"
      using none(1) trim(2) by simp
    have gap: "min_interval_seconds dc \<le> now - t \<or> 3600 < now - t" if t: "t \<in> set past" for t
    proof (cases "now - 3600 \<le> t")
      case True
      then have mem: "t \<in> set (in_window now past)"
        using t by (simp add: in_window_def)
      moreover have "sorted (in_window now past)"
        using Cons.prems(1) unfolding in_window_def history_of_def by (intro sorted_wrt_filter) simp
      ultimately have "t \<le> last (in_window now past)"
        by (intro sorted_le_last)
      moreover have "in_window now past \<noteq> []"
        using mem by auto
      ultimately show ?thesis
        using none(3) hist by simp
    qed simp
    have "spaced (min_interval_seconds dc) (max_requeues_per_hour dc) (past @ [now])"
      using none(2) hist by (intro spaced_snoc Cons.prems(2) gap) simp_all
    moreover have "history_of now (past @ [now]) dc'"
    proof -
      have "rd_history dc' = filter (\<lambda>t. now - 3600 \<le> t) (past @ [now])"
        using ok(4) trim(2) by (simp add: in_window_def)
      then show ?thesis
        using Cons.prems(1) le by (force simp: history_of_def sorted_append)
    qed
    ultimately show ?thesis
      using Cons.IH [of now "past @ [now]" dc'] sorted params by (simp add: tick dec Some)
  qed
qed

section \<open>The reconciler\<close>

lemma actuate_props:
  "actuate act jids = (ok, errs) \<Longrightarrow>
     set ok = {j \<in> set jids. \<exists>u. act j = Inr u} \<and> fst ` set errs = {j \<in> set jids. \<exists>e. act j = Inl e} \<and>
     length ok + length errs = length jids"
  by (induction jids arbitrary: ok errs) (force split: prod.splits sum.splits)+

lemma reconcile_shadow: "reconcile fd act True jobs nodes now dc = reconcile fd act' True jobs nodes now dc"
  by (simp add: reconcile_def Let_def split: prod.splits option.splits)

lemma reconcile_decision:
  assumes "reconcile fd act shadow jobs nodes now dc = (res, dc')"
  shows "decide (take_snapshot fd jobs nodes now) now dc = ((rr_decision res, rr_reason res), dc')"
  using assms by (auto simp: reconcile_def Let_def split: prod.splits option.splits if_splits)

lemma reconcile_requeued:
  assumes "reconcile fd act shadow jobs nodes now dc = (res, dc')" "jid \<in> set (rr_requeued res)"
  shows "\<exists>d. rr_decision res = Some d \<and> jid \<in> set (rd_target_job_ids d) \<and> \<not> shadow"
  using assms by (auto simp: reconcile_def Let_def split: prod.splits option.splits if_splits dest: actuate_props)

end
