(* ===== verification/OpCollector.thy ===== *)
theory OpCollector
  imports OpPolicy PyJson
begin

text \<open>
  Collecting the state of the pools: the field mapping of the REST client
  (\<^verbatim>\<open>operator/slurm.py\<close>), the configuration loader, the classification of jobs to pools and the two
  ways to count them, over REST and over \<^verbatim>\<open>squeue\<close> (\<^verbatim>\<open>operator/collector.py\<close>). What Slurm and
  Kubernetes answer is a parameter; the HTTP and token code of the client is not modelled.
\<close>

section \<open>REST responses\<close>

definition active_job_states :: "string list" where
  "active_job_states = [''PENDING'', ''RUNNING'', ''COMPLETING'']"

definition list_jobs :: "jobj \<Rightarrow> string \<Rightarrow> py_error + jobj list" where
  "list_jobs data part =
     res_bind (as_list (j_get data ''jobs'' (JList []))) (\<lambda>js.
     res_bind (res_map as_obj js) (\<lambda>objs.
       Inr (filter (\<lambda>j. j_get j ''partition'' JNull = JStr part \<and>
                        j_get j ''job_state'' JNull \<in> JStr ` set active_job_states) objs)))"

definition list_nodes :: "jobj \<Rightarrow> py_error + jobj list" where
  "list_nodes data = res_bind (as_list (j_get data ''nodes'' (JList []))) (res_map as_obj)"

definition node_states :: "jobj \<Rightarrow> py_error + string list" where
  "node_states node =
     (case j_get node ''state'' (JStr []) of
        JList xs \<Rightarrow> res_bind (res_map as_str xs) (\<lambda>ss. Inr (map str_lower ss))
      | raw \<Rightarrow> if truthy raw then res_bind (as_str raw) (\<lambda>s. Inr [str_lower s]) else Inr [])"

definition busy_states :: "string list" where
  "busy_states = [''allocated'', ''mixed'', ''completing'']"

type_synonym job_fields = "(string, json) dict"

definition normalize_job :: "jobj \<Rightarrow> py_error + job_fields" where
  "normalize_job job =
     (let features_raw = j_get job ''features'' (JStr []);
          tres0 = j_or (j_get job ''tres_per_node'' (JStr [])) (JStr []);
          tres = (if tres0 \<in> {JStr ''N/A'', JStr ''none'', JStr ''None''} then JStr [] else tres0)
      in res_bind (case features_raw of
                     JList xs \<Rightarrow> res_bind (j_strings xs) (\<lambda>ss. Inr (str_join '','' ss))
                   | _ \<Rightarrow> Inr (py_str (j_or features_raw (JStr [])))) (\<lambda>features.
         Inr [(''NodeList'', j_or (j_get job ''nodes'' (JStr ''(null)'')) (JStr ''(null)'')),
              (''Features'', JStr features), (''TresPerNode'', tres),
              (''Reason'', JStr (py_str (j_or (j_or (j_get job ''state_reason'' JNull)
                                            (j_get job ''reason'' JNull)) (JStr []))))]))"

section \<open>Requests that no node can hold\<close>

text \<open>\<^verbatim>\<open>^(\d+(?:\.\d+)?)([KMGTPE]?)([cn]?)$\<close>, ignoring case: the amount, the unit and the scope.\<close>

definition match_memory :: "string \<Rightarrow> (real \<times> string \<times> string) option" where
  "match_memory s =
     (let ip = takeWhile is_digit s; r1 = dropWhile is_digit s;
          (fp, r2) = (case r1 of CHR ''.'' # r \<Rightarrow>
                        if takeWhile is_digit r = [] then ([], r1) else (takeWhile is_digit r, dropWhile is_digit r)
                      | _ \<Rightarrow> ([], r1));
          (unit, r3) = (case r2 of c # r \<Rightarrow> if upper_char c \<in> set ''KMGTPE'' then ([c], r) else ([], r2)
                        | [] \<Rightarrow> ([], []));
          (scope, r4) = (case r3 of c # r \<Rightarrow> if lower_char c \<in> set ''cn'' then ([c], r) else ([], r3)
                         | [] \<Rightarrow> ([], []))
      in if ip = [] \<or> r4 \<noteq> [] then None
         else Some (real (nat_of_digits (ip @ fp)) / 10 ^ length fp, unit, scope))"

definition memory_factor :: "string \<Rightarrow> real" where
  "memory_factor unit =
     (let u = str_upper unit in
      if u = ''K'' then 1 / 1024 else if u = ''G'' then 1024 else if u = ''T'' then 1024 ^ 2
      else if u = ''P'' then 1024 ^ 3 else if u = ''E'' then 1024 ^ 4 else 1)"

definition tres_item :: "int \<times> (real \<times> string \<times> string) option \<Rightarrow> string \<Rightarrow>
    int \<times> (real \<times> string \<times> string) option" where
  "tres_item acc item =
     (let (cpu, mem) = acc; (key, sep, value) = str_partition (CHR ''='') item in
      if \<not> sep then acc
      else if key = ''cpu'' then
        (case int_of_str value of Some n \<Rightarrow> (n, mem) | None \<Rightarrow> acc)
      else if key = ''mem'' then
        (case match_memory value of Some m \<Rightarrow> (cpu, Some m) | None \<Rightarrow> acc)
      else acc)"

definition requested_memory_mb :: "int \<Rightarrow> (real \<times> string \<times> string) option \<Rightarrow> real" where
  "requested_memory_mb cpu mem =
     (case mem of
        None \<Rightarrow> 0
      | Some (amount, unit, scope) \<Rightarrow>
          (if str_lower scope = ''c'' then amount * memory_factor unit * of_int (max cpu 1)
           else amount * memory_factor unit))"

definition tres_per_node_fits :: "string \<Rightarrow> partition_config \<Rightarrow> bool" where
  "tres_per_node_fits tres p =
     (let (cpu, mem) = foldl tres_item (0, None) (str_split (CHR '','') tres)
      in \<not> ((0 < cpus_per_node p \<and> cpus_per_node p < cpu) \<or>
            (0 < memory_mb_per_node p \<and> of_int (memory_mb_per_node p) < requested_memory_mb cpu mem)))"

definition can_scale_for_job :: "job_fields \<Rightarrow> partition_config \<Rightarrow> py_error + bool" where
  "can_scale_for_job flds p =
     res_bind (as_str (j_get flds ''Reason'' (JStr []))) (\<lambda>reason.
       if str_lower (str_strip_chars ''()'' (str_strip reason)) = ''resources''
       then res_bind (as_str (j_get flds ''TresPerNode'' (JStr []))) (\<lambda>tres. Inr (tres_per_node_fits tres p))
       else Inr False)"

section \<open>Classification\<close>

definition csv_set :: "json \<Rightarrow> py_error + string list" where
  "csv_set v =
     (if \<not> truthy v \<or> v = JStr ''(null)'' \<or> v = JStr ''N/A'' then Inr []
      else res_bind (as_str v) (\<lambda>s. Inr (filter (\<lambda>p. p \<noteq> [] \<and> p \<noteq> ''(null)'') (str_split (CHR '','') s))))"

definition gres_matches :: "string \<Rightarrow> string list \<Rightarrow> bool" where
  "gres_matches v needles = (if v = [] \<or> v = ''(null)'' then False else list_ex (\<lambda>n. str_contains n v) needles)"

definition pool_by_node :: "partition_config list \<Rightarrow> json \<Rightarrow> py_error + partition_config option" where
  "pool_by_node pools node_list =
     (if truthy node_list \<and> node_list \<noteq> JStr ''(null)'' then
        (if pools = [] then Inr None
         else res_bind (as_str node_list) (\<lambda>s. Inr (List.find (\<lambda>p. startswith s (worker_statefulset p)) pools)))
      else Inr None)"

definition pool_matches :: "string list \<Rightarrow> string \<Rightarrow> partition_config \<Rightarrow> bool" where
  "pool_matches features blob p \<longleftrightarrow>
     (match_features p \<noteq> [] \<and> list_ex (\<lambda>f. f \<in> set features) (match_features p)) \<or>
     (match_gres p \<noteq> [] \<and> gres_matches blob (match_gres p))"

definition classify_job :: "partition_config list \<Rightarrow> job_fields \<Rightarrow> py_error + partition_config option" where
  "classify_job pools flds =
     res_bind (pool_by_node pools (j_get flds ''NodeList'' (JStr []))) (\<lambda>placed.
       case placed of
         Some p \<Rightarrow> Inr (Some p)
       | None \<Rightarrow>
           res_bind (res_map (\<lambda>k. csv_set (j_get flds k (JStr []))) [''Features'', ''Feature'', ''Constraints'']) (\<lambda>fss.
           res_bind (j_strings (map (\<lambda>k. j_get flds k (JStr []))
                       [''TresPerNode'', ''TresPerJob'', ''TresBind'', ''TRES''])) (\<lambda>gs.
             let features = concat fss; blob = str_join '' '' gs in
             case List.find (pool_matches features blob) pools of
               Some p \<Rightarrow> Inr (Some p)
             | None \<Rightarrow> Inr (List.find fallback pools))))"

section \<open>Counting jobs\<close>

record bucket =
  b_pending :: "job_fields list"
  b_scale_pending :: "job_fields list"
  b_running :: "job_fields list"

definition empty_bucket :: bucket where
  "empty_bucket = \<lparr>b_pending = [], b_scale_pending = [], b_running = []\<rparr>"

type_synonym buckets = "(string, bucket) dict"

definition init_buckets :: "partition_config list \<Rightarrow> string \<Rightarrow> buckets" where
  "init_buckets pools part =
     dict_of (map (\<lambda>p. (worker_statefulset p, empty_bucket)) (filter (\<lambda>p. pc_partition p = part) pools))"

definition add_fields :: "string \<Rightarrow> bool \<Rightarrow> job_fields \<Rightarrow> bucket \<Rightarrow> bucket" where
  "add_fields state scalable flds b =
     (if state = ''PENDING'' then
        b\<lparr>b_pending := b_pending b @ [flds],
          b_scale_pending := (if scalable then b_scale_pending b @ [flds] else b_scale_pending b)\<rparr>
      else b\<lparr>b_running := b_running b @ [flds]\<rparr>)"

text \<open>One job of either source, after its state is known to be active: classify, find or create the
  bucket of its pool, and append.\<close>

definition count_job ::
  "partition_config list \<Rightarrow> string \<Rightarrow> job_fields \<Rightarrow> buckets \<Rightarrow> py_error + buckets" where
  "count_job pools state flds result =
     res_bind (classify_job pools flds) (\<lambda>pool.
       case pool of
         None \<Rightarrow> Inr result
       | Some p \<Rightarrow>
           (let b = dict_get result (worker_statefulset p) empty_bucket;
                normalized = (if state = ''COMPLETING'' then ''RUNNING'' else state)
            in res_bind (if normalized = ''PENDING'' then can_scale_for_job flds p else Inr False) (\<lambda>scalable.
                 Inr (dict_set (worker_statefulset p) (add_fields normalized scalable flds b) result))))"

definition count_rest_job :: "partition_config list \<Rightarrow> jobj \<Rightarrow> buckets \<Rightarrow> py_error + buckets" where
  "count_rest_job pools job result =
     (case j_get job ''job_state'' (JStr []) of
        JStr state \<Rightarrow>
          if state \<notin> set active_job_states then Inr result
          else res_bind (normalize_job job) (\<lambda>flds. count_job pools state flds result)
      | _ \<Rightarrow> Inr result)"

fun res_fold :: "('a \<Rightarrow> 'b \<Rightarrow> py_error + 'b) \<Rightarrow> 'a list \<Rightarrow> 'b \<Rightarrow> py_error + 'b" where
  "res_fold f [] b = Inr b"
| "res_fold f (x # xs) b = res_bind (f x b) (res_fold f xs)"

definition jobs_by_pool_rest ::
  "partition_config list \<Rightarrow> jobj \<Rightarrow> string \<Rightarrow> py_error + buckets" where
  "jobs_by_pool_rest pools data part =
     res_bind (list_jobs data part) (\<lambda>jobs.
       res_fold (count_rest_job pools) jobs (init_buckets pools part))"

text \<open>The bucket of the pool is created before the state of the line is looked at.\<close>

definition count_exec_line :: "partition_config list \<Rightarrow> string \<Rightarrow> buckets \<Rightarrow> py_error + buckets" where
  "count_exec_line pools line0 result =
     (case str_split_max 5 (CHR ''|'') (str_strip line0) of
        [jobid, state, nodelist, features, tres, reason] \<Rightarrow>
          (let flds = [(''NodeList'', JStr nodelist), (''Features'', JStr features),
                         (''TresPerNode'', JStr tres), (''Reason'', JStr reason)]
           in if state \<in> set active_job_states then count_job pools state flds result
              else res_bind (classify_job pools flds) (\<lambda>pool.
                case pool of None \<Rightarrow> Inr result
                | Some p \<Rightarrow> Inr (dict_setdefault (worker_statefulset p) empty_bucket result)))
      | _ \<Rightarrow> Inr result)"

definition jobs_by_pool_exec ::
  "partition_config list \<Rightarrow> string \<Rightarrow> string \<Rightarrow> py_error + buckets" where
  "jobs_by_pool_exec pools output part =
     res_fold (count_exec_line pools) (nonblank_lines output) (init_buckets pools part)"

section \<open>Busy nodes\<close>

definition busy_node :: "string \<Rightarrow> jobj \<Rightarrow> py_error + bool" where
  "busy_node prefix node =
     res_bind (as_str (j_get node ''name'' (JStr []))) (\<lambda>name.
       if \<not> startswith name prefix then Inr False
       else res_bind (node_states node) (\<lambda>ss. Inr (list_ex (\<lambda>s. s \<in> set busy_states) ss)))"

definition busy_nodes_rest :: "partition_config \<Rightarrow> jobj \<Rightarrow> py_error + int" where
  "busy_nodes_rest p data =
     res_bind (list_nodes data) (\<lambda>nodes.
     res_bind (res_map (busy_node (worker_statefulset p)) nodes) (\<lambda>bs.
       Inr (int (length (filter id bs)))))"

definition busy_nodes_exec :: "string \<Rightarrow> py_error + int" where
  "busy_nodes_exec output =
     (let lines = nonblank_lines output in
      if lines = [] then Inr 0
      else case int_of_str (last lines) of None \<Rightarrow> Inl ValueError | Some n \<Rightarrow> Inr n)"

section \<open>The collected states\<close>

text \<open>What the outside answers: over REST the two responses, without it the outputs of the two
  commands per partition or pool; and the desired replicas of each StatefulSet.\<close>

record outside =
  out_rest :: bool
  out_jobs :: "py_error + jobj"
  out_nodes :: "py_error + jobj"
  out_squeue :: "string \<Rightarrow> py_error + string"
  out_sinfo :: "string \<Rightarrow> py_error + string"
  out_replicas :: "string \<Rightarrow> int"

definition jobs_by_pool_and_state :: "outside \<Rightarrow> partition_config list \<Rightarrow> string \<Rightarrow> py_error + buckets" where
  "jobs_by_pool_and_state out pools part =
     (if out_rest out then res_bind (out_jobs out) (\<lambda>data. jobs_by_pool_rest pools data part)
      else res_bind (out_squeue out part) (\<lambda>o'. jobs_by_pool_exec pools o' part))"

definition get_busy_nodes :: "outside \<Rightarrow> partition_config \<Rightarrow> py_error + int" where
  "get_busy_nodes out p =
     (if out_rest out then res_bind (out_nodes out) (busy_nodes_rest p)
      else res_bind (out_sinfo out (worker_statefulset p)) busy_nodes_exec)"

definition pool_state :: "outside \<Rightarrow> partition_config \<Rightarrow> buckets \<Rightarrow> py_error + partition_state" where
  "pool_state out p jobs =
     (let b = dict_get jobs (worker_statefulset p) empty_bucket in
      res_bind (get_busy_nodes out p) (\<lambda>busy.
        Inr \<lparr>ps_partition = pc_partition p, ps_statefulset = worker_statefulset p,
             current_replicas = out_replicas out (worker_statefulset p),
             pending_jobs = int (length (b_pending b)), running_jobs = int (length (b_running b)),
             busy_nodes = busy, scale_pending_jobs = int (length (b_scale_pending b))\<rparr>))"

definition collect_all ::
  "outside \<Rightarrow> partition_config list \<Rightarrow> py_error + (string, partition_state) dict" where
  "collect_all out pools =
     res_bind (res_map (\<lambda>part. res_bind (jobs_by_pool_and_state out pools part) (\<lambda>b. Inr (part, b)))
                 (remdups (map pc_partition pools))) (\<lambda>by_partition.
     res_bind (res_map (\<lambda>p. res_bind (pool_state out p (dict_get by_partition (pc_partition p) []))
                               (\<lambda>st. Inr (worker_statefulset p, st))) pools) (\<lambda>states.
       Inr (dict_of states)))"

section \<open>Loading the pools\<close>

definition need :: "jobj \<Rightarrow> string \<Rightarrow> py_error + string" where
  \<comment> \<open>\<^verbatim>\<open>item[key]\<close>, a name; a value that is not text is rejected here\<close>
  "need item key = (case map_of item key of None \<Rightarrow> Inl KeyError
     | Some (JStr s) \<Rightarrow> Inr s | Some _ \<Rightarrow> Inl TypeError)"

definition opt_int :: "jobj \<Rightarrow> string \<Rightarrow> int \<Rightarrow> py_error + int" where
  "opt_int item key d = py_int (j_get item key (JInt d))"

definition opt_names :: "jobj \<Rightarrow> string \<Rightarrow> py_error + string list" where
  "opt_names item key = res_bind (as_list (j_get item key (JList []))) (res_map (\<lambda>j. case j of JStr s \<Rightarrow> Inr s | _ \<Rightarrow> Inl TypeError))"

definition load_item :: "config \<Rightarrow> json \<Rightarrow> py_error + partition_config" where
  "load_item cfg j =
     (case j of
        JObj item \<Rightarrow>
          res_bind (need item ''partition'') (\<lambda>part.
          res_bind (need item ''worker_statefulset'') (\<lambda>sts.
          res_bind (opt_int item ''min_replicas'' 1) (\<lambda>mn.
          res_bind (opt_int item ''max_replicas'' (default_max_replicas cfg)) (\<lambda>mx.
          res_bind (opt_int item ''scale_up_step'' 1) (\<lambda>up.
          res_bind (opt_int item ''scale_down_step'' 1) (\<lambda>down.
          res_bind (opt_int item ''scale_down_cooldown'' 60) (\<lambda>cool.
          res_bind (case j_get item ''checkpoint_path'' (JStr []) of JStr s \<Rightarrow> Inr s | _ \<Rightarrow> Inl TypeError) (\<lambda>path.
          res_bind (opt_int item ''max_checkpoint_age_seconds'' 600) (\<lambda>age.
          res_bind (opt_int item ''checkpoint_grace_seconds'' 0) (\<lambda>grace.
          res_bind (opt_int item ''drain_timeout_seconds'' (default_drain_timeout_seconds cfg)) (\<lambda>drain.
          res_bind (opt_names item ''match_features'') (\<lambda>feats.
          res_bind (opt_names item ''match_gres'') (\<lambda>gres.
          res_bind (opt_int item ''cpus_per_node'' 0) (\<lambda>cpus.
          res_bind (opt_int item ''memory_mb_per_node'' 0) (\<lambda>mem.
            Inr \<lparr>pc_partition = part, worker_statefulset = sts, min_replicas = mn, max_replicas = mx,
                 scale_up_step = up, scale_down_step = down, scale_down_cooldown = cool,
                 checkpoint_path = path, max_checkpoint_age_seconds = age, checkpoint_grace_seconds = grace,
                 drain_timeout_seconds = drain, match_features = feats, match_gres = gres,
                 cpus_per_node = cpus, memory_mb_per_node = mem,
                 fallback = truthy (j_get item ''fallback'' (JBool False))\<rparr>)))))))))))))))
      | _ \<Rightarrow> Inl TypeError)"

definition default_pool :: "config \<Rightarrow> partition_config" where
  "default_pool cfg =
     \<lparr>pc_partition = default_partition cfg, worker_statefulset = default_worker_statefulset cfg,
      min_replicas = default_min_replicas cfg, max_replicas = default_max_replicas cfg,
      scale_up_step = default_scale_up_step cfg, scale_down_step = default_scale_down_step cfg,
      scale_down_cooldown = default_scale_down_cooldown cfg, checkpoint_path = default_checkpoint_path cfg,
      max_checkpoint_age_seconds = default_max_checkpoint_age_seconds cfg,
      checkpoint_grace_seconds = default_checkpoint_grace_seconds cfg,
      drain_timeout_seconds = default_drain_timeout_seconds cfg, match_features = [], match_gres = [],
      cpus_per_node = 0, memory_mb_per_node = 0, fallback = True\<rparr>"

text \<open>\<open>payload\<close> is the decoded \<^verbatim>\<open>PARTITIONS_JSON\<close>, \<open>None\<close> when the variable is blank.\<close>

definition load_pools :: "config \<Rightarrow> json option \<Rightarrow> py_error + partition_config list" where
  "load_pools cfg payload =
     (case payload of
        None \<Rightarrow> Inr [default_pool cfg]
      | Some (JList items) \<Rightarrow> if items = [] then Inl ValueError else res_map (load_item cfg) items
      | Some _ \<Rightarrow> Inl ValueError)"

end
