(* ===== verification/OpFragmentationRest.thy ===== *)
theory OpFragmentationRest
  imports OpFragmentationFacts OpCollector
begin

text \<open>
  From Slurm's REST fields to the detector's views, and one tick of the fragmentation loop
  (\<^verbatim>\<open>operator/fragmentation.py\<close>, the adapters, and \<^verbatim>\<open>operator/fragmentation_loop.py\<close>). The regular
  expressions are scanners; the greedy optional type of a GRES entry cannot hold a colon, so
  taking its longest run loses no match.
\<close>

section \<open>Parsing\<close>

definition parse_mps_req :: "string \<Rightarrow> int" where
  "parse_mps_req tres = (if tres = [] then 0 else case re_search match_mps tres of Some n \<Rightarrow> int n | None \<Rightarrow> 0)"

definition is_type_char :: "char \<Rightarrow> bool" where
  "is_type_char c \<longleftrightarrow> is_digit c \<or> (let n = (of_char c :: nat) in (65 \<le> n \<and> n \<le> 90) \<or> (97 \<le> n \<and> n \<le> 122))
     \<or> c = CHR ''_'' \<or> c = CHR ''-''"

text \<open>\<^verbatim>\<open>\s*mps(?::[A-Za-z0-9_-]+)?:(\d+)\<close> at a given position\<close>

definition match_mps_total :: "string \<Rightarrow> nat option" where
  "match_mps_total s0 =
     (let s = dropWhile is_space s0 in
      if startswith s ''mps:'' then
        (let r = drop 4 s; typ = takeWhile is_type_char r; rest = dropWhile is_type_char r;
             typed = (if typ = [] then None else
                        (case rest of c # t \<Rightarrow> if c = CHR '':'' then match_digits t else None | [] \<Rightarrow> None))
         in case typed of Some n \<Rightarrow> Some n | None \<Rightarrow> match_digits r)
      else None)"

definition parse_node_total_mps :: "string \<Rightarrow> int option" where
  "parse_node_total_mps gres =
     (if gres = [] then None
      else map_option int (search_field match_mps_total gres))"

definition parse_tres_mps :: "string \<Rightarrow> int option" where
  "parse_tres_mps tres_used = (if tres_used = [] then None else map_option int (re_search match_gres_mps tres_used))"

text \<open>The expansion of one comma-separated part of a bracketed node list.\<close>

definition expand_range :: "string \<Rightarrow> string \<Rightarrow> string list" where
  "expand_range prefix p =
     (case str_split_max 1 (CHR ''-'') p of
        [lo, hi] \<Rightarrow>
          (case (int_of_str lo, int_of_str hi) of
             (Some a, Some b) \<Rightarrow> map (\<lambda>i. prefix @ dec_int i) [a..b]
           | _ \<Rightarrow> [prefix @ p])
      | _ \<Rightarrow> [prefix @ p])"

definition parse_node_list :: "string \<Rightarrow> string list" where
  "parse_node_list nl =
     (if nl \<in> {[], ''(null)'', ''N/A''} then []
      else if CHR ''['' \<notin> set nl then
        filter (\<lambda>p. p \<noteq> []) (map str_strip (str_split (CHR '','') nl))
      else
        (let prefix = takeWhile (\<lambda>c. c \<noteq> CHR ''['') nl;
             r = tl (dropWhile (\<lambda>c. c \<noteq> CHR ''['') nl);
             ranges = takeWhile (\<lambda>c. c \<noteq> CHR '']'') r;
             rest = dropWhile (\<lambda>c. c \<noteq> CHR '']'') r
         in if prefix = [] \<or> ranges = [] \<or> rest \<notin> {'']'', CHR '']'' # [CHR 0x0A]} then [nl]
            else concat (map (expand_range prefix) (str_split (CHR '','') ranges))))"

section \<open>Views\<close>

definition job_view_of :: "int \<Rightarrow> jobj \<Rightarrow> py_error + job_view option" where
  "job_view_of mps_per_node j =
     (let state = str_upper (py_str (j_or (j_get j ''job_state'' (JStr [])) (JStr []))) in
      if state \<noteq> ''RUNNING'' \<and> state \<noteq> ''PENDING'' then Inr None
      else
        res_bind (join_if_list (j_or (j_get j ''tres_per_node'' JNull) (JStr []))) (\<lambda>tres.
        let mps0 = parse_mps_req (py_str tres);
            mps = (if mps0 = 0 then mps_per_node else mps0)
        in res_bind (case py_int (j_or (j_get j ''num_nodes'' (JInt 1)) (JInt 1)) of
                       Inr n \<Rightarrow> Inr n | Inl TypeError \<Rightarrow> Inr 1 | Inl ValueError \<Rightarrow> Inr 1 | Inl e \<Rightarrow> Inl e) (\<lambda>gpus.
           let ns = parse_node_list (py_str (j_or (j_get j ''nodes'' JNull) (JStr []))) in
           res_bind (py_int (j_or (j_get j ''priority'' (JInt 0)) (JInt 0))) (\<lambda>prio.
           res_bind (py_float (j_or (j_get j ''submit_time'' (JInt 0)) (JInt 0))) (\<lambda>submit.
           res_bind (py_float (j_or (j_get j ''run_time'' (JInt 0)) (JInt 0))) (\<lambda>run_time.
             Inr (Some \<lparr>jv_job_id = py_str (j_get j ''job_id'' (JStr [])),
               jv_user = py_str (j_get j ''user_name'' (j_get j ''user'' (JStr ''anon''))),
               jv_partition = py_str (j_get j ''partition'' (JStr [])), jv_state = state,
               jv_priority = prio, jv_mps_req = mps, jv_gpu_count = gpus, jv_nodes = ns,
               jv_submit_ts = submit, jv_runtime_seconds = run_time\<rparr>)))))))"

definition jobs_from_slurm_rest :: "int \<Rightarrow> jobj list \<Rightarrow> py_error + job_view list" where
  "jobs_from_slurm_rest mps_per_node js =
     res_bind (res_map (job_view_of mps_per_node) js) (\<lambda>os. Inr (map the (filter (\<lambda>x. x \<noteq> None) os)))"

definition unavailable_node_states :: "string list" where
  "unavailable_node_states = [''drain'', ''drained'', ''draining'', ''down'', ''fail'', ''failing'', ''maint'',
     ''reserved'', ''powering_down'', ''powered_down'', ''future'', ''not_responding'', ''no_respond'']"

definition node_is_available :: "jobj \<Rightarrow> bool" where
  "node_is_available node =
     (let states = (case j_get node ''state'' (JStr []) of
                      JList xs \<Rightarrow> map (\<lambda>s. str_lower (py_str s)) xs
                    | raw \<Rightarrow> map (\<lambda>s. str_lower (str_strip s))
                        (filter (\<lambda>s. str_strip s \<noteq> []) (str_split (CHR '','') (str_replace_char (CHR ''+'') '','' (py_str raw)))))
      in \<not> list_ex (\<lambda>s. s \<in> set unavailable_node_states) states)"

definition node_view_of :: "int \<Rightarrow> jobj \<Rightarrow> py_error + node_view" where
  "node_view_of mps_per_node n =
     res_bind (join_if_list (j_or (j_get n ''gres'' JNull) (JStr []))) (\<lambda>gres_cfg.
     let total = (case parse_node_total_mps (py_str gres_cfg) of
                    Some t \<Rightarrow> t | None \<Rightarrow> if dict_has ''gres'' n then 0 else mps_per_node)
     in res_bind (join_if_list (j_or (j_get n ''tres_used'' JNull) (JStr []))) (\<lambda>tres_used.
        res_bind (case parse_tres_mps (py_str tres_used) of
                    Some u \<Rightarrow> Inr u
                  | None \<Rightarrow> res_bind (join_if_list (j_or (j_get n ''gres_used'' JNull) (JStr []))) (\<lambda>g.
                              Inr (parse_mps_req (py_str g)))) (\<lambda>used.
          let free = (if node_is_available n then max 0 (total - used) else 0) in
          Inr \<lparr>nv_node_id = py_str (j_get n ''name'' (JStr [])), nv_free_mps = free, nv_total_mps = total\<rparr>)))"

definition nodes_from_slurm_rest :: "int \<Rightarrow> jobj list \<Rightarrow> py_error + node_view list" where
  "nodes_from_slurm_rest mps_per_node ns = res_map (node_view_of mps_per_node) ns"

section \<open>One tick\<close>

text \<open>The partitions asked are the configured ones, or those of the pools; an answer that raises ends
  the tick with a log line (\<open>None\<close>), any other exception reaches the loop, which logs it.\<close>

definition fragmentation_tick ::
  "detector \<Rightarrow> (string \<Rightarrow> py_error + unit) \<Rightarrow> bool \<Rightarrow> string list \<Rightarrow> partition_config list \<Rightarrow>
   (string \<Rightarrow> py_error + jobj list) \<Rightarrow> py_error + jobj list \<Rightarrow> real \<Rightarrow> decider \<Rightarrow>
   py_error + (reconcile_result option \<times> decider)" where
  "fragmentation_tick fd act shadow parts pools ask_jobs ask_nodes now dc =
     (let partitions = (if parts \<noteq> [] then parts else map pc_partition pools) in
      case res_map ask_jobs partitions of
        Inl _ \<Rightarrow> Inr (None, dc)
      | Inr jss \<Rightarrow>
          (case ask_nodes of
             Inl _ \<Rightarrow> Inr (None, dc)
           | Inr rest_nodes \<Rightarrow>
               res_bind (jobs_from_slurm_rest (fd_mps_per_node fd) (concat jss)) (\<lambda>jobs.
               res_bind (nodes_from_slurm_rest (fd_mps_per_node fd) rest_nodes) (\<lambda>nodes.
                 let (res, dc') = reconcile fd act shadow jobs nodes now dc in Inr (Some res, dc')))))"

section \<open>Facts\<close>

lemma node_view_bounds:
  assumes "node_view_of mps n = Inr v" "0 \<le> mps"
  shows "0 \<le> nv_free_mps v" "\<not> node_is_available n \<Longrightarrow> nv_free_mps v = 0"
  using assms by (auto simp: node_view_of_def res_bind_Inr Let_def split: if_splits option.splits)

lemma re_search_ex: "re_search m s = Some v \<Longrightarrow> \<exists>t. m t = Some v"
  by (induction s) (auto split: option.splits)

lemma parse_mps_req_nonneg: "0 \<le> parse_mps_req s"
  by (auto simp: parse_mps_req_def split: option.split)

lemma job_view_of_ok:
  assumes "job_view_of mps j = Inr (Some v)" "0 < mps"
  shows "jv_state v = ''RUNNING'' \<or> jv_state v = ''PENDING''" "0 < jv_mps_req v"
  using assms parse_mps_req_nonneg
  by (auto simp: job_view_of_def res_bind_Inr Let_def less_le split: if_splits)

lemma views_mem:
  "jobs_from_slurm_rest mps js = Inr vs \<Longrightarrow> v \<in> set vs \<Longrightarrow> \<exists>j \<in> set js. job_view_of mps j = Inr (Some v)"
  by (auto simp: jobs_from_slurm_rest_def res_bind_Inr dest!: res_map_set)

text \<open>A node in an unavailable state offers nothing, so it never makes a pending job fit.\<close>

lemma unavailable_never_fits:
  assumes "node_view_of mps n = Inr v" "\<not> node_is_available n" "0 < jv_mps_req j" "0 \<le> mps"
  shows "\<not> fits_anywhere j [v]"
  using node_view_bounds(2) [OF assms(1,4,2)] assms(3) by (simp add: fits_anywhere_def)

end
