(* ===== verification/OpCollectorFacts.thy ===== *)
theory OpCollectorFacts
  imports OpCollector
begin

text \<open>
  What the collected states satisfy: the counts the policy relies on, the pools they are about,
  and that a job Slurm reports as running or completing counts as running for its pool.
\<close>

section \<open>Classification\<close>

lemma classify_job_mem:
  assumes "classify_job pools flds = Inr (Some p)"
  shows "p \<in> set pools"
  using assms
  by (auto simp: classify_job_def res_bind_Inr Let_def pool_by_node_def split: option.splits if_splits dest: find_mem)

text \<open>A job that Slurm has placed goes to the first pool whose name is a prefix of its node list.\<close>

lemma classify_job_placed:
  assumes "map_of flds ''NodeList'' = Some (JStr nodes)" "nodes \<noteq> []" "nodes \<noteq> ''(null)''"
    "List.find (\<lambda>p. startswith nodes (worker_statefulset p)) pools = Some p"
  shows "classify_job pools flds = Inr (Some p)"
  using assms by (cases pools) (auto simp: classify_job_def pool_by_node_def j_get_def dict_get_def as_str_def)

section \<open>Counts\<close>

definition bucket_ok :: "bucket \<Rightarrow> bool" where
  "bucket_ok b \<longleftrightarrow> length (b_scale_pending b) \<le> length (b_pending b)"

definition buckets_ok :: "buckets \<Rightarrow> bool" where
  "buckets_ok bs \<longleftrightarrow> (\<forall>k b. map_of bs k = Some b \<longrightarrow> bucket_ok b)"

lemma empty_bucket_ok [simp]: "bucket_ok empty_bucket"
  by (simp add: bucket_ok_def empty_bucket_def)

lemma add_fields_ok: "bucket_ok b \<Longrightarrow> bucket_ok (add_fields st sc f b)"
  by (auto simp: bucket_ok_def add_fields_def)

lemma dict_get_ok: "buckets_ok bs \<Longrightarrow> bucket_ok (dict_get bs k empty_bucket)"
  by (auto simp: buckets_ok_def dict_get_def split: option.split)

lemma buckets_ok_set: "buckets_ok bs \<Longrightarrow> bucket_ok b \<Longrightarrow> buckets_ok (dict_set k b bs)"
  by (auto simp: buckets_ok_def)

lemma init_buckets_ok: "buckets_ok (init_buckets pools part)"
proof -
  have "buckets_ok d \<Longrightarrow> buckets_ok (foldl (\<lambda>d p. dict_set (fst p) (snd p) d) d (map (\<lambda>p. (f p, empty_bucket)) ps))"
    for d ps and f :: "partition_config \<Rightarrow> string"
    by (induction ps arbitrary: d) (simp_all add: buckets_ok_set)
  from this [of "[]"] show ?thesis
    by (simp add: init_buckets_def dict_of_def) (simp add: buckets_ok_def)
qed

lemma count_job_ok: "count_job pools st f bs = Inr bs' \<Longrightarrow> buckets_ok bs \<Longrightarrow> buckets_ok bs'"
  by (auto simp: count_job_def res_bind_Inr Let_def split: option.splits
      intro!: buckets_ok_set add_fields_ok dict_get_ok)

lemma count_rest_job_ok: "count_rest_job pools j bs = Inr bs' \<Longrightarrow> buckets_ok bs \<Longrightarrow> buckets_ok bs'"
  by (auto simp: count_rest_job_def res_bind_Inr split: json.splits if_splits dest: count_job_ok)

lemma count_exec_line_cases:
  assumes "count_exec_line pools l bs = Inr bs'"
  shows "bs' = bs \<or> (\<exists>st f. count_job pools st f bs = Inr bs') \<or> (\<exists>k. bs' = dict_set k empty_bucket bs)"
proof (cases "\<exists>a st n f t r. str_split_max 5 (CHR ''|'') (str_strip l) = [a, st, n, f, t, r]")
  case True
  then obtain a st n f t r where parts: "str_split_max 5 (CHR ''|'') (str_strip l) = [a, st, n, f, t, r]"
    by blast
  let ?f = "[(''NodeList'', JStr n), (''Features'', JStr f), (''TresPerNode'', JStr t), (''Reason'', JStr r)]"
  have "count_exec_line pools l bs = (if st \<in> set active_job_states then count_job pools st ?f bs
      else res_bind (classify_job pools ?f) (\<lambda>pool. case pool of None \<Rightarrow> Inr bs
        | Some p \<Rightarrow> Inr (dict_setdefault (worker_statefulset p) empty_bucket bs)))"
    by (simp add: count_exec_line_def parts)
  then have "(if st \<in> set active_job_states then count_job pools st ?f bs
      else res_bind (classify_job pools ?f) (\<lambda>pool. case pool of None \<Rightarrow> Inr bs
        | Some p \<Rightarrow> Inr (dict_setdefault (worker_statefulset p) empty_bucket bs))) = Inr bs'"
    using assms by simp
  then show ?thesis
    by (cases "st \<in> set active_job_states")
      (auto simp: res_bind_Inr dict_setdefault_def split: if_splits option.splits)
next
  case False
  then have "count_exec_line pools l bs = Inr bs"
    by (auto simp: count_exec_line_def split: list.split)
  then show ?thesis
    using assms by simp
qed

lemma count_exec_line_ok:
  assumes "count_exec_line pools l bs = Inr bs'" "buckets_ok bs"
  shows "buckets_ok bs'"
  using count_exec_line_cases [OF assms(1)] assms(2) count_job_ok buckets_ok_set by fastforce

lemma res_fold_invariant:
  assumes "\<And>x b b'. x \<in> set xs \<Longrightarrow> I b \<Longrightarrow> f x b = Inr b' \<Longrightarrow> I b'" "I b" "res_fold f xs b = Inr b'"
  shows "I b'"
  using assms by (induction xs arbitrary: b) (auto simp: res_bind_Inr)

lemma jobs_by_pool_ok:
  assumes "jobs_by_pool_and_state out pools part = Inr bs"
  shows "buckets_ok bs"
proof (cases "out_rest out")
  case True
  then obtain jobs where "res_fold (count_rest_job pools) jobs (init_buckets pools part) = Inr bs"
    using assms by (auto simp: jobs_by_pool_and_state_def jobs_by_pool_rest_def res_bind_Inr)
  note fold = this
  show ?thesis
    by (rule res_fold_invariant [where I = buckets_ok, OF _ init_buckets_ok fold]) (rule count_rest_job_ok)
next
  case False
  then obtain ls where "res_fold (count_exec_line pools) ls (init_buckets pools part) = Inr bs"
    using assms by (auto simp: jobs_by_pool_and_state_def jobs_by_pool_exec_def res_bind_Inr)
  note fold = this
  show ?thesis
    by (rule res_fold_invariant [where I = buckets_ok, OF _ init_buckets_ok fold]) (rule count_exec_line_ok)
qed

definition counts_ok :: "partition_state \<Rightarrow> bool" where
  "counts_ok st \<longleftrightarrow> 0 \<le> scale_pending_jobs st \<and> scale_pending_jobs st \<le> pending_jobs st \<and> 0 \<le> running_jobs st"

lemma pool_state_ok:
  assumes "pool_state out p bs = Inr st" "buckets_ok bs"
  shows "counts_ok st" "ps_statefulset st = worker_statefulset p" "ps_partition st = pc_partition p"
    "current_replicas st = out_replicas out (worker_statefulset p)"
    "running_jobs st = int (length (b_running (dict_get bs (worker_statefulset p) empty_bucket)))"
  using assms dict_get_ok [of bs "worker_statefulset p"]
  by (auto simp: pool_state_def res_bind_Inr Let_def counts_ok_def bucket_ok_def)

lemma map_of_res_pairs:
  "res_map (\<lambda>k. res_bind (f k) (\<lambda>v. Inr (k, v))) ks = Inr ps \<Longrightarrow> k \<in> set ks \<Longrightarrow>
     \<exists>v. map_of ps k = Some v \<and> f k = Inr v"
  by (induction ks arbitrary: ps) (auto simp: res_bind_Inr split: if_splits)

lemma dict_of_mem:
  assumes "map_of (dict_of ps) k = Some v"
  shows "(k, v) \<in> set ps"
proof -
  have "map_of (foldl (\<lambda>d p. dict_set (fst p) (snd p) d) d ps) k = Some v \<Longrightarrow>
      (k, v) \<in> set ps \<or> map_of d k = Some v" for d
  proof (induction ps arbitrary: d)
    case Nil
    then show ?case by simp
  next
    case (Cons p ps)
    from Cons.IH [of "dict_set (fst p) (snd p) d"] Cons.prems show ?case
      by (cases p) (auto split: if_splits)
  qed
  from this [of "[]"] assms show ?thesis
    by (simp add: dict_of_def)
qed

text \<open>A collected state belongs to a pool of the configuration and is computed from the buckets of
  its partition.\<close>

lemma collect_all_state:
  assumes "collect_all out pools = Inr states" "map_of states k = Some st"
  obtains p bs where "p \<in> set pools" "worker_statefulset p = k" "pool_state out p bs = Inr st"
    "jobs_by_pool_and_state out pools (pc_partition p) = Inr bs"
proof -
  obtain by_part pairs where by_part:
      "res_map (\<lambda>part. res_bind (jobs_by_pool_and_state out pools part) (\<lambda>b. Inr (part, b)))
        (remdups (map pc_partition pools)) = Inr by_part"
    and pairs: "res_map (\<lambda>p. res_bind (pool_state out p (dict_get by_part (pc_partition p) []))
        (\<lambda>st. Inr (worker_statefulset p, st))) pools = Inr pairs"
    and states: "states = dict_of pairs"
    using assms(1) by (auto simp: collect_all_def res_bind_Inr)
  have "(k, st) \<in> set pairs"
    using assms(2) states dict_of_mem by simp
  then obtain p where p: "p \<in> set pools" "worker_statefulset p = k"
      "pool_state out p (dict_get by_part (pc_partition p) []) = Inr st"
    using res_map_set [OF pairs] by (auto simp: res_bind_Inr)
  obtain bs where "map_of by_part (pc_partition p) = Some bs" "jobs_by_pool_and_state out pools (pc_partition p) = Inr bs"
    using map_of_res_pairs [OF by_part, of "pc_partition p"] p(1) by auto
  then show ?thesis
    using that p by (simp add: dict_get_def)
qed

lemma collect_all_counts:
  "collect_all out pools = Inr states \<Longrightarrow> map_of states k = Some st \<Longrightarrow> counts_ok st"
  by (erule (1) collect_all_state) (blast intro: pool_state_ok(1) jobs_by_pool_ok)

section \<open>Running and completing jobs are counted\<close>

definition running_in :: "buckets \<Rightarrow> string \<Rightarrow> nat" where
  "running_in bs k = length (b_running (dict_get bs k empty_bucket))"

lemma running_in_set: "running_in (dict_set k b bs) k' = (if k' = k then length (b_running b) else running_in bs k')"
  by (simp add: running_in_def dict_get_def)

lemma count_job_running_mono:
  assumes "count_job pools st f bs = Inr bs'"
  shows "running_in bs k \<le> running_in bs' k"
  using assms
  by (auto simp: count_job_def res_bind_Inr Let_def running_in_set add_fields_def running_in_def [symmetric]
      split: option.splits)

lemma count_rest_job_mono: "count_rest_job pools j bs = Inr bs' \<Longrightarrow> running_in bs k \<le> running_in bs' k"
  by (auto simp: count_rest_job_def res_bind_Inr split: json.splits if_splits dest: count_job_running_mono)

definition runs_on :: "partition_config list \<Rightarrow> jobj \<Rightarrow> partition_config \<Rightarrow> bool" where
  \<comment> \<open>Slurm says the job occupies a worker, and the collector assigns it to this pool\<close>
  "runs_on pools job p \<longleftrightarrow>
     j_get job ''job_state'' JNull \<in> {JStr ''RUNNING'', JStr ''COMPLETING''} \<and>
     (\<exists>flds. normalize_job job = Inr flds \<and> classify_job pools flds = Inr (Some p))"

lemma count_running_job:
  assumes "runs_on pools job p" "count_rest_job pools job bs = Inr bs'"
  shows "0 < running_in bs' (worker_statefulset p)"
proof -
  obtain flds state where f: "normalize_job job = Inr flds" "classify_job pools flds = Inr (Some p)"
    and st: "j_get job ''job_state'' (JStr []) = JStr state" "state = ''RUNNING'' \<or> state = ''COMPLETING''"
    using assms(1) by (auto simp: runs_on_def j_get_def dict_get_def split: option.splits)
  have "count_job pools state flds bs = Inr bs'"
    using assms(2) st f(1) by (auto simp: count_rest_job_def active_job_states_def)
  then have "bs' = dict_set (worker_statefulset p)
      (add_fields ''RUNNING'' False flds (dict_get bs (worker_statefulset p) empty_bucket)) bs"
    using st(2) f(2) by (auto simp: count_job_def Let_def)
  then show ?thesis
    by (simp add: running_in_set add_fields_def)
qed

lemma res_fold_reaches:
  assumes "res_fold f xs b = Inr b'" "x \<in> set xs"
    "\<And>c c'. f x c = Inr c' \<Longrightarrow> 0 < m c'" "\<And>y c c'. f y c = Inr c' \<Longrightarrow> m c \<le> (m c' :: nat)"
  shows "0 < m b'"
  using assms(1,2)
proof (induction xs arbitrary: b)
  case (Cons y ys)
  obtain c where c: "f y b = Inr c" "res_fold f ys c = Inr b'"
    using Cons.prems(1) by (auto simp: res_bind_Inr)
  have mono: "res_fold f zs d = Inr d' \<Longrightarrow> m d \<le> m d'" for zs d d'
    by (induction zs arbitrary: d) (auto simp: res_bind_Inr dest: assms(4) intro: order_trans)
  show ?case
  proof (cases "x = y")
    case True
    then show ?thesis
      using assms(3) c mono [OF c(2)] by fastforce
  next
    case False
    then show ?thesis
      using Cons c by auto
  qed
qed simp

lemma collect_running:
  assumes "collect_all out pools = Inr states" "out_rest out" "out_jobs out = Inr data"
    "list_jobs data (pc_partition p) = Inr jobs" "job \<in> set jobs" "runs_on pools job p"
    "map_of states (worker_statefulset p) = Some st" "p \<in> set pools"
    "\<And>q. q \<in> set pools \<Longrightarrow> worker_statefulset q = worker_statefulset p \<Longrightarrow> q = p"
  shows "0 < running_jobs st"
proof -
  obtain q bs where q: "q \<in> set pools" "worker_statefulset q = worker_statefulset p" "pool_state out q bs = Inr st"
      "jobs_by_pool_and_state out pools (pc_partition q) = Inr bs"
    using collect_all_state [OF assms(1,7)] by blast
  have qp: "q = p"
    using assms(9) q(1,2) by blast
  have "res_fold (count_rest_job pools) jobs (init_buckets pools (pc_partition p)) = Inr bs"
    using q(4) qp assms(2-4) by (simp add: jobs_by_pool_and_state_def jobs_by_pool_rest_def)
  then have "0 < running_in bs (worker_statefulset p)"
    by (rule res_fold_reaches [OF _ assms(5)])
      (use count_running_job [OF assms(6)] count_rest_job_mono in blast)+
  then show ?thesis
    using pool_state_ok(5) [OF q(3) jobs_by_pool_ok [OF q(4)]] qp by (simp add: running_in_def)
qed

end
