(* ===== verification/OpProps.thy ===== *)
theory OpProps
  imports OpApp OpFragmentationRest OpCollectorFacts OpFragmentationFacts
begin

text \<open>
  The properties of the operator (\<^verbatim>\<open>operator/\<close>): the policy, the reconcile of a pool, the restart,
  the event queue, the collector and the defragmentation loop, with one small pool for the
  witnesses.
\<close>

section \<open>A small pool\<close>

definition demo_pool :: partition_config where
  "demo_pool = \<lparr>pc_partition = ''cpu'', worker_statefulset = ''w'', min_replicas = 0, max_replicas = 4,
     scale_up_step = 1, scale_down_step = 2, scale_down_cooldown = 0, checkpoint_path = [],
     max_checkpoint_age_seconds = 600, checkpoint_grace_seconds = 0, drain_timeout_seconds = 1800,
     match_features = [], match_gres = [], cpus_per_node = 0, memory_mb_per_node = 0, fallback = True\<rparr>"

definition demo_state :: "int \<Rightarrow> int \<Rightarrow> int \<Rightarrow> partition_state" where
  "demo_state current pending busy = \<lparr>ps_partition = ''cpu'', ps_statefulset = ''w'',
     current_replicas = current, pending_jobs = pending, running_jobs = 0, busy_nodes = busy,
     scale_pending_jobs = pending\<rparr>"

definition demo_config :: config where
  "demo_config = \<lparr>poll_interval = 15, reconcile_period_seconds = 60, checkpoint_guard_enabled = True,
     default_partition = ''cpu'', default_worker_statefulset = ''w'', default_min_replicas = 1,
     default_max_replicas = 4, default_scale_up_step = 1, default_scale_down_step = 1,
     default_scale_down_cooldown = 60, provisioning_timeout_seconds = 300,
     provisioning_retry_seconds = 300, default_checkpoint_path = [],
     default_max_checkpoint_age_seconds = 600, default_checkpoint_grace_seconds = 0,
     default_drain_timeout_seconds = 1800\<rparr>"

definition fresh_ops :: "string \<Rightarrow> op_state" where
  "fresh_ops key = \<lparr>os_calls = 0, os_effects = [], os_events = [], provisioning = [],
     provisioning_retry_at = [], last_scale_action_at = [(key, 0)], draining_nodes = [],
     draining_started = [], checkpoint_missing_since = []\<rparr>"

definition demo_env :: "(nat \<Rightarrow> string \<Rightarrow> int) \<Rightarrow> op_env" where
  "demo_env alloc = \<lparr>env_clock = (\<lambda>i. 100 + real i), env_fails = (\<lambda>i. False), env_ready = (\<lambda>i k. 3),
     env_alloc = alloc, env_ckpt = (\<lambda>i p. None)\<rparr>"

lemma demo_simps:
  "pc_partition demo_pool = ''cpu''" "worker_statefulset demo_pool = ''w''"
  "current_replicas ((demo_state c pe b)\<lparr>running_jobs := n\<rparr>) = c" "provisioning (fresh_ops key) = []"
  by (simp_all add: demo_pool_def demo_state_def fresh_ops_def)

lemma demo_call:
  "op_call (demo_env a) e s =
     (Inr (), s\<lparr>os_calls := os_calls s + 1, os_effects := os_effects s @ [(e, True)]\<rparr>)"
  by (simp add: op_call_def op_defs op_tick_def demo_env_def)

section \<open>Policy\<close>

text \<open>C32. On a valid pool the policy stays within the replica bounds and says what it does: the target
  lies between the minimum and the maximum unless the decision is to keep (then it is the current
  count), the action is the direction of the change, a scale-down happens only with no job pending
  for resources, no pending job and no running job, and never below the busy nodes.\<close>

theorem policy_within_bounds:
  assumes "pool_ok p" "busy_nodes st \<le> max_replicas p"
  shows "case evaluate g p st age missing of d \<Rightarrow>
    (d_action d \<noteq> Keep \<longrightarrow> min_replicas p \<le> target_replicas d \<and> target_replicas d \<le> max_replicas p) \<and>
    (d_action d = ScaleUp \<longleftrightarrow> current_replicas st < target_replicas d) \<and>
    (d_action d = ScaleDown \<longleftrightarrow> target_replicas d < current_replicas st) \<and>
    (d_action d = ScaleDown \<and> current_replicas st \<le> max_replicas p \<longrightarrow>
       scale_pending_jobs st \<le> 0 \<and> pending_jobs st \<le> 0 \<and> running_jobs st \<le> 0 \<and>
       busy_nodes st \<le> target_replicas d)"
proof (cases "0 < scale_pending_jobs st")
  case True
  let ?t = "clamp (current_replicas st + scale_up_step p) (min_replicas p) (max_replicas p)"
  have "min_replicas p \<le> ?t \<and> ?t \<le> max_replicas p"
    using assms(1) by (intro clamp_bounds) (simp add: pool_ok_def)
  moreover have "current_replicas st \<le> max_replicas p \<Longrightarrow> current_replicas st \<le> ?t"
    using assms(1) by (simp add: clamp_def pool_ok_def le_max_iff_disj)
  ultimately show ?thesis
    using True by (auto simp: evaluate_def Let_def)
next
  case noscale: False
  show ?thesis
  proof (cases "0 < pending_jobs st")
    case True
    with noscale show ?thesis
      by (simp add: evaluate_def)
  next
    case False
    let ?t = "clamp (current_replicas st - scale_down_step p) (max (min_replicas p) (busy_nodes st)) (max_replicas p)"
    have "max (min_replicas p) (busy_nodes st) \<le> ?t \<and> ?t \<le> max_replicas p"
      using assms by (intro clamp_bounds) (simp add: pool_ok_def)
    then show ?thesis
      using noscale False by (auto simp: evaluate_def Let_def)
  qed
qed

theorem policy_within_bounds_witness:
  "d_action (evaluate True demo_pool (demo_state 4 0 3) None None) = ScaleDown \<and>
   busy_nodes (demo_state 4 0 3) \<le> target_replicas (evaluate True demo_pool (demo_state 4 0 3) None None)"
  using policy_within_bounds [of demo_pool "demo_state 4 0 3" True None None]
  by (simp add: demo_pool_def demo_state_def pool_ok_def evaluate_def clamp_def to_decision_def)

lemma validate_pools_error: "validate_pools done_sigs k ps = Inl e \<Longrightarrow> e = ValueError"
  by (induction ps arbitrary: done_sigs k) (auto simp: Let_def split: if_splits)

text \<open>Start-up validation accepts a configuration exactly when the poll interval is positive, every
  pool has sane bounds and steps, no two pools share partition and StatefulSet, and at most one is
  the fallback; every rejection is a \<^verbatim>\<open>ValueError\<close>.\<close>

lemma validation_exact:
  "(validate_config cfg pools = Inr () \<longleftrightarrow>
      0 < poll_interval cfg \<and> (\<forall>p \<in> set pools. pool_ok p) \<and> distinct (map pool_sig pools) \<and>
      length (filter fallback pools) \<le> 1) \<and>
   (\<forall>e. validate_config cfg pools = Inl e \<longrightarrow> e = ValueError)"
proof -
  have sound: "validate_config cfg pools = Inr () \<Longrightarrow>
      0 < poll_interval cfg \<and> (\<forall>p \<in> set pools. pool_ok p) \<and> distinct (map pool_sig pools) \<and>
      length (filter fallback pools) \<le> 1"
    using validate_pools_sound [of "[]" 0 pools]
    by (fastforce simp: validate_config_def split: if_splits sum.splits)
  have complete: "0 < poll_interval cfg \<and> (\<forall>p \<in> set pools. pool_ok p) \<and> distinct (map pool_sig pools) \<and>
      length (filter fallback pools) \<le> 1 \<Longrightarrow> validate_config cfg pools = Inr ()"
    using validate_pools_complete [of pools "[]" 0] by (simp add: validate_config_def)
  have "\<forall>e. validate_config cfg pools = Inl e \<longrightarrow> e = ValueError"
    using validate_pools_error by (auto simp: validate_config_def split: if_splits sum.splits)
  then show ?thesis
    using sound complete by blast
qed

section \<open>The reconcile of a pool\<close>

text \<open>C33. A reconcile never raises, whatever the cluster answers, and touches its own pool only: the
  provisioning markers, backoffs, cooldowns, drain sets and checkpoint clocks of every other pool
  are unchanged.\<close>

theorem reconcile_isolated:
  "fst (process_pool env oc p states s) = Inr () \<and>
   (\<forall>k. k \<noteq> worker_statefulset p \<longrightarrow>
      (let s' = snd (process_pool env oc p states s) in
       map_of (provisioning s') k = map_of (provisioning s) k \<and>
       map_of (provisioning_retry_at s') k = map_of (provisioning_retry_at s) k \<and>
       map_of (last_scale_action_at s') k = map_of (last_scale_action_at s) k \<and>
       map_of (draining_nodes s') k = map_of (draining_nodes s) k \<and>
       map_of (draining_started s') k = map_of (draining_started s) k \<and>
       map_of (checkpoint_missing_since s') k = map_of (checkpoint_missing_since s) k))"
proof -
  obtain s' where s': "process_pool env oc p states s = (Inr (), s')"
    using process_pool_returns by blast
  have "others (worker_statefulset p) s s'"
    using triple_Inr [OF others_process_pool [unfolded keeps_def] _ s', of s] by (simp add: others_def)
  then show ?thesis
    by (simp add: s' others_def Let_def)
qed

theorem reconcile_isolated_witness:
  "map_of (provisioning (snd (process_pool (demo_env (\<lambda>i n. 0)) demo_config demo_pool
     [(''w'', demo_state 1 5 1)] ((fresh_ops ''w'')\<lparr>provisioning := [(''v'', (1, 2, 3))]\<rparr>)))) ''v'' = Some (1, 2, 3)"
  using reconcile_isolated [of "demo_env (\<lambda>i n. 0)" demo_config demo_pool "[(''w'', demo_state 1 5 1)]"
      "(fresh_ops ''w'')\<lparr>provisioning := [(''v'', (1, 2, 3))]\<rparr>"]
  by (simp add: demo_pool_def Let_def)

text \<open>C34. Every replica patch of a reconcile addresses the pool's own StatefulSet, and it is either the
  return to the count before a provisioning that was in flight, or the target of the policy; a
  lowering by the policy happens only without running jobs.\<close>

theorem reconcile_patches_justified:
  assumes "map_of states (worker_statefulset p) = Some st"
  shows "\<forall>k n. Patch k n \<in> set (new_effects s (snd (process_pool env oc p states s))) \<longrightarrow>
    k = worker_statefulset p \<and>
    ((\<exists>t tgt. map_of (provisioning s) k = Some (t, n, tgt)) \<or>
     (n = target_replicas (evaluate g p st age missing) \<and>
      (current_replicas st < n \<or> (n < current_replicas st \<and> running_jobs st \<le> 0))))"
  using process_pool_patches [OF assms, where g = g and age = age and missing = missing] prod.collapse
  by metis

theorem reconcile_patches_justified_witness:
  "Patch ''w'' 2 \<in> set (new_effects (fresh_ops ''w'') (snd (process_pool (demo_env (\<lambda>i n. 0)) demo_config
     demo_pool [(''w'', demo_state 1 5 1)] (fresh_ops ''w'')))) \<and>
   2 = target_replicas (evaluate True demo_pool (demo_state 1 5 1) None None)"
proof -
  have patch: "Patch ''w'' 2 \<in> set (new_effects (fresh_ops ''w'') (snd (process_pool (demo_env (\<lambda>i n. 0))
      demo_config demo_pool [(''w'', demo_state 1 5 1)] (fresh_ops ''w''))))"
    by code_simp
  have "map_of [(''w'', demo_state 1 5 1)] (worker_statefulset demo_pool) = Some (demo_state 1 5 1)"
    "provisioning (fresh_ops ''w'') = []"
    by (simp_all add: demo_pool_def fresh_ops_def)
  with reconcile_patches_justified [of "[(''w'', demo_state 1 5 1)]" demo_pool "demo_state 1 5 1"
      "fresh_ops ''w''" "demo_env (\<lambda>i n. 0)" demo_config True None None] patch
  show ?thesis
    by fastforce
qed


definition down_run :: op_state where
  "down_run = snd (do_scale_down (demo_env (\<lambda>i n. 0)) demo_pool (demo_state 4 0 3)
     (evaluate True demo_pool (demo_state 4 0 3) None None) ''w'' 100 (fresh_ops ''w''))"


text \<open>The two gates hold: while a provisioning is in flight that is neither complete nor timed out,
  and while the backoff after a failed one lasts, no reconcile raises the replica count.\<close>

lemma gates_block_scale_up:
  assumes "map_of states (worker_statefulset p) = Some st"
    "blocked env oc (worker_statefulset p) (provisioning s) (provisioning_retry_at s)"
  shows "\<forall>k n. Patch k n \<in> set (new_effects s (snd (process_pool env oc p states s))) \<longrightarrow>
    n < current_replicas st"
  using blocked_no_raise [OF assms] prod.collapse by metis

text \<open>C36. A restart does not lose a scale-up: whenever a scale-up got as far as raising the replicas,
  the annotations it leaves make the next process start with that provisioning in flight and with
  a cooldown that starts no earlier than the scale-up.\<close>

theorem scale_up_survives_restart:
  assumes "Patch k n \<in> set (new_effects s (snd (do_scale_up env p st d key now s)))" "0 < now"
    "current_replicas st < target_replicas d"
    "\<forall>name. ann name = stored_annotation (os_effects (snd (do_scale_up env p st d key now s)))
        (worker_statefulset p) name"
  shows "map_of (provisioning (snd (restore_pool env' (worker_statefulset p) ann s1))) (worker_statefulset p)
      = Some (now, current_replicas st, target_replicas d) \<and>
    now \<le> dict_get (last_scale_action_at (snd (restore_pool env' (worker_statefulset p) ann s1)))
      (worker_statefulset p) 0"
proof -
  let ?s' = "snd (do_scale_up env p st d key now s)"
  let ?m = "AnnMarker now (current_replicas st) (target_replicas d)"
  have "do_scale_up env p st d key now s = (fst (do_scale_up env p st d key now s), ?s')"
    by simp
  from do_scale_up_marker_first [OF this assms(1)] obtain pre post where eff:
    "os_effects ?s' = os_effects s @ pre @ [(Annotate (worker_statefulset p) ProvisioningMarker ?m, True)] @ post"
    "\<forall>x \<in> set post. \<forall>w. fst x \<noteq> Annotate (worker_statefulset p) ProvisioningMarker w"
    by blast
  have m: "ann ProvisioningMarker = Some ?m"
    using stored_marker_no_overwrite [OF eff(2), of "os_effects s @ pre" ?m] assms(4) eff(1) by simp
  show ?thesis
    using restore_pool_marker [where ann = ann, OF m assms(2,3)] by simp
qed

definition up_run :: op_state where
  "up_run = snd (do_scale_up (demo_env (\<lambda>i n. 0)) demo_pool (demo_state 1 5 1)
     (evaluate True demo_pool (demo_state 1 5 1) None None) ''w'' 100 (fresh_ops ''w''))"

theorem scale_up_survives_restart_witness:
  "map_of (provisioning (snd (restore_pool (demo_env (\<lambda>i n. 0)) ''w''
     (stored_annotation (os_effects up_run) ''w'') (fresh_ops ''w'')))) ''w'' = Some (100, 1, 2)"
proof -
  have d: "evaluate True demo_pool (demo_state 1 5 1) None None =
      \<lparr>target_replicas = 2, d_action = ScaleUp, d_reason = ''resource_pending_jobs''\<rparr>"
    by (simp add: evaluate_def demo_state_def demo_pool_def clamp_def to_decision_def)
  have patch: "Patch ''w'' 2 \<in> set (new_effects (fresh_ops ''w'') up_run)"
    unfolding up_run_def d
    by (simp add: do_scale_up_def op_defs demo_call op_emit_def demo_pool_def
        demo_state_def fresh_ops_def new_effects_def set_union_def upto.simps dict_get_def)
  have "worker_statefulset demo_pool = ''w''" "current_replicas (demo_state 1 5 1) = 1"
    by (simp_all add: demo_pool_def demo_state_def)
  then show ?thesis
    using scale_up_survives_restart [where k = "''w''" and n = 2 and s = "fresh_ops ''w''" and env = "demo_env (\<lambda>i n. 0)"
        and p = demo_pool and st = "demo_state 1 5 1"
        and d = "evaluate True demo_pool (demo_state 1 5 1) None None" and key = "''w''" and now = 100
        and ann = "stored_annotation (os_effects up_run) ''w''" and env' = "demo_env (\<lambda>i n. 0)"
        and ?s1.0 = "fresh_ops ''w''", folded up_run_def] patch
    by (simp add: d)
qed

definition two_ticks :: op_state where
  "two_ticks =
     (let s1 = snd (process_pool (demo_env (\<lambda>i n. if n = ''w-3'' then 1 else 0)) demo_config demo_pool
                 [(''w'', demo_state 4 0 0)] (fresh_ops ''w''))
      in snd (process_pool (demo_env (\<lambda>i n. 0)) demo_config demo_pool [(''w'', demo_state 4 0 3)] s1))"

text \<open>A node drained for a larger scale-down is forgotten when the target rises before the drain
  completes: the first reconcile drains \<^verbatim>\<open>w-2\<close> and \<^verbatim>\<open>w-3\<close> to go from four replicas to two, the second,
  with three busy nodes, goes to three; it clears the pool's drain set without resuming \<^verbatim>\<open>w-2\<close>,
  which stays in the pool in state DRAIN.\<close>

lemma drained_node_forgotten:
  "Drain ''w-2'' \<in> fst ` set (os_effects two_ticks) \<and> Patch ''w'' 3 \<in> fst ` set (os_effects two_ticks) \<and>
   Resume ''w-2'' \<notin> fst ` set (os_effects two_ticks) \<and> draining_nodes two_ticks = []"
  by code_simp

section \<open>The event queue\<close>

text \<open>C37. In every interleaving of producers with the consumer, a pool is in the queue at most once, and
  no offer of an event is lost: after each offer of a key either a \<^verbatim>\<open>get\<close> of it completes later, or
  the key is still queued, being added or held by the consumer.\<close>

theorem queue_loses_nothing:
  assumes "queue_run queue_empty es q"
  shows "distinct (live_keys q) \<and> set (q_pending q) = set (live_keys q) \<and>
    (\<forall>i<length es. offered (es ! i) k \<longrightarrow>
       (\<exists>j<length es. i < j \<and> es ! j = GetEnd k) \<or> k \<in> set (live_keys q))"
  using queue_run_inv [OF assms queue_empty_inv] no_lost_event [OF assms queue_empty_inv, of k]
  by (simp add: queue_inv_def)

theorem queue_loses_nothing_witness:
  "\<exists>q. queue_run queue_empty [PutBegin ''w'', PutEnd ''w''] q \<and> ''w'' \<in> set (live_keys q)"
proof -
  have "queue_put ''w'' ''jobs'' 1 queue_empty = (True, snd (queue_put ''w'' ''jobs'' 1 queue_empty))"
    by (simp add: queue_put_def put_lock_def queue_empty_def)
  note run = queue_put_steps [OF this]
  have "(\<exists>j<length [PutBegin ''w'', PutEnd ''w'']. 0 < j \<and> [PutBegin ''w'', PutEnd ''w''] ! j = GetEnd ''w'') \<or>
      ''w'' \<in> set (live_keys (snd (queue_put ''w'' ''jobs'' 1 queue_empty)))"
    using queue_loses_nothing [OF run, of "''w''"] by (simp add: offered_def)
  moreover have "[PutBegin ''w'', PutEnd ''w''] ! j \<noteq> GetEnd ''w''" if "j < 2" for j :: nat
    using that by (cases j) auto
  ultimately show ?thesis
    using run by (auto simp: numeral_2_eq_2)
qed

section \<open>From Slurm to the replicas\<close>

text \<open>Across the collector and the reconcile: while Slurm reports, over REST, a job of a pool as
  running or completing, reconciling that pool on the states collected from that answer never
  lowers its replicas, except to undo a provisioning that was in flight.\<close>

lemma running_job_blocks_shrink:
  assumes "collect_all out pools = Inr states" "out_rest out" "out_jobs out = Inr data"
    "list_jobs data (pc_partition p) = Inr jobs" "job \<in> set jobs" "runs_on pools job p"
    "map_of states (worker_statefulset p) = Some st" "p \<in> set pools"
    "\<forall>q \<in> set pools. worker_statefulset q = worker_statefulset p \<longrightarrow> q = p"
  shows "\<forall>k n. Patch k n \<in> set (new_effects s (snd (process_pool env oc p states s))) \<longrightarrow>
    current_replicas st < n \<or> (\<exists>t tgt. map_of (provisioning s) k = Some (t, n, tgt))"
proof -
  have "0 < running_jobs st"
    using assms(9) by (intro collect_running [OF assms(1-8)]) blast
  moreover have "process_pool env oc p states s = (fst (process_pool env oc p states s), snd (process_pool env oc p states s))"
    by simp
  ultimately show ?thesis
    using process_pool_patches [OF assms(7), of env oc s] by (metis not_less)
qed

definition demo_job :: jobj where
  "demo_job = [(''partition'', JStr ''cpu''), (''job_state'', JStr ''RUNNING''), (''nodes'', JStr ''w-0'')]"

definition demo_outside :: outside where
  "demo_outside = \<lparr>out_rest = True, out_jobs = Inr [(''jobs'', JList [JObj demo_job])],
     out_nodes = Inr [], out_squeue = (\<lambda>p. Inl ApiError), out_sinfo = (\<lambda>p. Inl ApiError),
     out_replicas = (\<lambda>k. 4)\<rparr>"

definition collected :: "(string, partition_state) dict" where
  "collected = (case collect_all demo_outside [demo_pool] of Inr states \<Rightarrow> states | Inl _ \<Rightarrow> [])"

text \<open>What the collector counts is consistent: every collected state belongs to a configured pool,
  its counts are not negative, and the pending jobs that could justify a scale-up are among the
  pending ones.\<close>

lemma collected_counts_consistent:
  assumes "collect_all out pools = Inr states" "map_of states k = Some st"
  shows "(\<exists>p \<in> set pools. worker_statefulset p = k \<and> ps_statefulset st = k \<and>
      current_replicas st = out_replicas out k) \<and>
    0 \<le> scale_pending_jobs st \<and> scale_pending_jobs st \<le> pending_jobs st \<and> 0 \<le> running_jobs st"
proof -
  obtain p bs where p: "p \<in> set pools" "worker_statefulset p = k" "pool_state out p bs = Inr st"
      "jobs_by_pool_and_state out pools (pc_partition p) = Inr bs"
    by (rule collect_all_state [OF assms])
  note ok = pool_state_ok [OF p(3) jobs_by_pool_ok [OF p(4)]]
  show ?thesis
    using ok p(1,2) by (auto simp: counts_ok_def)
qed

section \<open>Defragmentation\<close>

text \<open>C40. A requeue decision names only legitimate victims: every job it lists is running on one node
  that Slurm listed, its priority is below the blocked job's by more than the gap, the blocked job
  is pending and fits on no node, no victim is listed twice, and their number respects the cap.\<close>

theorem requeue_decision_legitimate:
  assumes "reconcile fd act shadow jobs nodes now dc = (res, dc')" "rr_decision res = Some d"
  shows "distinct (rd_target_job_ids d) \<and> rd_target_job_ids d \<noteq> [] \<and>
    int (length (rd_target_job_ids d)) \<le> max (max_targets_per_decision dc) 1 \<and>
    (\<exists>node \<in> nv_node_id ` set nodes. \<forall>jid \<in> set (rd_target_job_ids d). \<exists>v \<in> set jobs. \<exists>t \<in> set jobs.
       jv_job_id v = jid \<and> str_upper (jv_state v) = ''RUNNING'' \<and> node \<in> set (jv_nodes v) \<and>
       rd_blocked_job_ids d = [jv_job_id t] \<and> str_upper (jv_state t) = ''PENDING'' \<and>
       (\<forall>n \<in> set nodes. nv_free_mps n < jv_mps_req t) \<and>
       jv_priority v + fd_priority_gap fd < jv_priority t)"
proof -
  let ?snap = "take_snapshot fd jobs nodes now"
  have "decide ?snap now dc = ((Some d, rr_reason res), dc')"
    using reconcile_decision [OF assms(1)] assms(2) by simp
  from decide_ok(1) [OF this] have ok: "decision_ok ?snap (max_targets_per_decision dc) d" .
  then obtain node where node: "\<forall>jid \<in> set (rd_target_job_ids d). \<exists>c \<in> set (fs_candidates ?snap).
        victim_id c = jid \<and> rc_node_id c = node \<and> jv_job_id (rc_target c) = jv_job_id (hd (fs_pending_blocked ?snap))"
    and ne: "rd_target_job_ids d \<noteq> []" and blk: "rd_blocked_job_ids d = [jv_job_id (hd (fs_pending_blocked ?snap))]"
    by (auto simp: decision_ok_def)
  have each: "node \<in> nv_node_id ` set nodes \<and> (\<exists>v \<in> set jobs. \<exists>t \<in> set jobs.
       jv_job_id v = jid \<and> str_upper (jv_state v) = ''RUNNING'' \<and> node \<in> set (jv_nodes v) \<and>
       rd_blocked_job_ids d = [jv_job_id t] \<and> str_upper (jv_state t) = ''PENDING'' \<and>
       (\<forall>n \<in> set nodes. nv_free_mps n < jv_mps_req t) \<and>
       jv_priority v + fd_priority_gap fd < jv_priority t)" if jid: "jid \<in> set (rd_target_job_ids d)" for jid
  proof -
    obtain c where c: "c \<in> set (fs_candidates ?snap)" "victim_id c = jid" "rc_node_id c = node"
        "jv_job_id (rc_target c) = jv_job_id (hd (fs_pending_blocked ?snap))"
      using node jid by blast
    have "candidate_ok fd jobs nodes c"
      by (rule snapshot_candidates_ok [OF c(1)])
    then have k: "rc_victim c \<in> set jobs" "str_upper (jv_state (rc_victim c)) = ''RUNNING''"
        "node \<in> set (jv_nodes (rc_victim c))" "node \<in> nv_node_id ` set nodes" "rc_target c \<in> set jobs"
        "str_upper (jv_state (rc_target c)) = ''PENDING''" "\<forall>n \<in> set nodes. nv_free_mps n < jv_mps_req (rc_target c)"
        "jv_priority (rc_victim c) + fd_priority_gap fd < jv_priority (rc_target c)"
      unfolding candidate_ok_def blocked_jobs_iff c(3) by blast+
    have "jv_job_id (rc_victim c) = jid" "rd_blocked_job_ids d = [jv_job_id (rc_target c)]"
      using c(2,4) blk by simp_all
    with k show ?thesis
      by blast
  qed
  obtain j0 where j0: "j0 \<in> set (rd_target_job_ids d)"
    using ne by (meson hd_in_set)
  have "distinct (rd_target_job_ids d)" "int (length (rd_target_job_ids d)) \<le> max (max_targets_per_decision dc) 1"
    using ok by (simp_all add: decision_ok_def)
  then show ?thesis
    using ne each [OF j0] each by blast
qed

definition mk_view :: "string \<Rightarrow> string \<Rightarrow> int \<Rightarrow> int \<Rightarrow> string list \<Rightarrow> job_view" where
  "mk_view jid state prio mps ns =
     \<lparr>jv_job_id = jid, jv_user = ''u'', jv_partition = ''p'', jv_state = state, jv_priority = prio, jv_mps_req = mps, jv_gpu_count = 1,
      jv_nodes = ns, jv_submit_ts = 0, jv_runtime_seconds = 0\<rparr>"

definition frag_jobs :: "job_view list" where
  "frag_jobs = [mk_view ''1'' ''PENDING'' 1000 80 [], mk_view ''2'' ''RUNNING'' 10 30 [''n1''],
     mk_view ''3'' ''RUNNING'' 500 60 [''n1'']]"

definition frag_nodes :: "node_view list" where
  "frag_nodes = [\<lparr>nv_node_id = ''n1'', nv_free_mps = 10, nv_total_mps = 100\<rparr>]"

definition frag_detector :: detector where
  "frag_detector = \<lparr>fd_mps_per_node = 100, fd_priority_gap = 600\<rparr>"

definition frag_decider :: decider where
  "frag_decider = \<lparr>min_interval_seconds = 300, max_requeues_per_hour = 6, max_targets_per_decision = 4, rd_history = []\<rparr>"

definition frag_result :: reconcile_result where
  "frag_result = fst (reconcile frag_detector (\<lambda>j. Inr ()) False frag_jobs frag_nodes 0 frag_decider)"

lemmas frag_defs = frag_jobs_def frag_nodes_def frag_detector_def frag_decider_def mk_view_def

lemma frag_snapshot_demo:
  "take_snapshot frag_detector frag_jobs frag_nodes 0 =
     \<lparr>fs_timestamp = 0, fs_score = 0, fs_free_mps_per_node = [10],
      fs_pending_blocked = [mk_view ''1'' ''PENDING'' 1000 80 []],
      fs_candidates = [\<lparr>rc_victim = mk_view ''2'' ''RUNNING'' 10 30 [''n1''],
        rc_target = mk_view ''1'' ''PENDING'' 1000 80 [], rc_node_id = ''n1'', rc_slots_freed = 30\<rparr>]\<rparr>"
  by (simp add: take_snapshot_def blocked_jobs_def fits_anywhere_def running_by_node_def add_running_def
      candidates_on_def victims_for_def fragmentation_score_def frag_defs dict_of_def dict_get_def
      str_upper_def upper_char_def Let_def)

lemma frag_decision:
  "map_option rd_target_job_ids (rr_decision frag_result) = Some [''2'']"
  "map_option rd_blocked_job_ids (rr_decision frag_result) = Some [''1'']" "rr_requeued frag_result = [''2'']"
  by (simp_all add: frag_result_def reconcile_def frag_snapshot_demo decide_def
      has_actionable_fragmentation_def rate_limited_def trim_history_def choose_node_def set_of_def
      frag_decider_def mk_view_def Let_def)

theorem requeue_decision_legitimate_witness:
  "\<exists>d. rr_decision frag_result = Some d \<and> rd_target_job_ids d = [''2''] \<and> distinct (rd_target_job_ids d)"
proof -
  obtain d where d: "rr_decision frag_result = Some d" "rd_target_job_ids d = [''2'']"
    using frag_decision(1) by auto
  have "reconcile frag_detector (\<lambda>j. Inr ()) False frag_jobs frag_nodes 0 frag_decider =
      (frag_result, snd (reconcile frag_detector (\<lambda>j. Inr ()) False frag_jobs frag_nodes 0 frag_decider))"
    by (simp add: frag_result_def)
  from requeue_decision_legitimate [OF this d(1)] d show ?thesis
    by blast
qed

text \<open>The rate limits hold over any run of the loop with non-decreasing times: two decisions are the
  minimum interval apart (or more than an hour, beyond which the history is forgotten), and the
  hour that ends at a decision holds at most the hourly cap of them.\<close>

lemma requeue_rate_limited:
  assumes "sorted (t0 # map snd ticks)" "rd_history dc = []"
  shows "spaced (min_interval_seconds dc) (max_requeues_per_hour dc) (decision_times ticks dc)"
  using decision_times_spaced [of t0 "[]" dc ticks] assms
  by (force simp: history_of_def spaced_def)

text \<open>In shadow mode the loop never acts: nothing is requeued and the result does not depend on the
  actuator. In live mode only jobs of the decision are requeued, and each of them is either
  requeued or reported as an error.\<close>

lemma shadow_mode_never_acts:
  "rr_requeued (fst (reconcile fd act True jobs nodes now dc)) = [] \<and>
   reconcile fd act True jobs nodes now dc = reconcile fd act' True jobs nodes now dc \<and>
   (let res = fst (reconcile fd act False jobs nodes now dc) in
    case rr_decision res of
      None \<Rightarrow> rr_requeued res = [] \<and> rr_actuator_errors res = []
    | Some d \<Rightarrow> set (rr_requeued res) = {j \<in> set (rd_target_job_ids d). \<exists>u. act j = Inr u} \<and>
        fst ` set (rr_actuator_errors res) = {j \<in> set (rd_target_job_ids d). \<exists>e. act j = Inl e})"
proof -
  have "rr_requeued (fst (reconcile fd act True jobs nodes now dc)) = []"
    by (simp add: reconcile_def Let_def split: prod.splits option.splits)
  moreover have "let res = fst (reconcile fd act False jobs nodes now dc) in
    case rr_decision res of
      None \<Rightarrow> rr_requeued res = [] \<and> rr_actuator_errors res = []
    | Some d \<Rightarrow> set (rr_requeued res) = {j \<in> set (rd_target_job_ids d). \<exists>u. act j = Inr u} \<and>
        fst ` set (rr_actuator_errors res) = {j \<in> set (rd_target_job_ids d). \<exists>e. act j = Inl e}"
  proof -
    obtain od reason dc1 where dec: "decide (take_snapshot fd jobs nodes now) now dc = ((od, reason), dc1)"
      by (metis prod.collapse)
    show ?thesis
    proof (cases od)
      case None
      then show ?thesis
        by (simp add: reconcile_def dec)
    next
      case (Some d)
      obtain ok errs where act: "actuate act (rd_target_job_ids d) = (ok, errs)"
        by fastforce
      from actuate_props [OF act] show ?thesis
        by (simp add: reconcile_def dec Some act)
    qed
  qed
  ultimately show ?thesis
    using reconcile_shadow [of fd act jobs nodes now dc act'] by blast
qed

text \<open>A decision may requeue jobs without unblocking its target: with 10 free slots and one eligible
  victim of 30, a job that needs 80 is still blocked after the requeue, yet the victim is requeued
  and the target reported as one that should now fit.\<close>

lemma requeue_may_not_unblock:
  "map_option rd_target_job_ids (rr_decision frag_result) = Some [''2''] \<and>
   map_option rd_blocked_job_ids (rr_decision frag_result) = Some [''1''] \<and>
   rr_requeued frag_result = [''2''] \<and>
   list_all (\<lambda>n. nv_free_mps n + 30 < jv_mps_req (hd frag_jobs)) frag_nodes"
  using frag_decision by (simp add: frag_defs)

end
