(* ===== verification/OpWatchers.thy ===== *)
theory OpWatchers
  imports OpApp OpMonad PyText
begin

text \<open>
  The threads that feed the event queue (\<^verbatim>\<open>operator/watchers.py\<close>) and the consumer loop of
  \<^verbatim>\<open>operator/app.py\<close> that drains it. A watch stream is the list of events it delivered before it
  ended or raised; \<open>while True\<close> is a list of rounds. Each event comes with the time \<^verbatim>\<open>put\<close> reads.
\<close>

section \<open>State\<close>

text \<open>The attributes of the operator instance the threads share, the levels of what they log and the
  lengths of their sleeps.\<close>

record watch_state =
  ws_queue :: event_queue
  ws_cache :: "(string, partition_state) dict"
  ws_log :: "string list"
  ws_sleeps :: "real list"

text \<open>An event may have no object; the name in an object's metadata may be \<^verbatim>\<open>None\<close>.\<close>

record watch_event =
  we_type :: "string option"
  we_object :: "string option option"

definition event_type :: "watch_event \<Rightarrow> string" where
  "event_type ev = (case we_type ev of None \<Rightarrow> ''?'' | Some t \<Rightarrow> t)"

definition watch_put :: "string \<Rightarrow> string \<Rightarrow> real \<Rightarrow> (watch_state, unit) op" where
  "watch_put key source now = op_modify (\<lambda>s. s\<lparr>ws_queue := snd (queue_put key source now (ws_queue s))\<rparr>)"

section \<open>The Kubernetes watches\<close>

definition sts_event :: "string list \<Rightarrow> watch_event \<times> real \<Rightarrow> (watch_state, unit) op" where
  "sts_event pool_keys x =
     (case we_object (fst x) of
        Some (Some name) \<Rightarrow>
          op_when (name \<in> set pool_keys) (watch_put name (''k8s-sts:'' @ event_type (fst x)) (snd x))
      | _ \<Rightarrow> op_return ())"

definition pod_pool :: "string list \<Rightarrow> string \<Rightarrow> string option" where
  "pod_pool pool_keys pod_name = List.find (\<lambda>k. startswith pod_name (k @ ''-'')) pool_keys"

definition pod_event :: "string list \<Rightarrow> watch_event \<times> real \<Rightarrow> (watch_state, unit) op" where
  "pod_event pool_keys x =
     (case we_object (fst x) of
        None \<Rightarrow> op_return ()
      | Some None \<Rightarrow> if pool_keys = [] then op_return () else op_raise AttributeError
      | Some (Some pod_name) \<Rightarrow>
          (case pod_pool pool_keys pod_name of
             None \<Rightarrow> op_return ()
           | Some k \<Rightarrow> watch_put k (''k8s-pod:'' @ event_type (fst x)) (snd x)))"

definition reconnect :: "(watch_state, unit) op" where
  "reconnect = op_modify (\<lambda>s. s\<lparr>ws_log := ws_log s @ [''WARN''], ws_sleeps := ws_sleeps s @ [2]\<rparr>)"

text \<open>One stream: its events, and how it ended.\<close>

type_synonym stream_run = "(watch_event \<times> real) list \<times> py_error option"

definition watch_round ::
  "(watch_event \<times> real \<Rightarrow> (watch_state, unit) op) \<Rightarrow> stream_run \<Rightarrow> (watch_state, unit) op" where
  "watch_round handler r =
     op_catch
       (op_then (op_for (fst r) handler)
          (case snd r of None \<Rightarrow> op_return () | Some e \<Rightarrow> op_raise e))
       (\<lambda>_. reconnect)"

definition watch_statefulsets :: "partition_config list \<Rightarrow> stream_run list \<Rightarrow> (watch_state, unit) op" where
  "watch_statefulsets pools runs =
     op_for runs (watch_round (sts_event (dict_keys (pool_by_key pools))))"

definition watch_pods :: "partition_config list \<Rightarrow> stream_run list \<Rightarrow> (watch_state, unit) op" where
  "watch_pods pools runs =
     op_for runs (watch_round (pod_event (dict_keys (pool_by_key pools))))"

section \<open>The poller of Slurm's state\<close>

definition poll_one :: "(string \<Rightarrow> real) \<Rightarrow> string \<times> partition_state \<Rightarrow> (watch_state, unit) op" where
  "poll_one now x =
     op_bind (op_get (\<lambda>s. map_of (ws_cache s) (fst x))) (\<lambda>prev.
     op_then (op_when (prev \<noteq> Some (snd x)) (watch_put (fst x) ''slurm-diff'' (now (fst x))))
       (op_modify (\<lambda>s. s\<lparr>ws_cache := dict_set (fst x) (snd x) (ws_cache s)\<rparr>)))"

definition poll_round ::
  "real \<Rightarrow> (string \<Rightarrow> real) \<Rightarrow> py_error + (string, partition_state) dict \<Rightarrow> (watch_state, unit) op" where
  "poll_round interval now collected =
     op_then
       (op_catch (case collected of Inl e \<Rightarrow> op_raise e | Inr states \<Rightarrow> op_for states (poll_one now))
          (\<lambda>_. op_modify (\<lambda>s. s\<lparr>ws_log := ws_log s @ [''DEBUG'']\<rparr>)))
       (op_modify (\<lambda>s. s\<lparr>ws_sleeps := ws_sleeps s @ [max interval (1 / 2)]\<rparr>))"

section \<open>The consumer\<close>

text \<open>One iteration of the main loop of \<^verbatim>\<open>run\<close>: what the watchers put before it, then \<^verbatim>\<open>get\<close>, then the
  reconcile over what was collected.\<close>

record loop_round =
  lr_puts :: "(string \<times> string \<times> real) list"
  lr_collected :: "py_error + (string, partition_state) dict"

definition put_all :: "(string \<times> string \<times> real) list \<Rightarrow> event_queue \<Rightarrow> event_queue" where
  "put_all puts q = foldl (\<lambda>q (k, source, now). snd (queue_put k source now q)) q puts"

definition main_step ::
  "op_env \<Rightarrow> config \<Rightarrow> partition_config list \<Rightarrow> loop_round \<Rightarrow> event_queue \<times> loop_state \<Rightarrow>
   event_queue \<times> loop_state" where
  "main_step env oc pools r x =
     (case queue_get (put_all (lr_puts r) (fst x)) of
        (item, q) \<Rightarrow> (q, loop_once env oc pools item (lr_collected r) (snd x)))"

definition main_loop ::
  "op_env \<Rightarrow> config \<Rightarrow> partition_config list \<Rightarrow> loop_round list \<Rightarrow> event_queue \<times> loop_state \<Rightarrow>
   event_queue \<times> loop_state" where
  "main_loop env oc pools rounds x = foldl (\<lambda>x r. main_step env oc pools r x) x rounds"

end
