(* ===== verification/OpWatcherFacts.thy ===== *)
theory OpWatcherFacts
  imports OpWatchers
begin

text \<open>
  What the watchers do to the queue, as steps of its interleaving relation: \<open>feeds K q q'\<close> says that
  \<open>q'\<close> is reached from \<open>q\<close> by complete or dropped puts of keys in \<open>K\<close>, so every fact about
  \<open>queue_run\<close> applies to them. Then what the poller guarantees, and how long the consumer takes.
\<close>

section \<open>Feeding the queue\<close>

definition put_of :: "string set \<Rightarrow> queue_event \<Rightarrow> bool" where
  "put_of K e \<longleftrightarrow> (\<exists>k \<in> K. e = PutBegin k \<or> e = PutEnd k \<or> e = PutDropped k)"

definition feeds :: "string set \<Rightarrow> event_queue \<Rightarrow> event_queue \<Rightarrow> bool" where
  "feeds K q q' \<longleftrightarrow> (\<exists>es. queue_run q es q' \<and> (\<forall>e \<in> set es. put_of K e))"

lemma queue_run_append: "queue_run q' es' q'' \<Longrightarrow> queue_run q es q' \<Longrightarrow> queue_run q (es @ es') q''"
proof (induction arbitrary: es rule: queue_run.induct)
  case (run_nil q')
  then show ?case by simp
next
  case (run_snoc q' es' q1 e q2)
  from queue_run.run_snoc [OF run_snoc.IH [OF run_snoc.prems] run_snoc.hyps(2)] show ?case
    by simp
qed

lemma feeds_refl: "feeds K q q"
  unfolding feeds_def by (intro exI [of _ "[]"]) (simp add: run_nil)

lemma feeds_trans: "feeds K q q' \<Longrightarrow> feeds K q' q'' \<Longrightarrow> feeds K q q''"
  unfolding feeds_def using queue_run_append by (metis set_append Un_iff)

lemma feeds_put:
  assumes "k \<in> K"
  shows "feeds K q (snd (queue_put k source now q))"
proof (cases "fst (put_lock k q)")
  case True
  then have "queue_put k source now q = (True, snd (queue_put k source now q))"
    by (auto simp: queue_put_def Let_def split: prod.splits)
  from queue_put_steps [OF this] assms show ?thesis
    unfolding feeds_def by (intro exI [of _ "[PutBegin k, PutEnd k]"]) (simp add: put_of_def)
next
  case False
  then have "put_lock k q = (False, q)" "snd (queue_put k source now q) = q"
    by (auto simp: put_lock_def queue_put_def split: if_splits)
  then show ?thesis
    by (simp add: feeds_refl)
qed

lemma feeds_inv: "feeds K q q' \<Longrightarrow> queue_inv q \<Longrightarrow> queue_inv q'"
  unfolding feeds_def using queue_run_inv by blast

lemma run_keeps_live:
  "queue_run q es q' \<Longrightarrow> \<forall>e \<in> set es. put_of K e \<Longrightarrow> k \<in> set (live_keys q) \<Longrightarrow> k \<in> set (live_keys q')"
proof (induction rule: queue_run.induct)
  case (run_nil q)
  then show ?case by simp
next
  case (run_snoc q es q' e q'')
  then have "k \<in> set (live_keys q')" "e \<noteq> GetEnd k"
    by (auto simp: put_of_def)
  then show ?case
    using live_step [OF run_snoc.hyps(2)] by blast
qed

lemma feeds_live: "feeds K q q' \<Longrightarrow> k \<in> set (live_keys q) \<Longrightarrow> k \<in> set (live_keys q')"
  unfolding feeds_def using run_keeps_live by blast

lemma put_live:
  assumes "queue_inv q"
  shows "set (live_keys (snd (queue_put k source now q))) = insert k (set (live_keys q))"
  using assms by (auto simp: queue_put_def put_lock_def put_item_def live_keys_def queue_inv_def held_keys_def
      split: option.splits)

section \<open>One call\<close>

text \<open>\<open>forwards K m\<close>: whatever \<open>m\<close> returns, it only feeds keys of \<open>K\<close> to the queue.\<close>

definition forwards :: "string set \<Rightarrow> (watch_state, 'a) op \<Rightarrow> bool" where
  "forwards K m \<longleftrightarrow> (\<forall>s. feeds K (ws_queue s) (ws_queue (snd (m s))))"

named_theorems forwards_rules \<open>what only feeds certain keys to the queue\<close>

lemma forwards_return [forwards_rules]: "forwards K (op_return x)"
  by (simp add: forwards_def op_return_def feeds_refl)

lemma forwards_raise [forwards_rules]: "forwards K (op_raise e)"
  by (simp add: forwards_def op_raise_def feeds_refl)

lemma forwards_get [forwards_rules]: "forwards K (op_get f)"
  by (simp add: forwards_def op_get_def feeds_refl)

lemma forwards_modify [forwards_rules]: "(\<And>s. ws_queue (f s) = ws_queue s) \<Longrightarrow> forwards K (op_modify f)"
  by (simp add: forwards_def op_modify_def feeds_refl)

lemma forwards_put [forwards_rules]: "k \<in> K \<Longrightarrow> forwards K (watch_put k source now)"
  by (simp add: forwards_def watch_put_def op_modify_def feeds_put)

lemma forwards_bind [forwards_rules]:
  assumes "forwards K m" "\<And>x. forwards K (f x)"
  shows "forwards K (op_bind m f)"
  unfolding forwards_def
proof
  fix s
  have "feeds K (ws_queue s) (ws_queue (snd (m s)))"
    using assms(1) by (simp add: forwards_def)
  moreover have "feeds K (ws_queue t) (ws_queue (snd (f x t)))" for x t
    using assms(2) by (simp add: forwards_def)
  ultimately show "feeds K (ws_queue s) (ws_queue (snd (op_bind m f s)))"
    by (auto simp: op_bind_def split: prod.splits sum.splits intro: feeds_trans)
qed

lemma forwards_catch [forwards_rules]:
  assumes "forwards K m" "\<And>e. forwards K (h e)"
  shows "forwards K (op_catch m h)"
  unfolding forwards_def
proof
  fix s
  have "feeds K (ws_queue s) (ws_queue (snd (m s)))"
    using assms(1) by (simp add: forwards_def)
  moreover have "feeds K (ws_queue t) (ws_queue (snd (h e t)))" for e t
    using assms(2) by (simp add: forwards_def)
  ultimately show "feeds K (ws_queue s) (ws_queue (snd (op_catch m h s)))"
    by (auto simp: op_catch_def split: prod.splits sum.splits intro: feeds_trans)
qed

lemma forwards_then [forwards_rules]: "forwards K m \<Longrightarrow> forwards K n \<Longrightarrow> forwards K (op_then m n)"
  unfolding op_then_def by (rule forwards_bind)

lemma forwards_when [forwards_rules]: "(b \<Longrightarrow> forwards K m) \<Longrightarrow> forwards K (op_when b m)"
  by (simp add: op_when_def forwards_return)

lemma forwards_for [forwards_rules]: "(\<And>x. x \<in> set xs \<Longrightarrow> forwards K (f x)) \<Longrightarrow> forwards K (op_for xs f)"
  by (induction xs) (simp_all add: forwards_return forwards_then)

lemma forwards_sts: "forwards (set keys) (sts_event keys x)"
  unfolding sts_event_def by (auto intro!: forwards_rules split: option.split)

lemma forwards_pod: "forwards (set keys) (pod_event keys x)"
  unfolding pod_event_def pod_pool_def
  by (auto intro!: forwards_rules dest: find_mem split: option.split)

lemma forwards_round:
  assumes "\<And>x. forwards K (handler x)"
  shows "forwards K (watch_round handler r)"
  unfolding watch_round_def reconnect_def
  by (intro forwards_catch forwards_then forwards_for assms)
    (auto intro: forwards_rules split: option.split)

lemma forwards_watches:
  "forwards (set (dict_keys (pool_by_key pools))) (watch_statefulsets pools runs)"
  "forwards (set (dict_keys (pool_by_key pools))) (watch_pods pools runs)"
  unfolding watch_statefulsets_def watch_pods_def
  by (auto intro!: forwards_for forwards_round forwards_sts forwards_pod)

lemma forwards_poll: "forwards (fst ` set states) (poll_round iv now (Inr states))"
  unfolding poll_round_def poll_one_def by (auto intro!: forwards_rules)

section \<open>Routing of pods\<close>

lemma startswith_take: "startswith s p \<longleftrightarrow> take (length p) s = p"
  by (simp add: startswith_def)

text \<open>A pod of the pool \<open>w\<close> is called \<open>w-<ordinal>\<close>. It is routed to \<open>w\<close> unless another pool's name with
  a dash is a prefix of \<open>w\<close>.\<close>

lemma dash_prefix:
  assumes "startswith (w @ CHR ''-'' # ord) (k @ ''-'')" "CHR ''-'' \<notin> set ord" "\<not> startswith w (k @ ''-'')"
  shows "k = w"
proof -
  obtain zs where zs: "w @ CHR ''-'' # ord = k @ CHR ''-'' # zs"
    using assms(1) by (metis append_take_drop_id append.assoc append_Cons append_Nil startswith_take)
  then consider us where "w = k @ us" "us @ CHR ''-'' # ord = CHR ''-'' # zs"
    | us where "k = w @ us" "CHR ''-'' # ord = us @ CHR ''-'' # zs"
    by (auto simp: append_eq_append_conv2)
  then show ?thesis
  proof cases
    case 1
    then show ?thesis
      using assms(3) by (cases us) (auto simp: startswith_take)
  next
    case 2
    then show ?thesis
      using assms(2) by (cases us) auto
  qed
qed

lemma find_unique: "x \<in> set xs \<Longrightarrow> P x \<Longrightarrow> (\<And>y. y \<in> set xs \<Longrightarrow> P y \<Longrightarrow> y = x) \<Longrightarrow> List.find P xs = Some x"
proof -
  assume x: "x \<in> set xs" "P x" and only: "\<And>y. y \<in> set xs \<Longrightarrow> P y \<Longrightarrow> y = x"
  then obtain y where "List.find P xs = Some y"
    by (metis find_None_iff not_None_eq)
  with find_mem [OF this] only show ?thesis
    by blast
qed

lemma pod_pool_own:
  assumes "w \<in> set keys" "CHR ''-'' \<notin> set ord" "\<forall>k \<in> set keys. \<not> startswith w (k @ ''-'')"
  shows "pod_pool keys (w @ CHR ''-'' # ord) = Some w"
  unfolding pod_pool_def
proof (rule find_unique [OF assms(1)])
  show "startswith (w @ CHR ''-'' # ord) (w @ ''-'')"
    by (simp add: startswith_take)
next
  fix k
  assume "k \<in> set keys" "startswith (w @ CHR ''-'' # ord) (k @ ''-'')"
  with assms show "k = w"
    by (metis dash_prefix)
qed

section \<open>The poller\<close>

lemma poll_one_run:
  "poll_one now (k, st) s =
     (Inr (), s\<lparr>ws_queue := (if map_of (ws_cache s) k = Some st then ws_queue s
                             else snd (queue_put k ''slurm-diff'' (now k) (ws_queue s))),
                ws_cache := dict_set k st (ws_cache s)\<rparr>)"
  by (simp add: poll_one_def op_defs watch_put_def)

lemma poll_one_total: "op_for states (poll_one now) s = (Inr (), snd (op_for states (poll_one now) s))"
  by (induction states arbitrary: s) (auto simp: op_defs poll_one_run split_paired_all)

lemma poll_states:
  assumes "queue_inv (ws_queue s)" "distinct (map fst states)"
  shows "map_of (ws_cache (snd (op_for states (poll_one now) s))) = map_of (ws_cache s) ++ map_of states \<and>
    set (live_keys (ws_queue (snd (op_for states (poll_one now) s)))) =
      set (live_keys (ws_queue s)) \<union> {k. \<exists>st. (k, st) \<in> set states \<and> map_of (ws_cache s) k \<noteq> Some st}"
  using assms
proof (induction states arbitrary: s)
  case Nil
  then show ?case by (simp add: op_defs)
next
  case (Cons x states)
  obtain k st where x: "x = (k, st)"
    by (cases x)
  let ?u = "snd (poll_one now (k, st) s)"
  have u: "queue_inv (ws_queue ?u)" "map_of (ws_cache ?u) = (map_of (ws_cache s))(k \<mapsto> st)"
    "set (live_keys (ws_queue ?u)) =
      set (live_keys (ws_queue s)) \<union> (if map_of (ws_cache s) k = Some st then {} else {k})"
    using Cons.prems(1) feeds_inv [OF feeds_put [of k "{k}" "ws_queue s"]]
    by (auto simp: poll_one_run update_conv' put_live)
  have step: "op_for (x # states) (poll_one now) s = op_for states (poll_one now) ?u"
    by (simp add: op_then_def op_bind_def poll_one_run x)
  have k: "k \<notin> fst ` set states"
    using Cons.prems(2) by (simp add: x)
  have cache: "map_of (ws_cache ?u) ++ map_of states = map_of (ws_cache s) ++ map_of (x # states)"
    using k by (simp add: u(2) x map_add_upd_left dom_map_of_conv_image_fst)
  have "{k'. \<exists>st'. (k', st') \<in> set states \<and> map_of (ws_cache ?u) k' \<noteq> Some st'} =
      {k'. \<exists>st'. (k', st') \<in> set states \<and> map_of (ws_cache s) k' \<noteq> Some st'}"
    using k by (force simp: u(2))
  then have live: "set (live_keys (ws_queue ?u)) \<union>
      {k'. \<exists>st'. (k', st') \<in> set states \<and> map_of (ws_cache ?u) k' \<noteq> Some st'} =
      set (live_keys (ws_queue s)) \<union> {k'. \<exists>st'. (k', st') \<in> set (x # states) \<and> map_of (ws_cache s) k' \<noteq> Some st'}"
    by (auto simp: u(3) x)
  have "distinct (map fst states)"
    using Cons.prems(2) by simp
  from Cons.IH [OF u(1) this] show ?case
    unfolding step cache live .
qed

lemma poll_unchanged:
  "\<forall>(k, st) \<in> set states. map_of (ws_cache s) k = Some st \<Longrightarrow>
     ws_queue (snd (op_for states (poll_one now) s)) = ws_queue s"
proof (induction states arbitrary: s)
  case Nil
  then show ?case by (simp add: op_defs)
next
  case (Cons x states)
  obtain k st where x: "x = (k, st)"
    by (cases x)
  then have "map_of (ws_cache s) k = Some st"
    using Cons.prems by auto
  moreover from this have "map_of (dict_set k st (ws_cache s)) = map_of (ws_cache s)"
    by (simp add: update_conv' fun_upd_idem)
  moreover have "\<forall>(k', st') \<in> set states. map_of (ws_cache s) k' = Some st'"
    using Cons.prems by simp
  ultimately show ?case
    using Cons.IH [of "snd (poll_one now (k, st) s)"] by (simp add: op_then_def op_bind_def poll_one_run x)
qed

lemma poll_round_queue:
  "ws_queue (snd (poll_round iv now (Inr states) s)) = ws_queue (snd (op_for states (poll_one now) s))"
  "ws_cache (snd (poll_round iv now (Inr states) s)) = ws_cache (snd (op_for states (poll_one now) s))"
  "ws_queue (snd (poll_round iv now (Inl e) s)) = ws_queue s"
  "ws_cache (snd (poll_round iv now (Inl e) s)) = ws_cache s"
proof -
  obtain t where "op_for states (poll_one now) s = (Inr (), t)"
    using poll_one_total by blast
  then show "ws_queue (snd (poll_round iv now (Inr states) s)) = ws_queue (snd (op_for states (poll_one now) s))"
    "ws_cache (snd (poll_round iv now (Inr states) s)) = ws_cache (snd (op_for states (poll_one now) s))"
    by (simp_all add: poll_round_def op_then_def op_bind_def op_catch_def op_modify_def)
qed (simp_all add: poll_round_def op_then_def op_bind_def op_catch_def op_modify_def op_raise_def)

section \<open>The consumer\<close>

text \<open>Between its own calls the consumer sees no put half done.\<close>

definition quiet :: "event_queue \<Rightarrow> bool" where
  "quiet q \<longleftrightarrow> queue_inv q \<and> q_adding q = [] \<and> q_held q = None"

lemma quiet_keys: "quiet q \<Longrightarrow> live_keys q = map qi_key (q_items q)"
  by (simp add: quiet_def live_keys_def) (simp add: held_keys_def)

lemma quietI:
  assumes "q_adding q = []" "q_held q = None" "distinct (map qi_key (q_items q))"
    "set (q_pending q) = qi_key ` set (q_items q)"
  shows "quiet q"
proof -
  have "live_keys q = map qi_key (q_items q)"
    using assms(1,2) by (simp add: live_keys_def) (simp add: held_keys_def)
  with assms show ?thesis
    by (simp add: quiet_def queue_inv_def)
qed

lemma put_prefix: "\<exists>more. q_items (snd (queue_put k source now q)) = q_items q @ more"
  by (auto simp: queue_put_def put_lock_def put_item_def)

lemma put_quiet: "quiet q \<Longrightarrow> quiet (snd (queue_put k source now q))"
  using feeds_inv [OF feeds_put [of k "{k}" q]]
  by (auto simp: quiet_def queue_put_def put_lock_def put_item_def split: if_splits)

lemma poll_quiet: "quiet (ws_queue s) \<Longrightarrow> quiet (ws_queue (snd (op_for states (poll_one now) s)))"
proof (induction states arbitrary: s)
  case Nil
  then show ?case by (simp add: op_defs)
next
  case (Cons x states)
  obtain k st where x: "x = (k, st)"
    by (cases x)
  from Cons.prems have "quiet (ws_queue (snd (poll_one now (k, st) s)))"
    by (simp add: poll_one_run put_quiet)
  with Cons.IH [of "snd (poll_one now (k, st) s)"] show ?case
    by (simp add: op_then_def op_bind_def poll_one_run x)
qed

lemma put_all_quiet: "quiet q \<Longrightarrow> quiet (put_all puts q)"
  unfolding put_all_def by (induction puts arbitrary: q) (auto simp: put_quiet)

lemma put_all_prefix: "\<exists>more. q_items (put_all puts q) = q_items q @ more"
proof (induction puts arbitrary: q)
  case Nil
  show ?case by (simp add: put_all_def)
next
  case (Cons x puts)
  obtain k source now where x: "x = (k, source, now)"
    by (cases x)
  obtain m1 where "q_items (snd (queue_put k source now q)) = q_items q @ m1"
    using put_prefix by blast
  moreover obtain m2 where "q_items (put_all puts (snd (queue_put k source now q))) =
      q_items (snd (queue_put k source now q)) @ m2"
    using Cons by blast
  ultimately show ?case
    by (auto simp: put_all_def x)
qed

lemma get_quiet:
  assumes "quiet q" "q_items q = it # its"
  shows "quiet (snd (queue_get q))" "q_items (snd (queue_get q)) = its"
    "set (live_keys (snd (queue_get q))) = set (live_keys q) - {qi_key it}"
proof -
  have get: "queue_get q = (Some it, get_unlock it (q\<lparr>q_items := its\<rparr>))"
    by (rule queue_get_fifo [OF assms(2)])
  have d: "distinct (qi_key it # map qi_key its)" "set (q_pending q) = insert (qi_key it) (qi_key ` set its)"
    "q_adding q = []" "q_held q = None"
    using assms quiet_keys [OF assms(1)] by (auto simp: quiet_def queue_inv_def)
  show quiet: "quiet (snd (queue_get q))"
    by (rule quietI) (use d in \<open>auto simp: get get_unlock_def intro: rev_image_eqI\<close>)
  show items: "q_items (snd (queue_get q)) = its"
    by (simp add: get get_unlock_def)
  show "set (live_keys (snd (queue_get q))) = set (live_keys q) - {qi_key it}"
    using d(1) by (auto simp: quiet_keys [OF quiet] quiet_keys [OF assms(1)] items assms(2))
qed

lemma main_step_get:
  assumes "quiet q" "q_items q = it # its"
  obtains q' more where "main_step env oc pools r (q, ls) = (q', loop_once env oc pools (Some it) (lr_collected r) ls)"
    "quiet q'" "q_items q' = its @ more"
proof -
  obtain more where items: "q_items (put_all (lr_puts r) q) = it # its @ more"
    using put_all_prefix [of "lr_puts r" q] assms(2) by auto
  note g = get_quiet [OF put_all_quiet [OF assms(1)] items]
  have "main_step env oc pools r (q, ls) =
      (snd (queue_get (put_all (lr_puts r) q)), loop_once env oc pools (Some it) (lr_collected r) ls)"
    using queue_get_fifo [OF items] by (simp add: main_step_def)
  with g(1,2) show ?thesis
    by (rule that [rotated])
qed

text \<open>The item at position \<open>n\<close> is the one the consumer gets in its iteration \<open>n\<close>, whatever is put
  meanwhile.\<close>

lemma item_reached:
  assumes "quiet q" "q_items q = pre @ it # post" "length pre < length rounds"
  shows "\<exists>q1 ls1. main_loop env oc pools (take (length pre) rounds) (q, ls) = (q1, ls1) \<and>
    snd (main_loop env oc pools (take (Suc (length pre)) rounds) (q, ls)) =
      loop_once env oc pools (Some it) (lr_collected (rounds ! length pre)) ls1"
  using assms
proof (induction pre arbitrary: q ls rounds post)
  case Nil
  then obtain r rs where rounds: "rounds = r # rs"
    by (cases rounds) auto
  obtain q' more where "main_step env oc pools r (q, ls) = (q', loop_once env oc pools (Some it) (lr_collected r) ls)"
    using main_step_get [OF Nil.prems(1), of it post env oc pools r ls] Nil.prems(2) by auto
  then show ?case
    by (simp add: main_loop_def rounds)
next
  case (Cons x pre)
  then obtain r rs where rounds: "rounds = r # rs"
    by (cases rounds) auto
  have "q_items q = x # (pre @ it # post)"
    using Cons.prems(2) by simp
  then obtain q' more where step: "main_step env oc pools r (q, ls) = (q', loop_once env oc pools (Some x) (lr_collected r) ls)"
    and q': "quiet q'" "q_items q' = (pre @ it # post) @ more"
    by (rule main_step_get [OF Cons.prems(1)])
  have "length pre < length rs"
    using Cons.prems(3) by (simp add: rounds)
  from Cons.IH [OF q'(1) _ this, where post = "post @ more" and ls = "loop_once env oc pools (Some x) (lr_collected r) ls"] q'(2)
  show ?case
    by (simp add: main_loop_def rounds step)
qed

lemma loop_once_pool:
  assumes "map_of (pool_by_key pools) (qi_key it) = Some cfg"
  shows "ls_ops (loop_once env oc pools (Some it) (Inr states) ls) = snd (process_pool env oc cfg states (ls_ops ls))"
  using assms by (simp add: loop_once_def Let_def)

end
