(* ===== verification/OpK8s.thy ===== *)
theory OpK8s
  imports OpApp
begin

text \<open>
  The Kubernetes client of the operator (\<^verbatim>\<open>operator/k8s.py\<close>): how it reads the API's objects, with an
  \<^verbatim>\<open>ApiException\<close> (\<open>ApiError\<close>) turned into a default and every other exception passed on, and the
  commands it runs in the controller pod. The API and the pod are arguments: an answer is an
  exception or an object with the attributes the client uses. The calls the reconciler records act
  on a StatefulSet through \<open>apply_effect\<close>, which is what its abstract store of annotations stands for.
\<close>

section \<open>Reading objects\<close>

record sts_object =
  so_annotations :: "(string, string) dict option"
  so_ready_replicas :: "int option"
  so_replicas :: "int option"

definition except_api :: "(py_error + 'a) \<Rightarrow> ('a \<Rightarrow> 'b) \<Rightarrow> 'b \<Rightarrow> py_error + 'b" where
  "except_api answer f v =
     (case answer of Inr x \<Rightarrow> Inr (f x) | Inl e \<Rightarrow> if e = ApiError then Inr v else Inl e)"

definition pod_is_ready :: "(py_error + (string \<times> string) list option) \<Rightarrow> py_error + bool" where
  \<comment> \<open>the conditions of the pod, each with its type and status\<close>
  "pod_is_ready answer =
     except_api answer (\<lambda>cs. case cs of None \<Rightarrow> False | Some l \<Rightarrow> (''Ready'', ''True'') \<in> set l) False"

definition get_annotation :: "string \<Rightarrow> string \<Rightarrow> (py_error + sts_object) \<Rightarrow> py_error + string option" where
  "get_annotation resource key answer =
     (if resource = ''statefulset''
      then except_api answer (\<lambda>x. case so_annotations x of None \<Rightarrow> None | Some d \<Rightarrow> map_of d key) None
      else Inr None)"

definition get_ready_replicas :: "(py_error + sts_object) \<Rightarrow> py_error + int" where
  "get_ready_replicas answer = except_api answer (\<lambda>x. case so_ready_replicas x of None \<Rightarrow> 0 | Some n \<Rightarrow> n) 0"

definition get_replicas :: "(py_error + sts_object) \<Rightarrow> py_error + int" where
  "get_replicas answer = except_api answer (\<lambda>x. case so_replicas x of None \<Rightarrow> 0 | Some n \<Rightarrow> n) 0"

section \<open>Writing objects\<close>

text \<open>What a merge patch does to the object it is sent for.\<close>

definition k8s_set_annotation :: "string \<Rightarrow> string \<Rightarrow> string \<Rightarrow> sts_object \<Rightarrow> sts_object" where
  "k8s_set_annotation resource key v x =
     (if resource = ''statefulset''
      then x\<lparr>so_annotations := Some (dict_set key v (case so_annotations x of None \<Rightarrow> [] | Some d \<Rightarrow> d))\<rparr>
      else x)"

definition patch_replicas :: "int \<Rightarrow> sts_object \<Rightarrow> sts_object" where
  "patch_replicas n x = x\<lparr>so_replicas := Some n\<rparr>"

section \<open>Commands\<close>

definition quoted :: "string \<Rightarrow> string" where
  "quoted s = CHR 0x27 # s @ [CHR 0x27]"

definition node_update :: "string \<Rightarrow> string \<Rightarrow> string" where
  "node_update node state = ''scontrol update NodeName='' @ node @ '' State='' @ state @ '' || true''"

definition drain_slurm_node :: "string \<Rightarrow> string \<Rightarrow> string" where
  "drain_slurm_node node reason = node_update node (''DRAIN Reason='' @ quoted reason)"

definition resume_slurm_node :: "string \<Rightarrow> string" where
  "resume_slurm_node node = node_update node ''RESUME''"

definition cancel_jobs_on_node :: "string \<Rightarrow> string" where
  "cancel_jobs_on_node node = ''scancel --nodelist='' @ node @ '' --signal=TERM || true''"

definition down_slurm_node :: "string \<Rightarrow> string \<Rightarrow> string" where
  "down_slurm_node node reason = node_update node (''DOWN Reason='' @ quoted reason)"

definition future_slurm_node :: "string \<Rightarrow> string \<Rightarrow> string" where
  "future_slurm_node node reason = node_update node (''FUTURE Reason='' @ quoted reason)"

text \<open>The answer of the pod is its output when that is text.\<close>

definition exec_in_controller :: "(string \<Rightarrow> py_error + string option) \<Rightarrow> string \<Rightarrow> py_error + string" where
  "exec_in_controller pod command =
     (case pod command of
        Inl e \<Rightarrow> Inl e
      | Inr None \<Rightarrow> Inr []
      | Inr (Some out) \<Rightarrow> Inr (str_strip out))"

definition get_node_cpu_alloc :: "(string \<Rightarrow> py_error + string option) \<Rightarrow> string \<Rightarrow> py_error + int" where
  "get_node_cpu_alloc pod node =
     (case exec_in_controller pod
             (''scontrol show node '' @ node @ '' 2>/dev/null | grep -oP '' @ quoted (''CPUAlloc='' @ CHR 0x5C # ''K[0-9]+'')
               @ '' || echo 0'') of
        Inl e \<Rightarrow> Inl e
      | Inr out \<Rightarrow> Inr (case int_of_str (if out = [] then ''0'' else out) of Some n \<Rightarrow> n | None \<Rightarrow> 0))"

section \<open>Facts\<close>

lemma annotation_roundtrip:
  "get_annotation ''statefulset'' k (Inr (k8s_set_annotation ''statefulset'' k' v x)) =
     (if k = k' then Inr (Some v) else get_annotation ''statefulset'' k (Inr x))"
  by (simp add: get_annotation_def except_api_def k8s_set_annotation_def update_conv' split: option.split)

lemma replicas_roundtrip: "get_replicas (Inr (patch_replicas n x)) = Inr n"
  by (simp add: get_replicas_def except_api_def patch_replicas_def)

text \<open>A node whose allocation the command does not tell is read as idle.\<close>

lemma unreadable_alloc_is_idle:
  assumes "\<And>c. pod c = Inr (Some out)" "int_of_str (str_strip out) = None"
  shows "get_node_cpu_alloc pod node = Inr 0"
proof -
  have "int_of_str ''0'' = Some 0"
    by code_simp
  then show ?thesis
    using assms by (simp add: get_node_cpu_alloc_def exec_in_controller_def)
qed

section \<open>The reconciler's calls on the API's objects\<close>

fun annotation_name :: "annotation \<Rightarrow> string" where
  "annotation_name LastScaleUpAt = ''slurm.k8s/last-scale-up-at''"
| "annotation_name LastScaleActionAt = ''slurm.k8s/last-scale-action-at''"
| "annotation_name ProvisioningMarker = ''slurm.k8s/provisioning''"
| "annotation_name ProvisioningRetryAt = ''slurm.k8s/provisioning-retry-at''"

lemma annotation_name_inj: "annotation_name a = annotation_name b \<longleftrightarrow> a = b"
  by (cases a; cases b) simp_all

text \<open>The object of the StatefulSet \<open>key\<close> after a recorded call; the printed form of a value is a
  parameter.\<close>

definition apply_effect :: "(ann_value \<Rightarrow> string) \<Rightarrow> string \<Rightarrow> sts_object \<Rightarrow> effect \<times> bool \<Rightarrow> sts_object" where
  "apply_effect printed key x call =
     (case call of
        (Annotate k n w, True) \<Rightarrow> if k = key then k8s_set_annotation ''statefulset'' (annotation_name n) (printed w) x else x
      | (Patch k n, True) \<Rightarrow> if k = key then patch_replicas n x else x
      | _ \<Rightarrow> x)"

lemma get_after_effect:
  "get_annotation ''statefulset'' (annotation_name name) (Inr (apply_effect printed key x (e, b))) =
     (case (e, b) of
        (Annotate k n w, True) \<Rightarrow>
          if k = key \<and> n = name then Inr (Some (printed w))
          else get_annotation ''statefulset'' (annotation_name name) (Inr x)
      | _ \<Rightarrow> get_annotation ''statefulset'' (annotation_name name) (Inr x))"
  by (auto simp: apply_effect_def k8s_set_annotation_def annotation_name_inj get_annotation_def except_api_def
      patch_replicas_def update_conv' split: effect.split bool.split option.split)

lemma store_refined:
  "get_annotation ''statefulset'' (annotation_name name) (Inr (foldl (apply_effect printed key) x calls)) =
     (case stored_annotation calls key name of
        None \<Rightarrow> get_annotation ''statefulset'' (annotation_name name) (Inr x)
      | Some w \<Rightarrow> Inr (Some (printed w)))"
proof (induction calls rule: rev_induct)
  case Nil
  show ?case by (simp add: stored_annotation_def)
next
  case (snoc c calls)
  obtain e b where c: "c = (e, b)"
    by (cases c)
  show ?case
    using snoc by (auto simp: c get_after_effect stored_annotation_append split: effect.splits bool.splits)
qed

text \<open>The replicas an accepted patch leaves behind.\<close>

definition last_patch :: "string \<Rightarrow> (effect \<times> bool) list \<Rightarrow> int option" where
  "last_patch key calls =
     foldl (\<lambda>v c. case c of (Patch k n, True) \<Rightarrow> if k = key then Some n else v | _ \<Rightarrow> v) None calls"

lemma replicas_refined:
  "get_replicas (Inr (foldl (apply_effect printed key) x calls)) =
     (case last_patch key calls of None \<Rightarrow> get_replicas (Inr x) | Some n \<Rightarrow> Inr n)"
proof (induction calls rule: rev_induct)
  case Nil
  show ?case by (simp add: last_patch_def)
next
  case (snoc c calls)
  obtain e b where c: "c = (e, b)"
    by (cases c)
  show ?case
    using snoc by (auto simp: c apply_effect_def last_patch_def get_replicas_def except_api_def patch_replicas_def
        k8s_set_annotation_def split: effect.splits bool.splits)
qed

end
