(* ===== verification/WatchProps.thy ===== *)
theory WatchProps
  imports OpWatcherFacts OpK8s OpProps
begin

text \<open>
  The properties of the threads around the event queue: what the watchers put, what the poller
  notices, and that the consumer gets to it.
\<close>

section \<open>Watches\<close>


text \<open>An event of a pod \<open>w-<ordinal>\<close> puts exactly the pool \<open>w\<close>, provided no configured name followed by a
  dash is a prefix of \<open>w\<close>.\<close>

lemma pod_event_wakes_pool:
  assumes "queue_inv (ws_queue s)" "w \<in> set keys" "CHR ''-'' \<notin> set ord"
    "\<forall>k \<in> set keys. \<not> startswith w (k @ ''-'')" "we_object ev = Some (Some (w @ CHR ''-'' # ord))"
  shows "fst (pod_event keys (ev, now) s) = Inr () \<and>
    set (live_keys (ws_queue (snd (pod_event keys (ev, now) s)))) = insert w (set (live_keys (ws_queue s)))"
  using pod_pool_own [OF assms(2-4)] put_live [OF assms(1)] assms(5)
  by (simp add: pod_event_def watch_put_def op_modify_def)

definition demo_watch :: watch_state where
  "demo_watch = \<lparr>ws_queue = queue_empty, ws_cache = [(''w'', demo_state 4 0 0)], ws_log = [], ws_sleeps = []\<rparr>"

text \<open>Without the proviso the event wakes another pool: pods of \<^verbatim>\<open>gpu-a\<close> are routed to \<^verbatim>\<open>gpu\<close>.\<close>

lemma pod_routed_to_prefix: "pod_pool [''gpu'', ''gpu-a''] ''gpu-a-0'' = Some ''gpu''"
  by code_simp

section \<open>The Kubernetes client\<close>

text \<open>The Kubernetes client implements the store of annotations and replicas the reconciler relies on:
  after any sequence of recorded calls, accepted or not, reading an annotation of the StatefulSet
  gives the printed form of the last accepted write to it, or what was there before, and reading the
  replicas gives the last accepted patch.\<close>

lemma client_implements_store:
  "get_annotation ''statefulset'' (annotation_name name) (Inr (foldl (apply_effect printed key) x calls)) =
     (case stored_annotation calls key name of
        None \<Rightarrow> get_annotation ''statefulset'' (annotation_name name) (Inr x)
      | Some w \<Rightarrow> Inr (Some (printed w))) \<and>
   get_replicas (Inr (foldl (apply_effect printed key) x calls)) =
     (case last_patch key calls of None \<Rightarrow> get_replicas (Inr x) | Some n \<Rightarrow> Inr n)"
  by (intro conjI store_refined replicas_refined)

section \<open>The poller and the consumer\<close>

text \<open>C38. From the poll to the reconcile: when a poll sees a state of a configured pool that differs from
  the cached one, the cache has the new state and, whatever other events are put meanwhile, the
  consumer reconciles that pool in one of as many iterations as there are items in the queue after
  the poll, if collecting the states succeeds in all of them.\<close>

theorem change_is_reconciled:
  assumes "quiet (ws_queue s)" "distinct (dict_keys states)" "map_of states k = Some st"
    "map_of (ws_cache s) k \<noteq> Some st" "map_of (pool_by_key pools) k = Some cfg"
    "poll_round iv now (Inr states) s = (Inr (), s')"
    "length rounds = length (q_items (ws_queue s'))" "\<forall>r \<in> set rounds. lr_collected r = Inr (polled r)"
  shows "map_of (ws_cache s') k = Some st \<and>
    (\<exists>i<length rounds. \<exists>q ls'. main_loop env oc pools (take i rounds) (ws_queue s', ls) = (q, ls') \<and>
       ls_ops (snd (main_loop env oc pools (take (Suc i) rounds) (ws_queue s', ls))) =
         snd (process_pool env oc cfg (polled (rounds ! i)) (ls_ops ls')))"
proof -
  let ?t = "snd (op_for states (poll_one now) s)"
  have inv: "queue_inv (ws_queue s)"
    using assms(1) by (simp add: quiet_def)
  have s': "ws_queue s' = ws_queue ?t" "ws_cache s' = ws_cache ?t"
    using poll_round_queue(1,2) [of iv now states s] assms(6) by simp_all
  note p = poll_states [OF inv, of states now]
  have cache: "map_of (ws_cache s') k = Some st"
    using p assms(2,3) by (simp add: s' dict_keys_def)
  have "k \<in> set (live_keys (ws_queue s'))"
    using p assms(2-4) map_of_SomeD [OF assms(3)] by (auto simp: s' dict_keys_def)
  moreover have quiet: "quiet (ws_queue s')"
    unfolding s' by (rule poll_quiet [OF assms(1)])
  ultimately have "k \<in> qi_key ` set (q_items (ws_queue s'))"
    by (simp add: quiet_keys)
  then obtain pre it post where items: "q_items (ws_queue s') = pre @ it # post" "qi_key it = k"
    by (auto dest!: split_list)
  then have "length pre < length rounds"
    using assms(7) by simp
  moreover obtain q ls' where
    "main_loop env oc pools (take (length pre) rounds) (ws_queue s', ls) = (q, ls')"
    "snd (main_loop env oc pools (take (Suc (length pre)) rounds) (ws_queue s', ls)) =
      loop_once env oc pools (Some it) (lr_collected (rounds ! length pre)) ls'"
    using item_reached [OF quiet items(1) calculation] by blast
  moreover have "lr_collected (rounds ! length pre) = Inr (polled (rounds ! length pre))"
    using assms(8) calculation(1) by simp
  ultimately show ?thesis
    using cache loop_once_pool [of pools it cfg env oc] assms(5) items(2) by metis
qed

definition demo_rounds :: "loop_round list" where
  "demo_rounds = [\<lparr>lr_puts = [(''x'', ''k8s-sts:ADDED'', 7)], lr_collected = Inr [(''w'', demo_state 4 3 0)]\<rparr>]"

theorem change_is_reconciled_witness:
  "ls_ops (snd (main_loop (demo_env (\<lambda>i n. 0)) demo_config [demo_pool] demo_rounds
      (ws_queue (snd (poll_round 1 (\<lambda>_. 6) (Inr [(''w'', demo_state 4 3 0)]) demo_watch)),
       \<lparr>ls_ops = fresh_ops ''w'', ls_errors = 0, ls_sleeps = []\<rparr>))) =
   snd (process_pool (demo_env (\<lambda>i n. 0)) demo_config demo_pool [(''w'', demo_state 4 3 0)] (fresh_ops ''w''))"
proof -
  let ?s = "snd (poll_round 1 (\<lambda>_. 6) (Inr [(''w'', demo_state 4 3 0)]) demo_watch)"
  let ?ls = "\<lparr>ls_ops = fresh_ops ''w'', ls_errors = 0, ls_sleeps = []\<rparr>"
  have quiet: "quiet (ws_queue demo_watch)"
    by (rule quietI) (simp_all add: demo_watch_def queue_empty_def)
  have pool: "map_of (pool_by_key [demo_pool]) ''w'' = Some demo_pool"
    by (simp add: pool_by_key_def dict_of_def demo_simps)
  have new: "map_of (ws_cache demo_watch) ''w'' \<noteq> Some (demo_state 4 3 0)"
    by (simp add: demo_watch_def demo_state_def)
  have len: "length demo_rounds = length (q_items (ws_queue ?s))"
    by code_simp
  have run: "poll_round 1 (\<lambda>_. 6) (Inr [(''w'', demo_state 4 3 0)]) demo_watch = (Inr (), ?s)"
    by (simp add: poll_round_def op_defs poll_one_run)
  have one: "length demo_rounds = 1" "demo_rounds ! 0 = hd demo_rounds" "lr_collected (hd demo_rounds) = Inr [(''w'', demo_state 4 3 0)]"
    by (simp_all add: demo_rounds_def)
  have "\<exists>i<length demo_rounds. \<exists>q ls'.
      main_loop (demo_env (\<lambda>i n. 0)) demo_config [demo_pool] (take i demo_rounds) (ws_queue ?s, ?ls) = (q, ls') \<and>
       ls_ops (snd (main_loop (demo_env (\<lambda>i n. 0)) demo_config [demo_pool] (take (Suc i) demo_rounds) (ws_queue ?s, ?ls))) =
         snd (process_pool (demo_env (\<lambda>i n. 0)) demo_config demo_pool [(''w'', demo_state 4 3 0)] (ls_ops ls'))"
    using change_is_reconciled [OF quiet _ _ new pool run len, where polled = "\<lambda>_. [(''w'', demo_state 4 3 0)]"
        and env = "demo_env (\<lambda>i n. 0)" and oc = demo_config and ls = ?ls]
    by (simp add: dict_keys_def demo_rounds_def)
  then show ?thesis
    by (auto simp: one main_loop_def)
qed

text \<open>Failing to collect loses the event it was collected for: the item is taken off the queue,
  the pool is not reconciled, and polls that see the state already cached never put it again. Only
  the timeout of an empty queue reconciles every pool.\<close>

lemma failed_collect_drops_event:
  assumes "quiet q" "q_items (put_all (lr_puts r) q) = it # its" "lr_collected r = Inl e"
    "queue_inv (ws_queue s)" "\<forall>x \<in> set states. map_of (ws_cache s) (fst x) = Some (snd x)"
  shows "qi_key it \<notin> set (live_keys (fst (main_step env oc pools r (q, ls)))) \<and>
    ls_ops (snd (main_step env oc pools r (q, ls))) = ls_ops ls \<and>
    ws_queue (snd (poll_round iv now (Inr states) s)) = ws_queue s"
proof -
  have "main_step env oc pools r (q, ls) =
      (snd (queue_get (put_all (lr_puts r) q)), loop_once env oc pools (Some it) (Inl e) ls)"
    using queue_get_fifo [OF assms(2)] assms(3) by (simp add: main_step_def)
  moreover have "ws_queue (snd (poll_round iv now (Inr states) s)) = ws_queue s"
    using poll_unchanged [of states s now] assms(5) by (simp add: poll_round_queue case_prod_beta)
  ultimately show ?thesis
    using get_quiet(3) [OF put_all_quiet [OF assms(1)] assms(2)] by (simp add: loop_once_def)
qed

end
