(* ===== verification/RlSchema.thy ===== *)
theory RlSchema
  imports RlSnapshot OpMonad
begin

text \<open>
  What the learned scheduler and its clients exchange: the request and response models of
  \<^verbatim>\<open>services/rl_scheduler/serve.py\<close>, and the world the clients act in. The world is an environment that
  answers each call by its number, so that nothing is assumed of clocks, of Slurm or of the
  policy server; what a client writes to Slurm is recorded, in order, with Slurm's answer.
\<close>

section \<open>Requests and responses\<close>

record rl_job =
  rj_job_id :: string
  rj_mps_req :: int
  rj_gpu_count :: int
  rj_gpu_type :: string
  rj_runtime :: real
  rj_submit_ts :: real
  rj_can_fit :: bool
  rj_ram_req :: real
  rj_slo_s :: real
  rj_job_class :: string
  rj_eligible :: "int list option"

record rl_gpu =
  rg_free_mps :: int
  rg_running_jobs :: int
  rg_gpu_type :: string
  rg_free_ram_ratio :: real

type_synonym rl_node = "rl_gpu list"

record act_req =
  aq_now :: real
  aq_pending_jobs :: "rl_job list"
  aq_nodes :: "rl_node list"
  aq_n_nodes :: int
  aq_gpus_per_node :: int
  aq_mps_per_gpu :: int

record act_resp =
  as_action :: nat
  as_job_i :: "nat option"
  as_node_j :: "nat option"
  as_gpu_k :: "nat option"
  as_selected_job_id :: "string option"
  as_value :: real
  as_entropy :: real

text \<open>The response as the client decodes it; \<open>show\<close> is the printed form of a float.\<close>

definition opt_json :: "('a \<Rightarrow> json) \<Rightarrow> 'a option \<Rightarrow> json" where
  "opt_json f x = (case x of None \<Rightarrow> JNull | Some y \<Rightarrow> f y)"

definition act_json :: "(real \<Rightarrow> string) \<Rightarrow> act_resp \<Rightarrow> jobj" where
  "act_json shown r =
     [(''action'', JInt (int (as_action r))), (''job_i'', opt_json (\<lambda>i. JInt (int i)) (as_job_i r)),
      (''node_j'', opt_json (\<lambda>i. JInt (int i)) (as_node_j r)),
      (''gpu_k'', opt_json (\<lambda>i. JInt (int i)) (as_gpu_k r)),
      (''selected_job_id'', opt_json JStr (as_selected_job_id r)),
      (''value'', JFloat (shown (as_value r)) (as_value r)),
      (''entropy'', JFloat (shown (as_entropy r)) (as_entropy r))]"

section \<open>The clients' world\<close>

datatype job_priority = PriorityInfinite | PriorityNumber int

datatype job_update =
    RequireNode string string "job_priority option"  \<comment> \<open>job, node, released with this priority\<close>
  | SetPriority string int

record rl_env =
  re_time :: "nat \<Rightarrow> real"
  re_mono :: "nat \<Rightarrow> real"
  re_jobs :: "nat \<Rightarrow> py_error + jobj"
  re_nodes :: "nat \<Rightarrow> py_error + jobj"
  re_health :: "nat \<Rightarrow> py_error + jobj"
  re_act :: "nat \<Rightarrow> act_req \<Rightarrow> py_error + jobj"
  re_update :: "nat \<Rightarrow> job_update \<Rightarrow> py_error + jobj"

record rl_state =
  rl_calls :: nat
  rl_posts :: "(job_update \<times> (py_error + jobj)) list"

definition rl_ask :: "(nat \<Rightarrow> py_error + 'a) \<Rightarrow> (rl_state, 'a) op" where
  "rl_ask f s = (f (rl_calls s), s\<lparr>rl_calls := Suc (rl_calls s)\<rparr>)"

definition rl_clock :: "(nat \<Rightarrow> real) \<Rightarrow> (rl_state, real) op" where
  "rl_clock f = rl_ask (\<lambda>i. Inr (f i))"

definition rl_update :: "rl_env \<Rightarrow> job_update \<Rightarrow> (rl_state, jobj) op" where
  "rl_update env u s =
     (let r = re_update env (rl_calls s) u
      in (r, s\<lparr>rl_calls := Suc (rl_calls s), rl_posts := rl_posts s @ [(u, r)]\<rparr>))"

definition op_lift :: "py_error + 'a \<Rightarrow> ('s, 'a) op" where
  "op_lift r s = (r, s)"

text \<open>A call that asks leaves the record of writes alone.\<close>

lemma keeps_ask [op_keeps]:
  "(\<And>s. P s \<Longrightarrow> P (s\<lparr>rl_calls := Suc (rl_calls s)\<rparr>)) \<Longrightarrow> keeps P (rl_ask f)"
  by (rule keepsI) (auto simp: rl_ask_def)

lemma keeps_clock [op_keeps]:
  "(\<And>s. P s \<Longrightarrow> P (s\<lparr>rl_calls := Suc (rl_calls s)\<rparr>)) \<Longrightarrow> keeps P (rl_clock f)"
  unfolding rl_clock_def by (rule keeps_ask)

lemma keeps_lift [op_keeps]: "keeps P (op_lift r)"
  by (rule keepsI) (auto simp: op_lift_def)

lemma keeps_update [op_keeps]:
  "(\<And>s r. P s \<Longrightarrow> P (s\<lparr>rl_calls := Suc (rl_calls s), rl_posts := rl_posts s @ [(u, r)]\<rparr>)) \<Longrightarrow>
     keeps P (rl_update env u)"
  by (rule keepsI) (auto simp: rl_update_def Let_def)

text \<open>How a question, a clock reading and a conversion continue.\<close>

lemma bind_ask:
  "op_bind (rl_ask f) g s =
     (case f (rl_calls s) of
        Inl e \<Rightarrow> (Inl e, s\<lparr>rl_calls := Suc (rl_calls s)\<rparr>)
      | Inr x \<Rightarrow> g x (s\<lparr>rl_calls := Suc (rl_calls s)\<rparr>))"
  by (simp add: op_bind_def rl_ask_def)

lemma bind_clock: "op_bind (rl_clock f) g s = g (f (rl_calls s)) (s\<lparr>rl_calls := Suc (rl_calls s)\<rparr>)"
  by (simp add: rl_clock_def bind_ask)

lemma bind_lift: "op_bind (op_lift r) g s = (case r of Inl e \<Rightarrow> (Inl e, s) | Inr x \<Rightarrow> g x s)"
  by (simp add: op_bind_def op_lift_def split: sum.splits)

lemma bind_update:
  "op_bind (rl_update env u) g s =
     (let w = re_update env (rl_calls s) u;
          s1 = s\<lparr>rl_calls := Suc (rl_calls s), rl_posts := rl_posts s @ [(u, w)]\<rparr>
      in case w of Inl e \<Rightarrow> (Inl e, s1) | Inr x \<Rightarrow> g x s1)"
  by (simp add: op_bind_def rl_update_def Let_def)

end
