(* ===== verification/RlPlacement.thy ===== *)
theory RlPlacement
  imports RlSchema
begin

text \<open>
  The hard placement controller (\<^verbatim>\<open>services/rl_scheduler/placement_controller.py\<close>): slurmrestd's jobs and
  nodes as the policy sees them, the request for the policy server, and one placement: filter the
  held jobs, ask the policy, pin the chosen job to the chosen node and release it. \<open>choose_and_apply\<close>
  works on the world of \<open>RlSchema\<close>; \<open>drain_and_apply\<close> repeats it, up to a bound, until it places
  nothing. The tokens and the URL are part of the world.
\<close>

definition PLACE_TOP_K :: nat where "PLACE_TOP_K = 16"

definition RELEASE_PRIORITY :: int where "RELEASE_PRIORITY = 4294967295"

record slurm_job =
  sl_job_id :: string
  sl_name :: string
  sl_reason :: string
  sl_mps_req :: int
  sl_gpu_count :: int
  sl_gpu_type :: string
  sl_runtime :: real
  sl_submit_ts :: real
  sl_priority :: int
  sl_partition :: string
  sl_required_nodes :: string
  sl_ram_req :: real
  sl_slo_s :: real
  sl_job_class :: string
  sl_required_gpu_type :: string

record slurm_node =
  sn_name :: string
  sn_free_mps :: int
  sn_running_jobs :: int
  sn_gpu_type :: string
  sn_available :: bool

record placement_decision =
  pd_job_id :: "string option"
  pd_node_name :: "string option"
  pd_gpu_index :: "int option"
  pd_action :: int
  pd_value :: real
  pd_entropy :: real
  pd_applied :: bool
  pd_reason :: string

section \<open>Jobs\<close>

definition card_named_in :: "string \<Rightarrow> string option" where
  "card_named_in t = List.find (\<lambda>name. str_contains name (str_lower t)) [''rtx4070'', ''rtx3080'']"

definition required_gpu_type :: "string \<Rightarrow> string \<Rightarrow> string" where
  "required_gpu_type part tres =
     (case card_named_in part of
        Some g \<Rightarrow> g
      | None \<Rightarrow> (case card_named_in tres of Some g \<Rightarrow> g | None \<Rightarrow> []))"

definition comment_metadata :: "jobj \<Rightarrow> jobj" where
  "comment_metadata item =
     (case json_loads_value (j_or (j_get item ''comment'' JNull) (JStr ''{}'')) of
        Inr (JObj d) \<Rightarrow> d
      | _ \<Rightarrow> [])"

definition required_nodes_text :: "jobj \<Rightarrow> string" where
  "required_nodes_text item =
     (case j_or (j_or (j_get item ''required_nodes'' JNull) (j_get item ''req_nodes'' JNull)) (JStr []) of
        JList xs \<Rightarrow> str_join '','' (map py_str xs)
      | v \<Rightarrow> py_str v)"

definition slurm_job_of :: "real \<Rightarrow> int \<Rightarrow> real \<Rightarrow> jobj \<Rightarrow> slurm_job option" where
  "slurm_job_of default_runtime default_mps now item =
     (if ''PENDING'' \<notin> set (state_tokens (j_get item ''job_state'' JNull)) then None
      else
        (let tres = tres_text item;
             part = str_or_empty (j_get item ''partition'' JNull);
             meta = comment_metadata item;
             r0 = number (j_get meta ''reported'' JNull) (number (j_get item ''time_limit'' JNull) 0 * 60)
         in Some \<lparr>sl_job_id = py_str (j_get item ''job_id'' (JStr [])),
              sl_name = str_or_empty (j_or (j_get item ''name'' JNull) (j_get item ''job_name'' JNull)),
              sl_reason = str_or_empty (j_or (j_get item ''state_reason'' JNull) (j_get item ''reason'' JNull)),
              sl_mps_req = or_int (parse_tres_int tres [''mps''] 0) default_mps,
              sl_gpu_count = gpu_count_of tres item,
              sl_gpu_type = py_str (j_or (j_get meta ''gtype'' JNull)
                 (JStr (gpu_type_from_text (tres @ '','' @ part)))),
              sl_runtime = (if r0 \<le> 0 then default_runtime else r0),
              sl_submit_ts = number (j_get item ''submit_time'' JNull) now,
              sl_priority = py_trunc (number (j_get item ''priority'' JNull) 0),
              sl_partition = part,
              sl_required_nodes = required_nodes_text item,
              sl_ram_req = number (j_get meta ''ram'' JNull) 0,
              sl_slo_s = number (j_get meta ''slo'' JNull) 0,
              sl_job_class = py_str (j_or (j_get meta ''cls'' JNull) (JStr ''batch'')),
              sl_required_gpu_type = required_gpu_type part tres\<rparr>))"

definition parse_jobs :: "real \<Rightarrow> int \<Rightarrow> real \<Rightarrow> jobj \<Rightarrow> py_error + slurm_job list" where
  "parse_jobs default_runtime default_mps now jobs_doc =
     res_bind (doc_items jobs_doc ''jobs'') (\<lambda>js.
       Inr (List.map_filter (slurm_job_of default_runtime default_mps now) js))"

definition is_held_reason :: "string \<Rightarrow> bool" where
  "is_held_reason reason \<longleftrightarrow> str_contains ''JOBHELD'' (str_replace_char (CHR ''_'') [] (str_upper reason))"

definition filter_held_jobs :: "slurm_job list \<Rightarrow> slurm_job list" where
  "filter_held_jobs jobs = filter (\<lambda>j. is_held_reason (sl_reason j)) jobs"

section \<open>Nodes\<close>

definition slurm_node_of :: "int \<Rightarrow> jobj \<Rightarrow> slurm_node option" where
  "slurm_node_of mps_cap node =
     (let name = node_text_name node;
          cfg = node_tres_text node [''tres'', ''cfg_tres'', ''gres'', ''gres_detail'']
      in if \<not> mentions_gpu (cfg @ '','' @ name) then None
         else
           (let alloc = node_tres_text node [''alloc_tres'', ''alloc_gres'', ''tres_used''];
                states = node_tokens node;
                total_mps = or_int (parse_tres_int cfg [''mps''] 0) mps_cap;
                alloc_mps = parse_tres_int alloc [''mps''] 0
            in Some \<lparr>sn_name = name, sn_free_mps = max 0 (total_mps - alloc_mps),
                 sn_running_jobs = (if has_token states busy_tokens then 1 else 0),
                 sn_gpu_type = gpu_type_from_text (cfg @ '','' @ name),
                 sn_available = (\<not> has_token states down_states)\<rparr>))"

definition parse_nodes :: "int \<Rightarrow> jobj \<Rightarrow> py_error + slurm_node list" where
  "parse_nodes mps_cap nodes_doc =
     res_bind (doc_items nodes_doc ''nodes'') (\<lambda>ns. Inr (List.map_filter (slurm_node_of mps_cap) ns))"

section \<open>The request\<close>

definition node_allows :: "slurm_job \<Rightarrow> slurm_node \<Rightarrow> bool" where
  "node_allows job n \<longleftrightarrow>
     sn_available n \<and> (sl_required_gpu_type job = [] \<or> sn_gpu_type n = sl_required_gpu_type job) \<and>
     (sl_required_nodes job = [] \<or> sn_name n \<in> set (str_split (CHR '','') (sl_required_nodes job)))"

definition allowed_indices :: "slurm_job \<Rightarrow> slurm_node list \<Rightarrow> nat list" where
  "allowed_indices job nodes = filter (\<lambda>i. node_allows job (nodes ! i)) [0..<length nodes]"

definition act_job :: "slurm_node list \<Rightarrow> slurm_job \<Rightarrow> rl_job" where
  "act_job nodes job =
     (let allowed = allowed_indices job nodes in
      \<lparr>rj_job_id = sl_job_id job, rj_mps_req = sl_mps_req job, rj_gpu_count = sl_gpu_count job,
       rj_gpu_type = sl_gpu_type job, rj_runtime = sl_runtime job, rj_submit_ts = sl_submit_ts job,
       rj_can_fit = list_ex (\<lambda>i. i \<in> set allowed \<and> sl_mps_req job \<le> sn_free_mps (nodes ! i)) [0..<length nodes],
       rj_ram_req = sl_ram_req job, rj_slo_s = sl_slo_s job, rj_job_class = sl_job_class job,
       rj_eligible = Some (map int allowed)\<rparr>)"

definition act_node :: "slurm_node \<Rightarrow> rl_node" where
  \<comment> \<open>the request leaves the free RAM ratio to its default, 1\<close>
  "act_node n = [\<lparr>rg_free_mps = sn_free_mps n, rg_running_jobs = sn_running_jobs n,
                  rg_gpu_type = sn_gpu_type n, rg_free_ram_ratio = 1\<rparr>]"

definition build_act_payload :: "int \<Rightarrow> real \<Rightarrow> slurm_job list \<Rightarrow> slurm_node list \<Rightarrow> act_req" where
  "build_act_payload mps_cap now jobs nodes =
     \<lparr>aq_now = now, aq_pending_jobs = map (act_job nodes) (take PLACE_TOP_K (sort_key sl_submit_ts jobs)),
      aq_nodes = map act_node nodes, aq_n_nodes = int (length nodes), aq_gpus_per_node = 1,
      aq_mps_per_gpu = mps_cap\<rparr>"

definition trim_nodes_to_model_topology :: "rl_env \<Rightarrow> string list \<Rightarrow> (rl_state, string list) op" where
  "trim_nodes_to_model_topology env names =
     op_bind (rl_ask (re_health env)) (\<lambda>health.
       op_return
         (case (case j_get health ''n_actions'' JNull of
                  JInt i \<Rightarrow> Some i | JBool b \<Rightarrow> Some (if b then 1 else 0) | _ \<Rightarrow> None) of
            None \<Rightarrow> names
          | Some k \<Rightarrow>
              if k \<le> 1 then names
              else (let supported = max 1 ((k - 1) div int PLACE_TOP_K) in
                    if int (length names) \<le> supported then names else take (nat supported) names)))"

definition apply_hard_placement ::
  "rl_env \<Rightarrow> string \<Rightarrow> string \<Rightarrow> bool \<Rightarrow> int \<Rightarrow> (rl_state, jobj) op" where
  "apply_hard_placement env job_id node_name do_release release_priority =
     rl_update env (RequireNode job_id node_name
       (if do_release then Some (if release_priority = RELEASE_PRIORITY then PriorityInfinite
                                 else PriorityNumber release_priority)
        else None))"

section \<open>One placement\<close>

record place_cfg =
  pl_node_names :: "string list"
  pl_node_name_prefix :: string
  pl_job_id :: string
  pl_job_name_prefix :: string
  pl_mps_per_gpu :: int
  pl_default_mps :: int
  pl_default_runtime :: real
  pl_release :: bool
  pl_shadow :: bool
  pl_release_priority :: int
  pl_auto_trim :: bool
  pl_require_held :: bool

definition nothing_placed :: "string \<Rightarrow> placement_decision" where
  "nothing_placed reason =
     \<lparr>pd_job_id = None, pd_node_name = None, pd_gpu_index = None, pd_action = -1, pd_value = 0,
      pd_entropy = 0, pd_applied = False, pd_reason = reason\<rparr>"

definition wanted_jobs :: "place_cfg \<Rightarrow> slurm_job list \<Rightarrow> slurm_job list" where
  "wanted_jobs cfg jobs =
     filter (\<lambda>j. (\<not> pl_require_held cfg \<or> is_held_reason (sl_reason j)) \<and>
                 (pl_job_id cfg = [] \<or> sl_job_id j = pl_job_id cfg) \<and>
                 startswith (sl_name j) (pl_job_name_prefix cfg)) jobs"

definition wanted_nodes :: "place_cfg \<Rightarrow> slurm_node list \<Rightarrow> slurm_node list" where
  "wanted_nodes cfg ns =
     filter (\<lambda>n. sn_available n \<and> sn_name n \<noteq> [] \<and>
                 (pl_node_names cfg = [] \<or> sn_name n \<in> set (pl_node_names cfg)) \<and>
                 startswith (sn_name n) (pl_node_name_prefix cfg)) ns"

definition decision_of ::
  "json \<Rightarrow> string option \<Rightarrow> json \<Rightarrow> jobj \<Rightarrow> bool \<Rightarrow> string \<Rightarrow> py_error + placement_decision" where
  \<comment> \<open>the conversions of a \<^verbatim>\<open>PlacementDecision\<close>'s arguments, in order; \<^verbatim>\<open>None\<close> stays \<^verbatim>\<open>None\<close>\<close>
  "decision_of selected node_name gpu act applied reason =
     res_bind (if gpu = JNull then Inr None else res_bind (py_int gpu) (\<lambda>g. Inr (Some g))) (\<lambda>g.
     res_bind (py_int (j_get act ''action'' (JInt (-1)))) (\<lambda>a.
     res_bind (py_float (j_get act ''value'' (JInt 0))) (\<lambda>v.
     res_bind (py_float (j_get act ''entropy'' (JInt 0))) (\<lambda>e.
       Inr \<lparr>pd_job_id = (if selected = JNull then None else Some (py_str selected)),
            pd_node_name = node_name, pd_gpu_index = g, pd_action = a, pd_value = v, pd_entropy = e,
            pd_applied = applied, pd_reason = reason\<rparr>))))"

definition act_on_answer ::
  "rl_env \<Rightarrow> place_cfg \<Rightarrow> string list \<Rightarrow> jobj \<Rightarrow> (rl_state, placement_decision) op" where
  "act_on_answer env cfg names act =
     (let selected = j_get act ''selected_job_id'' JNull;
          node_index = j_get act ''node_j'' JNull;
          gpu_index = j_get act ''gpu_k'' JNull
      in if selected = JNull \<or> node_index = JNull \<or> gpu_index = JNull
         then op_lift (decision_of JNull None JNull act False ''dsac_no_op'')
         else
           op_bind (op_lift (py_int node_index)) (\<lambda>nj.
             if nj < 0 \<or> int (length names) \<le> nj
             then op_lift (decision_of selected None gpu_index act False
                    (''node_index_out_of_range:'' @ py_str node_index))
             else
               (let node_name = names ! nat nj in
                op_then
                  (op_when (\<not> pl_shadow cfg)
                    (op_bind (apply_hard_placement env (py_str selected) node_name (pl_release cfg)
                       (pl_release_priority cfg)) (\<lambda>_. op_return ())))
                  (op_lift (decision_of selected (Some node_name) gpu_index act (\<not> pl_shadow cfg)
                     (if pl_shadow cfg then ''shadow'' else ''applied''))))))"

definition choose_and_apply :: "rl_env \<Rightarrow> place_cfg \<Rightarrow> (rl_state, placement_decision) op" where
  "choose_and_apply env cfg =
     op_bind (rl_ask (re_jobs env)) (\<lambda>jobs_doc.
     op_bind (rl_clock (re_time env)) (\<lambda>now.
     op_bind (op_lift (parse_jobs (pl_default_runtime cfg) (pl_default_mps cfg) now jobs_doc)) (\<lambda>parsed.
       (let jobs = wanted_jobs cfg parsed in
        if jobs = [] then op_return (nothing_placed ''no_matching_pending_jobs'')
        else
          op_bind (rl_ask (re_nodes env)) (\<lambda>nodes_doc.
          op_bind (op_lift (parse_nodes (pl_mps_per_gpu cfg) nodes_doc)) (\<lambda>discovered.
            (let avail = wanted_nodes cfg discovered in
             if avail = [] then op_return (nothing_placed ''no_available_nodes'')
             else
               op_bind (if pl_auto_trim cfg then trim_nodes_to_model_topology env (map sn_name avail)
                        else op_return (map sn_name avail)) (\<lambda>names.
                 (let by_name = dict_of (map (\<lambda>n. (sn_name n, n)) avail);
                      nodes = map (\<lambda>name. the (map_of by_name name)) names
                  in op_bind (rl_clock (re_time env)) (\<lambda>ts.
                     op_bind (rl_ask (\<lambda>i. re_act env i (build_act_payload (pl_mps_per_gpu cfg) ts jobs nodes)))
                       (act_on_answer env cfg names)))))))))))"

fun drain_loop :: "nat \<Rightarrow> rl_env \<Rightarrow> place_cfg \<Rightarrow> (rl_state, placement_decision list) op" where
  "drain_loop 0 env cfg = op_return []"
| "drain_loop (Suc k) env cfg =
     op_bind (choose_and_apply env cfg) (\<lambda>d.
       if pd_applied d then op_bind (drain_loop k env cfg) (\<lambda>ds. op_return (d # ds))
       else op_return [d])"

definition drain_and_apply :: "int \<Rightarrow> rl_env \<Rightarrow> place_cfg \<Rightarrow> (rl_state, placement_decision list) op" where
  "drain_and_apply max_placements env cfg = drain_loop (nat (max 1 max_placements)) env cfg"

end
