(* ===== verification/RlReorder.thy ===== *)
theory RlReorder
  imports RlPlacement SimGym
begin

text \<open>
  The reorder daemon (\<^verbatim>\<open>services/rl_scheduler/reorder_daemon.py\<close>): it reads the eligible pending jobs,
  asks the policy server job by job for a dispatch order, and writes the order into Slurm's job
  priorities, in a band of its own; when anything goes wrong while it writes, it puts the
  priorities back. The ranking works for the evaluation's tuples and for parsed jobs, and is a
  loop over the jobs still to be ranked, which every round but the last makes fewer.
\<close>

definition RELEASE_BASE :: int where "RELEASE_BASE = 5000000"
definition RELEASE_SPACING :: int where "RELEASE_SPACING = 10000"
definition MAX_PENDING_JOBS :: nat where "MAX_PENDING_JOBS = 150"
definition MIN_OWNED_PRIORITY :: int where
  "MIN_OWNED_PRIORITY = RELEASE_BASE - (int MAX_PENDING_JOBS - 1) * RELEASE_SPACING"

lemmas band_defs = RELEASE_BASE_def RELEASE_SPACING_def MAX_PENDING_JOBS_def MIN_OWNED_PRIORITY_def

section \<open>Eligible jobs\<close>

definition job_from_item :: "real \<Rightarrow> real \<Rightarrow> jobj \<Rightarrow> slurm_job option" where
  "job_from_item default_runtime now item =
     (case slurm_job_of default_runtime 0 now item of
        None \<Rightarrow> None
      | Some job \<Rightarrow> if parse_tres_int (tres_text item) [''mps''] 0 \<le> 0 then None else Some job)"

definition item_reason :: "jobj \<Rightarrow> string" where
  "item_reason item =
     str_or_empty (j_or (j_get item ''state_reason'' JNull) (j_get item ''reason'' JNull))"

definition rankable_item :: "string list \<Rightarrow> jobj \<Rightarrow> bool" where
  "rankable_item gpu_partitions item \<longleftrightarrow>
     ''PENDING'' \<in> set (state_tokens (j_get item ''job_state'' JNull)) \<and>
     \<not> (is_held_reason (item_reason item) \<or> number (j_get item ''priority'' JNull) 1 = 0) \<and>
     str_or_empty (j_get item ''partition'' JNull) \<in> set gpu_partitions"

definition eligible_item ::
  "rl_env \<Rightarrow> string list \<Rightarrow> real \<Rightarrow> string \<Rightarrow> jobj \<Rightarrow> (rl_state, slurm_job option) op" where
  "eligible_item env gpu_partitions default_runtime prefix item =
     (if \<not> rankable_item gpu_partitions item then op_return None
      else op_bind (rl_clock (re_time env)) (\<lambda>now.
        op_return (case job_from_item default_runtime now item of
                     None \<Rightarrow> None
                   | Some job \<Rightarrow> if sl_gpu_count job \<noteq> 1 \<or> \<not> startswith (sl_name job) prefix then None
                                 else Some job)))"

fun op_collect :: "('a \<Rightarrow> ('s, 'b option) op) \<Rightarrow> 'a list \<Rightarrow> ('s, 'b list) op" where
  "op_collect f [] = op_return []"
| "op_collect f (x # xs) =
     op_bind (f x) (\<lambda>y. op_bind (op_collect f xs) (\<lambda>ys.
       op_return (case y of None \<Rightarrow> ys | Some z \<Rightarrow> z # ys)))"

definition parse_eligible_jobs ::
  "rl_env \<Rightarrow> string list \<Rightarrow> real \<Rightarrow> string \<Rightarrow> jobj \<Rightarrow> (rl_state, slurm_job list) op" where
  "parse_eligible_jobs env gpu_partitions default_runtime prefix jobs_doc =
     op_bind (op_lift (doc_items jobs_doc ''jobs'')) (\<lambda>js.
     op_bind (op_collect (eligible_item env gpu_partitions default_runtime prefix) js) (\<lambda>eligible.
       op_return (sort_key sl_submit_ts eligible)))"

definition pending_job_priorities :: "jobj \<Rightarrow> py_error + (string, int) dict" where
  "pending_job_priorities jobs_doc =
     res_bind (doc_items jobs_doc ''jobs'') (\<lambda>js.
       Inr (dict_of (map (\<lambda>item. (py_str (j_get item ''job_id'' JNull),
                                   py_trunc (number (j_get item ''priority'' JNull) (-1))))
         (filter (\<lambda>item. j_get item ''job_id'' JNull \<noteq> JNull \<and>
            ''PENDING'' \<in> set (state_tokens (j_get item ''job_state'' JNull))) js))))"

section \<open>Ranking\<close>

datatype pending_item = ParsedJob slurm_job | JobTuple string int real
datatype node_item = ParsedNode slurm_node | NodeName string

fun coerce_job :: "pending_item \<Rightarrow> slurm_job" where
  "coerce_job (ParsedJob j) = j"
| "coerce_job (JobTuple jid mps submit) =
     \<lparr>sl_job_id = jid, sl_name = [], sl_reason = [], sl_mps_req = mps, sl_gpu_count = 1,
      sl_gpu_type = ''rtx4070'', sl_runtime = 0, sl_submit_ts = submit, sl_priority = 0,
      sl_partition = [], sl_required_nodes = [], sl_ram_req = 0, sl_slo_s = 0,
      sl_job_class = ''batch'', sl_required_gpu_type = []\<rparr>"

fun coerce_node :: "(string, int) dict \<Rightarrow> node_item \<Rightarrow> slurm_node" where
  "coerce_node free (ParsedNode n) = n\<lparr>sn_free_mps := dict_get free (sn_name n) (sn_free_mps n)\<rparr>"
| "coerce_node free (NodeName name) =
     \<lparr>sn_name = name, sn_free_mps = dict_get free name 0, sn_running_jobs = 0,
      sn_gpu_type = (if str_contains ''3080'' name then ''rtx3080'' else ''rtx4070''), sn_available = True\<rparr>"

text \<open>One round. \<open>accepted_pick\<close> is the policy's answer when it names a remaining job and an eligible
  node with room, \<open>is_noop\<close> its explicit no-op, \<open>fallback_pick\<close> the first fit in submit order (an
  empty job id counts as no pick for the outer loop, as in the code).\<close>

definition eligible_nodes :: "act_req \<Rightarrow> string \<Rightarrow> int list" where
  "eligible_nodes req jid =
     dict_get (dict_of (map (\<lambda>j. (rj_job_id j, case rj_eligible j of None \<Rightarrow> [] | Some xs \<Rightarrow> xs))
       (aq_pending_jobs req))) jid []"

definition accepted_pick ::
  "act_req \<Rightarrow> slurm_node list \<Rightarrow> (string, slurm_job) dict \<Rightarrow> jobj \<Rightarrow> (string \<times> string) option" where
  "accepted_pick req fnodes remaining act =
     (let selected = str_or_empty (j_get act ''selected_job_id'' JNull);
          node_j = j_get act ''node_j'' JNull
      in case map_of remaining selected of
           None \<Rightarrow> None
         | Some job \<Rightarrow>
             if node_j = JNull then None
             else (case py_int node_j of
                Inl _ \<Rightarrow> None
              | Inr nj \<Rightarrow>
                  if 0 \<le> nj \<and> nj < int (length fnodes) \<and> nj \<in> set (eligible_nodes req selected)
                  then (let cand = fnodes ! nat nj in
                        if sn_available cand \<and> sl_mps_req job \<le> sn_free_mps cand
                        then Some (selected, sn_name cand) else None)
                  else None))"

definition is_noop :: "nat \<Rightarrow> jobj \<Rightarrow> bool" where
  "is_noop k act \<longleftrightarrow>
     str_or_empty (j_get act ''selected_job_id'' JNull) = [] \<and>
     py_int (j_get act ''action'' (JInt (-1))) = Inr (int (TOP_K * k))"

definition first_fit_node ::
  "act_req \<Rightarrow> slurm_node list \<Rightarrow> (string, int) dict \<Rightarrow> slurm_job \<Rightarrow> slurm_node option" where
  "first_fit_node req fnodes localfree job =
     map_option (\<lambda>i. fnodes ! i)
       (List.find (\<lambda>i. sn_available (fnodes ! i) \<and> int i \<in> set (eligible_nodes req (sl_job_id job)) \<and>
          sl_mps_req job \<le> dict_get localfree (sn_name (fnodes ! i)) 0) [0..<length fnodes])"

fun fallback_pick ::
  "(slurm_job \<Rightarrow> slurm_node option) \<Rightarrow> slurm_job list \<Rightarrow> (string \<times> string) option \<Rightarrow> (string \<times> string) option" where
  "fallback_pick fit [] p = p"
| "fallback_pick fit (j # js) p =
     (let p' = (case fit j of None \<Rightarrow> p | Some n \<Rightarrow> Some (sl_job_id j, sn_name n))
      in case p' of
           Some (jid, node) \<Rightarrow> if jid \<noteq> [] then p' else fallback_pick fit js p'
         | None \<Rightarrow> fallback_pick fit js p')"

datatype rank_move = RankStop | RankPick string string

definition by_submit :: "(string, slurm_job) dict \<Rightarrow> slurm_job list" where
  "by_submit remaining = sort_key sl_submit_ts (dict_values remaining)"

definition check_deadline :: "rl_env \<Rightarrow> real option \<Rightarrow> (rl_state, unit) op" where
  "check_deadline env deadline =
     (case deadline of
        None \<Rightarrow> op_return ()
      | Some d \<Rightarrow> op_bind (rl_clock (re_mono env)) (\<lambda>t. if d \<le> t then op_raise TimeoutError else op_return ()))"

definition rank_round ::
  "rl_env \<Rightarrow> (act_req \<Rightarrow> (rl_state, jobj) op) \<Rightarrow> bool \<Rightarrow> real option \<Rightarrow> int \<Rightarrow> node_item list \<Rightarrow>
   (string, slurm_job) dict \<Rightarrow> (string, int) dict \<Rightarrow> (rl_state, rank_move) op" where
  "rank_round env post strict deadline mps_cap ns remaining localfree =
     op_then (check_deadline env deadline)
     (op_bind (rl_clock (re_time env)) (\<lambda>now.
       (let fnodes = map (coerce_node localfree) ns;
            req = build_act_payload mps_cap now (take TOP_K (by_submit remaining)) fnodes
        in op_bind (if strict then post req else op_catch (post req) (\<lambda>_. op_return [])) (\<lambda>act.
             case accepted_pick req fnodes remaining act of
               Some (jid, node) \<Rightarrow> op_return (RankPick jid node)
             | None \<Rightarrow>
                 if strict then (if is_noop (length fnodes) act then op_return RankStop else op_raise RuntimeError)
                 else (case fallback_pick (first_fit_node req fnodes localfree) (by_submit remaining) None of
                         None \<Rightarrow> op_return RankStop
                       | Some (jid, node) \<Rightarrow> op_return (RankPick jid node))))))"

lemma length_dict_pop: "map_of d k = Some v \<Longrightarrow> length (dict_pop k d) < length d"
  by (induction d) (auto split: if_splits intro: le_imp_less_Suc [OF length_delete_le])

function rank_loop ::
  "rl_env \<Rightarrow> (act_req \<Rightarrow> (rl_state, jobj) op) \<Rightarrow> bool \<Rightarrow> real option \<Rightarrow> int \<Rightarrow> node_item list \<Rightarrow>
   (string, slurm_job) dict \<Rightarrow> (string, int) dict \<Rightarrow> string list \<Rightarrow> (rl_state, string list) op" where
  "rank_loop env post strict deadline mps_cap ns remaining localfree order s =
     (if remaining = [] then (Inr order, s)
      else case rank_round env post strict deadline mps_cap ns remaining localfree s of
          (Inl e, s') \<Rightarrow> (Inl e, s')
        | (Inr RankStop, s') \<Rightarrow> (Inr (order @ map sl_job_id (by_submit remaining)), s')
        | (Inr (RankPick jid node), s') \<Rightarrow>
            (case map_of localfree node of
               None \<Rightarrow> (Inl KeyError, s')
             | Some f \<Rightarrow>
                 (case map_of remaining jid of
                    None \<Rightarrow> (Inl KeyError, s')
                  | Some job \<Rightarrow>
                      rank_loop env post strict deadline mps_cap ns (dict_pop jid remaining)
                        (dict_set node (f - sl_mps_req job) localfree) (order @ [jid]) s')))"
  by pat_completeness auto
termination
  by (relation "measure (\<lambda>(env, post, strict, deadline, mps_cap, ns, remaining, rest). length remaining)")
    (auto intro: length_dict_pop)

declare rank_loop.simps [simp del]

definition rank_pending ::
  "rl_env \<Rightarrow> (act_req \<Rightarrow> (rl_state, jobj) op) \<Rightarrow> bool \<Rightarrow> real option \<Rightarrow> int \<Rightarrow> node_item list \<Rightarrow>
   pending_item list \<Rightarrow> (string, int) dict \<Rightarrow> (rl_state, string list) op" where
  "rank_pending env post strict deadline mps_cap ns pending free =
     rank_loop env post strict deadline mps_cap ns
       (dict_of (map (\<lambda>p. (sl_job_id (coerce_job p), coerce_job p)) pending)) free []"

definition slot_priorities :: "string list \<Rightarrow> (string, int) dict" where
  "slot_priorities order =
     dict_of (map (\<lambda>(i, jid). (jid, RELEASE_BASE - int i * RELEASE_SPACING)) (zip [0..<length order] order))"

definition reorder_step ::
  "rl_env \<Rightarrow> (rl_state, pending_item list \<times> (string, int) dict) op \<Rightarrow>
   ((string, int) dict \<Rightarrow> (rl_state, unit) op) \<Rightarrow> int \<Rightarrow> node_item list \<Rightarrow>
   (act_req \<Rightarrow> (rl_state, jobj) op) \<Rightarrow> (rl_state, string list) op" where
  "reorder_step env get_state set_priorities mps_cap ns post =
     op_bind get_state (\<lambda>(pending, free).
       if pending = [] then op_return []
       else op_bind (rank_pending env post False None mps_cap ns pending free) (\<lambda>order.
         op_then (set_priorities (slot_priorities order)) (op_return order)))"

text \<open>The evaluation's loop: a failed step is reported and does not end it. It returns when \<open>is_done\<close>
  says so, and only then.\<close>

partial_function (option) reorder_loop ::
  "(rl_state \<Rightarrow> bool) \<Rightarrow> (rl_state, string list) op \<Rightarrow> nat \<Rightarrow> rl_state \<Rightarrow> (nat \<times> rl_state) option" where
  "reorder_loop is_done one_step cycles s =
     (if is_done s then Some (cycles, s)
      else reorder_loop is_done one_step (Suc cycles) (snd (one_step s)))"

end
