(* ===== verification/RlCycle.thy ===== *)
theory RlCycle
  imports RlReorder
begin

text \<open>
  One cycle of the reorder daemon against slurmrestd (\<^verbatim>\<open>services/rl_scheduler/reorder_daemon.py\<close>): the
  state it reads, the priorities it writes and verifies, the roll-back and the reset of its
  priority band, and an iteration of its main loop. Parsing the command line, signals and the
  wait between iterations are not modelled; request timeouts are part of the world's answers.
\<close>

section \<open>Reading\<close>

definition node_as_read :: "slurm_node list \<Rightarrow> string \<Rightarrow> slurm_node" where
  "node_as_read discovered name =
     (case map_of (dict_of (map (\<lambda>n. (sn_name n, n)) discovered)) name of
        None \<Rightarrow> \<lparr>sn_name = name, sn_free_mps = 0, sn_running_jobs = 0,
                 sn_gpu_type = (if str_contains ''3080'' name then ''rtx3080'' else ''rtx4070''),
                 sn_available = False\<rparr>
      | Some n \<Rightarrow> if sn_available n then n else n\<lparr>sn_free_mps := 0\<rparr>)"

record cycle_cfg =
  rc_node_names :: "string list"
  rc_gpu_partitions :: "string list"
  rc_mps_per_gpu :: int
  rc_max_jobs :: int
  rc_deadline_seconds :: real
  rc_default_runtime :: real
  rc_job_name_prefix :: string
  rc_shadow :: bool

definition read_state :: "rl_env \<Rightarrow> cycle_cfg \<Rightarrow> (rl_state, slurm_job list \<times> slurm_node list) op" where
  "read_state env cfg =
     op_bind (rl_ask (re_jobs env)) (\<lambda>jobs_doc.
     op_bind (rl_ask (re_nodes env)) (\<lambda>nodes_doc.
     op_bind (parse_eligible_jobs env (rc_gpu_partitions cfg) (rc_default_runtime cfg)
                (rc_job_name_prefix cfg) jobs_doc) (\<lambda>jobs.
     op_bind (op_lift (parse_nodes (rc_mps_per_gpu cfg) nodes_doc)) (\<lambda>discovered.
       op_return (jobs, map (node_as_read discovered) (rc_node_names cfg))))))"

definition job_signature ::
  "slurm_job \<Rightarrow> string \<times> int \<times> int \<times> string \<times> string \<times> real \<times> int" where
  "job_signature j =
     (sl_job_id j, sl_mps_req j, sl_gpu_count j, sl_partition j, sl_required_nodes j, sl_submit_ts j,
      sl_priority j)"

definition node_signature :: "slurm_node \<Rightarrow> string \<times> string \<times> int \<times> bool" where
  "node_signature n = (sn_name n, sn_gpu_type n, sn_free_mps n, sn_available n)"

definition state_signature :: "slurm_job list \<times> slurm_node list \<Rightarrow>
    (string \<times> int \<times> int \<times> string \<times> string \<times> real \<times> int) list \<times> (string \<times> string \<times> int \<times> bool) list" where
  "state_signature st = (map job_signature (fst st), map node_signature (snd st))"

section \<open>Writing and undoing\<close>

definition set_priority :: "rl_env \<Rightarrow> string \<Rightarrow> int \<Rightarrow> (rl_state, unit) op" where
  "set_priority env jid priority =
     op_bind (rl_update env (SetPriority jid priority)) (\<lambda>result.
       if truthy (j_get result ''errors'' JNull) then op_raise RuntimeError else op_return ())"

definition ask_priorities :: "rl_env \<Rightarrow> (rl_state, (string, int) dict) op" where
  "ask_priorities env =
     op_bind (rl_ask (re_jobs env)) (\<lambda>doc. op_lift (pending_job_priorities doc))"

definition owned_priority :: "int \<Rightarrow> bool" where
  "owned_priority p \<longleftrightarrow> MIN_OWNED_PRIORITY \<le> p \<and> p \<le> RELEASE_BASE"

definition not_reset :: "int \<Rightarrow> bool" where
  "not_reset p \<longleftrightarrow> p \<le> 0 \<or> p = RELEASE_PRIORITY \<or> owned_priority p"

definition still :: "(int \<Rightarrow> bool) \<Rightarrow> (string, int) dict \<Rightarrow> string \<Rightarrow> bool" where
  "still bad pending jid \<longleftrightarrow> (case map_of pending jid of None \<Rightarrow> False | Some p \<Rightarrow> bad p)"

definition reset_owned_priorities :: "rl_env \<Rightarrow> (rl_state, string list) op" where
  "reset_owned_priorities env =
     op_bind (ask_priorities env) (\<lambda>ps.
       (let owned = map fst (filter (\<lambda>(jid, p). owned_priority p) ps) in
        op_then (op_for owned (\<lambda>jid. set_priority env jid RELEASE_PRIORITY))
        (op_then (op_when (owned \<noteq> [])
           (op_bind (ask_priorities env) (\<lambda>pending.
              if list_ex (still not_reset pending) owned then op_raise RuntimeError else op_return ())))
         (op_return owned))))"

definition restore_one :: "rl_env \<Rightarrow> (string, int) dict \<Rightarrow> string \<times> int \<Rightarrow> (rl_state, unit) op" where
  "restore_one env pending jp =
     op_when (still (\<lambda>p. p \<noteq> snd jp) pending (fst jp)) (set_priority env (fst jp) (snd jp))"

definition restore_cycle_priorities :: "rl_env \<Rightarrow> (string, int) dict \<Rightarrow> (rl_state, unit) op" where
  "restore_cycle_priorities env original =
     (if original = [] then op_return ()
      else
        op_bind (ask_priorities env) (\<lambda>pending.
        op_then (op_for original (restore_one env pending))
        (op_bind (ask_priorities env) (\<lambda>verified.
           if list_ex (\<lambda>jp. still (\<lambda>p. p \<noteq> snd jp) verified (fst jp)) original
           then op_raise RuntimeError else op_return ()))))"

section \<open>The cycle\<close>

definition json_is_int :: "json \<Rightarrow> int \<Rightarrow> bool" where
  \<comment> \<open>Python's \<^verbatim>\<open>==\<close> with an int\<close>
  "json_is_int v n \<longleftrightarrow>
     (case v of JInt i \<Rightarrow> i = n | JFloat _ x \<Rightarrow> x = of_int n | JBool b \<Rightarrow> (if b then 1 else 0) = n | _ \<Rightarrow> False)"

definition topology_matches :: "nat \<Rightarrow> jobj \<Rightarrow> bool" where
  "topology_matches k health \<longleftrightarrow>
     (case env_dims k 1 TOP_K False of (obs_dim, n_actions) \<Rightarrow>
        json_is_int (j_get health ''obs_dim'' JNull) (int obs_dim) \<and>
        json_is_int (j_get health ''n_actions'' JNull) (int n_actions))"

definition post_act :: "rl_env \<Rightarrow> act_req \<Rightarrow> (rl_state, jobj) op" where
  "post_act env req = rl_ask (\<lambda>i. re_act env i req)"

definition post_before :: "rl_env \<Rightarrow> act_req \<Rightarrow> (rl_state, jobj) op" where
  \<comment> \<open>the cycle's post reads the clock for the request's timeout\<close>
  "post_before env req = op_bind (rl_clock (re_mono env)) (\<lambda>_. post_act env req)"

definition write_one ::
  "rl_env \<Rightarrow> real \<Rightarrow> (string, int) dict \<Rightarrow> string \<times> int \<Rightarrow> (rl_state, unit) op" where
  "write_one env deadline current jp =
     op_bind (rl_clock (re_mono env)) (\<lambda>t.
       if deadline - t \<le> 0 then op_raise TimeoutError
       else if map_of current (fst jp) = Some (snd jp) then op_return ()
       else set_priority env (fst jp) (snd jp))"

definition write_priorities ::
  "rl_env \<Rightarrow> real \<Rightarrow> (string, int) dict \<Rightarrow> (string, int) dict \<Rightarrow> (rl_state, unit) op" where
  "write_priorities env deadline current priorities =
     op_then (op_for priorities (write_one env deadline current))
     (op_bind (rl_clock (re_mono env)) (\<lambda>_.
      op_bind (ask_priorities env) (\<lambda>verified.
        if list_ex (\<lambda>jp. still (\<lambda>p. p \<noteq> snd jp) verified (fst jp)) priorities
        then op_raise RuntimeError else op_return ())))"

definition undo_writes :: "rl_env \<Rightarrow> (string, int) dict \<Rightarrow> (rl_state, unit) op" where
  "undo_writes env current =
     op_then (op_ignore (restore_cycle_priorities env current))
       (op_ignore (op_bind (reset_owned_priorities env) (\<lambda>_. op_return ())))"

definition apply_order ::
  "rl_env \<Rightarrow> cycle_cfg \<Rightarrow> real \<Rightarrow> slurm_job list \<Rightarrow> string list \<Rightarrow> (rl_state, string list) op" where
  "apply_order env cfg deadline current_jobs order =
     (let priorities = slot_priorities order;
          current = dict_of (map (\<lambda>j. (sl_job_id j, sl_priority j)) current_jobs)
      in if rc_shadow cfg then op_return order
         else
           op_then (op_catch (write_priorities env deadline current priorities)
                      (\<lambda>e. op_then (undo_writes env current) (op_raise e)))
             (op_return order))"

definition free_of :: "slurm_node list \<Rightarrow> (string, int) dict" where
  "free_of ns = dict_of (map (\<lambda>n. (sn_name n, sn_free_mps n)) ns)"

definition rank_and_apply ::
  "rl_env \<Rightarrow> cycle_cfg \<Rightarrow> real \<Rightarrow> slurm_job list \<times> slurm_node list \<Rightarrow> (rl_state, string list) op" where
  "rank_and_apply env cfg deadline st =
     op_bind (rl_ask (re_health env)) (\<lambda>health.
       if \<not> topology_matches (length (rc_node_names cfg)) health then op_raise RuntimeError
       else
         op_bind (rank_pending env (post_before env) True (Some deadline) (rc_mps_per_gpu cfg)
                    (map ParsedNode (snd st)) (map ParsedJob (fst st)) (free_of (snd st))) (\<lambda>order.
         op_then (check_deadline env (Some deadline))
         (op_bind (read_state env cfg) (\<lambda>now_st.
            if state_signature st \<noteq> state_signature now_st then op_raise RuntimeError
            else apply_order env cfg deadline (fst now_st) order))))"

definition reorder_cycle :: "rl_env \<Rightarrow> cycle_cfg \<Rightarrow> (rl_state, string list) op" where
  "reorder_cycle env cfg =
     (if \<not> (1 \<le> rc_max_jobs cfg \<and> rc_max_jobs cfg \<le> int MAX_PENDING_JOBS) then op_raise ValueError
      else
        op_bind (rl_clock (re_mono env)) (\<lambda>t.
        op_bind (read_state env cfg) (\<lambda>st.
          if fst st = [] then op_return []
          else if rc_max_jobs cfg < int (length (fst st)) then op_raise RuntimeError
          else rank_and_apply env cfg (t + rc_deadline_seconds cfg) st)))"

text \<open>One iteration of the daemon: a cycle that fails is logged, and outside shadow mode the band is
  reset once more.\<close>

definition daemon_iteration :: "rl_env \<Rightarrow> cycle_cfg \<Rightarrow> (rl_state, unit) op" where
  "daemon_iteration env cfg =
     op_catch (op_bind (reorder_cycle env cfg) (\<lambda>_. op_return ()))
       (\<lambda>_. op_when (\<not> rc_shadow cfg) (op_ignore (op_bind (reset_owned_priorities env) (\<lambda>_. op_return ()))))"

text \<open>The daemon: a first reset of the band, iterations until it is stopped, and a last reset whatever
  happened. \<open>k\<close> is the number of iterations before the stop.\<close>

fun daemon_loop :: "nat \<Rightarrow> rl_env \<Rightarrow> cycle_cfg \<Rightarrow> (rl_state, unit) op" where
  "daemon_loop 0 env cfg = op_return ()"
| "daemon_loop (Suc k) env cfg = op_then (daemon_iteration env cfg) (daemon_loop k env cfg)"

definition daemon_run :: "nat \<Rightarrow> rl_env \<Rightarrow> cycle_cfg \<Rightarrow> (rl_state, unit) op" where
  "daemon_run k env cfg s =
     (case op_then (op_when (\<not> rc_shadow cfg) (op_bind (reset_owned_priorities env) (\<lambda>_. op_return ())))
             (daemon_loop k env cfg) s of
        (r, s1) \<Rightarrow>
          (r, snd (op_when (\<not> rc_shadow cfg)
                 (op_ignore (op_bind (reset_owned_priorities env) (\<lambda>_. op_return ()))) s1)))"

end
