(* ===== verification/RlServe.thy ===== *)
theory RlServe
  imports RlSchema SimGym
begin

text \<open>
  The policy server (\<^verbatim>\<open>services/rl_scheduler/serve.py\<close>): the observation and the action mask it builds
  from a request, the greedy choice of an action, the endpoints that act, decide, take a snapshot,
  reload the model and toggle the shadow mode, and the token check. The network is a parameter:
  an \<open>agent\<close> is its dimensions and what it computes of an observation and a mask. The gauges and
  the tracing header are not modelled, and the reason of an abstention is a datatype.
\<close>

section \<open>Features\<close>

definition rl_one_hot :: "string \<Rightarrow> real list" where
  "rl_one_hot t = map (\<lambda>g. if t = g then 1 else 0) GPU_TYPES"

definition serve_job_feat :: "rl_job \<Rightarrow> real \<Rightarrow> int \<Rightarrow> py_error + real list" where
  "serve_job_feat j now cap =
     (let wait = max 0 (now - rj_submit_ts j) in
      if cap = 0 then Inl ZeroDivisionError
      else if rj_runtime j \<le> -1 then Inl ValueError
      else Inr ([of_int (rj_mps_req j) / of_int cap, of_int (rj_gpu_count j)] @ rl_one_hot (rj_gpu_type j) @
        [log1p (rj_runtime j), log1p wait, rj_ram_req j / 4,
         (if rj_slo_s j > 0 then wait / rj_slo_s j else 0),
         (if rj_job_class j = ''inference'' then 1 else 0)]))"

definition serve_gpu_feat :: "rl_gpu \<Rightarrow> int \<Rightarrow> real list" where
  "serve_gpu_feat g cap =
     (let free_ratio = (if cap > 0 then of_int (rg_free_mps g) / of_int cap else 0)
      in [free_ratio, free_ratio, of_int (rg_running_jobs g), rg_free_ram_ratio g] @
         rl_one_hot (rg_gpu_type g) @ [if rg_gpu_type g \<in> set GPU_TYPES then 0 else 1])"

definition serve_topo_feat :: "rl_job list \<Rightarrow> rl_node list \<Rightarrow> real list" where
  "serve_topo_feat pending ns =
     (let node_ram = (case map (\<lambda>nd. rg_free_ram_ratio (hd nd)) (filter (\<lambda>nd. nd \<noteq> []) ns) of
                        [] \<Rightarrow> [1] | rs \<Rightarrow> rs);
          min_free_ram = foldl min (hd node_ram) (tl node_ram);
          n = max 1 (real (length pending));
          heavy = length (filter (\<lambda>j. 2 \<le> rj_ram_req j) pending);
          ddp = length (filter (\<lambda>j. 1 < rj_gpu_count j) pending)
      in [min_free_ram, real heavy / n, real ddp / n, 0])"

definition runtime_spread :: "real list \<Rightarrow> real" where
  "runtime_spread runtimes =
     (if 2 \<le> length runtimes then
        (let rts = sort runtimes; n = length rts;
             p50 = rts ! (n div 2); p90 = rts ! min (9 * n div 10) (n - 1)
         in if p50 > 0 then p90 / p50 else 1)
      else 1)"

definition serve_global_feat :: "rl_job list \<Rightarrow> rl_node list \<Rightarrow> real \<Rightarrow> real list" where
  "serve_global_feat pending ns now =
     (let free_per_node = (if ns = [] then [0] else map (\<lambda>nd. sum_list (map rg_free_mps nd)) ns);
          frag = (if 1 < length free_per_node then floored_cv (map of_int free_per_node) else 0);
          tod = py_fmod now 86400 / 86400
      in [log1p (real (length pending)), runtime_spread (map rj_runtime pending), frag,
          sin (2 * pi * tod), cos (2 * pi * tod), 0])"

section \<open>Observation and mask\<close>

definition top_pending :: "act_req \<Rightarrow> rl_job list" where
  "top_pending req = take TOP_K (sort_key rj_submit_ts (aq_pending_jobs req))"

definition req_placements :: "act_req \<Rightarrow> int" where
  "req_placements req = aq_n_nodes req * aq_gpus_per_node req"

definition req_no_op :: "act_req \<Rightarrow> nat" where
  "req_no_op req = TOP_K * nat (req_placements req)"

definition node_permitted :: "rl_job \<Rightarrow> nat \<Rightarrow> bool" where
  "node_permitted j nj \<longleftrightarrow> (case rj_eligible j of None \<Rightarrow> True | Some xs \<Rightarrow> int nj \<in> set xs)"

definition req_legal :: "act_req \<Rightarrow> nat list" where
  "req_legal req =
     (let tk = top_pending req; np = nat (req_placements req); ng = nat (aq_gpus_per_node req) in
      concat (map (\<lambda>i.
        if \<not> rj_can_fit (tk ! i) then []
        else concat (map (\<lambda>nj.
          if \<not> node_permitted (tk ! i) nj then []
          else if length (aq_nodes req) \<le> nj then []
          else concat (map (\<lambda>gk.
            if length (aq_nodes req ! nj) \<le> gk then []
            else if rj_mps_req (tk ! i) \<le> rg_free_mps (aq_nodes req ! nj ! gk)
                 then [i * np + nj * ng + gk] else [])
            [0..<ng])) [0..<nat (aq_n_nodes req)])) [0..<length tk]))"

definition req_mask :: "act_req \<Rightarrow> bool list" where
  "req_mask req =
     (set_bits (req_legal req) (replicate (req_no_op req + 1) False))[req_no_op req := True]"

definition req_top_ids :: "act_req \<Rightarrow> string option list" where
  "req_top_ids req =
     (let tk = top_pending req in map (\<lambda>i. if i < length tk then Some (rj_job_id (tk ! i)) else None) [0..<TOP_K])"

definition req_gpu_feats :: "act_req \<Rightarrow> real list" where
  "req_gpu_feats req =
     concat (map (\<lambda>ni. concat (map (\<lambda>gi.
       if ni < length (aq_nodes req) \<and> gi < length (aq_nodes req ! ni)
       then serve_gpu_feat (aq_nodes req ! ni ! gi) (aq_mps_per_gpu req)
       else replicate GPU_FEAT_DIM 0) [0..<nat (aq_gpus_per_node req)])) [0..<nat (aq_n_nodes req)])"

definition build_obs_and_mask :: "act_req \<Rightarrow> py_error + real list \<times> bool list \<times> string option list" where
  "build_obs_and_mask req =
     (let tk = top_pending req in
      res_bind (res_map (\<lambda>j. serve_job_feat j (aq_now req) (aq_mps_per_gpu req)) tk) (\<lambda>feats.
        if req_placements req < 0 then Inl ValueError
        else Inr (concat feats @ concat (replicate (TOP_K - length tk) (replicate JOB_FEAT_DIM 0)) @
               req_gpu_feats req @ serve_topo_feat tk (aq_nodes req) @
               serve_global_feat (aq_pending_jobs req) (aq_nodes req) (aq_now req),
             req_mask req, req_top_ids req)))"

section \<open>The agent's choice\<close>

record agent =
  ag_obs_dim :: nat
  ag_n_actions :: nat
  ag_has_actor :: bool
  ag_policy :: "real list \<Rightarrow> bool list \<Rightarrow> real list \<times> real list"  \<comment> \<open>probabilities and their logarithms\<close>
  ag_values :: "real list \<Rightarrow> real list"

text \<open>\<^verbatim>\<open>np.argmax\<close> restricted to some positions: the first of the largest.\<close>

fun argmax_on :: "(nat \<Rightarrow> real) \<Rightarrow> nat list \<Rightarrow> nat \<Rightarrow> nat" where
  "argmax_on f [] best = best"
| "argmax_on f (i # is) best = argmax_on f is (if f best < f i then i else best)"

definition dot :: "real list \<Rightarrow> real list \<Rightarrow> real" where
  "dot xs ys = sum_list (map (\<lambda>(x, y). x * y) (zip xs ys))"

definition masked_probs :: "real list \<Rightarrow> bool list \<Rightarrow> real list" where
  "masked_probs ps mk = map (\<lambda>(p, m). if m then p else 0) (zip ps mk)"

definition select :: "agent \<Rightarrow> real list \<Rightarrow> bool list \<Rightarrow> py_error + nat \<times> real \<times> real" where
  "select ag obs mk =
     (let q = ag_values ag obs; legal = flatnonzero mk in
      if \<not> ag_has_actor ag then
        (case legal of
           [] \<Rightarrow> Inr (0, 0, 0)
         | i # is \<Rightarrow> (let a = argmax_on (\<lambda>k. q ! k) is i in Inr (a, q ! a, 0)))
      else
        (let (probs, log_probs) = ag_policy ag obs mk;
             pm = masked_probs probs mk;
             entropy = - dot probs log_probs;
             val = dot probs q
         in if sum_list pm < 1 / 10 ^ 9 then
              (case legal of [] \<Rightarrow> Inl IndexError | i # _ \<Rightarrow> Inr (i, val, entropy))
            else Inr (argmax_on (\<lambda>k. pm ! k) [1..<length pm] 0, val, entropy)))"

section \<open>The act endpoint\<close>

datatype http_error = HttpError nat | Failed py_error

definition act_endpoint :: "agent option \<Rightarrow> act_req \<Rightarrow> http_error + act_resp" where
  "act_endpoint holder req =
     (case holder of
        None \<Rightarrow> Inl (HttpError 503)
      | Some ag \<Rightarrow>
          (case build_obs_and_mask req of
             Inl e \<Rightarrow> Inl (Failed e)
           | Inr (obs, mk, top_ids) \<Rightarrow>
               if length obs \<noteq> ag_obs_dim ag \<or> length mk \<noteq> ag_n_actions ag then Inl (HttpError 409)
               else (case select ag obs mk of
                  Inl e \<Rightarrow> Inl (Failed e)
                | Inr (a, v, h) \<Rightarrow>
                    if a = req_no_op req
                    then Inr \<lparr>as_action = a, as_job_i = None, as_node_j = None, as_gpu_k = None,
                              as_selected_job_id = None, as_value = v, as_entropy = h\<rparr>
                    else
                      (let np = nat (req_placements req); ng = nat (aq_gpus_per_node req);
                           job_i = a div np; rem = a mod np
                       in Inr \<lparr>as_action = a, as_job_i = Some job_i, as_node_j = Some (rem div ng),
                            as_gpu_k = Some (rem mod ng),
                            as_selected_job_id = (if job_i < length top_ids then top_ids ! job_i else None),
                            as_value = v, as_entropy = h\<rparr>))))"

section \<open>The decide endpoint and the server's state\<close>

record rl_snapshot =
  sp_ts :: real
  sp_now :: real
  sp_pending_jobs :: "rl_job list"
  sp_nodes :: "rl_node list"
  sp_n_nodes :: int
  sp_gpus_per_node :: int
  sp_mps_per_gpu :: int

record decide_req =
  dq_job_id :: string
  dq_mps_req :: int
  dq_gpu_count :: int
  dq_gpu_type :: string
  dq_runtime :: real
  dq_submit_ts :: real

datatype abstain_reason =
    SnapshotStale "real option"
  | NoAvailableGpuNodes
  | ShapeMismatchObs nat nat
  | ShapeMismatchActions nat nat
  | LowValue real real
  | HighEntropy real real

record decide_resp =
  dr_priority_boost :: int
  dr_rl_selected :: bool
  dr_abstain :: bool
  dr_abstain_reason :: "abstain_reason option"
  dr_rl_selected_job_id :: "string option"
  dr_node_j :: "nat option"
  dr_gpu_k :: "nat option"
  dr_value :: real
  dr_entropy :: real
  dr_shadow :: bool

record serve_cfg =
  sc_snapshot_ttl :: real
  sc_value_abstain :: real
  sc_entropy_abstain :: real
  sc_priority_boost :: int

record serve_state =
  sv_holder :: "agent option"
  sv_snapshot :: "rl_snapshot option"
  sv_shadow :: bool

definition no_decision :: "bool \<Rightarrow> bool \<Rightarrow> abstain_reason option \<Rightarrow> real \<Rightarrow> real \<Rightarrow> decide_resp" where
  "no_decision shadow abstain reason v h =
     \<lparr>dr_priority_boost = 0, dr_rl_selected = False, dr_abstain = abstain, dr_abstain_reason = reason,
      dr_rl_selected_job_id = None, dr_node_j = None, dr_gpu_k = None, dr_value = v, dr_entropy = h,
      dr_shadow = shadow\<rparr>"

definition fuse_pending :: "rl_snapshot \<Rightarrow> decide_req \<Rightarrow> rl_job list" where
  "fuse_pending snap req =
     (if list_ex (\<lambda>j. rj_job_id j = dq_job_id req) (sp_pending_jobs snap) then sp_pending_jobs snap
      else sp_pending_jobs snap @
        [\<lparr>rj_job_id = dq_job_id req, rj_mps_req = dq_mps_req req, rj_gpu_count = dq_gpu_count req,
          rj_gpu_type = dq_gpu_type req, rj_runtime = dq_runtime req, rj_submit_ts = dq_submit_ts req,
          rj_can_fit = True, rj_ram_req = 0, rj_slo_s = 0, rj_job_class = ''batch'', rj_eligible = None\<rparr>])"

definition fused_request :: "rl_snapshot \<Rightarrow> decide_req \<Rightarrow> act_req" where
  "fused_request snap req =
     \<lparr>aq_now = max (sp_now snap) (dq_submit_ts req), aq_pending_jobs = fuse_pending snap req,
      aq_nodes = sp_nodes snap, aq_n_nodes = sp_n_nodes snap, aq_gpus_per_node = sp_gpus_per_node snap,
      aq_mps_per_gpu = sp_mps_per_gpu snap\<rparr>"

definition safety_net :: "serve_cfg \<Rightarrow> real \<Rightarrow> real \<Rightarrow> abstain_reason option" where
  "safety_net cfg v h =
     (if v < sc_value_abstain cfg then Some (LowValue v (sc_value_abstain cfg))
      else if sc_entropy_abstain cfg < h then Some (HighEntropy h (sc_entropy_abstain cfg))
      else None)"

definition decided ::
  "serve_cfg \<Rightarrow> bool \<Rightarrow> act_req \<Rightarrow> string option list \<Rightarrow> string \<Rightarrow> nat \<Rightarrow> real \<Rightarrow> real \<Rightarrow> decide_resp" where
  "decided cfg shadow areq top_ids jid a v h =
     (let np = nat (req_placements areq); ng = nat (aq_gpus_per_node areq);
          job_i = a div np; rem = a mod np;
          sel_id = (if job_i < length top_ids then top_ids ! job_i else None);
          reason = safety_net cfg v h; abstain = (reason \<noteq> None);
          picked_me = (sel_id = Some jid);
          boost = (if shadow \<or> abstain then 0 else if picked_me then sc_priority_boost cfg else 0)
      in \<lparr>dr_priority_boost = boost, dr_rl_selected = picked_me, dr_abstain = abstain,
          dr_abstain_reason = reason, dr_rl_selected_job_id = sel_id,
          dr_node_j = (if abstain then None else Some (rem div ng)),
          dr_gpu_k = (if abstain then None else Some (rem mod ng)),
          dr_value = v, dr_entropy = h, dr_shadow = shadow\<rparr>)"

definition decide_fresh ::
  "serve_cfg \<Rightarrow> serve_state \<Rightarrow> rl_snapshot \<Rightarrow> decide_req \<Rightarrow> py_error + decide_resp" where
  "decide_fresh cfg st snap req =
     (let areq = fused_request snap req; shadow = sv_shadow st in
      res_bind (build_obs_and_mask areq) (\<lambda>(obs, mk, top_ids).
        case sv_holder st of
          None \<Rightarrow> Inl AttributeError
        | Some ag \<Rightarrow>
            if length obs \<noteq> ag_obs_dim ag
            then Inr (no_decision shadow True (Some (ShapeMismatchObs (length obs) (ag_obs_dim ag))) 0 0)
            else if length mk \<noteq> ag_n_actions ag
            then Inr (no_decision shadow True (Some (ShapeMismatchActions (length mk) (ag_n_actions ag))) 0 0)
            else res_bind (select ag obs mk) (\<lambda>(a, v, h).
              if a = req_no_op areq then Inr (no_decision shadow False None v h)
              else Inr (decided cfg shadow areq top_ids (dq_job_id req) a v h))))"

definition decide_endpoint ::
  "serve_cfg \<Rightarrow> serve_state \<Rightarrow> real \<Rightarrow> decide_req \<Rightarrow> py_error + decide_resp" where
  "decide_endpoint cfg st now req =
     (case sv_snapshot st of
        None \<Rightarrow> Inr (no_decision (sv_shadow st) True (Some (SnapshotStale None)) 0 0)
      | Some snap \<Rightarrow>
          (let age = now - sp_ts snap in
           if sc_snapshot_ttl cfg < age
           then Inr (no_decision (sv_shadow st) True (Some (SnapshotStale (Some age))) 0 0)
           else if sp_n_nodes snap \<le> 0 \<or> sp_nodes snap = []
           then Inr (no_decision (sv_shadow st) True (Some NoAvailableGpuNodes) 0 0)
           else decide_fresh cfg st snap req))"

section \<open>Control endpoints\<close>

definition push_snapshot :: "rl_snapshot \<Rightarrow> serve_state \<Rightarrow> serve_state" where
  "push_snapshot snap st = st\<lparr>sv_snapshot := Some snap\<rparr>"

definition set_shadow :: "bool \<Rightarrow> serve_state \<Rightarrow> serve_state" where
  "set_shadow b st = st\<lparr>sv_shadow := b\<rparr>"

definition reload_checkpoint ::
  "(string \<Rightarrow> bool) \<Rightarrow> (string \<Rightarrow> py_error + agent) \<Rightarrow> string \<Rightarrow> serve_state \<Rightarrow> http_error + serve_state" where
  "reload_checkpoint file_exists load ckpt st =
     (if \<not> file_exists ckpt then Inl (HttpError 404)
      else (case load ckpt of
         Inl _ \<Rightarrow> Inl (HttpError 400)
       | Inr ag \<Rightarrow>
           if (case sv_holder st of
                 None \<Rightarrow> False
               | Some old \<Rightarrow> ag_obs_dim ag \<noteq> ag_obs_dim old \<or> ag_n_actions ag \<noteq> ag_n_actions old)
           then Inl (HttpError 400)
           else Inr (st\<lparr>sv_holder := Some ag\<rparr>)))"

definition healthz_json :: "serve_state \<Rightarrow> jobj" where
  \<comment> \<open>the fields the clients read\<close>
  "healthz_json st =
     [(''ready'', JBool (sv_holder st \<noteq> None)),
      (''obs_dim'', opt_json (\<lambda>ag. JInt (int (ag_obs_dim ag))) (sv_holder st)),
      (''n_actions'', opt_json (\<lambda>ag. JInt (int (ag_n_actions ag))) (sv_holder st)),
      (''shadow_mode'', JBool (sv_shadow st))]"

definition authorize :: "string option \<Rightarrow> string option \<Rightarrow> http_error + unit" where
  "authorize expected authorization =
     (case expected of
        None \<Rightarrow> Inr ()
      | Some token \<Rightarrow>
          (case str_partition (CHR '' '') (case authorization of None \<Rightarrow> [] | Some a \<Rightarrow> a) of
             (scheme, separator, supplied) \<Rightarrow>
               if \<not> separator \<or> str_lower scheme \<noteq> ''bearer'' \<or> token \<noteq> supplied then Inl (HttpError 401)
               else Inr ()))"

end
