(* ===== verification/RlServeFacts.thy ===== *)
theory RlServeFacts
  imports RlServe SimGymFacts
begin

text \<open>
  Facts about the policy server: what the mask allows, that the greedy choice stays inside it, what
  the act endpoint answers, and the shape of the observation. \<open>softmax_agent\<close> is what the network
  library promises of a policy head: one probability per action, none negative.
\<close>

section \<open>The mask\<close>

definition req_places :: "act_req \<Rightarrow> nat \<Rightarrow> nat \<Rightarrow> nat \<Rightarrow> bool" where
  "req_places req i nj gk \<longleftrightarrow>
     i < length (top_pending req) \<and> nj < nat (aq_n_nodes req) \<and> gk < nat (aq_gpus_per_node req) \<and>
     rj_can_fit (top_pending req ! i) \<and> node_permitted (top_pending req ! i) nj \<and>
     nj < length (aq_nodes req) \<and> gk < length (aq_nodes req ! nj) \<and>
     rj_mps_req (top_pending req ! i) \<le> rg_free_mps (aq_nodes req ! nj ! gk)"

definition req_action :: "act_req \<Rightarrow> nat \<Rightarrow> nat \<Rightarrow> nat \<Rightarrow> nat" where
  "req_action req i nj gk = i * nat (req_placements req) + nj * nat (aq_gpus_per_node req) + gk"

lemma mem_concat_map: "x \<in> set xs \<Longrightarrow> y \<in> set (f x) \<Longrightarrow> y \<in> set (concat (map f xs))"
  by auto

lemma mem_req_legal:
  "a \<in> set (req_legal req) \<longleftrightarrow> (\<exists>i nj gk. req_places req i nj gk \<and> a = req_action req i nj gk)"
proof
  assume "a \<in> set (req_legal req)"
  then show "\<exists>i nj gk. req_places req i nj gk \<and> a = req_action req i nj gk"
    by (fastforce simp: req_legal_def req_places_def req_action_def Let_def not_le split: if_splits)
next
  assume "\<exists>i nj gk. req_places req i nj gk \<and> a = req_action req i nj gk"
  then obtain i nj gk where p: "req_places req i nj gk" and a: "a = req_action req i nj gk"
    by blast
  from p have q: "i < length (top_pending req)" "nj < nat (aq_n_nodes req)" "gk < nat (aq_gpus_per_node req)"
    "rj_can_fit (top_pending req ! i)" "node_permitted (top_pending req ! i) nj" "nj < length (aq_nodes req)"
    "gk < length (aq_nodes req ! nj)" "rj_mps_req (top_pending req ! i) \<le> rg_free_mps (aq_nodes req ! nj ! gk)"
    by (simp_all add: req_places_def)
  let ?F = "\<lambda>nj gk. if length (aq_nodes req ! nj) \<le> gk then []
     else if rj_mps_req (top_pending req ! i) \<le> rg_free_mps (aq_nodes req ! nj ! gk)
          then [i * nat (req_placements req) + nj * nat (aq_gpus_per_node req) + gk] else []"
  let ?G = "\<lambda>nj. if \<not> node_permitted (top_pending req ! i) nj then []
     else if length (aq_nodes req) \<le> nj then [] else concat (map (?F nj) [0..<nat (aq_gpus_per_node req)])"
  have "a \<in> set (?F nj gk)"
    using q by (simp add: a req_action_def)
  then have "a \<in> set (concat (map (?F nj) [0..<nat (aq_gpus_per_node req)]))"
    by (rule mem_concat_map [rotated]) (use q in simp)
  then have "a \<in> set (?G nj)"
    using q(5,6) by simp
  then have "a \<in> set (concat (map ?G [0..<nat (aq_n_nodes req)]))"
    by (rule mem_concat_map [rotated]) (use q in simp)
  then have "a \<in> set (if \<not> rj_can_fit (top_pending req ! i) then []
      else concat (map ?G [0..<nat (aq_n_nodes req)]))"
    using q(4) by simp
  then show "a \<in> set (req_legal req)"
    unfolding req_legal_def Let_def by (rule mem_concat_map [rotated]) (use q in simp)
qed

lemma top_pending_le: "length (top_pending req) \<le> TOP_K"
  by (simp add: top_pending_def)

lemma radix_div: "r < b \<Longrightarrow> (i * b + r) div b = i" "r < b \<Longrightarrow> (i * b + r) mod b = r"
  for b :: nat
  by simp_all

lemma req_action_decode:
  assumes "req_places req i nj gk"
  shows "req_action req i nj gk < req_no_op req" "req_action req i nj gk div nat (req_placements req) = i"
    "req_action req i nj gk mod nat (req_placements req) div nat (aq_gpus_per_node req) = nj"
    "req_action req i nj gk mod nat (req_placements req) mod nat (aq_gpus_per_node req) = gk"
proof -
  let ?g = "nat (aq_gpus_per_node req)" and ?n = "nat (aq_n_nodes req)"
  have b: "i < TOP_K" "nj < ?n" "gk < ?g"
    using assms top_pending_le [of req] by (auto simp: req_places_def)
  then have np: "nat (req_placements req) = ?n * ?g"
    by (simp add: req_placements_def nat_mult_distrib)
  have inner: "nj * ?g + gk < ?n * ?g"
    using mixed_radix_lt [OF b(2,3)] .
  from mixed_radix_lt [OF b(1) inner] show "req_action req i nj gk < req_no_op req"
    by (simp add: req_action_def req_no_op_def np add.assoc)
  show "req_action req i nj gk div nat (req_placements req) = i"
    unfolding req_action_def np add.assoc by (rule radix_div(1) [OF inner])
  have m: "req_action req i nj gk mod nat (req_placements req) = nj * ?g + gk"
    unfolding req_action_def np add.assoc by (rule radix_div(2) [OF inner])
  show "req_action req i nj gk mod nat (req_placements req) div ?g = nj"
    "req_action req i nj gk mod nat (req_placements req) mod ?g = gk"
    using b(3) by (simp_all add: m)
qed

lemma length_req_mask: "length (req_mask req) = req_no_op req + 1"
  by (simp add: req_mask_def length_set_bits)

lemma req_mask_nth:
  assumes "a < req_no_op req"
  shows "req_mask req ! a \<longleftrightarrow> a \<in> set (req_legal req)"
  using assms by (simp add: req_mask_def set_bits_nth nth_replicate del: replicate_Suc replicate.simps)

lemma req_mask_no_op: "req_mask req ! req_no_op req"
  by (simp add: req_mask_def length_set_bits)

section \<open>The greedy choice\<close>

lemma argmax_on_mem: "argmax_on f xs b \<in> insert b (set xs)"
  by (induction xs arbitrary: b) (auto split: if_splits)

lemma argmax_on_ge: "f b \<le> f (argmax_on f xs b) \<and> (\<forall>x \<in> set xs. f x \<le> f (argmax_on f xs b))"
proof (induction xs arbitrary: b)
  case Nil
  then show ?case by simp
next
  case (Cons x xs)
  from Cons [of b] Cons [of x] show ?case
    by (auto simp: not_less intro: order_trans less_imp_le)
qed

definition softmax_agent :: "agent \<Rightarrow> bool" where
  "softmax_agent ag \<longleftrightarrow>
     (\<forall>obs mk. length (fst (ag_policy ag obs mk)) = length mk \<and> (\<forall>p \<in> set (fst (ag_policy ag obs mk)). 0 \<le> p))"

lemma masked_probs_nth:
  "i < length mk \<Longrightarrow> length ps = length mk \<Longrightarrow> masked_probs ps mk ! i = (if mk ! i then ps ! i else 0)"
  by (simp add: masked_probs_def)

lemma select_masked:
  assumes "softmax_agent ag" "a0 < length mk" "mk ! a0"
  shows "\<exists>a v h. select ag obs mk = Inr (a, v, h) \<and> a < length mk \<and> mk ! a"
proof -
  have legal: "a0 \<in> set (flatnonzero mk)"
    using assms(2,3) by (simp add: flatnonzero_def)
  then obtain i rest where l: "flatnonzero mk = i # rest"
    by (cases "flatnonzero mk") auto
  have flat: "a < length mk \<and> mk ! a" if "a \<in> set (flatnonzero mk)" for a
    using that by (auto simp: flatnonzero_def)
  show ?thesis
  proof (cases "ag_has_actor ag")
    case False
    from argmax_on_mem [of "\<lambda>k. ag_values ag obs ! k" rest i] l
    have "argmax_on (\<lambda>k. ag_values ag obs ! k) rest i \<in> set (flatnonzero mk)"
      by auto
    with False flat show ?thesis
      by (simp add: select_def l Let_def)
  next
    case True
    obtain ps lps where p: "ag_policy ag obs mk = (ps, lps)"
      by fastforce
    have ps: "length ps = length mk" "\<forall>p \<in> set ps. 0 \<le> p"
      using assms(1) p unfolding softmax_agent_def by (metis fst_conv)+
    let ?pm = "masked_probs ps mk"
    have len: "length ?pm = length mk"
      by (simp add: masked_probs_def ps)
    show ?thesis
    proof (cases "sum_list ?pm < 1 / 10 ^ 9")
      case less: True
      have "i < length mk \<and> mk ! i"
        using flat [of i] l by simp
      with True less show ?thesis
        by (simp add: select_def p l Let_def)
    next
      case False
      let ?a = "argmax_on (\<lambda>k. ?pm ! k) [1..<length ?pm] 0"
      have max: "?pm ! k \<le> ?pm ! ?a" if "k < length ?pm" for k
        using argmax_on_ge [of "\<lambda>k. ?pm ! k" 0 "[1..<length ?pm]"] that by (cases k) auto
      have bound: "?a < length ?pm"
        using argmax_on_mem [of "\<lambda>k. ?pm ! k" "[1..<length ?pm]" 0] assms(2) len by auto
      have "mk ! ?a"
      proof (rule ccontr)
        assume "\<not> mk ! ?a"
        then have "?pm ! ?a = 0"
          using bound len ps by (simp add: masked_probs_nth)
        then have "x \<le> 0" if "x \<in> set ?pm" for x
          using max that by (metis in_set_conv_nth)
        then have "sum_list ?pm \<le> 0"
          by (rule sum_list_nonpos)
        with False show False
          by (simp add: field_simps)
      qed
      with True False bound len show ?thesis
        by (simp add: select_def p Let_def)
    qed
  qed
qed

section \<open>The act endpoint\<close>

lemma build_obs_parts:
  assumes "build_obs_and_mask req = Inr (obs, mk, ids)"
  shows "mk = req_mask req" "ids = req_top_ids req" "0 \<le> req_placements req"
  using assms by (auto simp: build_obs_and_mask_def Let_def res_bind_Inr split: if_splits)

lemma req_top_ids_nth: "i < length (top_pending req) \<Longrightarrow> req_top_ids req ! i = Some (rj_job_id (top_pending req ! i))"
  using top_pending_le [of req] by (simp add: req_top_ids_def Let_def)

text \<open>What a greedy choice of a legal action decodes to.\<close>

lemma chosen_placement:
  assumes "softmax_agent ag" "build_obs_and_mask req = Inr (obs, mk, ids)" "select ag obs mk = Inr (a, v, h)"
    "a \<noteq> req_no_op req"
  obtains i nj gk where "req_places req i nj gk" "a = req_action req i nj gk" "a div nat (req_placements req) = i"
    "a mod nat (req_placements req) div nat (aq_gpus_per_node req) = nj"
    "a mod nat (req_placements req) mod nat (aq_gpus_per_node req) = gk"
    "i < length ids" "ids ! i = Some (rj_job_id (top_pending req ! i))"
proof -
  note parts = build_obs_parts [OF assms(2)]
  have "req_no_op req < length mk" "mk ! req_no_op req"
    using parts(1) by (simp_all add: length_req_mask req_mask_no_op)
  then have "a < length mk \<and> mk ! a"
    using select_masked [OF assms(1), of "req_no_op req" mk obs] assms(3) by auto
  then have "a \<in> set (req_legal req)"
    using assms(4) parts(1) req_mask_nth [of a req] by (simp add: length_req_mask)
  then obtain i nj gk where p: "req_places req i nj gk" and a: "a = req_action req i nj gk"
    by (auto simp: mem_req_legal)
  from p have "i < length (top_pending req)"
    by (simp add: req_places_def)
  then have "i < length ids" "ids ! i = Some (rj_job_id (top_pending req ! i))"
    using top_pending_le [of req] parts(2) by (simp_all add: req_top_ids_nth, simp add: req_top_ids_def Let_def)
  with that [OF p a] req_action_decode [OF p, folded a] show thesis
    by simp
qed

text \<open>The answer is the no-op, or a placement the request allows.\<close>

lemma act_endpoint_answer:
  assumes "softmax_agent ag" "act_endpoint (Some ag) req = Inr r"
  shows "as_action r = req_no_op req \<and> as_selected_job_id r = None \<and> as_node_j r = None \<and> as_gpu_k r = None \<or>
    (\<exists>i nj gk. req_places req i nj gk \<and> as_action r = req_action req i nj gk \<and>
       as_selected_job_id r = Some (rj_job_id (top_pending req ! i)) \<and>
       as_node_j r = Some nj \<and> as_gpu_k r = Some gk)"
proof -
  obtain obs mk ids where b: "build_obs_and_mask req = Inr (obs, mk, ids)"
    using assms(2) by (auto simp: act_endpoint_def split: sum.splits)
  obtain a v h where s: "select ag obs mk = Inr (a, v, h)"
    using assms(2) b by (auto simp: act_endpoint_def Let_def split: sum.splits if_splits)
  show ?thesis
  proof (cases "a = req_no_op req")
    case True
    with assms(2) b s show ?thesis
      by (auto simp: act_endpoint_def split: if_splits)
  next
    case False
    from chosen_placement [OF assms(1) b s False] obtain i nj gk where p: "req_places req i nj gk"
      and a: "a = req_action req i nj gk" and d: "a div nat (req_placements req) = i"
      "a mod nat (req_placements req) div nat (aq_gpus_per_node req) = nj"
      "a mod nat (req_placements req) mod nat (aq_gpus_per_node req) = gk"
      "i < length ids" "ids ! i = Some (rj_job_id (top_pending req ! i))" .
    have "r = \<lparr>as_action = a, as_job_i = Some i, as_node_j = Some nj, as_gpu_k = Some gk,
        as_selected_job_id = Some (rj_job_id (top_pending req ! i)), as_value = v, as_entropy = h\<rparr>"
      using assms(2) b s False d by (auto simp: act_endpoint_def Let_def split: if_splits)
    with p a show ?thesis
      by fastforce
  qed
qed

section \<open>The shape of the observation\<close>

lemma build_obs_length:
  assumes "build_obs_and_mask req = Inr (obs, mk, ids)"
  shows "length obs = TOP_K * JOB_FEAT_DIM + nat (aq_n_nodes req) * (nat (aq_gpus_per_node req) * GPU_FEAT_DIM) +
     TOPO_FEAT_DIM + GLOBAL_FEAT_DIM"
proof -
  have gpu: "length (serve_gpu_feat g cap) = GPU_FEAT_DIM" for g cap
    by (simp add: serve_gpu_feat_def Let_def rl_one_hot_def GPU_TYPES_def GPU_FEAT_DIM_def)
  have job: "length f = JOB_FEAT_DIM" if "serve_job_feat j now cap = Inr f" for j now cap f
    using that by (auto simp: serve_job_feat_def Let_def rl_one_hot_def GPU_TYPES_def JOB_FEAT_DIM_def split: if_splits)
  obtain feats where feats: "res_map (\<lambda>j. serve_job_feat j (aq_now req) (aq_mps_per_gpu req)) (top_pending req) = Inr feats"
    and obs: "obs = concat feats @ concat (replicate (TOP_K - length (top_pending req)) (replicate JOB_FEAT_DIM 0)) @
               req_gpu_feats req @ serve_topo_feat (top_pending req) (aq_nodes req) @
               serve_global_feat (aq_pending_jobs req) (aq_nodes req) (aq_now req)"
    using assms by (auto simp: build_obs_and_mask_def Let_def res_bind_Inr split: if_splits)
  have flen: "length f = JOB_FEAT_DIM" if "f \<in> set feats" for f
    using res_map_set [OF feats that] job by blast
  have 1: "length (concat feats) = length (top_pending req) * JOB_FEAT_DIM"
    using res_map_length [OF feats] by (subst length_concat) (subst sum_list_const_map, auto simp: flen)
  have row: "length (concat (map (\<lambda>gi. if ni < length (aq_nodes req) \<and> gi < length (aq_nodes req ! ni)
       then serve_gpu_feat (aq_nodes req ! ni ! gi) (aq_mps_per_gpu req)
       else replicate GPU_FEAT_DIM 0) [0..<nat (aq_gpus_per_node req)])) = nat (aq_gpus_per_node req) * GPU_FEAT_DIM" for ni
    by (subst length_concat, simp only: map_map comp_def) (subst sum_list_const_map, auto simp: gpu)
  have 2: "length (req_gpu_feats req) = nat (aq_n_nodes req) * (nat (aq_gpus_per_node req) * GPU_FEAT_DIM)"
    unfolding req_gpu_feats_def
    by (subst length_concat, simp only: map_map comp_def) (subst sum_list_const_map, auto simp: row)
  have 3: "length (concat (replicate (TOP_K - length (top_pending req)) (replicate JOB_FEAT_DIM (0 :: real)))) =
      (TOP_K - length (top_pending req)) * JOB_FEAT_DIM"
    by (subst length_concat) (subst sum_list_const_map, auto)
  have 4: "length (serve_topo_feat ps ns) = TOPO_FEAT_DIM" "length (serve_global_feat ps ns now) = GLOBAL_FEAT_DIM"
    for ps ns now
    by (simp_all add: serve_topo_feat_def serve_global_feat_def Let_def TOPO_FEAT_DIM_def GLOBAL_FEAT_DIM_def)
  have "length (top_pending req) * JOB_FEAT_DIM + (TOP_K - length (top_pending req)) * JOB_FEAT_DIM = TOP_K * JOB_FEAT_DIM"
    using top_pending_le [of req] by (simp flip: add_mult_distrib)
  then show ?thesis
    by (simp add: obs 1 2 3 4)
qed

end
