(* ===== verification/RlRankFacts.thy ===== *)
theory RlRankFacts
  imports RlCycle RlServeFacts
begin

text \<open>
  What the ranking returns: an order of exactly the jobs it was given, whatever the policy answers,
  and, against the modelled policy server, never a rejected answer. \<open>keyed\<close> says that the jobs still
  to be ranked are stored under their own ids.
\<close>

definition keyed :: "(string, slurm_job) dict \<Rightarrow> bool" where
  "keyed d \<longleftrightarrow> distinct (map fst d) \<and> (\<forall>e \<in> set d. sl_job_id (snd e) = fst e)"

lemma keyed_lookup: "keyed d \<Longrightarrow> j \<in> set (dict_values d) \<Longrightarrow> map_of d (sl_job_id j) = Some j"
  by (force simp: keyed_def dict_values_def map_of_eq_Some_iff)

lemma keyed_pop: "keyed d \<Longrightarrow> keyed (dict_pop k d)"
  using set_dict_pop_subset [of k d] by (auto simp: keyed_def)

lemma keyed_dict_of: "keyed (dict_of (map (\<lambda>p. (sl_job_id (f p), f p)) ps))"
proof -
  have "keyed d \<Longrightarrow> keyed (foldl (\<lambda>d p. dict_set (fst p) (snd p) d) d (map (\<lambda>p. (sl_job_id (f p), f p)) ps))" for d
  proof (induction ps arbitrary: d)
    case Nil
    then show ?case by simp
  next
    case (Cons p ps)
    have "keyed (dict_set (sl_job_id (f p)) (f p) d)"
      using Cons.prems dict_set_set [of "sl_job_id (f p)" "f p" d] by (auto simp: keyed_def)
    with Cons.IH show ?case
      by simp
  qed
  from this [of "[]"] show ?thesis
    by (simp add: dict_of_def keyed_def)
qed

lemma by_submit_values: "set (by_submit d) = set (dict_values d)"
  by (simp add: by_submit_def)

lemma by_submit_ids:
  assumes "keyed d"
  shows "distinct (map sl_job_id (by_submit d))" "set (map sl_job_id (by_submit d)) = fst ` set d"
proof -
  have ids: "map sl_job_id (dict_values d) = map fst d"
    using assms by (auto simp: keyed_def dict_values_def)
  have "mset (map sl_job_id (by_submit d)) = mset (map fst d)"
    by (simp add: by_submit_def flip: ids)
  with assms show "distinct (map sl_job_id (by_submit d))" "set (map sl_job_id (by_submit d)) = fst ` set d"
    unfolding keyed_def by (metis mset_eq_imp_distinct_iff, metis mset_eq_setD list.set_map)
qed

section \<open>One round\<close>

lemma accepted_pick_mem:
  "accepted_pick req fnodes remaining act = Some (jid, node) \<Longrightarrow>
     map_of remaining jid \<noteq> None \<and> node \<in> sn_name ` set fnodes"
  by (auto simp: accepted_pick_def Let_def split: option.splits if_splits sum.splits)

lemma fallback_pick_mem:
  "fallback_pick fit js p = Some (jid, node) \<Longrightarrow>
     p = Some (jid, node) \<or> (\<exists>j \<in> set js. \<exists>n. fit j = Some n \<and> jid = sl_job_id j \<and> node = sn_name n)"
proof (induction js arbitrary: p)
  case Nil
  then show ?case by simp
next
  case (Cons j js)
  let ?p = "case fit j of None \<Rightarrow> p | Some n \<Rightarrow> Some (sl_job_id j, sn_name n)"
  from Cons.prems have "?p = Some (jid, node) \<or> fallback_pick fit js ?p = Some (jid, node)"
    by (auto simp: Let_def split: option.splits if_splits)
  with Cons.IH [of ?p] show ?case
    by (cases "fit j") auto
qed

lemma first_fit_node_mem: "first_fit_node req fnodes lf j = Some n \<Longrightarrow> n \<in> set fnodes"
  by (auto simp: first_fit_node_def find_Some_iff)

definition item_name :: "node_item \<Rightarrow> string" where
  "item_name x = (case x of ParsedNode n \<Rightarrow> sn_name n | NodeName name \<Rightarrow> name)"

lemma coerce_node_name: "sn_name (coerce_node free x) = item_name x"
  by (cases x) (simp_all add: item_name_def)

lemma op_bind_cases:
  assumes "op_bind m f s = (r, s')"
  obtains (raises) e where "m s = (Inl e, s')" "r = Inl e"
  | (continues) x s1 where "m s = (Inr x, s1)" "f x s1 = (r, s')"
  using assms by (auto simp: op_bind_def split: prod.splits sum.splits)

lemma rank_round_pick:
  assumes "rank_round env post strict dl cap ns remaining lf s = (Inr (RankPick jid node), s')" "keyed remaining"
  shows "map_of remaining jid \<noteq> None \<and> node \<in> item_name ` set ns"
proof -
  let ?fn = "map (coerce_node lf) ns"
  have names: "sn_name ` set ?fn = item_name ` set ns"
    by (auto simp: coerce_node_name image_comp)
  have "\<exists>req act. accepted_pick req ?fn remaining act = Some (jid, node) \<or>
      fallback_pick (first_fit_node req ?fn lf) (by_submit remaining) None = Some (jid, node)"
    using assms(1) unfolding rank_round_def op_then_def Let_def
    by (fastforce elim!: op_bind_cases simp: op_return_def op_raise_def split: option.splits if_splits prod.splits)
  then obtain req act where "accepted_pick req ?fn remaining act = Some (jid, node) \<or>
      fallback_pick (first_fit_node req ?fn lf) (by_submit remaining) None = Some (jid, node)"
    by blast
  then show ?thesis
  proof
    assume "accepted_pick req ?fn remaining act = Some (jid, node)"
    from accepted_pick_mem [OF this] names show ?thesis
      by auto
  next
    assume "fallback_pick (first_fit_node req ?fn lf) (by_submit remaining) None = Some (jid, node)"
    from fallback_pick_mem [OF this] obtain j n where "j \<in> set (by_submit remaining)" "jid = sl_job_id j"
      "n \<in> set ?fn" "node = sn_name n"
      using first_fit_node_mem by blast
    with keyed_lookup [OF assms(2)] names show ?thesis
      by (metis by_submit_values image_eqI option.distinct(1))
  qed
qed

section \<open>The loop\<close>

lemma rank_loop_order:
  assumes "rank_loop env post strict dl cap ns remaining lf order s = (Inr out, s')" "keyed remaining"
  shows "\<exists>tail. out = order @ tail \<and> distinct tail \<and> set tail = fst ` set remaining"
  using assms
proof (induction env post strict dl cap ns remaining lf order s rule: rank_loop.induct)
  case (1 env post strict dl cap ns remaining lf order s)
  show ?case
  proof (cases "remaining = []")
    case True
    with "1.prems" show ?thesis
      by (auto simp: rank_loop.simps)
  next
    case False
    from "1.prems"(1) False obtain move s1 where
      round: "rank_round env post strict dl cap ns remaining lf s = (Inr move, s1)"
      by (subst (asm) rank_loop.simps) (auto split: prod.splits sum.splits)
    show ?thesis
    proof (cases move)
      case RankStop
      with "1.prems"(1) False round have "out = order @ map sl_job_id (by_submit remaining)"
        by (subst (asm) rank_loop.simps) simp
      with by_submit_ids [OF "1.prems"(2)] show ?thesis
        by blast
    next
      case (RankPick jid node)
      from "1.prems"(1) False round RankPick obtain f job where
        f: "map_of lf node = Some f" and job: "map_of remaining jid = Some job" and
        go: "rank_loop env post strict dl cap ns (dict_pop jid remaining)
          (dict_set node (f - sl_mps_req job) lf) (order @ [jid]) s1 = (Inr out, s')"
        by (subst (asm) rank_loop.simps) (auto split: option.splits)
      obtain tail where t: "out = (order @ [jid]) @ tail" "distinct tail"
        "set tail = fst ` set (dict_pop jid remaining)"
        using "1.IH" [OF False round [symmetric] refl RankPick f job go keyed_pop [OF "1.prems"(2)]] by blast
      moreover have "jid \<in> fst ` set remaining"
        using job by (metis map_of_SomeD fst_conv image_eqI)
      ultimately have "out = order @ jid # tail \<and> distinct (jid # tail) \<and> set (jid # tail) = fst ` set remaining"
        by (auto simp: keys_dict_pop)
      then show ?thesis
        by blast
    qed
  qed
qed

section \<open>The served policy\<close>

text \<open>A post that reaches the modelled server, or fails on the way.\<close>

definition served :: "agent \<Rightarrow> (real \<Rightarrow> string) \<Rightarrow> (act_req \<Rightarrow> (rl_state, jobj) op) \<Rightarrow> bool" where
  "served ag shown post \<longleftrightarrow>
     (\<forall>req s. fst (post req s) = Inl ApiError \<or>
        (\<exists>r. act_endpoint (Some ag) req = Inr r \<and> fst (post req s) = Inr (act_json shown r)))"

lemma act_json_get:
  "j_get (act_json shown r) ''selected_job_id'' d = opt_json JStr (as_selected_job_id r)"
  "j_get (act_json shown r) ''node_j'' d = opt_json (\<lambda>i. JInt (int i)) (as_node_j r)"
  "j_get (act_json shown r) ''gpu_k'' d = opt_json (\<lambda>i. JInt (int i)) (as_gpu_k r)"
  "j_get (act_json shown r) ''action'' d = JInt (int (as_action r))"
  by (simp_all add: act_json_def j_get_def dict_get_def)

lemma str_or_empty_simps: "str_or_empty (JStr t) = t" "str_or_empty JNull = []"
  by (simp_all add: str_or_empty_def j_or_def py_str_def)

lemma map_of_dict_of_distinct:
  "distinct (map fst ps) \<Longrightarrow> map_of (dict_of ps) k = map_of ps k"
  by (simp add: dict_of_distinct)

text \<open>The request of a round describes remaining jobs, each under its own id.\<close>

lemma round_request_jobs:
  fixes now :: real and cap :: int and fnodes :: "slurm_node list"
  assumes "keyed remaining"
  defines "req \<equiv> build_act_payload cap now (take TOP_K (by_submit remaining)) fnodes"
  shows "\<exists>js. aq_pending_jobs req = map (act_job fnodes) js \<and> set js \<subseteq> set (dict_values remaining) \<and>
    distinct (map sl_job_id js)"
proof -
  let ?js = "take PLACE_TOP_K (sort_key sl_submit_ts (take TOP_K (by_submit remaining)))"
  have "set ?js \<subseteq> set (dict_values remaining)"
    using set_take_subset [of PLACE_TOP_K] set_take_subset [of TOP_K "by_submit remaining"] by_submit_values
    by fastforce
  moreover have "distinct (map sl_job_id (take TOP_K (by_submit remaining)))"
    using by_submit_ids(1) [OF assms(1)] by (metis distinct_take take_map)
  then have "distinct (map sl_job_id ?js)"
    by (metis distinct_take take_map mset_map mset_sort mset_eq_imp_distinct_iff)
  ultimately show ?thesis
    unfolding req_def build_act_payload_def by auto
qed

lemma eligible_nodes_of:
  assumes "aq_pending_jobs req = map (act_job fnodes) js" "distinct (map sl_job_id js)" "j \<in> set js"
  shows "eligible_nodes req (sl_job_id j) = map int (allowed_indices j fnodes)"
proof -
  let ?ps = "map (\<lambda>j. (rj_job_id j, case rj_eligible j of None \<Rightarrow> [] | Some xs \<Rightarrow> xs)) (aq_pending_jobs req)"
  have ps: "?ps = map (\<lambda>j. (sl_job_id j, map int (allowed_indices j fnodes))) js"
    by (simp add: assms(1) act_job_def Let_def)
  have d: "distinct (map fst ?ps)"
    unfolding ps using assms(2) by (simp add: comp_def)
  have "map_of ?ps (sl_job_id j) = Some (map int (allowed_indices j fnodes))"
    using d assms(3) unfolding ps by (intro map_of_is_SomeI) auto
  then show ?thesis
    by (simp add: eligible_nodes_def dict_get_def map_of_dict_of_distinct [OF d] del: map_map)
qed

lemma served_pick:
  fixes now :: real and cap :: int and fnodes :: "slurm_node list"
  assumes "keyed remaining" "softmax_agent ag"
  defines "req \<equiv> build_act_payload cap now (take TOP_K (by_submit remaining)) fnodes"
  assumes "act_endpoint (Some ag) req = Inr r"
  shows "accepted_pick req fnodes remaining (act_json shown r) \<noteq> None \<or>
    is_noop (length fnodes) (act_json shown r)"
proof -
  have shape: "aq_nodes req = map act_node fnodes" "aq_n_nodes req = int (length fnodes)"
    "aq_gpus_per_node req = 1"
    by (simp_all add: req_def build_act_payload_def)
  from act_endpoint_answer [OF assms(2,4)] show ?thesis
  proof
    assume "as_action r = req_no_op req \<and> as_selected_job_id r = None \<and> as_node_j r = None \<and> as_gpu_k r = None"
    then have "is_noop (length fnodes) (act_json shown r)"
      by (simp add: is_noop_def act_json_get opt_json_def str_or_empty_simps py_int_def req_no_op_def
          req_placements_def shape)
    then show ?thesis ..
  next
    assume "\<exists>i nj gk. req_places req i nj gk \<and> as_action r = req_action req i nj gk \<and>
       as_selected_job_id r = Some (rj_job_id (top_pending req ! i)) \<and>
       as_node_j r = Some nj \<and> as_gpu_k r = Some gk"
    then obtain i nj gk where p: "req_places req i nj gk" and
      r: "as_selected_job_id r = Some (rj_job_id (top_pending req ! i))" "as_node_j r = Some nj"
      by blast
    obtain js where js: "aq_pending_jobs req = map (act_job fnodes) js"
      "set js \<subseteq> set (dict_values remaining)" "distinct (map sl_job_id js)"
      using round_request_jobs [OF assms(1), of cap now fnodes] unfolding req_def by blast
    have "top_pending req ! i \<in> set (aq_pending_jobs req)"
      using p set_take_subset unfolding req_places_def top_pending_def
      by (metis (no_types, lifting) nth_mem set_sort subsetD)
    then obtain j where j: "j \<in> set js" "top_pending req ! i = act_job fnodes j"
      using js(1) by auto
    then have sel: "rj_job_id (top_pending req ! i) = sl_job_id j"
      by (simp add: act_job_def Let_def)
    have in_rem: "map_of remaining (sl_job_id j) = Some j"
      using keyed_lookup [OF assms(1)] js(2) j(1) by blast
    have nj: "nj < length fnodes" "int nj \<in> set (map int (allowed_indices j fnodes))"
      "sl_mps_req j \<le> sn_free_mps (fnodes ! nj)"
      using p unfolding req_places_def
      by (auto simp: shape j(2) node_permitted_def act_job_def Let_def act_node_def)
    then have "node_allows j (fnodes ! nj)"
      by (auto simp: allowed_indices_def)
    then have "accepted_pick req fnodes remaining (act_json shown r) = Some (sl_job_id j, sn_name (fnodes ! nj))"
      using nj eligible_nodes_of [OF js(1,3) j(1)]
      by (simp add: accepted_pick_def act_json_get r sel opt_json_def str_or_empty_simps in_rem py_int_def
          Let_def node_allows_def)
    then show ?thesis
      by simp
  qed
qed

lemma served_round:
  assumes "keyed remaining" "softmax_agent ag" "served ag shown post"
    "rank_round env post True dl cap ns remaining lf s = (r, s')"
  shows "case r of Inl e \<Rightarrow> e = TimeoutError \<or> e = ApiError | Inr m \<Rightarrow> True"
proof -
  let ?fn = "map (coerce_node lf) ns"
  have post: "e = ApiError" if "post req t = (Inl e, t')" for req t e t'
    using assms(3) that unfolding served_def by (metis fst_conv Inl_inject sum.distinct(1))
  have ans: "\<exists>resp. act_endpoint (Some ag) req = Inr resp \<and> act = act_json shown resp"
    if "post req t = (Inr act, t')" for req t act t'
    using assms(3) that unfolding served_def by (metis fst_conv Inr_inject sum.distinct(1))
  have time: "e = TimeoutError" if "check_deadline env dl t = (Inl e, t')" for t e t'
    using that by (auto simp: check_deadline_def op_bind_def rl_clock_def rl_ask_def op_return_def op_raise_def
        split: option.splits if_splits)
  from assms(4) show ?thesis
    unfolding rank_round_def op_then_def
  proof (rule op_bind_cases)
    fix e
    assume "check_deadline env dl s = (Inl e, s')" "r = Inl e"
    with time show ?thesis by simp
  next
    fix x s1
    assume "op_bind (rl_clock (re_time env)) (\<lambda>now. let fnodes = map (coerce_node lf) ns;
          req = build_act_payload cap now (take TOP_K (by_submit remaining)) fnodes
      in op_bind (if True then post req else op_catch (post req) (\<lambda>_. op_return []))
           (\<lambda>act. case accepted_pick req fnodes remaining act of
             None \<Rightarrow> if True then if is_noop (length fnodes) act then op_return RankStop else op_raise RuntimeError
               else (case fallback_pick (first_fit_node req fnodes lf) (by_submit remaining) None of
                       None \<Rightarrow> op_return RankStop | Some (jid, node) \<Rightarrow> op_return (RankPick jid node))
           | Some (jid, node) \<Rightarrow> op_return (RankPick jid node))) s1 = (r, s')"
    then show ?thesis
    proof (rule op_bind_cases)
      fix e
      assume "rl_clock (re_time env) s1 = (Inl e, s')"
      then show ?thesis
        by (simp add: rl_clock_def rl_ask_def)
    next
      fix now s2
      let ?req = "build_act_payload cap now (take TOP_K (by_submit remaining)) ?fn"
      assume "(let fnodes = map (coerce_node lf) ns;
          req = build_act_payload cap now (take TOP_K (by_submit remaining)) fnodes
      in op_bind (if True then post req else op_catch (post req) (\<lambda>_. op_return []))
           (\<lambda>act. case accepted_pick req fnodes remaining act of
             None \<Rightarrow> if True then if is_noop (length fnodes) act then op_return RankStop else op_raise RuntimeError
               else (case fallback_pick (first_fit_node req fnodes lf) (by_submit remaining) None of
                       None \<Rightarrow> op_return RankStop | Some (jid, node) \<Rightarrow> op_return (RankPick jid node))
           | Some (jid, node) \<Rightarrow> op_return (RankPick jid node))) s2 = (r, s')"
      then have "op_bind (post ?req) (\<lambda>act. case accepted_pick ?req ?fn remaining act of
             None \<Rightarrow> if is_noop (length ?fn) act then op_return RankStop else op_raise RuntimeError
           | Some (jid, node) \<Rightarrow> op_return (RankPick jid node)) s2 = (r, s')"
        unfolding Let_def if_True .
      then show ?thesis
      proof (rule op_bind_cases)
        fix e
        assume "post ?req s2 = (Inl e, s')" "r = Inl e"
        with post show ?thesis by simp
      next
        fix act s3
        assume p: "post ?req s2 = (Inr act, s3)" and
          rest: "(case accepted_pick ?req ?fn remaining act of
             None \<Rightarrow> if is_noop (length ?fn) act then op_return RankStop else op_raise RuntimeError
           | Some (jid, node) \<Rightarrow> op_return (RankPick jid node)) s3 = (r, s')"
        from ans [OF p] obtain resp where "act_endpoint (Some ag) ?req = Inr resp" "act = act_json shown resp"
          by blast
        then have "accepted_pick ?req ?fn remaining act \<noteq> None \<or> is_noop (length ?fn) act"
          using served_pick [OF assms(1,2), of cap now ?fn resp shown] by simp
        with rest show ?thesis
          by (auto simp: op_return_def split: option.splits if_splits)
      qed
    qed
  qed
qed

lemma served_loop:
  assumes "softmax_agent ag" "served ag shown post" "strict"
    "rank_loop env post strict dl cap ns remaining lf order s = (Inl e, s')" "keyed remaining"
    "item_name ` set ns \<subseteq> fst ` set lf"
  shows "e = TimeoutError \<or> e = ApiError"
  using assms(2-)
proof (induction env post strict dl cap ns remaining lf order s rule: rank_loop.induct)
  case (1 env post strict dl cap ns remaining lf order s)
  note prems = "1.prems"
  show ?case
  proof (cases "remaining = []")
    case True
    with prems(3) show ?thesis
      by (simp add: rank_loop.simps)
  next
    case False
    obtain r s1 where round: "rank_round env post strict dl cap ns remaining lf s = (r, s1)"
      by fastforce
    then have ok: "case r of Inl e \<Rightarrow> e = TimeoutError \<or> e = ApiError | Inr m \<Rightarrow> True"
      using served_round [OF prems(4) assms(1) prems(1)] prems(2) by simp
    show ?thesis
    proof (cases r)
      case (Inl e1)
      with prems(3) False round ok show ?thesis
        by (subst (asm) rank_loop.simps) simp
    next
      case (Inr move)
      show ?thesis
      proof (cases move)
        case RankStop
        with prems(3) False round Inr show ?thesis
          by (subst (asm) rank_loop.simps) simp
      next
        case (RankPick jid node)
        from rank_round_pick [OF round [unfolded Inr RankPick] prems(4)] prems(5)
        obtain job f where job: "map_of remaining jid = Some job" and f: "map_of lf node = Some f"
          by (metis (no_types, opaque_lifting) map_of_eq_None_iff option.exhaust subsetD)
        have go: "rank_loop env post strict dl cap ns (dict_pop jid remaining)
            (dict_set node (f - sl_mps_req job) lf) (order @ [jid]) s1 = (Inl e, s')"
          using prems(3) False round Inr RankPick job f by (subst (asm) rank_loop.simps) simp
        have "item_name ` set ns \<subseteq> fst ` set (dict_set node (f - sl_mps_req job) lf)"
          using prems(5) by (auto simp: keys_dict_set)
        with "1.IH" [OF False round [symmetric] Inr RankPick f job prems(1,2) go keyed_pop [OF prems(4)]]
        show ?thesis .
      qed
    qed
  qed
qed

end
