(* ===== verification/RlPlaceFacts.thy ===== *)
theory RlPlaceFacts
  imports RlRankFacts
begin

text \<open>
  What the placement controller writes when the modelled server answers it: at most one update per
  call, and that one pins a wanted job to a wanted node that satisfies the job's constraints and
  has the slots for it. Repeating it ends at the bound or at the first call that places nothing.
\<close>

section \<open>The answer to a request\<close>

lemma payload_shape [simp]:
  "aq_nodes (build_act_payload cap now jobs ns) = map act_node ns"
  "aq_n_nodes (build_act_payload cap now jobs ns) = int (length ns)"
  "aq_gpus_per_node (build_act_payload cap now jobs ns) = 1"
  by (simp_all add: build_act_payload_def)

lemma payload_pending:
  "i < length (top_pending (build_act_payload cap now jobs ns)) \<Longrightarrow>
     \<exists>j \<in> set jobs. top_pending (build_act_payload cap now jobs ns) ! i = act_job ns j"
proof -
  assume "i < length (top_pending (build_act_payload cap now jobs ns))"
  then have "top_pending (build_act_payload cap now jobs ns) ! i \<in> set (top_pending (build_act_payload cap now jobs ns))"
    by (rule nth_mem)
  also have "\<dots> \<subseteq> act_job ns ` set jobs"
    unfolding top_pending_def build_act_payload_def
    by (auto dest!: in_set_takeD)
  finally show ?thesis
    by blast
qed

lemma payload_places:
  assumes "req_places (build_act_payload cap now jobs ns) i nj gk"
  shows "\<exists>j \<in> set jobs. rj_job_id (top_pending (build_act_payload cap now jobs ns) ! i) = sl_job_id j \<and>
    nj < length ns \<and> node_allows j (ns ! nj) \<and> sl_mps_req j \<le> sn_free_mps (ns ! nj)"
proof -
  obtain j where j: "j \<in> set jobs" "top_pending (build_act_payload cap now jobs ns) ! i = act_job ns j"
    using assms payload_pending unfolding req_places_def by blast
  with assms have "nj < length ns" "int nj \<in> set (map int (allowed_indices j ns))"
    "sl_mps_req j \<le> sn_free_mps (ns ! nj)"
    unfolding req_places_def by (auto simp: node_permitted_def act_job_def Let_def act_node_def)
  then show ?thesis
    using j by (intro bexI [of _ j]) (auto simp: allowed_indices_def act_job_def Let_def)
qed

section \<open>One placement\<close>

definition meets_constraints :: "slurm_job \<Rightarrow> slurm_node \<Rightarrow> bool" where
  "meets_constraints j n \<longleftrightarrow>
     sn_available n \<and> sl_mps_req j \<le> sn_free_mps n \<and>
     (sl_required_gpu_type j \<noteq> [] \<longrightarrow> sn_gpu_type n = sl_required_gpu_type j) \<and>
     (sl_required_nodes j \<noteq> [] \<longrightarrow> sn_name n \<in> set (str_split (CHR '','') (sl_required_nodes j)))"

definition legal_pin :: "place_cfg \<Rightarrow> slurm_job list \<Rightarrow> slurm_node list \<Rightarrow> job_update \<Rightarrow> bool" where
  "legal_pin cfg parsed discovered u \<longleftrightarrow>
     (\<exists>j \<in> set parsed. \<exists>n \<in> set discovered. \<exists>rel.
        u = RequireNode (sl_job_id j) (sn_name n) rel \<and> meets_constraints j n \<and>
        (pl_require_held cfg \<longrightarrow> is_held_reason (sl_reason j)) \<and>
        (pl_job_id cfg \<noteq> [] \<longrightarrow> sl_job_id j = pl_job_id cfg) \<and>
        (pl_node_names cfg \<noteq> [] \<longrightarrow> sn_name n \<in> set (pl_node_names cfg)))"

lemma legal_pinI:
  assumes "j \<in> set (wanted_jobs cfg parsed)" "n \<in> set (wanted_nodes cfg discovered)" "node_allows j n"
    "sl_mps_req j \<le> sn_free_mps n"
  shows "legal_pin cfg parsed discovered (RequireNode (sl_job_id j) (sn_name n) rel)"
proof -
  have "meets_constraints j n"
    using assms(3,4) by (auto simp: meets_constraints_def node_allows_def)
  with assms(1,2) show ?thesis
    unfolding legal_pin_def by (intro bexI [of _ j] bexI [of _ n]) (auto simp: wanted_jobs_def wanted_nodes_def)
qed

lemma posts_after_update:
  "op_bind (op_bind (rl_update env u) (\<lambda>_. op_return ())) (\<lambda>_. op_lift x) s = (r, s') \<Longrightarrow>
     rl_posts s' = rl_posts s @ [(u, re_update env (rl_calls s) u)]"
  by (auto simp: op_bind_def rl_update_def Let_def op_return_def op_lift_def split: sum.splits)

lemma act_on_answer_posts:
  assumes "act_on_answer env cfg names act s = (r, s')"
  shows "rl_posts s' = rl_posts s \<or>
    (\<not> pl_shadow cfg \<and> (\<exists>sel nj rel resp. j_get act ''selected_job_id'' JNull = sel \<and> sel \<noteq> JNull \<and>
       py_int (j_get act ''node_j'' JNull) = Inr nj \<and> 0 \<le> nj \<and> nj < int (length names) \<and>
       rl_posts s' = rl_posts s @ [(RequireNode (py_str sel) (names ! nat nj) rel, resp)]))"
proof (cases "j_get act ''selected_job_id'' JNull = JNull \<or> j_get act ''node_j'' JNull = JNull \<or>
    j_get act ''gpu_k'' JNull = JNull")
  case True
  with assms show ?thesis
    by (auto simp: act_on_answer_def Let_def op_lift_def)
next
  case some: False
  show ?thesis
  proof (cases "py_int (j_get act ''node_j'' JNull)")
    case (Inl e)
    with assms some show ?thesis
      by (auto simp: act_on_answer_def Let_def op_lift_def op_bind_def)
  next
    case (Inr nj)
    show ?thesis
    proof (cases "nj < 0 \<or> int (length names) \<le> nj")
      case True
      with assms some Inr show ?thesis
        by (auto simp: act_on_answer_def Let_def op_lift_def op_bind_def)
    next
      case False
      note go = assms [unfolded act_on_answer_def Let_def bind_lift Inr sum.case if_not_P [OF some] if_not_P [OF False]]
      show ?thesis
      proof (cases "pl_shadow cfg")
        case True
        then show ?thesis
          using go by (simp add: op_then_def op_when_def op_bind_def op_return_def op_lift_def)
      next
        case live: False
        let ?u = "RequireNode (py_str (j_get act ''selected_job_id'' JNull)) (names ! nat nj)
          (if pl_release cfg then Some (if pl_release_priority cfg = RELEASE_PRIORITY
             then PriorityInfinite else PriorityNumber (pl_release_priority cfg)) else None)"
        have "rl_posts s' = rl_posts s @ [(?u, re_update env (rl_calls s) ?u)]"
          using go [unfolded op_then_def op_when_def if_P [OF live] apply_hard_placement_def]
          by (rule posts_after_update)
        then show ?thesis
          using live some Inr False by auto
      qed
    qed
  qed
qed

lemma by_name_mem:
  assumes "name \<in> sn_name ` set ns"
  shows "the (map_of (dict_of (map (\<lambda>n. (sn_name n, n)) ns)) name) \<in> set ns"
    "sn_name (the (map_of (dict_of (map (\<lambda>n. (sn_name n, n)) ns)) name)) = name"
proof -
  let ?d = "dict_of (map (\<lambda>n. (sn_name n, n)) ns)"
  have ok: "\<forall>e \<in> set d. snd e \<in> set ns \<and> sn_name (snd e) = fst e \<Longrightarrow> set ms \<subseteq> set ns \<Longrightarrow>
      \<forall>e \<in> set (foldl (\<lambda>d p. dict_set (fst p) (snd p) d) d (map (\<lambda>n. (sn_name n, n)) ms)).
        snd e \<in> set ns \<and> sn_name (snd e) = fst e" for d ms
  proof (induction ms arbitrary: d)
    case Nil
    then show ?case by simp
  next
    case (Cons m ms)
    have "snd e \<in> set ns \<and> sn_name (snd e) = fst e" if e: "e \<in> set (dict_set (sn_name m) m d)" for e
    proof -
      from e dict_set_set [of "sn_name m" m d] have "e = (sn_name m, m) \<or> e \<in> set d"
        by blast
      with Cons.prems show ?thesis
        by (elim disjE) simp_all
    qed
    with Cons.IH [of "dict_set (sn_name m) m d"] Cons.prems(2) show ?case
      by simp
  qed
  have "name \<in> fst ` set ?d"
    using assms by (simp add: keys_dict_of image_comp)
  then obtain n where "map_of ?d name = Some n"
    by (metis map_of_eq_None_iff option.exhaust)
  moreover from this have "(name, n) \<in> set ?d"
    by (rule map_of_SomeD)
  then have "n \<in> set ns \<and> sn_name n = name"
    using ok [of "[]" ns] by (auto simp: dict_of_def)
  ultimately show "the (map_of ?d name) \<in> set ns" "sn_name (the (map_of ?d name)) = name"
    by simp_all
qed

lemma trim_names:
  assumes "trim_nodes_to_model_topology env names s = (Inr kept, s')"
  shows "set kept \<subseteq> set names" "rl_posts s' = rl_posts s"
  using assms set_take_subset
  by (fastforce simp: trim_nodes_to_model_topology_def op_bind_def rl_ask_def op_return_def Let_def
      split: sum.splits option.splits if_splits)+

lemma trim_raises: "trim_nodes_to_model_topology env names s = (Inl e, s') \<Longrightarrow> rl_posts s' = rl_posts s"
  by (auto simp: trim_nodes_to_model_topology_def op_bind_def rl_ask_def op_return_def split: sum.splits)

text \<open>What the server's answer makes the controller write.\<close>

lemma served_answer:
  assumes "served ag shown post" "post req s = (Inr act, s')"
  obtains resp where "act_endpoint (Some ag) req = Inr resp" "act = act_json shown resp"
proof -
  from assms(1) have "fst (post req s) = Inl ApiError \<or>
      (\<exists>r. act_endpoint (Some ag) req = Inr r \<and> fst (post req s) = Inr (act_json shown r))"
    unfolding served_def by blast
  with assms(2) that show thesis
    by auto
qed

lemma served_answer_pin:
  fixes ns :: "slurm_node list" and now :: real
  assumes "softmax_agent ag" "set names \<subseteq> sn_name ` set avail"
    "ns = map (\<lambda>name. the (map_of (dict_of (map (\<lambda>n. (sn_name n, n)) avail)) name)) names"
    "act_endpoint (Some ag) (build_act_payload cap now jobs ns) = Inr resp"
    "act_on_answer env cfg names (act_json shown resp) s = (r, s')"
  shows "rl_posts s' = rl_posts s \<or> (\<not> pl_shadow cfg \<and>
     (\<exists>j \<in> set jobs. \<exists>n \<in> set avail. \<exists>rel w. node_allows j n \<and> sl_mps_req j \<le> sn_free_mps n \<and>
        rl_posts s' = rl_posts s @ [(RequireNode (sl_job_id j) (sn_name n) rel, w)]))"
proof -
  let ?act = "act_json shown resp"
  from act_on_answer_posts [OF assms(5)] show ?thesis
  proof (elim disjE conjE exE)
    assume "rl_posts s' = rl_posts s"
    then show ?thesis ..
  next
    fix sel nji rel w
    assume shadow: "\<not> pl_shadow cfg" and sel: "j_get ?act ''selected_job_id'' JNull = sel" "sel \<noteq> JNull"
      and nji: "py_int (j_get ?act ''node_j'' JNull) = Inr nji" "0 \<le> nji" "nji < int (length names)"
      and posts: "rl_posts s' = rl_posts s @ [(RequireNode (py_str sel) (names ! nat nji) rel, w)]"
    from act_endpoint_answer [OF assms(1,4)] sel obtain i nj gk where
      p: "req_places (build_act_payload cap now jobs ns) i nj gk"
      and a: "as_selected_job_id resp = Some (rj_job_id (top_pending (build_act_payload cap now jobs ns) ! i))"
        "as_node_j resp = Some nj"
      by (auto simp: act_json_get opt_json_def)
    from payload_places [OF p] obtain j where j: "j \<in> set jobs"
      "rj_job_id (top_pending (build_act_payload cap now jobs ns) ! i) = sl_job_id j" "nj < length ns"
      "node_allows j (ns ! nj)" "sl_mps_req j \<le> sn_free_mps (ns ! nj)"
      by blast
    have "nji = int nj" "py_str sel = sl_job_id j"
      using nji(1) sel(1) a j(2) by (auto simp: act_json_get opt_json_def py_int_def py_str_def)
    moreover have nj: "nj < length names"
      using j(3) assms(3) by simp
    then have "names ! nj \<in> sn_name ` set avail"
      using assms(2) nth_mem by blast
    from by_name_mem [OF this] nj have "ns ! nj \<in> set avail" "sn_name (ns ! nj) = names ! nj"
      by (simp_all add: assms(3))
    ultimately show ?thesis
      using shadow posts j by (intro disjI2 conjI bexI [of _ j] bexI [of _ "ns ! nj"]) auto
  qed
qed

text \<open>The pin is legal for the jobs and nodes that were read by the call numbered \<open>c\<close> and the ones
  after it.\<close>

definition pin_from :: "rl_env \<Rightarrow> place_cfg \<Rightarrow> nat \<Rightarrow> job_update \<Rightarrow> bool" where
  "pin_from env cfg c u \<longleftrightarrow>
     (\<exists>parsed discovered jd nd. re_jobs env c = Inr jd \<and>
        parse_jobs (pl_default_runtime cfg) (pl_default_mps cfg) (re_time env (Suc c)) jd = Inr parsed \<and>
        re_nodes env (c + 2) = Inr nd \<and> parse_nodes (pl_mps_per_gpu cfg) nd = Inr discovered \<and>
        legal_pin cfg parsed discovered u)"

lemma choose_and_apply_posts:
  assumes "softmax_agent ag" "served ag shown (\<lambda>req. rl_ask (\<lambda>i. re_act env i req))"
    "choose_and_apply env cfg s = (r, s')"
  shows "rl_posts s' = rl_posts s \<or> (\<not> pl_shadow cfg \<and>
     (\<exists>u w. rl_posts s' = rl_posts s @ [(u, w)] \<and> pin_from env cfg (rl_calls s) u))"
proof (cases "rl_posts s' = rl_posts s")
  case True
  then show ?thesis ..
next
  case wrote: False
  let ?s1 = "s\<lparr>rl_calls := Suc (rl_calls s)\<rparr>"
  let ?s2 = "?s1\<lparr>rl_calls := Suc (Suc (rl_calls s))\<rparr>"
  let ?s3 = "?s2\<lparr>rl_calls := Suc (Suc (Suc (rl_calls s)))\<rparr>"
  note go = assms(3) [unfolded choose_and_apply_def]
  obtain jd where jd: "re_jobs env (rl_calls s) = Inr jd"
    using go wrote by (cases "re_jobs env (rl_calls s)") (auto simp: bind_ask)
  note go = go [unfolded bind_ask jd sum.case bind_clock bind_lift]
  obtain parsed where parsed:
    "parse_jobs (pl_default_runtime cfg) (pl_default_mps cfg) (re_time env (Suc (rl_calls s))) jd = Inr parsed"
    using go wrote
    by (cases "parse_jobs (pl_default_runtime cfg) (pl_default_mps cfg) (re_time env (Suc (rl_calls s))) jd") auto
  have jobs: "wanted_jobs cfg parsed \<noteq> []"
    using go wrote parsed by (auto simp: op_return_def)
  have calls: "rl_calls ?s1 = Suc (rl_calls s)" "rl_calls ?s2 = Suc (Suc (rl_calls s))"
    "?s1\<lparr>rl_calls := Suc (rl_calls ?s1)\<rparr> = ?s2" "?s2\<lparr>rl_calls := Suc (rl_calls ?s2)\<rparr> = ?s3"
    "rl_calls s + 2 = Suc (Suc (rl_calls s))"
    by simp_all
  note go = go [unfolded calls parsed sum.case Let_def if_not_P [OF jobs] bind_ask]
  obtain nd where nd: "re_nodes env (rl_calls s + 2) = Inr nd"
    using go wrote unfolding calls by (cases "re_nodes env (Suc (Suc (rl_calls s)))") auto
  note go = go [unfolded nd [unfolded calls] sum.case bind_lift]
  obtain discovered where disc: "parse_nodes (pl_mps_per_gpu cfg) nd = Inr discovered"
    using go wrote by (cases "parse_nodes (pl_mps_per_gpu cfg) nd") auto
  let ?avail = "wanted_nodes cfg discovered"
  let ?ns = "\<lambda>names. map (\<lambda>name. the (map_of (dict_of (map (\<lambda>n. (sn_name n, n)) ?avail)) name)) names"
  let ?rest = "\<lambda>names. op_bind (rl_clock (re_time env)) (\<lambda>ts.
     op_bind (rl_ask (\<lambda>i. re_act env i (build_act_payload (pl_mps_per_gpu cfg) ts (wanted_jobs cfg parsed) (?ns names))))
       (act_on_answer env cfg names))"
  note go = go [unfolded disc sum.case]
  have avail: "?avail \<noteq> []"
    using go wrote by (auto simp: op_return_def)
  have "op_bind (if pl_auto_trim cfg then trim_nodes_to_model_topology env (map sn_name ?avail)
      else op_return (map sn_name ?avail)) ?rest ?s3 = (r, s')"
    using go unfolding if_not_P [OF avail] bind_clock bind_ask .
  then obtain names s4 where names: "set names \<subseteq> sn_name ` set ?avail" "rl_posts s4 = rl_posts s"
    "?rest names s4 = (r, s')"
  proof (rule op_bind_cases)
    fix e
    assume t: "(if pl_auto_trim cfg then trim_nodes_to_model_topology env (map sn_name ?avail)
      else op_return (map sn_name ?avail)) ?s3 = (Inl e, s')"
    then have "rl_posts s' = rl_posts s"
      by (auto simp: op_return_def dest: trim_raises split: if_splits)
    with wrote show thesis ..
  next
    fix names s4
    assume t: "(if pl_auto_trim cfg then trim_nodes_to_model_topology env (map sn_name ?avail)
      else op_return (map sn_name ?avail)) ?s3 = (Inr names, s4)" and g: "?rest names s4 = (r, s')"
    have "set names \<subseteq> sn_name ` set ?avail \<and> rl_posts s4 = rl_posts s"
      using t trim_names by (fastforce simp: op_return_def split: if_splits)
    with g show thesis
      by (intro that) auto
  qed
  let ?req = "build_act_payload (pl_mps_per_gpu cfg) (re_time env (rl_calls s4)) (wanted_jobs cfg parsed) (?ns names)"
  let ?s5 = "s4\<lparr>rl_calls := Suc (rl_calls s4)\<rparr>"
  have ask: "op_bind (rl_ask (\<lambda>i. re_act env i ?req)) (act_on_answer env cfg names) ?s5 = (r, s')"
    using names(3) unfolding bind_clock .
  then obtain act s6 where act: "rl_ask (\<lambda>i. re_act env i ?req) ?s5 = (Inr act, s6)"
    "act_on_answer env cfg names act s6 = (r, s')"
  proof (rule op_bind_cases)
    fix e
    assume "rl_ask (\<lambda>i. re_act env i ?req) ?s5 = (Inl e, s')"
    then have "rl_posts s' = rl_posts s"
      using names(2) by (auto simp: rl_ask_def)
    with wrote show thesis ..
  qed (rule that)
  have s6: "rl_posts s6 = rl_posts s"
    using act(1) names(2) by (auto simp: rl_ask_def)
  obtain resp where "act_endpoint (Some ag) ?req = Inr resp" "act = act_json shown resp"
    using served_answer [OF assms(2) act(1)] .
  from served_answer_pin [OF assms(1) names(1) refl this(1), of env cfg shown s6 r s'] this(2) act(2) s6 wrote
  obtain j n rel w where "\<not> pl_shadow cfg" "j \<in> set (wanted_jobs cfg parsed)" "n \<in> set ?avail" "node_allows j n"
    "sl_mps_req j \<le> sn_free_mps n" "rl_posts s' = rl_posts s @ [(RequireNode (sl_job_id j) (sn_name n) rel, w)]"
    by auto
  then show ?thesis
    using jd parsed nd disc legal_pinI unfolding pin_from_def by blast
qed

section \<open>Draining\<close>

lemma drain_loop_result:
  "drain_loop k env cfg s = (Inr ds, s') \<Longrightarrow>
     length ds \<le> k \<and> (\<forall>i. Suc i < length ds \<longrightarrow> pd_applied (ds ! i)) \<and>
     (length ds < k \<longrightarrow> ds \<noteq> [] \<and> \<not> pd_applied (last ds))"
proof (induction k arbitrary: s ds)
  case 0
  then show ?case by (simp add: op_return_def)
next
  case (Suc k)
  from Suc.prems obtain d s1 where d: "choose_and_apply env cfg s = (Inr d, s1)"
    and rest: "(if pd_applied d then op_bind (drain_loop k env cfg) (\<lambda>ds. op_return (d # ds))
       else op_return [d]) s1 = (Inr ds, s')"
    by (auto elim: op_bind_cases)
  show ?case
  proof (cases "pd_applied d")
    case True
    with rest obtain ds' s2 where ds': "drain_loop k env cfg s1 = (Inr ds', s2)" "ds = d # ds'" "s2 = s'"
      by (auto elim!: op_bind_cases simp: op_return_def)
    show ?thesis
      using Suc.IH [of s1 ds'] ds' True by (auto simp: nth_Cons split: nat.splits)
  next
    case False
    with rest show ?thesis
      by (auto simp: op_return_def)
  qed
qed

lemma drain_loop_posts:
  assumes "softmax_agent ag" "served ag shown (\<lambda>req. rl_ask (\<lambda>i. re_act env i req))"
    "drain_loop k env cfg s = (r, s')"
  shows "\<exists>new. rl_posts s' = rl_posts s @ new \<and> length new \<le> k \<and>
    (\<forall>u \<in> fst ` set new. \<not> pl_shadow cfg \<and> (\<exists>c. pin_from env cfg c u))"
  using assms(3)
proof (induction k arbitrary: s r s')
  case 0
  then show ?case by (simp add: op_return_def)
next
  case (Suc k)
  obtain r1 s1 where one: "choose_and_apply env cfg s = (r1, s1)"
    by fastforce
  obtain new where new: "rl_posts s1 = rl_posts s @ new" "length new \<le> 1"
    "\<forall>u \<in> fst ` set new. \<not> pl_shadow cfg \<and> (\<exists>c. pin_from env cfg c u)"
    using choose_and_apply_posts [OF assms(1,2) one] by fastforce
  show ?case
  proof (cases "\<exists>d. r1 = Inr d \<and> pd_applied d")
    case False
    with Suc.prems one have "s' = s1"
      by (auto simp: op_bind_def op_return_def split: sum.splits)
    with new show ?thesis
      by (intro exI [of _ new]) simp
  next
    case True
    then obtain d where d: "r1 = Inr d" "pd_applied d"
      by blast
    obtain r2 s2 where rest: "drain_loop k env cfg s1 = (r2, s2)"
      by fastforce
    with Suc.prems one d have "s' = s2"
      by (auto simp: op_bind_def op_return_def split: sum.splits)
    moreover obtain new2 where new2: "rl_posts s2 = rl_posts s1 @ new2" "length new2 \<le> k"
      "\<forall>u \<in> fst ` set new2. \<not> pl_shadow cfg \<and> (\<exists>c. pin_from env cfg c u)"
      using Suc.IH [OF rest] by blast
    ultimately show ?thesis
      using new by (intro exI [of _ "new @ new2"]) auto
  qed
qed

end
