(* ===== verification/RlCycleFacts.thy ===== *)
theory RlCycleFacts
  imports RlRankFacts
begin

text \<open>
  What a cycle of the reorder daemon does to Slurm: reading and ranking write nothing, a completed
  cycle has written its order and read it back, and a cycle that fails after its first write has
  run the roll-back, whose own verification says what it achieved.
\<close>

section \<open>Reading and ranking write nothing\<close>

abbreviation posts_are :: "(job_update \<times> (py_error + jobj)) list \<Rightarrow> rl_state \<Rightarrow> bool" where
  "posts_are ps s \<equiv> rl_posts s = ps"

lemma keeps_collect [op_keeps]:
  "(\<And>x. x \<in> set xs \<Longrightarrow> keeps P (f x)) \<Longrightarrow> keeps P (op_collect f xs)"
  by (induction xs) (auto intro!: op_keeps)

lemma keeps_read_state: "keeps (posts_are ps) (read_state env cfg)"
  unfolding read_state_def parse_eligible_jobs_def eligible_item_def by (intro op_keeps) simp_all

lemma keeps_ask_priorities [op_keeps]: "keeps (posts_are ps) (ask_priorities env)"
  unfolding ask_priorities_def by (intro op_keeps) simp_all

lemma keeps_post_before [op_keeps]: "keeps (posts_are ps) (post_before env req)"
  unfolding post_before_def post_act_def by (intro op_keeps) simp_all

lemma keeps_deadline [op_keeps]: "keeps (posts_are ps) (check_deadline env dl)"
  unfolding check_deadline_def by (intro op_keeps) simp_all

lemma keeps_rank_round:
  "(\<And>req. keeps (posts_are ps) (post req)) \<Longrightarrow> keeps (posts_are ps) (rank_round env post strict dl cap ns remaining lf)"
  unfolding rank_round_def Let_def
  by (intro op_keeps) (auto intro!: op_keeps split: option.splits prod.splits)

lemma rank_loop_keeps:
  assumes "\<And>req. keeps (posts_are ps) (post req)" "posts_are ps s"
    "rank_loop env post strict dl cap ns remaining lf order s = (r, s')"
  shows "posts_are ps s'"
  using assms
proof (induction env post strict dl cap ns remaining lf order s rule: rank_loop.induct)
  case (1 env post strict dl cap ns remaining lf order s)
  note prems = "1.prems"
  show ?case
  proof (cases "remaining = []")
    case True
    with prems show ?thesis
      by (simp add: rank_loop.simps)
  next
    case False
    obtain r1 s1 where round: "rank_round env post strict dl cap ns remaining lf s = (r1, s1)"
      by fastforce
    have s1: "posts_are ps s1"
      using keepsD [OF keeps_rank_round [OF prems(1)] prems(2) round] .
    consider (stop) "s' = s1" | (pick) jid node f job where "r1 = Inr (RankPick jid node)"
      "map_of lf node = Some f" "map_of remaining jid = Some job"
      "rank_loop env post strict dl cap ns (dict_pop jid remaining)
          (dict_set node (f - sl_mps_req job) lf) (order @ [jid]) s1 = (r, s')"
      using prems(3) False round
      by (subst (asm) rank_loop.simps) (auto split: sum.splits rank_move.splits option.splits)
    then show ?thesis
    proof cases
      case stop
      with s1 show ?thesis by simp
    next
      case pick
      from "1.IH" [OF False round [symmetric] pick(1) refl pick(2,3) prems(1) s1 pick(4)] show ?thesis .
    qed
  qed
qed

lemma rank_pending_keeps:
  assumes "posts_are ps s" "rank_pending env (post_before env') strict dl cap ns pending free s = (r, s')"
  shows "posts_are ps s'"
  using rank_loop_keeps [where post = "post_before env'", OF _ assms(1) assms(2) [unfolded rank_pending_def]]
    keeps_post_before by blast

section \<open>Structure of a cycle\<close>

lemma op_bind_last: "op_bind m f s = (Inr y, s') \<Longrightarrow> \<exists>x t. f x t = (Inr y, s')"
  by (auto simp: op_bind_def split: prod.splits sum.splits)

lemma op_then_last: "op_then m n s = (Inr y, s') \<Longrightarrow> \<exists>t. n t = (Inr y, s')"
  unfolding op_then_def by (drule op_bind_last) blast

lemma rank_pending_order:
  assumes "rank_pending env post strict dl cap ns (map ParsedJob jobs) free s = (Inr order, s')"
  shows "distinct order \<and> set order = sl_job_id ` set jobs"
proof -
  let ?d = "dict_of (map (\<lambda>p. (sl_job_id (coerce_job p), coerce_job p)) (map ParsedJob jobs))"
  obtain tail where "order = [] @ tail" "distinct tail" "set tail = fst ` set ?d"
    using rank_loop_order [OF assms [unfolded rank_pending_def] keyed_dict_of] by blast
  moreover have "fst ` set ?d = sl_job_id ` set jobs"
    by (simp add: keys_dict_of image_comp)
  ultimately show ?thesis
    by simp
qed

lemma length_order_le: "distinct order \<Longrightarrow> set order = sl_job_id ` set jobs \<Longrightarrow> length order \<le> length jobs"
  by (metis card_image_le card_length distinct_card finite_set le_trans)

lemma signature_ids:
  assumes "state_signature st = state_signature st'"
  shows "sl_job_id ` set (fst st) = sl_job_id ` set (fst st')"
proof -
  have "map fst (map job_signature (fst st)) = map fst (map job_signature (fst st'))"
    using assms by (simp add: state_signature_def)
  then have "map sl_job_id (fst st) = map sl_job_id (fst st')"
    by (simp add: comp_def job_signature_def)
  then show ?thesis
    by (metis list.set_map)
qed

lemma rank_and_apply_cases:
  assumes "rank_and_apply env cfg dl st s = (r, s')"
  obtains (raised) e where "r = Inl e" "rl_posts s' = rl_posts s"
  | (applied) order jobs' s1 where "distinct order" "set order = sl_job_id ` set (fst st)"
      "sl_job_id ` set jobs' = sl_job_id ` set (fst st)" "rl_posts s1 = rl_posts s"
      "apply_order env cfg dl jobs' order s1 = (r, s')"
proof -
  have ask: "posts_are (rl_posts s) t'" if "rl_ask f t = (x, t')" "posts_are (rl_posts s) t" for f t x t'
    using that by (auto simp: rl_ask_def)
  from assms show thesis
    unfolding rank_and_apply_def
  proof (rule op_bind_cases)
    fix e
    assume "rl_ask (re_health env) s = (Inl e, s')" "r = Inl e"
    with ask show thesis
      by (intro raised) auto
  next
    fix health s1
    assume h: "rl_ask (re_health env) s = (Inr health, s1)" and
      rest: "(if \<not> topology_matches (length (rc_node_names cfg)) health then op_raise RuntimeError
       else op_bind (rank_pending env (post_before env) True (Some dl) (rc_mps_per_gpu cfg)
                    (map ParsedNode (snd st)) (map ParsedJob (fst st)) (free_of (snd st))) (\<lambda>order.
         op_then (check_deadline env (Some dl))
         (op_bind (read_state env cfg) (\<lambda>now_st.
            if state_signature st \<noteq> state_signature now_st then op_raise RuntimeError
            else apply_order env cfg dl (fst now_st) order)))) s1 = (r, s')"
    have s1: "posts_are (rl_posts s) s1"
      using ask [OF h] by simp
    show thesis
    proof (cases "topology_matches (length (rc_node_names cfg)) health")
      case False
      with rest s1 show thesis
        by (intro raised) (auto simp: op_raise_def)
    next
      case True
      with rest have "op_bind (rank_pending env (post_before env) True (Some dl) (rc_mps_per_gpu cfg)
                    (map ParsedNode (snd st)) (map ParsedJob (fst st)) (free_of (snd st))) (\<lambda>order.
         op_then (check_deadline env (Some dl))
         (op_bind (read_state env cfg) (\<lambda>now_st.
            if state_signature st \<noteq> state_signature now_st then op_raise RuntimeError
            else apply_order env cfg dl (fst now_st) order))) s1 = (r, s')"
        by simp
      then show thesis
      proof (rule op_bind_cases)
        fix e
        assume "rank_pending env (post_before env) True (Some dl) (rc_mps_per_gpu cfg)
                    (map ParsedNode (snd st)) (map ParsedJob (fst st)) (free_of (snd st)) s1 = (Inl e, s')"
          and "r = Inl e"
        with rank_pending_keeps [OF s1] show thesis
          by (intro raised) auto
      next
        fix order s2
        assume ord: "rank_pending env (post_before env) True (Some dl) (rc_mps_per_gpu cfg)
                    (map ParsedNode (snd st)) (map ParsedJob (fst st)) (free_of (snd st)) s1 = (Inr order, s2)"
          and rest: "op_then (check_deadline env (Some dl))
         (op_bind (read_state env cfg) (\<lambda>now_st.
            if state_signature st \<noteq> state_signature now_st then op_raise RuntimeError
            else apply_order env cfg dl (fst now_st) order)) s2 = (r, s')"
        have s2: "posts_are (rl_posts s) s2"
          using rank_pending_keeps [OF s1 ord] .
        from rest [unfolded op_then_def] show thesis
        proof (rule op_bind_cases)
          fix e
          assume "check_deadline env (Some dl) s2 = (Inl e, s')" "r = Inl e"
          with keepsD [OF keeps_deadline s2] show thesis
            by (intro raised) auto
        next
          fix u s3
          assume d: "check_deadline env (Some dl) s2 = (Inr u, s3)" and
            rest: "op_bind (read_state env cfg) (\<lambda>now_st.
            if state_signature st \<noteq> state_signature now_st then op_raise RuntimeError
            else apply_order env cfg dl (fst now_st) order) s3 = (r, s')"
          have s3: "posts_are (rl_posts s) s3"
            using keepsD [OF keeps_deadline s2 d] .
          from rest show thesis
          proof (rule op_bind_cases)
            fix e
            assume "read_state env cfg s3 = (Inl e, s')" "r = Inl e"
            with keepsD [OF keeps_read_state s3] show thesis
              by (intro raised) auto
          next
            fix st' s4
            assume rd: "read_state env cfg s3 = (Inr st', s4)" and
              rest: "(if state_signature st \<noteq> state_signature st' then op_raise RuntimeError
                else apply_order env cfg dl (fst st') order) s4 = (r, s')"
            have s4: "posts_are (rl_posts s) s4"
              using keepsD [OF keeps_read_state s3 rd] .
            show thesis
            proof (cases "state_signature st = state_signature st'")
              case False
              with rest s4 show thesis
                by (intro raised) (auto simp: op_raise_def)
            next
              case True
              with rest s4 rank_pending_order [OF ord] signature_ids [OF True] show thesis
                by (intro applied [of order "fst st'" s4]) auto
            qed
          qed
        qed
      qed
    qed
  qed
qed

lemma reorder_cycle_cases:
  assumes "reorder_cycle env cfg s = (r, s')"
  obtains (raised) e where "r = Inl e" "rl_posts s' = rl_posts s"
  | (idle) jobs ns s1 where "r = Inr []" "rl_posts s' = rl_posts s" "jobs = []"
      "read_state env cfg (s\<lparr>rl_calls := Suc (rl_calls s)\<rparr>) = (Inr (jobs, ns), s1)"
  | (applied) jobs ns s0 order jobs' dl s1 where
      "read_state env cfg (s\<lparr>rl_calls := Suc (rl_calls s)\<rparr>) = (Inr (jobs, ns), s0)"
      "distinct order" "set order = sl_job_id ` set jobs" "length order \<le> MAX_PENDING_JOBS"
      "sl_job_id ` set jobs' = sl_job_id ` set jobs" "rl_posts s1 = rl_posts s"
      "apply_order env cfg dl jobs' order s1 = (r, s')"
proof (cases "1 \<le> rc_max_jobs cfg \<and> rc_max_jobs cfg \<le> int MAX_PENDING_JOBS")
  case False
  with assms show thesis
    by (intro raised) (auto simp: reorder_cycle_def op_raise_def)
next
  case True
  let ?t = "re_mono env (rl_calls s)" and ?s0 = "s\<lparr>rl_calls := Suc (rl_calls s)\<rparr>"
  let ?f = "\<lambda>st. if fst st = [] then op_return []
          else if rc_max_jobs cfg < int (length (fst st)) then op_raise RuntimeError
          else rank_and_apply env cfg (?t + rc_deadline_seconds cfg) st"
  have "op_bind (read_state env cfg) ?f ?s0 = (r, s')"
    using assms True by (simp add: reorder_cycle_def bind_clock)
  then show thesis
  proof (rule op_bind_cases)
    fix e
    assume "read_state env cfg ?s0 = (Inl e, s')" "r = Inl e"
    with keepsD [OF keeps_read_state [where ps = "rl_posts s"], where s = ?s0] show thesis
      by (intro raised) auto
  next
    fix st s1
    assume rd: "read_state env cfg ?s0 = (Inr st, s1)" and rest: "?f st s1 = (r, s')"
    have s1: "rl_posts s1 = rl_posts s"
      using keepsD [OF keeps_read_state [where ps = "rl_posts s"], where s = ?s0] rd by auto
    consider "fst st = []" | "fst st \<noteq> []" "rc_max_jobs cfg < int (length (fst st))"
      | "fst st \<noteq> []" "\<not> rc_max_jobs cfg < int (length (fst st))"
      by blast
    then show thesis
    proof cases
      case 1
      with rest rd s1 show thesis
        by (cases st) (auto simp: op_return_def intro: idle)
    next
      case 2
      with rest s1 show thesis
        by (intro raised) (auto simp: op_raise_def)
    next
      case 3
      with rest have "rank_and_apply env cfg (?t + rc_deadline_seconds cfg) st s1 = (r, s')"
        by simp
      then show thesis
      proof (rule rank_and_apply_cases)
        fix e
        assume "r = Inl e" "rl_posts s' = rl_posts s1"
        with s1 show thesis
          by (intro raised) auto
      next
        fix order jobs' s2
        assume a: "distinct order" "set order = sl_job_id ` set (fst st)"
          "sl_job_id ` set jobs' = sl_job_id ` set (fst st)" "rl_posts s2 = rl_posts s1"
          "apply_order env cfg (?t + rc_deadline_seconds cfg) jobs' order s2 = (r, s')"
        have "length order \<le> MAX_PENDING_JOBS"
          using length_order_le [OF a(1,2)] 3(2) True by linarith
        with a s1 rd show thesis
          by (intro applied [of "fst st" "snd st" s1 order jobs' s2]) auto
      qed
    qed
  qed
qed

section \<open>Writing and reading back\<close>

definition last_priorities :: "rl_env \<Rightarrow> rl_state \<Rightarrow> (string, int) dict option" where
  \<comment> \<open>the priorities in the job list that was read last\<close>
  "last_priorities env s =
     (case re_jobs env (rl_calls s - 1) of
        Inl _ \<Rightarrow> None
      | Inr doc \<Rightarrow> (case pending_job_priorities doc of Inl _ \<Rightarrow> None | Inr ps \<Rightarrow> Some ps))"

definition shows_priority :: "rl_env \<Rightarrow> rl_state \<Rightarrow> string \<times> int \<Rightarrow> bool" where
  \<comment> \<open>the last job list was readable, and has the job at this priority or not pending any more\<close>
  "shows_priority env s jp \<longleftrightarrow>
     (case last_priorities env s of None \<Rightarrow> False | Some ps \<Rightarrow> map_of ps (fst jp) \<in> {None, Some (snd jp)})"

definition slot_of :: "string list \<Rightarrow> nat \<Rightarrow> string \<times> int" where
  "slot_of order i = (order ! i, RELEASE_BASE - int i * RELEASE_SPACING)"

lemma slot_priorities_distinct:
  assumes "distinct order"
  shows "slot_priorities order = map (slot_of order) [0..<length order]"
proof -
  have z: "map (\<lambda>(i, jid). (jid, RELEASE_BASE - int i * RELEASE_SPACING)) (zip [0..<length order] order)
      = map (slot_of order) [0..<length order]"
    by (intro nth_equalityI) (auto simp: slot_of_def)
  have "map fst (map (slot_of order) [0..<length order]) = order"
    by (intro nth_equalityI) (auto simp: slot_of_def)
  with assms z show ?thesis
    by (simp add: slot_priorities_def dict_of_distinct)
qed

lemma slot_in_band: "i < MAX_PENDING_JOBS \<Longrightarrow> owned_priority (snd (slot_of order i))"
  by (simp add: slot_of_def owned_priority_def band_defs)

lemma verified_shows:
  assumes "op_bind (ask_priorities env) (\<lambda>verified.
      if list_ex (\<lambda>jp. still (\<lambda>p. p \<noteq> snd jp) verified (fst jp)) jps then op_raise RuntimeError else op_return ()) s
    = (Inr u, s')"
  shows "\<forall>jp \<in> set jps. shows_priority env s' jp"
proof -
  obtain doc ps where "re_jobs env (rl_calls s) = Inr doc" "pending_job_priorities doc = Inr ps"
    "rl_calls s' = Suc (rl_calls s)" "\<not> list_ex (\<lambda>jp. still (\<lambda>p. p \<noteq> snd jp) ps (fst jp)) jps"
    using assms by (auto simp: op_bind_def ask_priorities_def rl_ask_def op_lift_def op_raise_def op_return_def
        split: prod.splits sum.splits if_splits)
  note facts = this
  show ?thesis
  proof
    fix jp
    assume "jp \<in> set jps"
    with facts(4) have "\<not> still (\<lambda>p. p \<noteq> snd jp) ps (fst jp)"
      by (auto simp: list_ex_iff)
    with facts(1-3) show "shows_priority env s' jp"
      by (auto simp: shows_priority_def last_priorities_def still_def split: option.splits)
  qed
qed

definition band_writes :: "string list \<Rightarrow> rl_state \<Rightarrow> rl_state \<Rightarrow> bool" where
  "band_writes order s s' \<longleftrightarrow>
     (\<exists>new. rl_posts s' = rl_posts s @ new \<and>
        (\<forall>u \<in> fst ` set new. \<exists>i<length order. u = SetPriority (order ! i) (RELEASE_BASE - int i * RELEASE_SPACING)))"

lemma keeps_write_priorities:
  assumes "distinct order"
  shows "keeps (band_writes order s0) (write_priorities env dl current (slot_priorities order))"
proof -
  have post: "band_writes order s0 (s\<lparr>rl_calls := k, rl_posts := rl_posts s @ [(SetPriority (order ! i)
      (RELEASE_BASE - int i * RELEASE_SPACING), r)]\<rparr>)"
    if b: "band_writes order s0 s" and i: "i < length order" for s k i r
  proof -
    obtain new where "rl_posts s = rl_posts s0 @ new"
      "\<forall>u \<in> fst ` set new. \<exists>i<length order. u = SetPriority (order ! i) (RELEASE_BASE - int i * RELEASE_SPACING)"
      using b unfolding band_writes_def by blast
    with i show ?thesis
      unfolding band_writes_def by (intro exI [of _ "new @ [(SetPriority (order ! i) _, r)]"]) auto
  qed
  have ask: "band_writes order s0 s \<Longrightarrow> band_writes order s0 (s\<lparr>rl_calls := k\<rparr>)" for s k
    by (simp add: band_writes_def)
  have one: "keeps (band_writes order s0) (write_one env dl current (slot_of order i))" if "i < length order" for i
    unfolding write_one_def set_priority_def slot_of_def using post [OF _ that] ask
    by (intro op_keeps) (auto intro!: op_keeps)
  show ?thesis
    unfolding write_priorities_def slot_priorities_distinct [OF assms] ask_priorities_def
    using one ask by (intro op_keeps) (auto intro!: op_keeps)
qed

text \<open>A non-shadow application of an order: it wrote the order and read it back, or it failed and was
  undone.\<close>

lemma apply_order_cases:
  assumes "apply_order env cfg dl jobs order s = (r, s')" "distinct order" "\<not> rc_shadow cfg"
  obtains (written) "r = Inr order" "band_writes order s s'"
      "\<forall>i<length order. shows_priority env s' (slot_of order i)"
  | (undone) e s1 where "r = Inl e" "band_writes order s s1"
      "s' = snd (undo_writes env (dict_of (map (\<lambda>j. (sl_job_id j, sl_priority j)) jobs)) s1)"
proof -
  let ?cur = "dict_of (map (\<lambda>j. (sl_job_id j, sl_priority j)) jobs)"
  let ?w = "write_priorities env dl ?cur (slot_priorities order)"
  have start: "band_writes order s s"
    by (simp add: band_writes_def)
  obtain r1 s1 where w: "?w s = (r1, s1)"
    by fastforce
  have band: "band_writes order s s1"
    using keepsD [OF keeps_write_priorities [OF assms(2)] start w] .
  have total: "\<exists>t'. undo_writes env ?cur t = (Inr (), t')" for t
    unfolding undo_writes_def op_then_def op_bind_def
    by (metis (no_types, lifting) case_prod_conv op_ignore_total sum.case(2))
  show thesis
  proof (cases r1)
    case (Inr u)
    with w assms(1,3) have "r = Inr order" "s' = s1"
      by (simp_all add: apply_order_def Let_def op_then_def op_bind_def op_catch_def op_return_def)
    moreover have "\<forall>jp \<in> set (slot_priorities order). shows_priority env s1 jp"
    proof -
      obtain t1 where "op_bind (rl_clock (re_mono env)) (\<lambda>_. op_bind (ask_priorities env) (\<lambda>verified.
        if list_ex (\<lambda>jp. still (\<lambda>p. p \<noteq> snd jp) verified (fst jp)) (slot_priorities order)
        then op_raise RuntimeError else op_return ())) t1 = (Inr u, s1)"
        using op_then_last [OF w [unfolded write_priorities_def Inr]] by blast
      from this [unfolded bind_clock] show ?thesis
        by (rule verified_shows)
    qed
    ultimately show thesis
      using band by (intro written) (auto simp: slot_priorities_distinct [OF assms(2)])
  next
    case (Inl e)
    obtain t' where u: "undo_writes env ?cur s1 = (Inr (), t')"
      using total by blast
    with w Inl assms(1,3) have "r = Inl e" "s' = t'"
      by (simp_all add: apply_order_def Let_def op_then_def op_bind_def op_catch_def op_raise_def)
    with u band show thesis
      by (intro undone) auto
  qed
qed

text \<open>A roll-back that returns has seen every job at its original priority, or no longer pending.\<close>

lemma restore_verified:
  assumes "restore_cycle_priorities env original s = (Inr u, s')" "original \<noteq> []"
  shows "\<forall>jp \<in> set original. shows_priority env s' jp"
proof -
  from assms have "op_bind (ask_priorities env) (\<lambda>pending.
        op_then (op_for original (restore_one env pending))
        (op_bind (ask_priorities env) (\<lambda>verified.
           if list_ex (\<lambda>jp. still (\<lambda>p. p \<noteq> snd jp) verified (fst jp)) original
           then op_raise RuntimeError else op_return ()))) s = (Inr u, s')"
    by (simp add: restore_cycle_priorities_def)
  from op_bind_last [OF this] obtain pending t where "op_then (op_for original (restore_one env pending))
        (op_bind (ask_priorities env) (\<lambda>verified.
           if list_ex (\<lambda>jp. still (\<lambda>p. p \<noteq> snd jp) verified (fst jp)) original
           then op_raise RuntimeError else op_return ())) t = (Inr u, s')"
    by blast
  from op_then_last [OF this] verified_shows show ?thesis
    by blast
qed

section \<open>The daemon\<close>

text \<open>In shadow mode the daemon writes nothing and its loop never raises.\<close>

lemma shadow_cycle_posts:
  assumes "reorder_cycle env cfg s = (r, s')" "rc_shadow cfg"
  shows "rl_posts s' = rl_posts s"
  using assms(1)
proof (rule reorder_cycle_cases)
  fix order jobs' dl s1
  assume "rl_posts s1 = rl_posts s" "apply_order env cfg dl jobs' order s1 = (r, s')"
  with assms(2) show "rl_posts s' = rl_posts s"
    by (auto simp: apply_order_def Let_def op_return_def)
qed

lemma shadow_iteration:
  assumes "rc_shadow cfg"
  shows "\<exists>s'. daemon_iteration env cfg s = (Inr (), s') \<and> rl_posts s' = rl_posts s"
proof -
  obtain r s1 where c: "reorder_cycle env cfg s = (r, s1)"
    by fastforce
  with shadow_cycle_posts [OF c assms] assms show ?thesis
    by (cases r) (simp_all add: daemon_iteration_def op_catch_def op_bind_def op_when_def op_return_def)
qed

lemma shadow_daemon:
  assumes "rc_shadow cfg"
  shows "\<exists>s'. daemon_run k env cfg s = (Inr (), s') \<and> rl_posts s' = rl_posts s"
proof -
  have "\<exists>s'. daemon_loop k env cfg s = (Inr (), s') \<and> rl_posts s' = rl_posts s" for s
  proof (induction k arbitrary: s)
    case 0
    show ?case by (simp add: op_return_def)
  next
    case (Suc k)
    obtain s1 where "daemon_iteration env cfg s = (Inr (), s1)" "rl_posts s1 = rl_posts s"
      using shadow_iteration [OF assms] by blast
    moreover obtain s2 where "daemon_loop k env cfg s1 = (Inr (), s2)" "rl_posts s2 = rl_posts s1"
      using Suc.IH by blast
    ultimately show ?case
      by (simp add: op_then_def op_bind_def)
  qed
  from this [of s] assms show ?thesis
    by (auto simp: daemon_run_def op_then_def op_bind_def op_when_def op_return_def)
qed

end
