(* ===== verification/RlEquiv.thy ===== *)
theory RlEquiv
  imports RlServeFacts
begin

text \<open>
  The policy server against the environment its policy was trained in: \<open>live_request\<close> is the request
  that describes a state of \<^verbatim>\<open>sim/gym_env.py\<close> without loss, and on it \<^verbatim>\<open>build_obs_and_mask\<close> computes
  the environment's observation and action mask, under the conditions collected in \<open>view_ok\<close>.
\<close>

definition live_job :: "job \<Rightarrow> rl_job" where
  "live_job j =
     \<lparr>rj_job_id = job_id j, rj_mps_req = mps_req j, rj_gpu_count = gpu_count j, rj_gpu_type = gpu_type j,
      rj_runtime = runtime j, rj_submit_ts = submit_ts j, rj_can_fit = True, rj_ram_req = ram_req j,
      rj_slo_s = slo_s j, rj_job_class = job_class j, rj_eligible = None\<rparr>"

definition live_gpu :: "cluster \<Rightarrow> nat \<Rightarrow> nat \<Rightarrow> rl_gpu" where
  "live_gpu c ni gi =
     \<lparr>rg_free_mps = free_mps (gpus (nodes c ! ni) ! gi), rg_running_jobs = int (running_on c ni gi),
      rg_gpu_type = node_gpu_type (nodes c ! ni), rg_free_ram_ratio = free_ram_ratio (nodes c ! ni)\<rparr>"

definition live_nodes :: "cluster \<Rightarrow> rl_node list" where
  "live_nodes c = map (\<lambda>ni. map (live_gpu c ni) [0..<gpus_per_node c]) [0..<n_nodes c]"

definition live_request :: "env_cfg \<Rightarrow> gym_state \<Rightarrow> act_req" where
  "live_request cfg s =
     \<lparr>aq_now = gs_now s, aq_pending_jobs = map live_job (gs_pending s), aq_nodes = live_nodes (gs_cluster s),
      aq_n_nodes = int (ec_nodes cfg), aq_gpus_per_node = int (ec_gpus cfg), aq_mps_per_gpu = ec_cap cfg\<rparr>"

lemma live_request_sel [simp]:
  "aq_now (live_request cfg s) = gs_now s" "aq_pending_jobs (live_request cfg s) = map live_job (gs_pending s)"
  "aq_nodes (live_request cfg s) = live_nodes (gs_cluster s)"
  "aq_n_nodes (live_request cfg s) = int (ec_nodes cfg)"
  "aq_gpus_per_node (live_request cfg s) = int (ec_gpus cfg)" "aq_mps_per_gpu (live_request cfg s) = ec_cap cfg"
  by (simp_all add: live_request_def)

text \<open>The server cuts the list of pending jobs before it counts the heavy and the multi-GPU ones, and
  does not know of jobs that span nodes: the views agree when nothing is cut and no job spans.\<close>

definition view_ok :: "env_cfg \<Rightarrow> gym_state \<Rightarrow> bool" where
  "view_ok cfg s \<longleftrightarrow>
     (let c = gs_cluster s in
      shape (n_nodes c) (gpus_per_node c) (nodes c) \<and> n_nodes c = ec_nodes cfg \<and>
      gpus_per_node c = ec_gpus cfg \<and> mps_per_gpu c = ec_cap cfg \<and> 0 < ec_cap cfg \<and>
      0 < ec_nodes cfg \<and> 0 < ec_gpus cfg \<and> ec_top_k cfg = TOP_K \<and> \<not> ec_colocation cfg \<and>
      length (gs_pending s) \<le> TOP_K \<and> list_all (\<lambda>j. -1 < runtime j) (gs_pending s) \<and>
      list_all (\<lambda>e. length (plan_hosts (snd e)) \<le> 1) (active c))"

lemma view_okD:
  assumes "view_ok cfg s"
  shows "shape (n_nodes (gs_cluster s)) (gpus_per_node (gs_cluster s)) (nodes (gs_cluster s))"
    "n_nodes (gs_cluster s) = ec_nodes cfg" "gpus_per_node (gs_cluster s) = ec_gpus cfg"
    "mps_per_gpu (gs_cluster s) = ec_cap cfg" "0 < ec_cap cfg" "0 < ec_nodes cfg" "0 < ec_gpus cfg"
    "ec_top_k cfg = TOP_K" "\<not> ec_colocation cfg" "length (gs_pending s) \<le> TOP_K"
    "\<forall>j \<in> set (gs_pending s). -1 < runtime j"
    "\<forall>e \<in> set (active (gs_cluster s)). length (plan_hosts (snd e)) \<le> 1"
  using assms unfolding view_ok_def Let_def list_all_iff by blast+

section \<open>Features\<close>

lemma sort_key_map: "sort_key f (map g xs) = map g (sort_key (\<lambda>x. f (g x)) xs)"
proof -
  have "insort_key f (g x) (map g ys) = map g (insort_key (\<lambda>x. f (g x)) x ys)" for x ys
    by (induction ys) auto
  then show ?thesis
    by (induction xs) simp_all
qed

lemma top_pending_live:
  assumes "ec_top_k cfg = TOP_K"
  shows "top_pending (live_request cfg s) = map live_job (top_k_jobs cfg s)"
  using assms by (simp add: top_pending_def top_k_jobs_def sort_key_map take_map live_job_def)

lemma serve_job_feat_live:
  "0 < cap \<Longrightarrow> -1 < runtime j \<Longrightarrow> serve_job_feat (live_job j) now cap = Inr (job_feat j now cap)"
  by (simp add: serve_job_feat_def live_job_def job_feat_def Let_def RAM_REF_GB_def rl_one_hot_def one_hot_def)

lemma res_map_Inr: "(\<And>x. x \<in> set xs \<Longrightarrow> f x = Inr (g x)) \<Longrightarrow> res_map f xs = Inr (map g xs)"
  by (induction xs) simp_all

lemma res_map_map: "res_map f (map g xs) = res_map (\<lambda>x. f (g x)) xs"
  by (induction xs) simp_all

lemma pad_features:
  assumes "length xs \<le> k"
  shows "concat (map (\<lambda>i. if i < length xs then f (xs ! i) else z) [0..<k])
    = concat (map f xs) @ concat (replicate (k - length xs) z)"
proof -
  have split: "[0..<k] = [0..<length xs] @ [length xs..<k]"
    using assms by (metis le_add_diff_inverse upt_add_eq_append zero_le)
  have "map (\<lambda>i. if i < length xs then f (xs ! i) else z) [0..<length xs] = map f xs"
    by (intro nth_equalityI) auto
  moreover have "map (\<lambda>i. if i < length xs then f (xs ! i) else z) [length xs..<k] = replicate (k - length xs) z"
    by (intro nth_equalityI) auto
  ultimately show ?thesis
    unfolding split by simp
qed

lemma serve_gpu_feat_live:
  "mps_per_gpu c = cap \<Longrightarrow> 0 < cap \<Longrightarrow> serve_gpu_feat (live_gpu c ni gi) cap = gpu_feat c ni gi"
  by (simp add: serve_gpu_feat_def live_gpu_def gpu_feat_def Let_def rl_one_hot_def one_hot_def)

lemma req_gpu_feats_live:
  assumes "view_ok cfg s"
  shows "req_gpu_feats (live_request cfg s) =
    concat (map (\<lambda>ni. concat (map (\<lambda>gi.
          if ni < n_nodes (gs_cluster s) \<and> gi < gpus_per_node (gs_cluster s) then gpu_feat (gs_cluster s) ni gi
          else replicate GPU_FEAT_DIM 0) [0..<ec_gpus cfg])) [0..<ec_nodes cfg])"
  using view_okD(2-5) [OF assms]
  by (auto simp: req_gpu_feats_def live_nodes_def serve_gpu_feat_live
      intro!: arg_cong [where f = concat] map_cong)

lemma serve_topo_feat_live:
  assumes "view_ok cfg s"
  shows "serve_topo_feat (map live_job (gs_pending s)) (live_nodes (gs_cluster s)) = topo_feat (gs_pending s) (gs_cluster s)"
proof -
  let ?c = "gs_cluster s"
  note v = view_okD [OF assms]
  have "filter (\<lambda>nd. nd \<noteq> []) (live_nodes ?c) = live_nodes ?c"
    using v(3,7) by (auto simp: live_nodes_def filter_id_conv)
  moreover have ram: "map (\<lambda>nd. rg_free_ram_ratio (hd nd)) (live_nodes ?c) = map free_ram_ratio (nodes ?c)"
    using v(1,3,7) by (intro nth_equalityI) (auto simp: live_nodes_def live_gpu_def shape_def hd_map)
  moreover have "nodes ?c \<noteq> []"
    using v(1,2,6) by (auto simp: shape_def)
  moreover have "filter (\<lambda>p. 1 < length (plan_hosts p)) (dict_values (active ?c)) = []"
    using v(12) by (auto simp: dict_values_def filter_empty_conv not_less)
  ultimately show ?thesis
    by (cases "nodes ?c") (simp_all add: serve_topo_feat_def topo_feat_def Let_def filter_map comp_def live_job_def)
qed

lemma free_mps_live:
  assumes "view_ok cfg s"
  shows "map (\<lambda>nd. sum_list (map rg_free_mps nd)) (live_nodes (gs_cluster s)) = free_mps_per_node (gs_cluster s)"
proof -
  let ?c = "gs_cluster s"
  note v = view_okD [OF assms]
  have "map (\<lambda>gi. free_mps (gpus (nodes ?c ! ni) ! gi)) [0..<gpus_per_node ?c] = map free_mps (gpus (nodes ?c ! ni))"
    if "ni < n_nodes ?c" for ni
    using v(1) that by (intro nth_equalityI) (auto simp: shape_def)
  then have "map (\<lambda>nd. sum_list (map rg_free_mps nd)) (live_nodes ?c) =
      map (\<lambda>ni. sum_list (map free_mps (gpus (nodes ?c ! ni)))) [0..<n_nodes ?c]"
    by (auto simp: live_nodes_def live_gpu_def comp_def intro!: map_cong)
  also have "\<dots> = free_mps_per_node ?c"
    using v(1) by (intro nth_equalityI) (auto simp: free_mps_per_node_def free_mps_total_def shape_def)
  finally show ?thesis .
qed

lemma serve_global_feat_live:
  assumes "view_ok cfg s"
  shows "serve_global_feat (map live_job (gs_pending s)) (live_nodes (gs_cluster s)) now
    = global_feat (gs_pending s) (gs_cluster s) now"
proof -
  let ?c = "gs_cluster s"
  note v = view_okD [OF assms]
  have "live_nodes ?c \<noteq> []"
    using v(2,6) by (simp add: live_nodes_def)
  moreover have "length (free_mps_per_node ?c) = n_nodes ?c"
    using v(1) by (simp add: free_mps_per_node_def shape_def)
  moreover have "runtime_spread (map runtime (gs_pending s)) = predictor_spread (gs_pending s)"
    by (simp add: runtime_spread_def predictor_spread_def)
  ultimately show ?thesis
    by (simp add: serve_global_feat_def global_feat_def Let_def free_mps_live [OF assms] comp_def live_job_def)
qed

section \<open>Observation and mask\<close>

lemma serve_obs_live:
  assumes "view_ok cfg s"
  shows "\<exists>mk ids. build_obs_and_mask (live_request cfg s) = Inr (build_obs cfg s, mk, ids)"
proof -
  note v = view_okD [OF assms]
  let ?req = "live_request cfg s" and ?tk = "top_k_jobs cfg s"
  have perm: "top_pending ?req = map live_job ?tk"
    by (rule top_pending_live [OF v(8)])
  have sub: "set ?tk \<subseteq> set (gs_pending s)"
    using set_top_k by blast
  have feats: "res_map (\<lambda>j. serve_job_feat j (gs_now s) (ec_cap cfg)) (map live_job ?tk) =
      Inr (map (\<lambda>j. job_feat j (gs_now s) (ec_cap cfg)) ?tk)"
  proof -
    have "res_map (\<lambda>j. serve_job_feat j (gs_now s) (ec_cap cfg)) (map live_job ?tk)
      = res_map (\<lambda>j. serve_job_feat (live_job j) (gs_now s) (ec_cap cfg)) ?tk"
      by (rule res_map_map)
    also have "\<dots> = Inr (map (\<lambda>j. job_feat j (gs_now s) (ec_cap cfg)) ?tk)"
      using v(5,11) sub by (intro res_map_Inr serve_job_feat_live) auto
    finally show ?thesis .
  qed
  have topo: "serve_topo_feat (map live_job ?tk) (live_nodes (gs_cluster s)) = topo_feat (gs_pending s) (gs_cluster s)"
  proof -
    have "mset ?tk = mset (gs_pending s)"
      using v(8,10) by (simp add: top_k_jobs_def)
    then have "length (filter P ?tk) = length (filter P (gs_pending s))" "length ?tk = length (gs_pending s)" for P
      by (metis mset_filter size_mset)+
    then have "serve_topo_feat (map live_job ?tk) (live_nodes (gs_cluster s))
        = serve_topo_feat (map live_job (gs_pending s)) (live_nodes (gs_cluster s))"
      by (simp add: serve_topo_feat_def Let_def filter_map comp_def)
    with serve_topo_feat_live [OF assms] show ?thesis
      by simp
  qed
  have "length ?tk \<le> TOP_K"
    using length_top_k [of cfg s] v(8) by simp
  then show ?thesis
    using feats topo pad_features [of ?tk TOP_K "\<lambda>j. job_feat j (gs_now s) (ec_cap cfg)" "replicate JOB_FEAT_DIM 0"]
      req_gpu_feats_live [OF assms] serve_global_feat_live [OF assms, of "gs_now s"] v(8)
    by (simp add: build_obs_and_mask_def perm build_obs_def Let_def req_placements_def not_less)
qed

text \<open>For a fractional job on nodes with RAM to spare, the server's feasibility test is the planner's.\<close>

definition ram_spare :: "gym_state \<Rightarrow> bool" where
  "ram_spare s \<longleftrightarrow>
     list_all (\<lambda>j. fractional (gs_cluster s) j \<and>
       list_all (\<lambda>ni. ram_ok (gs_cluster s) ni (ram_req j)) [0..<n_nodes (gs_cluster s)]) (gs_pending s)"

lemma req_places_live:
  assumes "view_ok cfg s" "ram_spare s"
  shows "req_places (live_request cfg s) i nj gk \<longleftrightarrow>
    i < length (top_k_jobs cfg s) \<and> nj < ec_nodes cfg \<and> gk < ec_gpus cfg \<and>
    can_allocate_on (gs_cluster s) (top_k_jobs cfg s ! i) nj gk"
proof -
  note v = view_okD [OF assms(1)]
  let ?c = "gs_cluster s" and ?tk = "top_k_jobs cfg s"
  have perm: "top_pending (live_request cfg s) = map live_job ?tk"
    by (rule top_pending_live [OF v(8)])
  show ?thesis
  proof (cases "i < length ?tk \<and> nj < ec_nodes cfg \<and> gk < ec_gpus cfg")
    case True
    then have "?tk ! i \<in> set (gs_pending s)"
      using set_top_k nth_mem by blast
    then have "fractional ?c (?tk ! i)" "ram_ok ?c nj (ram_req (?tk ! i))"
      using assms(2) True v(2) by (auto simp: ram_spare_def list_all_iff)
    with True v(2,3) show ?thesis
      by (simp add: req_places_def perm live_nodes_def live_job_def live_gpu_def
          node_permitted_def can_allocate_on_def plan_on_def)
  next
    case False
    then show ?thesis
      by (auto simp: req_places_def perm)
  qed
qed

lemma serve_mask_live:
  assumes "view_ok cfg s" "ram_spare s"
  shows "req_mask (live_request cfg s) = base_mask cfg s"
proof (rule nth_equalityI)
  note v = view_okD [OF assms(1)]
  let ?req = "live_request cfg s"
  have np: "nat (req_placements ?req) = ec_nodes cfg * ec_gpus cfg"
    by (simp add: req_placements_def nat_mult_distrib)
  have nm: "n_modes cfg = 1"
    using v(9) by (simp add: n_modes_def)
  have noop: "req_no_op ?req = no_op cfg" "n_act cfg = no_op cfg + 1"
    using v(8) nm by (simp_all add: req_no_op_def np no_op_def n_act_def)
  then show "length (req_mask ?req) = length (base_mask cfg s)"
    by (simp add: length_req_mask)
  have code: "req_action ?req i nj gk = encode cfg i (nj * ec_gpus cfg + gk) 0" for i nj gk
    unfolding req_action_def np by (simp add: encode_def n_placements_def nm)
  have legal: "a \<in> set (req_legal ?req) \<longleftrightarrow> a \<in> set (legal_actions cfg s)" for a
    by (auto simp: mem_req_legal mem_legal_actions req_places_live [OF assms] code nm mode_legal_def MODE_ISOLATE_def)
  fix a
  assume "a < length (req_mask ?req)"
  then consider "a < no_op cfg" | "a = no_op cfg"
    by (fastforce simp: length_req_mask noop)
  then show "req_mask ?req ! a = base_mask cfg s ! a"
  proof cases
    case 1
    with noop show ?thesis
      using req_mask_nth [of a ?req] legal by (simp add: base_mask_nth)
  next
    case 2
    with noop show ?thesis
      using req_mask_no_op [of ?req] by (simp add: base_mask_nth)
  qed
qed

end
