(* ===== verification/RlDemo.thy ===== *)
theory RlDemo
  imports RlPlaceFacts RlCycleFacts RlEquiv
begin

text \<open>
  A small cluster for the witnesses of the live services: one node with 100 slots, one pending job
  that wants 50 of them, an agent that always prefers the first action, and the world in which
  slurmrestd shows them. The job's priority is 100 up to a given call and 5000000 from then on.
\<close>

definition demo_jobs_doc :: "int \<Rightarrow> jobj" where
  "demo_jobs_doc priority = [(''jobs'', JList [JObj [(''job_id'', JInt 7), (''job_state'', JStr ''PENDING''),
     (''state_reason'', JStr ''Resources''), (''priority'', JInt priority), (''partition'', JStr ''gpu''),
     (''tres_per_node'', JStr ''gres/mps=50''), (''time_limit'', JInt 1), (''submit_time'', JInt 10)]])]"

definition demo_nodes_doc :: jobj where
  "demo_nodes_doc = [(''nodes'', JList [JObj [(''name'', JStr ''n1''), (''state'', JStr ''IDLE''),
     (''gres'', JStr ''gpu:rtx4070:1,mps:100'')]])]"

definition demo_slurm_job :: "int \<Rightarrow> slurm_job" where
  "demo_slurm_job priority = \<lparr>sl_job_id = ''7'', sl_name = [], sl_reason = ''Resources'', sl_mps_req = 50,
     sl_gpu_count = 1, sl_gpu_type = ''rtx4070'', sl_runtime = 60, sl_submit_ts = 10, sl_priority = priority,
     sl_partition = ''gpu'', sl_required_nodes = [], sl_ram_req = 0, sl_slo_s = 0, sl_job_class = ''batch'',
     sl_required_gpu_type = []\<rparr>"

definition demo_slurm_node :: slurm_node where
  "demo_slurm_node = \<lparr>sn_name = ''n1'', sn_free_mps = 100, sn_running_jobs = 0, sn_gpu_type = ''rtx4070'',
     sn_available = True\<rparr>"

lemma demo_parse_jobs: "parse_jobs 300 25 20 (demo_jobs_doc 100) = Inr [demo_slurm_job 100]"
  by code_simp
lemma demo_parse_nodes: "parse_nodes 100 demo_nodes_doc = Inr [demo_slurm_node]"
  by code_simp

definition demo_pick :: jobj where
  "demo_pick = [(''action'', JInt 0), (''node_j'', JInt 0), (''gpu_k'', JInt 0), (''selected_job_id'', JStr ''7''),
     (''value'', JFloat ''1.0'' 1), (''entropy'', JFloat ''0.0'' 0)]"

definition demo_world :: "nat \<Rightarrow> (nat \<Rightarrow> act_req \<Rightarrow> py_error + jobj) \<Rightarrow> rl_env" where
  "demo_world k act =
     \<lparr>re_time = (\<lambda>i. 20), re_mono = (\<lambda>i. 0),
      re_jobs = (\<lambda>i. Inr (demo_jobs_doc (if i < k then 100 else 5000000))),
      re_nodes = (\<lambda>i. Inr demo_nodes_doc), re_health = (\<lambda>i. Inr [(''obs_dim'', JInt 161), (''n_actions'', JInt 17)]),
      re_act = act, re_update = (\<lambda>i u. Inr [])\<rparr>"

definition demo_cycle :: "bool \<Rightarrow> cycle_cfg" where
  "demo_cycle shadow = \<lparr>rc_node_names = [''n1''], rc_gpu_partitions = [''gpu''], rc_mps_per_gpu = 100,
     rc_max_jobs = 150, rc_deadline_seconds = 30, rc_default_runtime = 300, rc_job_name_prefix = [],
     rc_shadow = shadow\<rparr>"

definition demo_start :: rl_state where
  "demo_start = \<lparr>rl_calls = 0, rl_posts = []\<rparr>"



definition greedy_agent :: agent where
  \<comment> \<open>an actor that always prefers action 0\<close>
  "greedy_agent = \<lparr>ag_obs_dim = 161, ag_n_actions = 17, ag_has_actor = False,
     ag_policy = (\<lambda>obs mk. (replicate (length mk) 0, replicate (length mk) 0)),
     ag_values = (\<lambda>obs. 1 # replicate 16 0)\<rparr>"

definition demo_served :: "nat \<Rightarrow> act_req \<Rightarrow> py_error + jobj" where
  "demo_served i req =
     (case act_endpoint (Some greedy_agent) req of
        Inl e \<Rightarrow> Inl ApiError | Inr r \<Rightarrow> Inr (act_json (\<lambda>x. ''0.0'') r))"

definition demo_place :: place_cfg where
  "demo_place = \<lparr>pl_node_names = [], pl_node_name_prefix = [], pl_job_id = [], pl_job_name_prefix = [],
     pl_mps_per_gpu = 100, pl_default_mps = 25, pl_default_runtime = 300, pl_release = True, pl_shadow = False,
     pl_release_priority = RELEASE_PRIORITY, pl_auto_trim = False, pl_require_held = False\<rparr>"

lemma softmax_greedy: "softmax_agent greedy_agent"
  by (simp add: softmax_agent_def greedy_agent_def)

definition demo_req :: act_req where
  "demo_req = build_act_payload 100 20 [demo_slurm_job 100] [demo_slurm_node]"

lemma demo_mask: "req_mask demo_req = (replicate 17 False)[0 := True, 16 := True]"
  by code_simp

lemma demo_ids: "req_top_ids demo_req = Some ''7'' # replicate 15 None"
  by code_simp

definition demo_resp :: act_resp where
  "demo_resp = \<lparr>as_action = 0, as_job_i = Some 0, as_node_j = Some 0, as_gpu_k = Some 0,
     as_selected_job_id = Some ''7'', as_value = 1, as_entropy = 0\<rparr>"

lemma demo_flat: "flatnonzero ((replicate 17 False)[0 := True, 16 := True]) = [0, 16]"
  by code_simp

lemma demo_dims:
  "aq_n_nodes demo_req = 1" "aq_gpus_per_node demo_req = 1" "req_placements demo_req = 1"
  "req_no_op demo_req = 16" "aq_now demo_req = 20" "aq_mps_per_gpu demo_req = 100"
  "top_pending demo_req = [act_job [demo_slurm_node] (demo_slurm_job 100)]"
  by (simp_all add: req_placements_def req_no_op_def TOP_K_def demo_req_def build_act_payload_def top_pending_def
      PLACE_TOP_K_def)

text \<open>On a request for one job and one GPU the greedy agent answers action 0.\<close>

lemma greedy_build:
  assumes "aq_n_nodes req = 1" "aq_gpus_per_node req = 1" "top_pending req = [j]"
    "serve_job_feat j (aq_now req) (aq_mps_per_gpu req) = Inr f"
  shows "\<exists>obs. build_obs_and_mask req = Inr (obs, req_mask req, req_top_ids req) \<and> length obs = 161"
proof -
  obtain obs where "build_obs_and_mask req = Inr (obs, req_mask req, req_top_ids req)"
    by (simp add: build_obs_and_mask_def Let_def req_placements_def assms)
  with build_obs_length [OF this] show ?thesis
    by (simp add: assms layout_defs)
qed

lemma greedy_select: "select greedy_agent obs ((replicate 17 False)[0 := True, 16 := True]) = Inr (0, 1, 0)"
  by (simp add: select_def greedy_agent_def demo_flat)

lemma greedy_dims: "ag_obs_dim greedy_agent = 161" "ag_n_actions greedy_agent = 17"
  by (simp_all add: greedy_agent_def)

lemma demo_job_feat: "\<exists>f. serve_job_feat (act_job [demo_slurm_node] (demo_slurm_job 100)) 20 100 = Inr f"
  by (simp add: serve_job_feat_def act_job_def demo_slurm_job_def Let_def)

lemma demo_answer: "act_endpoint (Some greedy_agent) demo_req = Inr demo_resp"
proof -
  from demo_job_feat greedy_build [of demo_req] obtain obs where
    "build_obs_and_mask demo_req = Inr (obs, req_mask demo_req, req_top_ids demo_req)" "length obs = 161"
    by (auto simp: demo_dims)
  then show ?thesis
    by (simp add: act_endpoint_def demo_resp_def demo_dims demo_ids demo_mask Let_def greedy_select greedy_dims)
qed

lemma demo_served_ok: "served greedy_agent (\<lambda>x. ''0.0'') (\<lambda>req. rl_ask (\<lambda>i. demo_served i req))"
  by (auto simp: served_def rl_ask_def demo_served_def split: sum.splits)

lemma demo_world_sel [simp]:
  "re_time (demo_world k act) i = 20" "re_mono (demo_world k act) i = 0"
  "re_jobs (demo_world k act) i = Inr (demo_jobs_doc (if i < k then 100 else 5000000))"
  "re_nodes (demo_world k act) i = Inr demo_nodes_doc" "re_act (demo_world k act) = act"
  "re_update (demo_world k act) i u = Inr []"
  by (simp_all add: demo_world_def)

lemma demo_wanted: "wanted_jobs demo_place [demo_slurm_job p] = [demo_slurm_job p]"
   "wanted_nodes demo_place [demo_slurm_node] = [demo_slurm_node]"
  by (simp_all add: wanted_jobs_def wanted_nodes_def demo_place_def demo_slurm_job_def demo_slurm_node_def startswith_def)

lemma demo_cfg: "pl_default_runtime demo_place = 300" "pl_default_mps demo_place = 25" "pl_mps_per_gpu demo_place = 100"
  "\<not> pl_auto_trim demo_place" "\<not> pl_shadow demo_place" "pl_release demo_place" "pl_release_priority demo_place = RELEASE_PRIORITY"
  by (simp_all add: demo_place_def)

lemma demo_served_req: "demo_served i demo_req = Inr (act_json (\<lambda>x. ''0.0'') demo_resp)"
  by (simp add: demo_served_def demo_answer)

lemma demo_names: "map (\<lambda>name. the (map_of (dict_of (map (\<lambda>n. (sn_name n, n)) [demo_slurm_node])) name)) (map sn_name [demo_slurm_node]) = [demo_slurm_node]"
  by (simp add: dict_of_def demo_slurm_node_def)

lemma demo_placement: "rl_posts (snd (choose_and_apply (demo_world 100 demo_served) demo_place demo_start)) = 
  [(RequireNode ''7'' ''n1'' (Some PriorityInfinite), Inr [])]"
proof -
  have "choose_and_apply (demo_world 100 demo_served) demo_place demo_start =
    act_on_answer (demo_world 100 demo_served) demo_place [sn_name demo_slurm_node] (act_json (\<lambda>x. ''0.0'') demo_resp) \<lparr>rl_calls = 5, rl_posts = []\<rparr>"
    using demo_names 
    by (simp add: choose_and_apply_def bind_ask bind_clock bind_lift demo_cfg demo_start_def demo_parse_jobs demo_parse_nodes Let_def demo_wanted
     op_bind_def [of "op_return _"] op_return_def demo_req_def [symmetric] demo_served_req eval_nat_numeral)
  also have "\<dots> = act_on_answer (demo_world 100 (\<lambda>i q. Inl ApiError)) demo_place [sn_name demo_slurm_node]
      (act_json (\<lambda>x. ''0.0'') demo_resp) \<lparr>rl_calls = 5, rl_posts = []\<rparr>"
    by (simp add: act_on_answer_def apply_hard_placement_def rl_update_def [abs_def] cong: if_cong)
  finally have "choose_and_apply (demo_world 100 demo_served) demo_place demo_start = \<dots>" .
  moreover have "rl_posts (snd \<dots>) =  [(RequireNode ''7'' ''n1'' (Some PriorityInfinite), Inr [])]"
    by code_simp
  ultimately show ?thesis by simp
qed

lemma demo_ranking: "fst (rank_pending (demo_world 100 demo_served) (post_before (demo_world 100 demo_served)) True (Some 30) 100
   (map ParsedNode [demo_slurm_node]) (map ParsedJob [demo_slurm_job 100]) [(''n1'', 100)] demo_start) = Inr [''7'']"
proof -
  have d: "dict_of (map (\<lambda>p. (sl_job_id (coerce_job p), coerce_job p)) (map ParsedJob [demo_slurm_job 100])) = [(''7'', demo_slurm_job 100)]"
    by code_simp
  have b: "take TOP_K (by_submit [(''7'', demo_slurm_job 100)]) = [demo_slurm_job 100]"
    by (simp add: by_submit_def dict_values_def TOP_K_def)
  have n: "coerce_node [(''n1'', 100)] (ParsedNode demo_slurm_node) = demo_slurm_node"
    by code_simp
  have pick: "accepted_pick demo_req [demo_slurm_node] [(''7'', demo_slurm_job 100)] (act_json (\<lambda>x. ''0.0'') demo_resp) = Some (''7'', ''n1'')"
    by code_simp
  have "fst (rank_round (demo_world 100 demo_served) (post_before (demo_world 100 demo_served)) True (Some 30) 100
      [ParsedNode demo_slurm_node] [(''7'', demo_slurm_job 100)] [(''n1'', 100)] demo_start) = Inr (RankPick ''7'' ''n1'')"
    by (simp add: rank_round_def op_then_def check_deadline_def op_bind_def rl_clock_def rl_ask_def op_return_def Let_def
       post_before_def post_act_def b n demo_req_def [symmetric] demo_served_req pick del: coerce_node.simps)
  then obtain t where "rank_round (demo_world 100 demo_served) (post_before (demo_world 100 demo_served)) True (Some 30) 100
      [ParsedNode demo_slurm_node] [(''7'', demo_slurm_job 100)] [(''n1'', 100)] demo_start = (Inr (RankPick ''7'' ''n1''), t)"
    by (metis prod.collapse)
  then show ?thesis
    unfolding rank_pending_def d by (simp add: rank_loop.simps)
qed


definition demo_snapshot :: rl_snapshot where
  "demo_snapshot = \<lparr>sp_ts = 19, sp_now = 20, sp_pending_jobs = [],
     sp_nodes = map act_node [demo_slurm_node], sp_n_nodes = 1, sp_gpus_per_node = 1, sp_mps_per_gpu = 100\<rparr>"

definition demo_server :: serve_state where
  "demo_server = \<lparr>sv_holder = Some greedy_agent, sv_snapshot = Some demo_snapshot, sv_shadow = False\<rparr>"

definition demo_ask :: decide_req where
  "demo_ask = \<lparr>dq_job_id = ''7'', dq_mps_req = 50, dq_gpu_count = 1, dq_gpu_type = ''rtx4070'', dq_runtime = 60,
     dq_submit_ts = 10\<rparr>"

definition demo_limits :: serve_cfg where
  "demo_limits = \<lparr>sc_snapshot_ttl = 30, sc_value_abstain = 0, sc_entropy_abstain = 2, sc_priority_boost = 1000\<rparr>"

lemma fused_mask: "req_mask (fused_request demo_snapshot demo_ask) = (replicate 17 False)[0 := True, 16 := True]"
  by code_simp

lemma fused_ids: "req_top_ids (fused_request demo_snapshot demo_ask) = Some ''7'' # replicate 15 None"
  by code_simp

lemma fused_dims:
  "aq_n_nodes (fused_request demo_snapshot demo_ask) = 1"
  "aq_gpus_per_node (fused_request demo_snapshot demo_ask) = 1"
  "aq_now (fused_request demo_snapshot demo_ask) = 20" "aq_mps_per_gpu (fused_request demo_snapshot demo_ask) = 100"
  "\<exists>j. top_pending (fused_request demo_snapshot demo_ask) = [j] \<and> rj_runtime j = 60"
  by (simp_all add: fused_request_def fuse_pending_def demo_snapshot_def demo_ask_def top_pending_def TOP_K_def)

lemma demo_boost:
  "\<exists>r. decide_endpoint demo_limits demo_server 25 demo_ask = Inr r \<and> dr_priority_boost r = 1000"
proof -
  let ?req = "fused_request demo_snapshot demo_ask"
  obtain j f where "top_pending ?req = [j]" "serve_job_feat j 20 100 = Inr f"
    using fused_dims(5) by (fastforce simp: serve_job_feat_def Let_def)
  with greedy_build [of ?req j f] obtain obs where b: "build_obs_and_mask ?req = Inr (obs, req_mask ?req, req_top_ids ?req)"
    "length obs = 161"
    by (auto simp: fused_dims)
  then have "decide_fresh demo_limits demo_server demo_snapshot demo_ask =
      Inr (decided demo_limits False ?req (req_top_ids ?req) ''7'' 0 1 0)"
    by (simp add: decide_fresh_def demo_server_def greedy_dims greedy_select fused_mask req_no_op_def
        req_placements_def fused_dims TOP_K_def demo_ask_def [THEN arg_cong, of dq_job_id] Let_def)
  then show ?thesis
    by (simp add: decide_endpoint_def demo_server_def demo_snapshot_def [THEN arg_cong, of sp_ts]
        demo_snapshot_def [THEN arg_cong, of sp_n_nodes] demo_snapshot_def [THEN arg_cong, of sp_nodes]
        decided_def fused_ids safety_net_def demo_limits_def Let_def)
qed

end
