(* ===== verification/RlProps.thy ===== *)
theory RlProps
  imports RlDemo GymProps
begin

text \<open>
  The properties of the learned scheduler's live services (\<^verbatim>\<open>services/rl_scheduler/\<close>): the policy
  server against its training environment, the boost of a submitted job, the placement controller,
  and the reorder daemon's ranking, its priority writes and their roll-back.
\<close>

section \<open>The policy server\<close>

text \<open>C24. On a request that describes a state of the training environment the server computes the
  environment's own observation and action mask, when no pending job is cut off, no job spans
  nodes, every pending job is fractional and the nodes have RAM to spare.\<close>

theorem server_sees_training_view:
  assumes "view_ok cfg s" "ram_spare s"
  shows "\<exists>ids. build_obs_and_mask (live_request cfg s) = Inr (build_obs cfg s, base_mask cfg s, ids)"
  using serve_obs_live [OF assms(1)] build_obs_parts(1) serve_mask_live [OF assms] by metis

theorem server_sees_training_view_witness:
  "\<exists>ids. build_obs_and_mask (live_request (small_cfg TOP_K) small_state) =
     Inr (build_obs (small_cfg TOP_K) small_state, base_mask (small_cfg TOP_K) small_state, ids)"
proof (rule server_sees_training_view)
  show "view_ok (small_cfg TOP_K) small_state"
    by (simp add: view_ok_def shape_def small_defs TOP_K_def)
  show "ram_spare small_state"
    by (simp add: ram_spare_def fractional_def ram_ok_def small_defs)
qed

text \<open>C25. A priority boost is justified: outside shadow mode, from a snapshot no older than the limit,
  with a loaded policy whose value and entropy are inside the abstention limits, and because the
  policy placed the very job that asked, on a GPU with the slots for it.\<close>

theorem boost_justified:
  assumes "case sv_holder st of None \<Rightarrow> True | Some ag \<Rightarrow> softmax_agent ag"
    "decide_endpoint cfg st now req = Inr r" "dr_priority_boost r \<noteq> 0"
  shows "\<not> sv_shadow st \<and> dr_priority_boost r = sc_priority_boost cfg \<and>
    sc_value_abstain cfg \<le> dr_value r \<and> dr_entropy r \<le> sc_entropy_abstain cfg \<and>
    (\<exists>snap i nj gk. sv_snapshot st = Some snap \<and> now - sp_ts snap \<le> sc_snapshot_ttl cfg \<and>
       req_places (fused_request snap req) i nj gk \<and>
       rj_job_id (top_pending (fused_request snap req) ! i) = dq_job_id req \<and>
       dr_node_j r = Some nj \<and> dr_gpu_k r = Some gk)"
proof -
  have quiet: "dr_priority_boost (no_decision b a x v h) = 0" for b a x v h
    by (simp add: no_decision_def)
  obtain snap where snap: "sv_snapshot st = Some snap" "now - sp_ts snap \<le> sc_snapshot_ttl cfg"
    and fresh: "decide_fresh cfg st snap req = Inr r"
    using assms(2,3) quiet by (auto simp: decide_endpoint_def Let_def not_less split: option.splits if_splits)
  let ?areq = "fused_request snap req"
  obtain obs mk ids where b: "build_obs_and_mask ?areq = Inr (obs, mk, ids)"
    using fresh by (auto simp: decide_fresh_def Let_def res_bind_Inr)
  obtain ag where ag: "sv_holder st = Some ag"
    using fresh b by (cases "sv_holder st") (auto simp: decide_fresh_def Let_def)
  obtain a v h where sel: "select ag obs mk = Inr (a, v, h)"
    and res: "(if a = req_no_op ?areq then no_decision (sv_shadow st) False None v h
      else decided cfg (sv_shadow st) ?areq ids (dq_job_id req) a v h) = r"
    using fresh b ag assms(3) quiet by (auto simp: decide_fresh_def Let_def res_bind_Inr split: if_splits)
  have noop: "a \<noteq> req_no_op ?areq"
  proof
    assume "a = req_no_op ?areq"
    with res have "r = no_decision (sv_shadow st) False None v h"
      by simp
    with assms(3) quiet show False
      by simp
  qed
  with res have r: "r = decided cfg (sv_shadow st) ?areq ids (dq_job_id req) a v h"
    by simp
  have "softmax_agent ag"
    using assms(1) ag by simp
  from chosen_placement [OF this b sel noop] obtain i nj gk where p: "req_places ?areq i nj gk" "a = req_action ?areq i nj gk"
    "a div nat (req_placements ?areq) = i"
    "a mod nat (req_placements ?areq) div nat (aq_gpus_per_node ?areq) = nj"
    "a mod nat (req_placements ?areq) mod nat (aq_gpus_per_node ?areq) = gk"
    "i < length ids" "ids ! i = Some (rj_job_id (top_pending ?areq ! i))" .
  have "\<not> sv_shadow st" "safety_net cfg v h = None" "ids ! i = Some (dq_job_id req)"
    using assms(3) p by (auto simp: r decided_def Let_def split: if_splits)
  moreover from this(2) have "sc_value_abstain cfg \<le> v" "h \<le> sc_entropy_abstain cfg"
    by (auto simp: safety_net_def split: if_splits)
  ultimately show ?thesis
    using snap p by (auto simp: r decided_def Let_def)
qed

theorem boost_justified_witness:
  "\<exists>r i nj gk. decide_endpoint demo_limits demo_server 25 demo_ask = Inr r \<and> dr_priority_boost r = 1000 \<and>
     req_places (fused_request demo_snapshot demo_ask) i nj gk \<and>
     rj_job_id (top_pending (fused_request demo_snapshot demo_ask) ! i) = ''7'' \<and> dr_node_j r = Some nj"
proof -
  obtain r where r: "decide_endpoint demo_limits demo_server 25 demo_ask = Inr r" "dr_priority_boost r = 1000"
    using demo_boost by blast
  have "case sv_holder demo_server of None \<Rightarrow> True | Some ag \<Rightarrow> softmax_agent ag"
    by (simp add: demo_server_def softmax_greedy)
  from boost_justified [OF this r(1)] r show ?thesis
    by (auto simp: demo_server_def demo_ask_def [THEN arg_cong, of dq_job_id])
qed

section \<open>The placement controller\<close>

text \<open>C26. Driven by the modelled server, a drain posts at most its bound of updates, none in shadow
  mode, and each pins a job the controller was asked about to an available node that the job's
  required nodes and GPU type allow and that has the slots for it, as read just before.\<close>

theorem placement_respects_constraints:
  assumes "softmax_agent ag" "served ag shown (\<lambda>req. rl_ask (\<lambda>i. re_act env i req))"
    "drain_and_apply m env cfg s = (r, s')"
  shows "\<exists>new. rl_posts s' = rl_posts s @ new \<and> int (length new) \<le> max 1 m \<and>
    (\<forall>u \<in> fst ` set new. \<not> pl_shadow cfg \<and> (\<exists>c. pin_from env cfg c u))"
proof -
  from drain_loop_posts [OF assms(1,2) assms(3) [unfolded drain_and_apply_def]]
  obtain new where "rl_posts s' = rl_posts s @ new" "length new \<le> nat (max 1 m)"
    "\<forall>u \<in> fst ` set new. \<not> pl_shadow cfg \<and> (\<exists>c. pin_from env cfg c u)"
    by blast
  then show ?thesis
    by (intro exI [of _ new]) auto
qed

theorem placement_respects_constraints_witness:
  "\<exists>u w. rl_posts (snd (drain_and_apply 1 (demo_world 100 demo_served) demo_place demo_start)) = [(u, w)] \<and>
     (\<exists>c. pin_from (demo_world 100 demo_served) demo_place c u)"
proof -
  let ?env = "demo_world 100 demo_served"
  obtain r s' where d: "drain_and_apply 1 ?env demo_place demo_start = (r, s')"
    by fastforce
  have "rl_posts s' = rl_posts (snd (choose_and_apply ?env demo_place demo_start))"
    using d by (auto simp: drain_and_apply_def op_bind_def op_return_def split: prod.splits sum.splits if_splits)
  then have posts: "rl_posts s' = [(RequireNode ''7'' ''n1'' (Some PriorityInfinite), Inr [])]"
    by (simp add: demo_placement)
  have "served greedy_agent (\<lambda>x. ''0.0'') (\<lambda>req. rl_ask (\<lambda>i. re_act ?env i req))"
    using demo_served_ok by simp
  from placement_respects_constraints [OF softmax_greedy this d] posts d show ?thesis
    by (auto simp: demo_start_def)
qed

section \<open>The reorder daemon\<close>

text \<open>C27. The ranking asked of the modelled server never rejects an answer and never looks up a node it
  does not know: it returns every job exactly once, or the deadline passed, or the request failed.\<close>

theorem served_ranking_accepted:
  assumes "softmax_agent ag" "served ag shown post" "sn_name ` set ns \<subseteq> fst ` set free"
    "rank_pending env post True dl cap (map ParsedNode ns) (map ParsedJob jobs) free s = (r, s')"
  shows "r = Inl TimeoutError \<or> r = Inl ApiError \<or>
    (\<exists>order. r = Inr order \<and> distinct order \<and> set order = sl_job_id ` set jobs)"
proof (cases r)
  case (Inl e)
  have "item_name ` set (map ParsedNode ns) \<subseteq> fst ` set free"
    using assms(3) by (auto simp: item_name_def)
  with served_loop [OF assms(1,2) TrueI assms(4) [unfolded Inl rank_pending_def] keyed_dict_of] Inl
  show ?thesis
    by simp
next
  case (Inr order)
  with rank_pending_order [OF assms(4) [unfolded Inr]] show ?thesis
    by blast
qed

theorem served_ranking_accepted_witness:
  "\<exists>order. fst (rank_pending (demo_world 100 demo_served) (post_before (demo_world 100 demo_served)) True (Some 30) 100
       (map ParsedNode [demo_slurm_node]) (map ParsedJob [demo_slurm_job 100]) [(''n1'', 100)] demo_start) = Inr order \<and>
     distinct order \<and> set order = {''7''}"
proof -
  let ?env = "demo_world 100 demo_served" and ?ns = "[demo_slurm_node]" and ?js = "[demo_slurm_job 100]"
  have served: "served greedy_agent (\<lambda>x. ''0.0'') (post_before ?env)"
    by (auto simp: served_def post_before_def post_act_def bind_clock rl_ask_def demo_served_def split: sum.splits)
  have names: "sn_name ` set ?ns \<subseteq> fst ` set [(''n1'', 100)]"
    by (simp add: demo_slurm_node_def)
  obtain r s' where rk: "rank_pending ?env (post_before ?env) True (Some 30) 100 (map ParsedNode ?ns) (map ParsedJob ?js)
      [(''n1'', 100)] demo_start = (r, s')"
    by fastforce
  with demo_ranking have "r = Inr [''7'']"
    by (metis fst_conv)
  with served_ranking_accepted [OF softmax_greedy served names rk] rk show ?thesis
    by (auto simp: demo_slurm_job_def)
qed

text \<open>C28. A cycle that returns has ranked exactly the eligible jobs it read, each once and at most 150
  of them. In shadow mode it wrote nothing; otherwise it wrote only the jobs' slot priorities, all
  in its own band, and the job list read last shows every job at its slot or no longer pending.\<close>

theorem reorder_cycle_writes_order:
  assumes "reorder_cycle env cfg s = (Inr order, s')"
  shows "distinct order \<and> length order \<le> MAX_PENDING_JOBS \<and>
    (\<exists>jobs ns s0. read_state env cfg (s\<lparr>rl_calls := Suc (rl_calls s)\<rparr>) = (Inr (jobs, ns), s0) \<and>
       set order = sl_job_id ` set jobs) \<and>
    (if rc_shadow cfg then rl_posts s' = rl_posts s
     else band_writes order s s' \<and>
       (\<forall>i<length order. owned_priority (snd (slot_of order i)) \<and> shows_priority env s' (slot_of order i)))"
  using assms
proof (rule reorder_cycle_cases)
  fix e :: py_error
  assume "Inr order = (Inl e :: py_error + string list)"
  then show ?thesis by simp
next
  fix jobs ns s1
  assume "Inr order = (Inr [] :: py_error + string list)" "rl_posts s' = rl_posts s" "jobs = []"
    "read_state env cfg (s\<lparr>rl_calls := Suc (rl_calls s)\<rparr>) = (Inr (jobs, ns), s1)"
  then show ?thesis
    by (auto simp: band_writes_def)
next
  fix jobs ns s0 order' jobs' dl s1
  assume rd: "read_state env cfg (s\<lparr>rl_calls := Suc (rl_calls s)\<rparr>) = (Inr (jobs, ns), s0)"
    and ord: "distinct order'" "set order' = sl_job_id ` set jobs" "length order' \<le> MAX_PENDING_JOBS"
    and s1: "rl_posts s1 = rl_posts s" and app: "apply_order env cfg dl jobs' order' s1 = (Inr order, s')"
  show ?thesis
  proof (cases "rc_shadow cfg")
    case True
    with app have "order' = order" "rl_posts s' = rl_posts s"
      using s1 by (auto simp: apply_order_def Let_def op_return_def)
    with True rd ord show ?thesis
      by auto
  next
    case False
    from app ord(1) False show ?thesis
    proof (rule apply_order_cases)
      fix e s2
      assume "Inr order = (Inl e :: py_error + string list)"
      then show ?thesis by simp
    next
      assume "Inr order = (Inr order' :: py_error + string list)" "band_writes order' s1 s'"
        "\<forall>i<length order'. shows_priority env s' (slot_of order' i)"
      moreover have "band_writes order' s s' = band_writes order' s1 s'"
        by (simp add: band_writes_def s1)
      ultimately show ?thesis
        using False rd ord slot_in_band by auto
    qed
  qed
qed

theorem reorder_cycle_writes_order_witness:
  "\<exists>s'. reorder_cycle (demo_world 14 (\<lambda>i q. Inr demo_pick)) (demo_cycle False) demo_start = (Inr [''7''], s') \<and>
     band_writes [''7''] demo_start s' \<and>
     shows_priority (demo_world 14 (\<lambda>i q. Inr demo_pick)) s' (slot_of [''7''] 0)"
proof -
  have "fst (reorder_cycle (demo_world 14 (\<lambda>i q. Inr demo_pick)) (demo_cycle False) demo_start) = Inr [''7'']"
    by code_simp
  then obtain s' where c: "reorder_cycle (demo_world 14 (\<lambda>i q. Inr demo_pick)) (demo_cycle False) demo_start = (Inr [''7''], s')"
    by (metis prod.collapse)
  from reorder_cycle_writes_order [OF c] c show ?thesis
    by (simp add: demo_cycle_def)
qed



end
