(* ===== verification/RlLive.thy ===== *)
theory RlLive
  imports RlSnapshot SimGymFacts SimLoader
begin

text \<open>
  The passive collector of transitions (\<^verbatim>\<open>services/rl_scheduler/live_daemon.py\<close>): what it reads from
  \<^verbatim>\<open>squeue --json\<close> and \<^verbatim>\<open>sacct\<close>, the simulator's cluster it rebuilds to reuse the environment's
  features, and one turn of its loop, which remembers a decision while a job is pending, an action
  when it starts and a transition when it is gone. The outputs of the commands, the clock and the
  parser of time stamps are arguments; the replay buffer of the training library is left out (the
  log holds the same transitions). An exception other than the ones the source catches ends the
  daemon.
\<close>

section \<open>Jobs in the queue\<close>

record queued_job =
  lq_job_id :: string
  lq_mps_req :: int
  lq_gpu_count :: int
  lq_gpu_type :: string
  lq_runtime :: real
  lq_submit_ts :: real
  lq_state :: json
  lq_nodelist :: string
  lq_job_class :: string
  lq_slo_s :: real
  lq_ram_req :: real

definition digits_of :: "string \<Rightarrow> int list" where
  "digits_of part =
     map (\<lambda>x. int (nat_of_digits x)) (filter (\<lambda>x. x \<noteq> [] \<and> list_all is_digit x) (str_split (CHR '':'') part))"

definition squeue_mps :: "string \<Rightarrow> int" where
  "squeue_mps t =
     foldl (\<lambda>m part. if str_contains ''mps'' (str_lower part) \<and> digits_of part \<noteq> []
                     then last (digits_of part) else m) 0 (str_split (CHR '','') t)"

definition job_state_of :: "jobj \<Rightarrow> py_error + json" where
  "job_state_of j =
     (case j_get j ''job_state'' (JList [JStr ''UNKNOWN'']) of
        JList [] \<Rightarrow> Inl IndexError
      | JList (x # _) \<Rightarrow> Inr x
      | v \<Rightarrow> Inr v)"

definition comment_meta :: "jobj \<Rightarrow> json" where
  \<comment> \<open>the comment as JSON; text that is none, and values that are no text, count as no comment\<close>
  "comment_meta j =
     (let craw = j_or (j_get j ''comment'' (JStr [])) (JStr []) in
      if truthy craw then (case json_loads_value craw of Inl _ \<Rightarrow> JObj [] | Inr v \<Rightarrow> v) else JObj [])"

definition times_60 :: "json \<Rightarrow> py_error + json" where
  \<comment> \<open>\<^verbatim>\<open>v * 60\<close>\<close>
  "times_60 v =
     (case v of
        JInt i \<Rightarrow> Inr (JInt (i * 60))
      | JFloat t x \<Rightarrow> Inr (JFloat t (x * 60))
      | JBool b \<Rightarrow> Inr (JInt (if b then 60 else 0))
      | JStr s \<Rightarrow> Inr (JStr (concat (replicate 60 s)))
      | JList xs \<Rightarrow> Inr (JList (concat (replicate 60 xs)))
      | _ \<Rightarrow> Inl TypeError)"

definition time_limit_s :: "jobj \<Rightarrow> py_error + json" where
  "time_limit_s j =
     (case j_get j ''time_limit'' (JObj []) of
        JObj d \<Rightarrow> times_60 (j_get d ''number'' (JInt 0))
      | _ \<Rightarrow> Inr (JInt 0))"

definition submit_ts_of :: "real \<Rightarrow> jobj \<Rightarrow> py_error + real" where
  "submit_ts_of now j =
     (case j_get j ''submit_time'' (JObj []) of
        JObj d \<Rightarrow> (case map_of d ''number'' of None \<Rightarrow> Inr now | Some v \<Rightarrow> py_float v)
      | _ \<Rightarrow> Inr now)"

definition squeue_job :: "real \<Rightarrow> json \<Rightarrow> py_error + queued_job" where
  "squeue_job now item =
     res_bind (as_obj item) (\<lambda>j.
     res_bind (job_state_of j) (\<lambda>state.
       (let mps0 = squeue_mps (py_str (j_or (j_or (j_get j ''tres_req_str'' (JStr [])) (j_get j ''gres'' (JStr []))) (JStr [])));
            gc = j_or (j_get j ''gpus_total'' (JInt 1)) (JInt 1)
        in res_bind (as_obj (comment_meta j)) (\<lambda>meta.
           (let cls = py_str (j_get meta ''cls'' (JStr ''batch'')) in
           res_bind (time_limit_s j) (\<lambda>tl_s.
           res_bind (submit_ts_of now j) (\<lambda>submit.
           res_bind (py_int (j_or (j_or (j_get meta ''mps'' (JInt 0)) (JInt mps0)) (JInt MPS_PER_GPU))) (\<lambda>mps.
           res_bind (py_int gc) (\<lambda>gpu_n.
           res_bind (py_float (j_get meta ''reported'' tl_s)) (\<lambda>rt.
           res_bind (py_float (j_or (j_get meta ''slo'' (JFloat ''0.0'' 0)) (JFloat ''0.0'' 0))) (\<lambda>slo.
           res_bind (py_float (j_get meta ''ram'' (JFloat [] (dict_get RAM_REQ_GB cls 1)))) (\<lambda>ram.
             Inr \<lparr>lq_job_id = py_str (j_get j ''job_id'' (JStr [])), lq_mps_req = mps, lq_gpu_count = gpu_n,
               lq_gpu_type = py_str (j_get meta ''gtype'' (JStr ''rtx4070'')), lq_runtime = rt, lq_submit_ts = submit,
               lq_state = state, lq_nodelist = str_or_empty (j_get j ''nodes'' (JStr [])), lq_job_class = cls,
               lq_slo_s = slo, lq_ram_req = ram\<rparr>))))))))))))"

definition parse_squeue :: "real \<Rightarrow> string \<Rightarrow> py_error + queued_job list" where
  "parse_squeue now raw =
     (if raw = [] then Inr []
      else
        (case json_loads raw of
           Inl _ \<Rightarrow> Inr []
         | Inr data \<Rightarrow>
             res_bind (as_obj data) (\<lambda>d.
             res_bind (as_list (j_get d ''jobs'' (JList []))) (\<lambda>items. res_map (squeue_job now) items))))"

definition in_state :: "string \<Rightarrow> queued_job \<Rightarrow> bool" where
  "in_state t j \<longleftrightarrow> str_contains t (str_upper (py_str (lq_state j)))"

section \<open>The realised completion time\<close>

definition DONE_STATES :: "string list" where
  "DONE_STATES = [''COMPLETED'', ''FAILED'', ''TIMEOUT'', ''CANCEL'', ''OUT_OF'']"

fun sacct_lines :: "(string \<Rightarrow> real option) \<Rightarrow> string list \<Rightarrow> real option" where
  "sacct_lines stamp [] = None"
| "sacct_lines stamp (l # ls) =
     (case str_split (CHR ''|'') (str_strip l) of
        submit # fin # state # _ \<Rightarrow>
          if \<not> list_ex (\<lambda>p. str_contains p (str_upper state)) DONE_STATES then sacct_lines stamp ls
          else (case (stamp submit, stamp fin) of
                  (Some t0, Some t1) \<Rightarrow> Some (max 1 (t1 - t0))
                | _ \<Rightarrow> None)
      | _ \<Rightarrow> sacct_lines stamp ls)"

definition sacct_jct :: "(string \<Rightarrow> real option) \<Rightarrow> string \<Rightarrow> real option" where
  "sacct_jct stamp raw = sacct_lines stamp (str_split (CHR 0x0A) raw)"

section \<open>The cluster behind the queue\<close>

definition NODE_RAM_GB :: "(string, real) dict" where
  "NODE_RAM_GB = [(''rtx4070'', 62), (''rtx3080'', 5)]"

definition live_node_gpu_type :: "string \<Rightarrow> string" where
  "live_node_gpu_type name = (if str_contains ''3080'' (str_lower name) then ''rtx3080'' else ''rtx4070'')"

definition live_to_sim_job :: "queued_job \<Rightarrow> job" where
  "live_to_sim_job j =
     (mk_job (lq_job_id j) ''live'' (lq_gpu_count j) (lq_gpu_type j) (lq_submit_ts j) (lq_runtime j) 0 (lq_mps_req j))
       \<lparr>job_class := lq_job_class j, slo_s := lq_slo_s j, ram_req := lq_ram_req j\<rparr>"

definition hit_nodes :: "string list \<Rightarrow> string \<Rightarrow> nat list" where
  "hit_nodes names nodelist =
     filter (\<lambda>k. names ! k \<noteq> [] \<and> str_contains (names ! k) nodelist) [0..<length names]"

definition take_free :: "int \<Rightarrow> node \<Rightarrow> node" where
  "take_free mps nd = nd\<lparr>gpus := map (\<lambda>g. g\<lparr>free_mps := max 0 (free_mps g - mps)\<rparr>) (gpus nd)\<rparr>"

definition occupy :: "nat \<Rightarrow> string list \<Rightarrow> cluster \<Rightarrow> queued_job \<Rightarrow> cluster" where
  "occupy n_gpus names c j =
     (let hit = hit_nodes names (lq_nodelist j) in
      if hit = [] then c
      else c\<lparr>nodes := map (\<lambda>(i, nd). if i \<in> set hit
                                       then (take_free (lq_mps_req j) nd)\<lparr>used_ram_gb := used_ram_gb nd + lq_ram_req j\<rparr>
                                       else nd) (enumerated (nodes c)),
             active := dict_set (lq_job_id j)
               (map (\<lambda>ni. \<lparr>a_job_id = lq_job_id j, a_node_id = ni, a_gpu_indices = [0..<n_gpus],
                           a_mps_per_gpu = lq_mps_req j\<rparr>) hit) (active c),
             active_ram := dict_set (lq_job_id j) (lq_ram_req j) (active_ram c)\<rparr>)"

definition live_cluster :: "string list \<Rightarrow> nat \<Rightarrow> int \<Rightarrow> cluster" where
  \<comment> \<open>the constructor call, whose lists have the right length\<close>
  "live_cluster names n_gpus cap =
     projr (make_cluster (length names) n_gpus cap None (Some (map live_node_gpu_type names))
             (Some (map (\<lambda>nm. dict_get NODE_RAM_GB (live_node_gpu_type nm) 62) names)) 1)"

lemma live_cluster_made:
  "make_cluster (length names) n_gpus cap None (Some (map live_node_gpu_type names))
     (Some (map (\<lambda>nm. dict_get NODE_RAM_GB (live_node_gpu_type nm) 62) names)) 1 = Inr (live_cluster names n_gpus cap)"
  by (simp add: live_cluster_def make_cluster_def or_default_def Let_def)

definition reconstruct_sim_cluster :: "queued_job list \<Rightarrow> string list \<Rightarrow> nat \<Rightarrow> int \<Rightarrow> cluster" where
  "reconstruct_sim_cluster started names n_gpus cap =
     foldl (occupy n_gpus names) (live_cluster names n_gpus cap) started"

section \<open>Observation and mask\<close>

definition live_top :: "queued_job list \<Rightarrow> job list" where
  "live_top pending = take TOP_K (sort_key submit_ts (map live_to_sim_job pending))"

definition live_obs :: "queued_job list \<Rightarrow> cluster \<Rightarrow> nat \<Rightarrow> nat \<Rightarrow> int \<Rightarrow> real \<Rightarrow> real list" where
  "live_obs pending cl n n_gpus cap now =
     (let tk = live_top pending; sim_pending = map live_to_sim_job pending in
      concat (map (\<lambda>i. if i < length tk then job_feat (tk ! i) now cap else replicate JOB_FEAT_DIM 0) [0..<TOP_K]) @
      concat (map (\<lambda>ni. concat (map (gpu_feat cl ni) [0..<n_gpus])) [0..<n]) @
      topo_feat sim_pending cl @ global_feat sim_pending cl now)"

definition live_top_ids :: "queued_job list \<Rightarrow> string option list" where
  "live_top_ids pending =
     (let tk = live_top pending in map (\<lambda>i. if i < length tk then Some (job_id (tk ! i)) else None) [0..<TOP_K])"

definition live_legal :: "job list \<Rightarrow> cluster \<Rightarrow> nat \<Rightarrow> nat \<Rightarrow> nat list" where
  "live_legal tk cl n n_gpus =
     concat (map (\<lambda>i. concat (map (\<lambda>nj. concat (map (\<lambda>gk.
       if mps_req (tk ! i) \<le> free_mps (gpus (nodes cl ! nj) ! gk) then [i * (n * n_gpus) + nj * n_gpus + gk] else [])
       [0..<n_gpus])) [0..<n])) [0..<length tk])"

definition live_no_op :: "nat \<Rightarrow> nat \<Rightarrow> nat" where
  "live_no_op n n_gpus = TOP_K * (n * n_gpus)"

definition live_mask :: "job list \<Rightarrow> cluster \<Rightarrow> nat \<Rightarrow> nat \<Rightarrow> bool list" where
  "live_mask tk cl n n_gpus =
     (set_bits (live_legal tk cl n n_gpus) (replicate (live_no_op n n_gpus + 1) False))[live_no_op n n_gpus := True]"

definition live_obs_and_mask ::
  "queued_job list \<Rightarrow> queued_job list \<Rightarrow> string list \<Rightarrow> nat \<Rightarrow> int \<Rightarrow> real \<Rightarrow>
   real list \<times> bool list \<times> string option list" where
  "live_obs_and_mask pending started names n_gpus cap now =
     (let n = length names; cl = reconstruct_sim_cluster started names n_gpus cap in
      (live_obs pending cl n n_gpus cap now, live_mask (live_top pending) cl n n_gpus, live_top_ids pending))"

section \<open>One turn of the daemon\<close>

record seen_decision =
  sd_obs :: "real list"
  sd_mask :: "bool list"
  sd_ids :: "string option list"
  sd_ts :: real

record started_job =
  st_obs :: "real list"
  st_act :: nat
  st_mask :: "bool list"
  st_ts :: real

record live_transition =
  lt_obs :: "real list"
  lt_act :: nat
  lt_rew :: real
  lt_next_obs :: "real list"
  lt_done :: bool
  lt_mask :: "bool list"
  lt_next_mask :: "bool list"
  lt_jct :: real

text \<open>The line written for it, a float with a spelling of its own.\<close>

definition logged_json :: "(real \<Rightarrow> string) \<Rightarrow> live_transition \<Rightarrow> jobj" where
  "logged_json shown t =
     (let num = (\<lambda>x. JFloat (shown x) x) in
      [(''obs'', JList (map num (lt_obs t))), (''act'', JInt (int (lt_act t))), (''rew'', num (lt_rew t)),
       (''next_obs'', JList (map num (lt_next_obs t))), (''done'', JBool (lt_done t)),
       (''mask'', JList (map JBool (lt_mask t))), (''next_mask'', JList (map JBool (lt_next_mask t))),
       (''jct_s'', num (lt_jct t))])"

record collector =
  lc_pending_obs :: "(string, seen_decision) dict"
  lc_in_flight :: "(string, started_job) dict"
  lc_log :: "live_transition list"

definition node_j_of :: "string list \<Rightarrow> string \<Rightarrow> nat option" where
  "node_j_of names nodelist = (case hit_nodes names nodelist of [] \<Rightarrow> None | k # _ \<Rightarrow> Some k)"

definition remember :: "seen_decision \<Rightarrow> collector \<Rightarrow> collector" where
  "remember sd d =
     foldl (\<lambda>d i. case i of
              Some jid \<Rightarrow> if jid = [] then d else d\<lparr>lc_pending_obs := dict_set jid sd (lc_pending_obs d)\<rparr>
            | None \<Rightarrow> d) d (sd_ids sd)"

definition note_start :: "string list \<Rightarrow> nat \<Rightarrow> collector \<Rightarrow> queued_job \<Rightarrow> collector" where
  "note_start names n_gpus d rj =
     (let jid = lq_job_id rj in
      case map_of (lc_pending_obs d) jid of
        None \<Rightarrow> d
      | Some sd \<Rightarrow>
          if dict_has jid (lc_in_flight d) then d
          else
            (let d' = d\<lparr>lc_pending_obs := dict_pop jid (lc_pending_obs d)\<rparr> in
             case (node_j_of names (lq_nodelist rj), index_of (Some jid) (sd_ids sd)) of
               (Some node_j, Some job_i) \<Rightarrow>
                 d'\<lparr>lc_in_flight := dict_set jid
                      \<lparr>st_obs = sd_obs sd, st_act = job_i * (length names * n_gpus) + node_j * n_gpus,
                       st_mask = sd_mask sd, st_ts = sd_ts sd\<rparr> (lc_in_flight d')\<rparr>
             | _ \<Rightarrow> d'))"

definition realised_jct :: "(string \<Rightarrow> real option) \<Rightarrow> real \<Rightarrow> string \<Rightarrow> started_job \<Rightarrow> real" where
  "realised_jct answer now jid f = (case answer jid of Some x \<Rightarrow> x | None \<Rightarrow> max 1 (now - st_ts f))"

definition note_end ::
  "(string \<Rightarrow> real option) \<Rightarrow> real \<Rightarrow> real list \<Rightarrow> bool list \<Rightarrow> string list \<Rightarrow> collector \<Rightarrow> string \<Rightarrow> collector" where
  "note_end answer now next_obs next_mask live_ids d jid =
     (if jid \<in> set live_ids then d
      else
        (case map_of (lc_in_flight d) jid of
           None \<Rightarrow> d
         | Some f \<Rightarrow>
             (let jct = realised_jct answer now jid f in
              d\<lparr>lc_in_flight := dict_pop jid (lc_in_flight d),
                lc_log := lc_log d @ [\<lparr>lt_obs = st_obs f, lt_act = st_act f, lt_rew = - jct / 1000,
                  lt_next_obs = next_obs, lt_done = False, lt_mask = st_mask f, lt_next_mask = next_mask,
                  lt_jct = jct\<rparr>]\<rparr>)))"

text \<open>One turn, on the parsed queue and the answers of \<^verbatim>\<open>sacct\<close>.\<close>

definition collect_turn ::
  "string list \<Rightarrow> nat \<Rightarrow> int \<Rightarrow> real \<Rightarrow> (string \<Rightarrow> real option) \<Rightarrow> queued_job list \<Rightarrow> collector \<Rightarrow> collector" where
  "collect_turn names n_gpus cap now answer all_jobs d =
     (let pending = filter (in_state ''PENDING'') all_jobs;
          started = filter (in_state ''RUNNING'') all_jobs;
          (obs, mk, ids) = live_obs_and_mask pending started names n_gpus cap now;
          d1 = (if pending = [] then d
                else remember \<lparr>sd_obs = obs, sd_mask = mk, sd_ids = ids, sd_ts = now\<rparr> d);
          d2 = foldl (note_start names n_gpus) d1 started;
          next_obs = (if pending = [] then replicate (fst (env_dims (length names) n_gpus TOP_K False)) 0 else obs);
          next_mask = (if pending = []
                       then (replicate (snd (env_dims (length names) n_gpus TOP_K False)) False)
                              [snd (env_dims (length names) n_gpus TOP_K False) - 1 := True]
                       else mk)
      in foldl (note_end answer now next_obs next_mask (map lq_job_id all_jobs)) d2 (dict_keys (lc_in_flight d2)))"

text \<open>The loop over what the commands print, one output of \<^verbatim>\<open>squeue\<close> per turn, until an exception.\<close>

record turn_input =
  ti_now :: real
  ti_squeue :: string
  ti_sacct :: "string \<Rightarrow> string"

fun run_collector ::
  "(string \<Rightarrow> real option) \<Rightarrow> string list \<Rightarrow> nat \<Rightarrow> int \<Rightarrow> turn_input list \<Rightarrow> collector \<Rightarrow>
   collector \<times> py_error option" where
  "run_collector stamp names n_gpus cap [] d = (d, None)"
| "run_collector stamp names n_gpus cap (t # ts) d =
     (case parse_squeue (ti_now t) (ti_squeue t) of
        Inl e \<Rightarrow> (d, Some e)
      | Inr all_jobs \<Rightarrow>
          run_collector stamp names n_gpus cap ts
            (collect_turn names n_gpus cap (ti_now t) (\<lambda>jid. sacct_jct stamp (ti_sacct t jid)) all_jobs d))"

definition empty_collector :: collector where
  "empty_collector = \<lparr>lc_pending_obs = [], lc_in_flight = [], lc_log = []\<rparr>"

end
