(* ===== verification/RlLiveFacts.thy ===== *)
theory RlLiveFacts
  imports RlLive
begin

text \<open>
  The collector against the environment: \<open>live_state\<close> is the state of \<^verbatim>\<open>sim/gym_env.py\<close> the queue
  stands for, and what is logged for it is the environment's own observation. Then the bookkeeping:
  \<open>collector_ok\<close> is the invariant of the three collections, and \<open>end_all\<close> what a turn logs.
\<close>

section \<open>The environment's view\<close>

definition live_state :: "env_cfg \<Rightarrow> queued_job list \<Rightarrow> queued_job list \<Rightarrow> string list \<Rightarrow> real \<Rightarrow> gym_state" where
  "live_state cfg pending started names now =
     (reset_state cfg [] (reconstruct_sim_cluster started names (ec_gpus cfg) (ec_cap cfg)))
       \<lparr>gs_pending := map live_to_sim_job pending, gs_now := now\<rparr>"

definition live_cfg :: "env_cfg \<Rightarrow> string list \<Rightarrow> bool" where
  "live_cfg cfg names \<longleftrightarrow> ec_nodes cfg = length names \<and> ec_top_k cfg = TOP_K \<and> \<not> ec_colocation cfg"

lemma live_state_sel [simp]:
  "gs_pending (live_state cfg pending started names now) = map live_to_sim_job pending"
  "gs_now (live_state cfg pending started names now) = now"
  "gs_cluster (live_state cfg pending started names now) = reconstruct_sim_cluster started names (ec_gpus cfg) (ec_cap cfg)"
  by (simp_all add: live_state_def reset_state_def)

lemma occupy_shape:
  "n_nodes (occupy g names c j) = n_nodes c" "gpus_per_node (occupy g names c j) = gpus_per_node c"
  "mps_per_gpu (occupy g names c j) = mps_per_gpu c"
  by (simp_all add: occupy_def Let_def)

lemma reconstruct_shape:
  "n_nodes (reconstruct_sim_cluster started names g cap) = length names"
  "gpus_per_node (reconstruct_sim_cluster started names g cap) = g"
proof -
  have "n_nodes (foldl (occupy g names) c started) = n_nodes c \<and>
      gpus_per_node (foldl (occupy g names) c started) = gpus_per_node c" for c
    by (induction started arbitrary: c) (simp_all add: occupy_shape)
  then show "n_nodes (reconstruct_sim_cluster started names g cap) = length names"
    "gpus_per_node (reconstruct_sim_cluster started names g cap) = g"
    by (simp_all add: reconstruct_sim_cluster_def live_cluster_def make_cluster_def or_default_def Let_def)
qed

lemma live_top_is_top_k:
  "live_cfg cfg names \<Longrightarrow> top_k_jobs cfg (live_state cfg pending started names now) = live_top pending"
  by (simp add: top_k_jobs_def live_top_def live_cfg_def)

lemma live_obs_is_build_obs:
  assumes "live_cfg cfg names"
  shows "live_obs pending (reconstruct_sim_cluster started names (ec_gpus cfg) (ec_cap cfg)) (length names)
      (ec_gpus cfg) (ec_cap cfg) now = build_obs cfg (live_state cfg pending started names now)"
proof -
  have cfg: "ec_nodes cfg = length names" "ec_top_k cfg = TOP_K"
    using assms by (simp_all add: live_cfg_def)
  have gpus: "map (\<lambda>gi. if gi < ec_gpus cfg then f gi else z) [0..<ec_gpus cfg] = map f [0..<ec_gpus cfg]"
    for f :: "nat \<Rightarrow> real list" and z
    by (intro map_cong) auto
  have rows: "map (\<lambda>ni. concat (map (\<lambda>gi. if ni < length names \<and> gi < ec_gpus cfg then f ni gi else z) [0..<ec_gpus cfg]))
      [0..<length names] = map (\<lambda>ni. concat (map (f ni) [0..<ec_gpus cfg])) [0..<length names]" for f :: "nat \<Rightarrow> nat \<Rightarrow> real list" and z
    by (intro map_cong) (simp_all add: gpus)
  show ?thesis
    unfolding live_obs_def build_obs_def Let_def live_top_is_top_k [OF assms] live_state_sel reconstruct_shape cfg rows ..
qed

section \<open>The mask\<close>

lemma mem_live_legal:
  "a \<in> set (live_legal tk cl n g) \<longleftrightarrow>
     (\<exists>i nj gk. i < length tk \<and> nj < n \<and> gk < g \<and> mps_req (tk ! i) \<le> free_mps (gpus (nodes cl ! nj) ! gk) \<and>
        a = i * (n * g) + nj * g + gk)"
  by (fastforce simp: live_legal_def split: if_splits)

lemma length_live_mask: "length (live_mask tk cl n g) = live_no_op n g + 1"
  by (simp add: live_mask_def)

lemma live_mask_nth: "a < live_no_op n g \<Longrightarrow> live_mask tk cl n g ! a \<longleftrightarrow> a \<in> set (live_legal tk cl n g)"
  by (simp add: live_mask_def set_bits_nth nth_replicate del: replicate_Suc replicate.simps)

lemma live_mask_no_op: "live_mask tk cl n g ! live_no_op n g"
  by (simp add: live_mask_def)

definition all_fractional :: "cluster \<Rightarrow> job list \<Rightarrow> bool" where
  "all_fractional c jobs \<longleftrightarrow>
     list_all (\<lambda>j. fractional c j \<and> list_all (\<lambda>ni. ram_ok c ni (ram_req j)) [0..<n_nodes c]) jobs"

lemma live_mask_is_base_mask:
  fixes cfg names pending started now
  defines "s \<equiv> live_state cfg pending started names now"
  assumes "live_cfg cfg names" "all_fractional (gs_cluster s) (gs_pending s)"
  shows "live_mask (live_top pending) (gs_cluster s) (length names) (ec_gpus cfg) = base_mask cfg s"
proof (rule nth_equalityI)
  have cfg: "ec_nodes cfg = length names" "ec_top_k cfg = TOP_K" "n_modes cfg = 1"
    using assms(2) by (simp_all add: live_cfg_def n_modes_def)
  have noop: "live_no_op (length names) (ec_gpus cfg) = no_op cfg" "n_act cfg = no_op cfg + 1"
    using cfg by (simp_all add: live_no_op_def no_op_def n_act_def)
  then show "length (live_mask (live_top pending) (gs_cluster s) (length names) (ec_gpus cfg)) = length (base_mask cfg s)"
    by (simp add: length_live_mask)
  have tk: "top_k_jobs cfg s = live_top pending"
    unfolding s_def by (rule live_top_is_top_k [OF assms(2)])
  have can: "can_allocate_on (gs_cluster s) (live_top pending ! i) nj gk \<longleftrightarrow>
      mps_req (live_top pending ! i) \<le> free_mps (gpus (nodes (gs_cluster s) ! nj) ! gk)"
    if "i < length (live_top pending)" "nj < length names" "gk < ec_gpus cfg" for i nj gk
  proof -
    have "live_top pending ! i \<in> set (gs_pending s)"
      using that(1) set_top_k [of cfg s] tk nth_mem by fastforce
    then have "fractional (gs_cluster s) (live_top pending ! i)" "ram_ok (gs_cluster s) nj (ram_req (live_top pending ! i))"
      using assms(3) that(2) by (auto simp: all_fractional_def list_all_iff s_def reconstruct_shape)
    with that show ?thesis
      by (simp add: can_allocate_on_def plan_on_def s_def reconstruct_shape)
  qed
  have legal: "a \<in> set (live_legal (live_top pending) (gs_cluster s) (length names) (ec_gpus cfg)) \<longleftrightarrow>
      a \<in> set (legal_actions cfg s)" for a
    using can by (auto simp: mem_live_legal mem_legal_actions tk cfg mode_legal_def MODE_ISOLATE_def encode_def
        n_placements_def ac_simps) metis+
  fix a
  assume "a < length (live_mask (live_top pending) (gs_cluster s) (length names) (ec_gpus cfg))"
  then consider "a < no_op cfg" | "a = no_op cfg"
    by (fastforce simp: length_live_mask noop)
  then show "live_mask (live_top pending) (gs_cluster s) (length names) (ec_gpus cfg) ! a = base_mask cfg s ! a"
  proof cases
    case 1
    with noop show ?thesis
      using live_mask_nth [of a "length names" "ec_gpus cfg"] legal by (simp add: base_mask_nth)
  next
    case 2
    with noop show ?thesis
      using live_mask_no_op [of _ _ "length names" "ec_gpus cfg"] by (simp add: base_mask_nth)
  qed
qed

section \<open>Bookkeeping\<close>

text \<open>\<open>n\<close> nodes with \<open>g\<close> GPUs: the dimensions of an observation and a mask.\<close>

definition sized :: "nat \<Rightarrow> nat \<Rightarrow> real list \<Rightarrow> bool list \<Rightarrow> bool" where
  "sized n g obs mk \<longleftrightarrow> length obs = fst (env_dims n g TOP_K False) \<and> length mk = snd (env_dims n g TOP_K False)"

definition started_ok :: "nat \<Rightarrow> nat \<Rightarrow> started_job \<Rightarrow> bool" where
  "started_ok n g f \<longleftrightarrow> sized n g (st_obs f) (st_mask f) \<and> st_act f < live_no_op n g"

definition logged_ok :: "nat \<Rightarrow> nat \<Rightarrow> live_transition \<Rightarrow> bool" where
  "logged_ok n g t \<longleftrightarrow>
     sized n g (lt_obs t) (lt_mask t) \<and> sized n g (lt_next_obs t) (lt_next_mask t) \<and> lt_act t < live_no_op n g \<and>
     1 \<le> lt_jct t \<and> lt_rew t = - lt_jct t / 1000 \<and> \<not> lt_done t"

definition collector_ok :: "nat \<Rightarrow> nat \<Rightarrow> collector \<Rightarrow> bool" where
  "collector_ok n g d \<longleftrightarrow>
     distinct (map fst (lc_in_flight d)) \<and>
     (\<forall>jid sd. map_of (lc_pending_obs d) jid = Some sd \<longrightarrow>
        sized n g (sd_obs sd) (sd_mask sd) \<and> Some jid \<in> set (sd_ids sd) \<and> length (sd_ids sd) = TOP_K) \<and>
     (\<forall>jid f. map_of (lc_in_flight d) jid = Some f \<longrightarrow> started_ok n g f) \<and>
     (\<forall>t \<in> set (lc_log d). logged_ok n g t)"

lemma index_of_mem: "x \<in> set xs \<Longrightarrow> \<exists>i. index_of x xs = Some i \<and> i < length xs \<and> xs ! i = x"
  by (induction xs) auto

lemma hit_nodes_lt: "k \<in> set (hit_nodes names nl) \<Longrightarrow> k < length names"
  by (simp add: hit_nodes_def)

lemma node_j_lt: "node_j_of names nl = Some k \<Longrightarrow> k < length names"
  using hit_nodes_lt [of k names nl] by (auto simp: node_j_of_def split: list.splits)

lemma act_lt:
  assumes "i < TOP_K" "nj < n" "0 < g"
  shows "i * (n * g) + nj * g < live_no_op n g"
proof -
  have less: "nj * g < n * g"
    using assms(2,3) by (simp only: mult_less_cancel2)
  have "(i + 1) * (n * g) \<le> TOP_K * (n * g)"
    using assms(1) by (intro mult_le_mono1) simp
  then have "n * g + i * (n * g) \<le> TOP_K * (n * g)"
    by (simp only: add_mult_distrib mult_1)
  with less show ?thesis
    unfolding live_no_op_def by linarith
qed

lemma remember_pending:
  "lc_in_flight (remember sd d) = lc_in_flight d" "lc_log (remember sd d) = lc_log d"
  "map_of (lc_pending_obs (remember sd d)) jid = Some x \<Longrightarrow>
     map_of (lc_pending_obs d) jid = Some x \<or> x = sd \<and> Some jid \<in> set (sd_ids sd)"
proof -
  let ?f = "\<lambda>d i. case i of Some jid \<Rightarrow> if jid = [] then d else d\<lparr>lc_pending_obs := dict_set jid sd (lc_pending_obs d)\<rparr>
      | None \<Rightarrow> d"
  have "lc_in_flight (foldl ?f d ids) = lc_in_flight d \<and> lc_log (foldl ?f d ids) = lc_log d \<and>
      (map_of (lc_pending_obs (foldl ?f d ids)) jid = Some x \<longrightarrow>
        map_of (lc_pending_obs d) jid = Some x \<or> x = sd \<and> Some jid \<in> set ids)" for ids
  proof (induction ids arbitrary: d)
    case Nil
    show ?case by simp
  next
    case (Cons i ids)
    from Cons [of "?f d i"] show ?case
      by (auto simp: update_conv' split: option.splits if_splits)
  qed
  then show "lc_in_flight (remember sd d) = lc_in_flight d" "lc_log (remember sd d) = lc_log d"
    "map_of (lc_pending_obs (remember sd d)) jid = Some x \<Longrightarrow>
     map_of (lc_pending_obs d) jid = Some x \<or> x = sd \<and> Some jid \<in> set (sd_ids sd)"
    by (auto simp: remember_def)
qed

lemma remember_ok:
  assumes "collector_ok n g d" "sized n g (sd_obs sd) (sd_mask sd)" "length (sd_ids sd) = TOP_K"
  shows "collector_ok n g (remember sd d)"
  using assms unfolding collector_ok_def remember_pending(1,2)
  by (metis remember_pending(3))

lemma note_start_ok:
  assumes "collector_ok (length names) g d" "0 < g"
  shows "collector_ok (length names) g (note_start names g d rj)"
proof (cases "map_of (lc_pending_obs d) (lq_job_id rj)")
  case None
  with assms show ?thesis
    by (simp add: note_start_def)
next
  case (Some sd)
  then have sd: "sized (length names) g (sd_obs sd) (sd_mask sd)" "Some (lq_job_id rj) \<in> set (sd_ids sd)"
    "length (sd_ids sd) = TOP_K"
    using assms(1) by (auto simp: collector_ok_def)
  then obtain i where i: "index_of (Some (lq_job_id rj)) (sd_ids sd) = Some i" "i < TOP_K"
    using index_of_mem by metis
  have pop: "collector_ok (length names) g (d\<lparr>lc_pending_obs := dict_pop (lq_job_id rj) (lc_pending_obs d)\<rparr>)"
    using assms(1) by (auto simp: collector_ok_def delete_conv' split: if_splits)
  show ?thesis
  proof (cases "dict_has (lq_job_id rj) (lc_in_flight d) \<or> node_j_of names (lq_nodelist rj) = None")
    case True
    with Some pop assms(1) show ?thesis
      by (auto simp: note_start_def Let_def)
  next
    case False
    then obtain nj where nj: "node_j_of names (lq_nodelist rj) = Some nj" "\<not> dict_has (lq_job_id rj) (lc_in_flight d)"
      by auto
    have "i * (length names * g) + nj * g < live_no_op (length names) g"
      by (rule act_lt [OF i(2) node_j_lt [OF nj(1)] assms(2)])
    with Some nj i sd(1) pop show ?thesis
      by (auto simp: note_start_def Let_def collector_ok_def update_conv' distinct_update started_ok_def)
  qed
qed

text \<open>What the last loop of a turn does, for distinct keys: it logs the jobs that are gone and keeps the
  others.\<close>

definition ended ::
  "(string \<Rightarrow> real option) \<Rightarrow> real \<Rightarrow> real list \<Rightarrow> bool list \<Rightarrow> string \<times> started_job \<Rightarrow> live_transition" where
  "ended answer now next_obs next_mask x =
     (let jct = realised_jct answer now (fst x) (snd x) in
      \<lparr>lt_obs = st_obs (snd x), lt_act = st_act (snd x), lt_rew = - jct / 1000, lt_next_obs = next_obs,
       lt_done = False, lt_mask = st_mask (snd x), lt_next_mask = next_mask, lt_jct = jct\<rparr>)"

lemma delete_middle:
  "k \<notin> fst ` set xs \<Longrightarrow> k \<notin> fst ` set ys \<Longrightarrow> dict_pop k (xs @ (k, v) # ys) = xs @ ys"
  by (induction xs) (auto simp: delete_id)

lemma end_all:
  assumes "distinct (map fst (kept @ fl))" "lc_in_flight d = kept @ fl"
  shows "foldl (note_end answer now no nm live) d (map fst fl) =
    d\<lparr>lc_in_flight := kept @ filter (\<lambda>x. fst x \<in> set live) fl,
      lc_log := lc_log d @ map (ended answer now no nm) (filter (\<lambda>x. fst x \<notin> set live) fl)\<rparr>"
  using assms
proof (induction fl arbitrary: kept d)
  case Nil
  then show ?case by simp
next
  case (Cons x fl)
  obtain k f where x: "x = (k, f)"
    by (cases x)
  show ?case
  proof (cases "k \<in> set live")
    case True
    then show ?thesis
      using Cons.IH [of "kept @ [x]" d] Cons.prems by (simp add: x note_end_def)
  next
    case False
    have k: "map_of (kept @ x # fl) k = Some f"
      using Cons.prems(1) by (auto simp: x map_add_def dest: map_of_SomeD split: option.splits)
        (metis image_eqI fst_conv map_of_SomeD)
    have pop: "dict_pop k (kept @ (k, f) # fl) = kept @ fl"
      using Cons.prems(1) by (intro delete_middle) (auto simp: x)
    let ?d = "d\<lparr>lc_in_flight := kept @ fl, lc_log := lc_log d @ [ended answer now no nm x]\<rparr>"
    have "note_end answer now no nm live d k = ?d"
      using False k pop Cons.prems(2) by (simp add: note_end_def x ended_def Let_def)
    then show ?thesis
      using Cons.IH [of kept ?d] Cons.prems(1) False by (simp add: x)
  qed
qed

section \<open>One turn\<close>

lemma length_live_obs:
  "length (live_obs pending (reconstruct_sim_cluster started names g cap) (length names) g cap now)
     = fst (env_dims (length names) g TOP_K False)"
proof -
  define cfg :: env_cfg where
    "cfg = undefined\<lparr>ec_nodes := length names, ec_gpus := g, ec_cap := cap, ec_top_k := TOP_K, ec_colocation := False\<rparr>"
  have "live_cfg cfg names"
    by (simp add: live_cfg_def cfg_def)
  from live_obs_is_build_obs [OF this, of pending started now] length_build_obs [of cfg] show ?thesis
    by (simp add: cfg_def)
qed

lemma live_no_op_dims: "Suc (live_no_op n g) = snd (env_dims n g TOP_K False)"
  by (simp add: live_no_op_def env_dims_def)

lemma sized_live:
  assumes "live_obs_and_mask pending started names g cap now = (obs, mk, ids)"
  shows "sized (length names) g obs mk" "ids = live_top_ids pending" "length ids = TOP_K"
proof -
  have "obs = live_obs pending (reconstruct_sim_cluster started names g cap) (length names) g cap now"
    "mk = live_mask (live_top pending) (reconstruct_sim_cluster started names g cap) (length names) g"
    "ids = live_top_ids pending"
    using assms by (auto simp: live_obs_and_mask_def Let_def)
  then show "sized (length names) g obs mk" "ids = live_top_ids pending" "length ids = TOP_K"
    by (simp_all add: sized_def length_live_obs length_live_mask live_no_op_dims live_top_ids_def Let_def)
qed

lemma sized_zero:
  "sized n g (replicate (fst (env_dims n g TOP_K False)) 0)
     ((replicate (snd (env_dims n g TOP_K False)) False)[snd (env_dims n g TOP_K False) - 1 := True])"
  by (simp add: sized_def)

lemma starts_ok:
  "collector_ok (length names) g d \<Longrightarrow> 0 < g \<Longrightarrow> collector_ok (length names) g (foldl (note_start names g) d started)"
  by (induction started arbitrary: d) (simp_all add: note_start_ok)

lemma logged_ended:
  assumes "started_ok n g f" "sized n g no nm" "\<And>x. answer jid = Some x \<Longrightarrow> 1 \<le> x"
  shows "logged_ok n g (ended answer now no nm (jid, f))"
  using assms by (auto simp: logged_ok_def ended_def started_ok_def realised_jct_def Let_def split: option.split)

lemma ends_ok:
  assumes "collector_ok n g d" "sized n g no nm" "\<And>jid x. answer jid = Some x \<Longrightarrow> 1 \<le> x"
  shows "collector_ok n g (foldl (note_end answer now no nm live) d (dict_keys (lc_in_flight d)))"
proof -
  let ?fl = "lc_in_flight d"
  have d: "distinct (map fst ([] @ ?fl))" "lc_in_flight d = [] @ ?fl"
    using assms(1) by (simp_all add: collector_ok_def)
  have mem: "map_of ?fl k = Some f" if "(k, f) \<in> set ?fl" for k f
    using d(1) that by simp
  have kept: "map_of (filter (\<lambda>x. fst x \<in> set live) ?fl) k = Some f \<Longrightarrow> map_of ?fl k = Some f" for k f
    using mem map_of_SomeD by fastforce
  have "logged_ok n g (ended answer now no nm x)" if "x \<in> set ?fl" for x
  proof -
    have "map_of ?fl (fst x) = Some (snd x)"
      using mem [of "fst x" "snd x"] that by simp
    then have "started_ok n g (snd x)"
      using assms(1) unfolding collector_ok_def by blast
    from logged_ended [OF this assms(2), of answer "fst x" now] assms(3) show ?thesis
      by simp
  qed
  moreover have "distinct (map fst (filter (\<lambda>x. fst x \<in> set live) ?fl))"
    using d(1) by (simp add: distinct_map_filter)
  ultimately show ?thesis
    using assms(1) kept unfolding dict_keys_def end_all [OF d] collector_ok_def by auto
qed

text \<open>The state before the last loop of a turn, and what that loop is given.\<close>

definition before_ends ::
  "string list \<Rightarrow> nat \<Rightarrow> int \<Rightarrow> real \<Rightarrow> queued_job list \<Rightarrow> collector \<Rightarrow> collector" where
  "before_ends names g cap now jobs d =
     (let pending = filter (in_state ''PENDING'') jobs; started = filter (in_state ''RUNNING'') jobs;
          (obs, mk, ids) = live_obs_and_mask pending started names g cap now
      in foldl (note_start names g)
           (if pending = [] then d else remember \<lparr>sd_obs = obs, sd_mask = mk, sd_ids = ids, sd_ts = now\<rparr> d) started)"

definition next_view ::
  "string list \<Rightarrow> nat \<Rightarrow> int \<Rightarrow> real \<Rightarrow> queued_job list \<Rightarrow> real list \<times> bool list" where
  "next_view names g cap now jobs =
     (let pending = filter (in_state ''PENDING'') jobs; started = filter (in_state ''RUNNING'') jobs;
          (obs, mk, ids) = live_obs_and_mask pending started names g cap now
      in if pending = [] then
           (replicate (fst (env_dims (length names) g TOP_K False)) 0,
            (replicate (snd (env_dims (length names) g TOP_K False)) False)[snd (env_dims (length names) g TOP_K False) - 1 := True])
         else (obs, mk))"

lemma turn_steps:
  "collect_turn names g cap now answer jobs d =
     (let d2 = before_ends names g cap now jobs d in
      foldl (note_end answer now (fst (next_view names g cap now jobs)) (snd (next_view names g cap now jobs))
        (map lq_job_id jobs)) d2 (dict_keys (lc_in_flight d2)))"
  by (simp add: collect_turn_def before_ends_def next_view_def Let_def split_beta)

lemma next_view_sized: "sized (length names) g (fst (next_view names g cap now jobs)) (snd (next_view names g cap now jobs))"
proof -
  obtain obs mk ids where v: "live_obs_and_mask (filter (in_state ''PENDING'') jobs) (filter (in_state ''RUNNING'') jobs)
      names g cap now = (obs, mk, ids)"
    by (metis prod_cases3)
  show ?thesis
    using sized_live(1) [OF v] sized_zero by (simp add: next_view_def Let_def v)
qed

lemma before_ends_ok:
  assumes "collector_ok (length names) g d" "0 < g"
  shows "collector_ok (length names) g (before_ends names g cap now jobs d)"
proof -
  obtain obs mk ids where v: "live_obs_and_mask (filter (in_state ''PENDING'') jobs) (filter (in_state ''RUNNING'') jobs)
      names g cap now = (obs, mk, ids)"
    by (metis prod_cases3)
  have "collector_ok (length names) g (remember \<lparr>sd_obs = obs, sd_mask = mk, sd_ids = ids, sd_ts = now\<rparr> d)"
    by (rule remember_ok [OF assms(1)]) (use sized_live [OF v] in simp_all)
  with assms show ?thesis
    by (simp add: before_ends_def Let_def v starts_ok)
qed

lemma turn_ok:
  assumes "collector_ok (length names) g d" "0 < g" "\<And>jid x. answer jid = Some x \<Longrightarrow> 1 \<le> x"
  shows "collector_ok (length names) g (collect_turn names g cap now answer jobs d)"
  unfolding turn_steps Let_def
  by (rule ends_ok [OF before_ends_ok [OF assms(1,2)] next_view_sized assms(3)])

lemma sacct_lines_ge: "sacct_lines stamp ls = Some x \<Longrightarrow> 1 \<le> x"
  by (induction stamp ls rule: sacct_lines.induct) (auto split: list.splits if_splits option.splits)

lemma run_collector_ok:
  "collector_ok (length names) g d \<Longrightarrow> 0 < g \<Longrightarrow>
     collector_ok (length names) g (fst (run_collector stamp names g cap ts d))"
proof (induction ts arbitrary: d)
  case Nil
  then show ?case by simp
next
  case (Cons t ts)
  show ?case
  proof (cases "parse_squeue (ti_now t) (ti_squeue t)")
    case (Inl e)
    with Cons.prems show ?thesis by simp
  next
    case (Inr jobs)
    have "collector_ok (length names) g (collect_turn names g cap (ti_now t) (\<lambda>jid. sacct_jct stamp (ti_sacct t jid)) jobs d)"
      by (rule turn_ok [OF Cons.prems]) (simp add: sacct_jct_def sacct_lines_ge)
    with Cons.IH Cons.prems(2) Inr show ?thesis by simp
  qed
qed

lemma empty_collector_ok: "collector_ok n g empty_collector"
  by (simp add: collector_ok_def empty_collector_def)

text \<open>A job is logged in a turn exactly when it had started and is not in the queue.\<close>

lemma turn_log:
  assumes "collector_ok (length names) g d" "0 < g" "before_ends names g cap now jobs d = d2"
  shows "collect_turn names g cap now answer jobs d =
    d2\<lparr>lc_in_flight := filter (\<lambda>x. fst x \<in> lq_job_id ` set jobs) (lc_in_flight d2),
       lc_log := lc_log d2 @ map (ended answer now (fst (next_view names g cap now jobs)) (snd (next_view names g cap now jobs)))
         (filter (\<lambda>x. fst x \<notin> lq_job_id ` set jobs) (lc_in_flight d2))\<rparr>"
proof -
  have "distinct (map fst ([] @ lc_in_flight d2))" "lc_in_flight d2 = [] @ lc_in_flight d2"
    using before_ends_ok [OF assms(1,2), of cap now jobs] assms(3) by (simp_all add: collector_ok_def)
  from end_all [OF this] show ?thesis
    by (simp add: turn_steps Let_def dict_keys_def assms(3))
qed

lemma before_ends_log: "lc_log (before_ends names g cap now jobs d) = lc_log d"
proof -
  have one: "lc_log (note_start names g d rj) = lc_log d" for d rj
    by (auto simp: note_start_def Let_def split: option.split)
  have "lc_log (foldl (note_start names g) d started) = lc_log d" for d started
    by (induction started arbitrary: d) (simp_all add: one)
  then show ?thesis
    by (simp add: before_ends_def Let_def split_beta remember_pending)
qed

text \<open>An empty answer of \<^verbatim>\<open>squeue\<close>, which is also what a failing one is turned into, ends every job.\<close>

lemma empty_poll:
  assumes "collector_ok (length names) g d" "0 < g"
  shows "fst (run_collector stamp names g cap [\<lparr>ti_now = now, ti_squeue = [], ti_sacct = sac\<rparr>] d) =
    d\<lparr>lc_in_flight := [],
      lc_log := lc_log d @ map (ended (\<lambda>jid. sacct_jct stamp (sac jid)) now (fst (next_view names g cap now []))
        (snd (next_view names g cap now []))) (lc_in_flight d)\<rparr>"
proof -
  have "before_ends names g cap now [] d = d"
    by (simp add: before_ends_def Let_def split_beta)
  then show ?thesis
    using turn_log [OF assms, of cap now "[]" d "\<lambda>jid. sacct_jct stamp (sac jid)"] by (simp add: parse_squeue_def)
qed

end
