(* ===== verification/LiveProps.thy ===== *)
theory LiveProps
  imports RlLiveFacts GymProps
begin

text \<open>
  The properties of the transition collector (\<^verbatim>\<open>services/rl_scheduler/live_daemon.py\<close>), with a small
  queue as the witnesses' input, given as the text \<^verbatim>\<open>squeue --json\<close> prints.
\<close>

section \<open>What is observed\<close>


definition half_request :: queued_job where
  "half_request = \<lparr>lq_job_id = ''7'', lq_mps_req = 50, lq_gpu_count = 1, lq_gpu_type = ''rtx4070'', lq_runtime = 60,
     lq_submit_ts = 1, lq_state = JStr ''PENDING'', lq_nodelist = [], lq_job_class = ''batch'', lq_slo_s = 0,
     lq_ram_req = 1\<rparr>"


section \<open>What is logged\<close>

text \<open>C31. Whatever the commands print, in every run every logged transition is well formed: the
  observations and masks have the dimensions of the environment, the action places a job (it is in
  range and not the no-op), the completion time is at least a second and the reward is its negative
  in thousands of seconds.\<close>

theorem collector_transitions_sound:
  assumes "0 < n_gpus"
  shows "list_all (logged_ok (length names) n_gpus)
    (lc_log (fst (run_collector stamp names n_gpus cap turns empty_collector)))"
  using run_collector_ok [OF empty_collector_ok assms, of names stamp cap turns]
  by (simp add: collector_ok_def list_all_iff)

definition quote :: "string \<Rightarrow> string" where
  "quote s = CHR 0x22 # s @ [CHR 0x22]"

definition queue_text :: "string \<Rightarrow> string \<Rightarrow> string" where
  "queue_text state comment =
     ''{'' @ quote ''jobs'' @ '':[{'' @ quote ''job_id'' @ '':7,'' @ quote ''job_state'' @ '':'' @ quote state @ '','' @
     quote ''nodes'' @ '':'' @ quote ''g0'' @ '','' @ quote ''comment'' @ '':'' @ quote comment @ ''}]}''"

definition queue_job :: "string \<Rightarrow> queued_job" where
  "queue_job state = \<lparr>lq_job_id = ''7'', lq_mps_req = 100, lq_gpu_count = 1, lq_gpu_type = ''rtx4070'', lq_runtime = 0,
     lq_submit_ts = 0, lq_state = JStr state, lq_nodelist = ''g0'', lq_job_class = ''batch'', lq_slo_s = 0,
     lq_ram_req = 1\<rparr>"

definition demo_turn :: "real \<Rightarrow> string \<Rightarrow> turn_input" where
  "demo_turn now t = \<lparr>ti_now = now, ti_squeue = t, ti_sacct = (\<lambda>_. [])\<rparr>"

lemma parse_demo:
  "parse_squeue 0 (queue_text ''PENDING'' []) = Inr [queue_job ''PENDING'']"
  "parse_squeue 0 (queue_text ''RUNNING'' []) = Inr [queue_job ''RUNNING'']"
  by code_simp+

lemma demo_states:
  "in_state ''PENDING'' (queue_job ''PENDING'')" "\<not> in_state ''RUNNING'' (queue_job ''PENDING'')"
  "\<not> in_state ''PENDING'' (queue_job ''RUNNING'')" "in_state ''RUNNING'' (queue_job ''RUNNING'')"
  by code_simp+

lemma queue_demo_ids: "live_top_ids [queue_job ''PENDING''] = Some ''7'' # replicate 15 None"
  by (simp add: live_top_ids_def live_top_def live_to_sim_job_def queue_job_def mk_job_def TOP_K_def upt_rec Let_def
      numeral_eq_Suc)

lemma demo_node: "node_j_of [''g0''] ''g0'' = Some 0"
  by code_simp

text \<open>The state after the job was seen pending and then running.\<close>

lemma demo_started:
  obtains f where "run_collector (\<lambda>_. None) [''g0''] 1 100
      [demo_turn 0 (queue_text ''PENDING'' []), demo_turn 0 (queue_text ''RUNNING'' [])] empty_collector =
      (\<lparr>lc_pending_obs = [], lc_in_flight = [(''7'', f)], lc_log = []\<rparr>, None)" "st_ts f = 0"
proof -
  obtain obs mk where v: "live_obs_and_mask [queue_job ''PENDING''] [] [''g0''] 1 100 0 =
      (obs, mk, Some ''7'' # replicate 15 None)"
    using queue_demo_ids by (simp add: live_obs_and_mask_def Let_def)
  let ?sd = "\<lparr>sd_obs = obs, sd_mask = mk, sd_ids = Some ''7'' # replicate 15 None, sd_ts = 0\<rparr>"
  have none: "foldl (\<lambda>d i. case i of Some jid \<Rightarrow> if jid = [] then d else d\<lparr>lc_pending_obs := dict_set jid ?sd (lc_pending_obs d)\<rparr>
      | None \<Rightarrow> d) d (replicate m None) = d" for d m
    by (induction m) simp_all
  have "collect_turn [''g0''] 1 100 0 a [queue_job ''PENDING''] empty_collector =
      \<lparr>lc_pending_obs = [(''7'', ?sd)], lc_in_flight = [], lc_log = []\<rparr>" for a
    by (simp add: collect_turn_def demo_states v remember_def none empty_collector_def dict_keys_def Let_def
        del: replicate.simps One_nat_def)
  moreover have "collect_turn [''g0''] 1 100 0 a [queue_job ''RUNNING'']
        \<lparr>lc_pending_obs = [(''7'', ?sd)], lc_in_flight = [], lc_log = []\<rparr> =
      \<lparr>lc_pending_obs = [], lc_in_flight = [(''7'', \<lparr>st_obs = obs, st_act = 0, st_mask = mk, st_ts = 0\<rparr>)], lc_log = []\<rparr>" for a
  proof -
    have j: "lq_job_id (queue_job ''RUNNING'') = ''7''" "lq_nodelist (queue_job ''RUNNING'') = ''g0''"
      by (simp_all add: queue_job_def)
    show ?thesis
      by (simp add: collect_turn_def demo_states note_start_def dict_has_def demo_node j note_end_def dict_keys_def Let_def
          split_beta del: One_nat_def)
  qed
  ultimately have "run_collector (\<lambda>_. None) [''g0''] 1 100
      [demo_turn 0 (queue_text ''PENDING'' []), demo_turn 0 (queue_text ''RUNNING'' [])] empty_collector =
      (\<lparr>lc_pending_obs = [], lc_in_flight = [(''7'', \<lparr>st_obs = obs, st_act = 0, st_mask = mk, st_ts = 0\<rparr>)], lc_log = []\<rparr>, None)"
    by (simp add: demo_turn_def parse_demo)
  then show ?thesis
    by (rule that) simp
qed

text \<open>A failing \<^verbatim>\<open>squeue\<close> is taken for an empty queue: after any run, one more turn with an empty
  output logs a transition for every started job, although none of them need have finished, and
  forgets them all; where \<^verbatim>\<open>sacct\<close> knows no end the completion time is the time since the decision.\<close>

lemma failed_poll_ends_every_job:
  assumes "0 < n_gpus" "run_collector stamp names n_gpus cap turns empty_collector = (d, None)"
    "d' = fst (run_collector stamp names n_gpus cap [\<lparr>ti_now = now, ti_squeue = [], ti_sacct = sac\<rparr>] d)"
  shows "lc_in_flight d' = [] \<and> length (lc_log d') = length (lc_log d) + length (lc_in_flight d) \<and>
    map lt_jct (drop (length (lc_log d)) (lc_log d')) =
      map (\<lambda>(jid, f). case sacct_jct stamp (sac jid) of Some x \<Rightarrow> x | None \<Rightarrow> max 1 (now - st_ts f)) (lc_in_flight d)"
proof -
  have "collector_ok (length names) n_gpus d"
    using run_collector_ok [OF empty_collector_ok assms(1), of names stamp cap turns] assms(2) by simp
  from empty_poll [OF this assms(1), of stamp cap now sac] assms(3) show ?thesis
    by (auto simp: ended_def realised_jct_def Let_def split: option.split)
qed

theorem collector_transitions_sound_witness:
  "\<exists>t. lc_log (fst (run_collector (\<lambda>_. None) [''g0''] 1 100
      [demo_turn 0 (queue_text ''PENDING'' []), demo_turn 0 (queue_text ''RUNNING'' []), demo_turn 30 []]
      empty_collector)) = [t] \<and> logged_ok 1 1 t"
proof -
  let ?ts = "[demo_turn 0 (queue_text ''PENDING'' []), demo_turn 0 (queue_text ''RUNNING'' [])]"
  obtain f where r: "run_collector (\<lambda>_. None) [''g0''] 1 100 ?ts empty_collector =
      (\<lparr>lc_pending_obs = [], lc_in_flight = [(''7'', f)], lc_log = []\<rparr>, None)" "st_ts f = 0"
    by (rule demo_started)
  have app: "run_collector s n g c (ts @ us) d =
      (case run_collector s n g c ts d of (d', None) \<Rightarrow> run_collector s n g c us d' | x \<Rightarrow> x)" for s n g c ts us d
    by (induction ts arbitrary: d) (auto split: sum.split)
  have ok: "collector_ok (length [''g0'']) 1 \<lparr>lc_pending_obs = [], lc_in_flight = [(''7'', f)], lc_log = []\<rparr>"
    using run_collector_ok [OF empty_collector_ok, of 1 "[''g0'']" "\<lambda>_. None" 100 ?ts] r(1) by simp
  have "run_collector (\<lambda>_. None) [''g0''] 1 100 (?ts @ [demo_turn 30 []]) empty_collector =
      run_collector (\<lambda>_. None) [''g0''] 1 100 [demo_turn 30 []] \<lparr>lc_pending_obs = [], lc_in_flight = [(''7'', f)], lc_log = []\<rparr>"
    unfolding app r(1) by simp
  moreover have "\<exists>t. lc_log (fst (run_collector (\<lambda>_. None) [''g0''] 1 100 [demo_turn 30 []]
      \<lparr>lc_pending_obs = [], lc_in_flight = [(''7'', f)], lc_log = []\<rparr>)) = [t]"
    using empty_poll [OF ok, of "\<lambda>_. None" 100 30 "\<lambda>_. []"] by (simp add: demo_turn_def)
  ultimately show ?thesis
    using collector_transitions_sound [of 1 "[''g0'']" "\<lambda>_. None" 100 "?ts @ [demo_turn 30 []]"] by auto
qed

section \<open>Three defects of the reader\<close>

text \<open>A comment that is JSON but no object ends the daemon; Slurm's own notation of a request for shares,
  \<^verbatim>\<open>gres/mps=25\<close>, is not understood (the job counts as a whole GPU unless its comment says otherwise);
  and a job on node 12 is also taken for one on node 1.\<close>

lemma comment_ends_daemon:
  "snd (run_collector (\<lambda>_. None) [''g0''] 1 100 [demo_turn 0 (queue_text ''PENDING'' ''1'')] empty_collector) = Some AttributeError"
proof -
  have "parse_squeue 0 (queue_text ''PENDING'' ''1'') = Inl AttributeError"
    by code_simp
  then show ?thesis
    by (simp add: demo_turn_def)
qed

lemma tres_shares_missed: "squeue_mps ''cpu=1,gres/mps=25'' = 0" "squeue_mps ''gpu:mps:25'' = 25"
  by code_simp+

lemma node_prefix_hit: "hit_nodes [''g-1'', ''g-12''] ''g-12'' = [0, 1]"
  by code_simp

end
