(* ===== verification/RlBuffer.thy ===== *)
theory RlBuffer
  imports PyJson
begin

text \<open>
  The replay buffers of \<^verbatim>\<open>services/rl_scheduler/rlpd_finetune.py\<close>: the binary sum tree
  (\<^verbatim>\<open>SumTree\<close>), the ring of transitions both buffers keep in parallel arrays (\<^verbatim>\<open>ReplayBuffer\<close>), the
  prioritized buffer (\<^verbatim>\<open>PrioritizedReplayBuffer\<close>) and the mixed batch of offline and live rows.
  A numpy array is a list, an array of rows a list of lists; what the random generator answers is
  an argument of each sampling operation. Powers are \<open>powr\<close>, on non-negative bases only.
\<close>

section \<open>The sum tree\<close>

record sum_tree =
  tr_capacity :: nat
  tr_nodes :: "real list"

definition new_tree :: "nat \<Rightarrow> sum_tree" where
  "new_tree capacity = \<lparr>tr_capacity = capacity, tr_nodes = replicate (2 * capacity) 0\<rparr>"

text \<open>The loop of \<^verbatim>\<open>update\<close>: every ancestor of the changed node is recomputed from its children.\<close>

function resum :: "nat \<Rightarrow> real list \<Rightarrow> real list" where
  "resum idx t =
     (if 1 < idx
      then resum (idx div 2) (t[idx div 2 := t ! (2 * (idx div 2)) + t ! (2 * (idx div 2) + 1)])
      else t)"
  by pat_completeness auto
termination by (relation "measure fst") auto

declare resum.simps [simp del]

definition tree_update :: "nat \<Rightarrow> real \<Rightarrow> sum_tree \<Rightarrow> py_error + sum_tree" where
  "tree_update data_idx priority tr =
     (let idx = data_idx + tr_capacity tr in
      if idx < length (tr_nodes tr)
      then Inr (tr\<lparr>tr_nodes := resum idx ((tr_nodes tr)[idx := priority])\<rparr>)
      else Inl IndexError)"

text \<open>The loop of \<^verbatim>\<open>sample_one\<close>. It starts at the root, which is node 1, and no node below it is 0.\<close>

function descend :: "nat \<Rightarrow> real list \<Rightarrow> nat \<Rightarrow> real \<Rightarrow> nat" where
  "descend capacity t idx val =
     (if 0 < idx \<and> idx < capacity
      then (if val \<le> t ! (2 * idx) then descend capacity t (2 * idx) val
            else descend capacity t (2 * idx + 1) (val - t ! (2 * idx)))
      else idx)"
  by pat_completeness auto
termination by (relation "measure (\<lambda>(c, t, i, v). c - i)") auto

declare descend.simps [simp del]

definition sample_one :: "sum_tree \<Rightarrow> real \<Rightarrow> nat" where
  "sample_one tr val = descend (tr_capacity tr) (tr_nodes tr) 1 val - tr_capacity tr"

definition tree_total :: "sum_tree \<Rightarrow> real" where
  "tree_total tr = tr_nodes tr ! 1"

definition max_priority :: "sum_tree \<Rightarrow> real" where
  "max_priority tr =
     (let leaf_max = Max (set (drop (tr_capacity tr) (tr_nodes tr))) in if 0 < leaf_max then leaf_max else 1)"

section \<open>The ring of transitions\<close>

record transition =
  tn_obs :: "real list"
  tn_act :: int
  tn_rew :: real
  tn_next_obs :: "real list"
  tn_done :: bool
  tn_mask :: "bool list option"
  tn_next_mask :: "bool list option"

record replay =
  rb_capacity :: nat
  rb_obs_dim :: nat
  rb_n_actions :: nat
  rb_obs :: "real list list"
  rb_acts :: "int list"
  rb_rews :: "real list"
  rb_next_obs :: "real list list"
  rb_dones :: "bool list"
  rb_masks :: "bool list list"
  rb_next_masks :: "bool list list"
  rb_gammas :: "real list"
  rb_size :: nat
  rb_idx :: nat

definition new_replay :: "nat \<Rightarrow> nat \<Rightarrow> nat \<Rightarrow> replay" where
  "new_replay capacity obs_dim n_actions =
     \<lparr>rb_capacity = capacity, rb_obs_dim = obs_dim, rb_n_actions = n_actions,
      rb_obs = replicate capacity (replicate obs_dim 0), rb_acts = replicate capacity 0,
      rb_rews = replicate capacity 0, rb_next_obs = replicate capacity (replicate obs_dim 0),
      rb_dones = replicate capacity False, rb_masks = replicate capacity (replicate n_actions True),
      rb_next_masks = replicate capacity (replicate n_actions True), rb_gammas = replicate capacity (99 / 100),
      rb_size = 0, rb_idx = 0\<rparr>"

text \<open>Assigning a vector to a row of a numpy array: it has the row's length, or length one and is repeated.\<close>

definition as_row :: "nat \<Rightarrow> 'a list \<Rightarrow> py_error + 'a list" where
  "as_row n xs =
     (if length xs = n then Inr xs else if length xs = 1 then Inr (replicate n (hd xs)) else Inl ValueError)"

definition opt_row :: "nat \<Rightarrow> 'a list option \<Rightarrow> 'a list \<Rightarrow> py_error + 'a list" where
  "opt_row n v old = (case v of None \<Rightarrow> Inr old | Some xs \<Rightarrow> as_row n xs)"

text \<open>The assignments of \<^verbatim>\<open>add\<close> at the write index; the masks of a slot stay as they are when a transition has none.\<close>

definition store :: "transition \<Rightarrow> real \<Rightarrow> 'z replay_scheme \<Rightarrow> py_error + 'z replay_scheme" where
  "store t gamma b =
     (let i = rb_idx b in
      if rb_capacity b \<le> i then Inl IndexError
      else
        res_bind (as_row (rb_obs_dim b) (tn_obs t)) (\<lambda>o1.
        res_bind (as_row (rb_obs_dim b) (tn_next_obs t)) (\<lambda>o2.
        res_bind (opt_row (rb_n_actions b) (tn_mask t) (rb_masks b ! i)) (\<lambda>m1.
        res_bind (opt_row (rb_n_actions b) (tn_next_mask t) (rb_next_masks b ! i)) (\<lambda>m2.
          Inr (b\<lparr>rb_obs := (rb_obs b)[i := o1], rb_acts := (rb_acts b)[i := tn_act t],
            rb_rews := (rb_rews b)[i := tn_rew t], rb_next_obs := (rb_next_obs b)[i := o2],
            rb_dones := (rb_dones b)[i := tn_done t], rb_gammas := (rb_gammas b)[i := gamma],
            rb_masks := (rb_masks b)[i := m1], rb_next_masks := (rb_next_masks b)[i := m2]\<rparr>))))))"

definition move_on :: "'z replay_scheme \<Rightarrow> 'z replay_scheme" where
  "move_on b = b\<lparr>rb_idx := (rb_idx b + 1) mod rb_capacity b, rb_size := min (rb_size b + 1) (rb_capacity b)\<rparr>"

definition replay_add :: "transition \<Rightarrow> real \<Rightarrow> 'z replay_scheme \<Rightarrow> py_error + 'z replay_scheme" where
  "replay_add t gamma b = res_bind (store t gamma b) (\<lambda>b'. Inr (move_on b'))"

text \<open>\<^verbatim>\<open>_add_transition\<close>: a full buffer takes no more.\<close>

definition add_transition :: "replay \<Rightarrow> transition \<Rightarrow> py_error + replay" where
  "add_transition b t = (if rb_capacity b \<le> rb_size b then Inr b else replay_add t (99 / 100) b)"

section \<open>Batches\<close>

record batch =
  bt_obs :: "real list list"
  bt_acts :: "int list"
  bt_rews :: "real list"
  bt_next_obs :: "real list list"
  bt_dones :: "bool list"
  bt_masks :: "bool list list"
  bt_next_masks :: "bool list list"
  bt_gammas :: "real list"

definition rows :: "nat list \<Rightarrow> 'z replay_scheme \<Rightarrow> batch" where
  "rows ix b = \<lparr>bt_obs = map ((!) (rb_obs b)) ix, bt_acts = map ((!) (rb_acts b)) ix,
     bt_rews = map ((!) (rb_rews b)) ix, bt_next_obs = map ((!) (rb_next_obs b)) ix,
     bt_dones = map ((!) (rb_dones b)) ix, bt_masks = map ((!) (rb_masks b)) ix,
     bt_next_masks = map ((!) (rb_next_masks b)) ix, bt_gammas = map ((!) (rb_gammas b)) ix\<rparr>"

text \<open>\<^verbatim>\<open>rng.integers(0, high, size=n)\<close> raises for a negative size, and for an empty range unless nothing is
  drawn; \<open>draw high n\<close> is its answer otherwise.\<close>

definition integers :: "(nat \<Rightarrow> nat \<Rightarrow> nat list) \<Rightarrow> nat \<Rightarrow> int \<Rightarrow> py_error + nat list" where
  "integers draw high n =
     (if n < 0 \<or> (high = 0 \<and> 0 < n) then Inl ValueError else Inr (draw high (nat n)))"

definition replay_sample :: "int \<Rightarrow> (nat \<Rightarrow> nat \<Rightarrow> nat list) \<Rightarrow> 'z replay_scheme \<Rightarrow> py_error + batch" where
  "replay_sample n draw b = res_bind (integers draw (rb_size b) n) (\<lambda>ix. Inr (rows ix b))"

definition join_batches :: "batch \<Rightarrow> batch \<Rightarrow> batch" where
  "join_batches a b = \<lparr>bt_obs = bt_obs a @ bt_obs b, bt_acts = bt_acts a @ bt_acts b,
     bt_rews = bt_rews a @ bt_rews b, bt_next_obs = bt_next_obs a @ bt_next_obs b,
     bt_dones = bt_dones a @ bt_dones b, bt_masks = bt_masks a @ bt_masks b,
     bt_next_masks = bt_next_masks a @ bt_next_masks b, bt_gammas = bt_gammas a @ bt_gammas b\<rparr>"

text \<open>\<^verbatim>\<open>int(x)\<close> truncates towards zero. The two draws of a batch are \<open>draw1\<close> and \<open>draw2\<close>.\<close>

definition int_trunc :: "real \<Rightarrow> int" where
  "int_trunc x = (if 0 \<le> x then \<lfloor>x\<rfloor> else \<lceil>x\<rceil>)"

definition mixed_batch ::
  "replay \<Rightarrow> replay \<Rightarrow> int \<Rightarrow> real \<Rightarrow> (nat \<Rightarrow> nat \<Rightarrow> nat list) \<Rightarrow> (nat \<Rightarrow> nat \<Rightarrow> nat list) \<Rightarrow> py_error + batch" where
  "mixed_batch offline online batch_size online_ratio draw1 draw2 =
     (if rb_size online = 0 then replay_sample batch_size draw1 offline
      else
        (let n_online = max 1 (int_trunc (of_int batch_size * online_ratio)) in
         res_bind (replay_sample n_online draw1 online) (\<lambda>a.
         res_bind (replay_sample (batch_size - n_online) draw2 offline) (\<lambda>b.
           Inr (join_batches a b)))))"

section \<open>The prioritized buffer\<close>

record prioritized = replay +
  pr_alpha :: real
  pr_beta_start :: real
  pr_beta_end :: real
  pr_beta_steps :: nat
  pr_beta_step :: nat
  pr_tree :: sum_tree

definition new_prioritized ::
  "nat \<Rightarrow> nat \<Rightarrow> nat \<Rightarrow> real \<Rightarrow> real \<Rightarrow> real \<Rightarrow> nat \<Rightarrow> prioritized" where
  "new_prioritized capacity obs_dim n_actions alpha beta_start beta_end beta_steps =
     replay.extend (new_replay capacity obs_dim n_actions)
       \<lparr>pr_alpha = alpha, pr_beta_start = beta_start, pr_beta_end = beta_end, pr_beta_steps = beta_steps,
        pr_beta_step = 0, pr_tree = new_tree capacity\<rparr>"

definition per_add :: "transition \<Rightarrow> real \<Rightarrow> prioritized \<Rightarrow> py_error + prioritized" where
  "per_add t gamma b =
     res_bind (store t gamma b) (\<lambda>b'.
     res_bind (tree_update (rb_idx b) (max_priority (pr_tree b) powr pr_alpha b) (pr_tree b)) (\<lambda>tr.
       Inr (move_on (b'\<lparr>pr_tree := tr\<rparr>))))"

definition per_beta :: "prioritized \<Rightarrow> real" where
  "per_beta b =
     pr_beta_start b + min 1 (of_nat (pr_beta_step b) / of_nat (max 1 (pr_beta_steps b))) * (pr_beta_end b - pr_beta_start b)"

record per_batch =
  pb_rows :: batch
  pb_weights :: "real list"
  pb_indices :: "nat list"

text \<open>\<open>uniform k lo hi\<close> is the answer of the \<open>k\<close>-th \<^verbatim>\<open>rng.uniform(lo, hi)\<close> of the call.\<close>

definition per_indices :: "nat \<Rightarrow> (nat \<Rightarrow> real \<Rightarrow> real \<Rightarrow> real) \<Rightarrow> prioritized \<Rightarrow> nat list" where
  "per_indices n uniform b =
     (let segment = tree_total (pr_tree b) / of_nat n in
      map (\<lambda>i. min (sample_one (pr_tree b) (uniform i (segment * of_nat i) (segment * (of_nat i + 1)))) (rb_size b - 1))
        [0..<n])"

definition per_weights :: "nat list \<Rightarrow> prioritized \<Rightarrow> real list" where
  "per_weights ix b =
     (let priorities = map (\<lambda>d. tr_nodes (pr_tree b) ! (d + tr_capacity (pr_tree b))) ix;
          probs = map (\<lambda>p. p / tree_total (pr_tree b)) priorities;
          ws = map (\<lambda>p. (of_nat (rb_size b) * p) powr (- per_beta b)) probs
      in map (\<lambda>w. w / Max (set ws)) ws)"

definition per_sample ::
  "nat \<Rightarrow> (nat \<Rightarrow> real \<Rightarrow> real \<Rightarrow> real) \<Rightarrow> prioritized \<Rightarrow> py_error + (per_batch \<times> prioritized)" where
  \<comment> \<open>of a buffer with at least one transition: on an empty one numpy divides by zero and clamps the index to \<open>-1\<close>\<close>
  "per_sample n uniform b =
     (if n = 0 then Inl ZeroDivisionError
      else
        (let ix = per_indices n uniform b in
         Inr (\<lparr>pb_rows = rows ix b, pb_weights = per_weights ix b, pb_indices = ix\<rparr>,
              b\<lparr>pr_beta_step := pr_beta_step b + 1\<rparr>)))"

fun update_each :: "(nat \<times> real) list \<Rightarrow> sum_tree \<Rightarrow> py_error + sum_tree" where
  "update_each [] tr = Inr tr"
| "update_each ((i, p) # ips) tr = res_bind (tree_update i p tr) (update_each ips)"

definition update_priorities :: "nat list \<Rightarrow> real list \<Rightarrow> prioritized \<Rightarrow> py_error + prioritized" where
  "update_priorities indices td_errors b =
     res_bind (update_each (zip indices (map (\<lambda>e. (\<bar>e\<bar> + 1 / 1000000) powr pr_alpha b) td_errors)) (pr_tree b))
       (\<lambda>tr. Inr (b\<lparr>pr_tree := tr\<rparr>))"

end
