(* ===== verification/RlTrain.thy ===== *)
theory RlTrain
  imports RlBuffer SimVec RlLive
begin

text \<open>
  The training loop of \<^verbatim>\<open>services/rl_scheduler/sim_train.py\<close> with one environment. The learner is an
  argument: a choice of action, an update on a batch that may return temporal-difference errors, and a
  discount. One counter numbers the draws of the loop's generator; each draw is an answer of
  \<open>train_rng\<close>.
\<close>

section \<open>Returns over n steps\<close>

definition deque_append :: "nat \<Rightarrow> 'a \<Rightarrow> 'a list \<Rightarrow> 'a list" where
  \<comment> \<open>\<^verbatim>\<open>append\<close> on a deque with \<^verbatim>\<open>maxlen\<close>\<close>
  "deque_append n x q = (let q' = q @ [x] in drop (length q' - n) q')"

definition nstep_horizon :: "transition list \<Rightarrow> nat" where
  "nstep_horizon q = min (length q) (length (takeWhile (\<lambda>t. \<not> tn_done t) q) + 1)"

definition nstep_return :: "real \<Rightarrow> transition list \<Rightarrow> real \<times> real" where
  "nstep_return gamma w = foldl (\<lambda>(r, g) t. (r + g * tn_rew t, g * gamma)) (0, 1) w"

definition flush_nstep :: "real \<Rightarrow> transition list \<Rightarrow> (transition \<times> real) option" where
  "flush_nstep gamma q =
     (if q = [] then None
      else
        (let w = take (nstep_horizon q) q; (r, g) = nstep_return gamma w; t0 = hd q; t_last = last w in
         Some (\<lparr>tn_obs = tn_obs t0, tn_act = tn_act t0, tn_rew = r, tn_next_obs = tn_next_obs t_last,
                tn_done = tn_done t_last, tn_mask = tn_mask t0, tn_next_mask = tn_next_mask t_last\<rparr>, g)))"

definition nstep_turn ::
  "nat \<Rightarrow> real \<Rightarrow> transition \<Rightarrow> transition list \<Rightarrow> (transition \<times> real) option \<times> transition list" where
  "nstep_turn n gamma t q =
     (let q' = deque_append n t q in
      if length q' = n \<or> tn_done t then (flush_nstep gamma q', if tn_done t then [] else q') else (None, q'))"

fun nstep_stream :: "nat \<Rightarrow> real \<Rightarrow> transition list \<Rightarrow> transition list \<Rightarrow> (transition \<times> real) list" where
  "nstep_stream n gamma q [] = []"
| "nstep_stream n gamma q (t # ts) =
     (case nstep_turn n gamma t q of
        (None, q') \<Rightarrow> nstep_stream n gamma q' ts
      | (Some x, q') \<Rightarrow> x # nstep_stream n gamma q' ts)"

section \<open>Reward scale and curriculum\<close>

record reward_norm =
  nm_count :: nat
  nm_mean :: real
  nm_m2 :: real

definition no_rewards :: reward_norm where
  "no_rewards = \<lparr>nm_count = 0, nm_mean = 0, nm_m2 = 0\<rparr>"

definition normalize :: "bool \<Rightarrow> real \<Rightarrow> reward_norm \<Rightarrow> real \<times> reward_norm" where
  "normalize normalize_reward r nm =
     (let count = nm_count nm + 1; d = r - nm_mean nm; m = nm_mean nm + d / of_nat count;
          m2 = nm_m2 nm + d * (r - m); std = sqrt (m2 / of_nat count)
      in (if \<not> normalize_reward \<or> count < 2 then r else r / (std + 1 / 1000000),
          \<lparr>nm_count = count, nm_mean = m, nm_m2 = m2\<rparr>))"

fun stage_from :: "real \<Rightarrow> (int \<times> real) list \<Rightarrow> real \<Rightarrow> int \<Rightarrow> int" where
  "stage_from cum [] progress n = n"
| "stage_from cum ((nj, share) # ss) progress n =
     (if progress < cum + share then nj else stage_from (cum + share) ss progress n)"

definition resolve_stages :: "bool \<Rightarrow> (int \<times> real) list option \<Rightarrow> (int \<times> real) list option" where
  "resolve_stages curriculum stages =
     (if curriculum \<and> stages = None then Some [(10, 1 / 5), (30, 3 / 10), (50, 1 / 2)] else stages)"

definition curriculum_jobs :: "(int \<times> real) list \<Rightarrow> real \<Rightarrow> py_error + int" where
  "curriculum_jobs stages progress =
     (case stages of [] \<Rightarrow> Inl IndexError | s # _ \<Rightarrow> Inr (stage_from 0 stages progress (fst s)))"

section \<open>The learner and its buffer\<close>

record 'a learner =
  ln_select :: "'a \<Rightarrow> real list \<Rightarrow> bool list \<Rightarrow> nat \<times> 'a"
  ln_update :: "'a \<Rightarrow> batch \<Rightarrow> real list option \<Rightarrow> real list option \<times> 'a"  \<comment> \<open>with the weights, if the batch has them\<close>
  ln_gamma :: real

record train_rng =
  tg_choice :: "nat \<Rightarrow> nat list \<Rightarrow> nat"
  tg_int :: "nat \<Rightarrow> nat \<Rightarrow> nat"
  tg_draw :: "nat \<Rightarrow> nat \<Rightarrow> nat \<Rightarrow> nat list"
  tg_uniform :: "nat \<Rightarrow> nat \<Rightarrow> real \<Rightarrow> real \<Rightarrow> real"

datatype train_buf = Per prioritized | Plain replay

fun buf_len :: "train_buf \<Rightarrow> nat" where
  "buf_len (Per b) = rb_size b"
| "buf_len (Plain b) = rb_size b"

fun buf_add :: "transition \<Rightarrow> real \<Rightarrow> train_buf \<Rightarrow> py_error + train_buf" where
  "buf_add t g (Per b) = (case per_add t g b of Inl e \<Rightarrow> Inl e | Inr b' \<Rightarrow> Inr (Per b'))"
| "buf_add t g (Plain b) = (case replay_add t g b of Inl e \<Rightarrow> Inl e | Inr b' \<Rightarrow> Inr (Plain b'))"

fun learn_once ::
  "'a learner \<Rightarrow> train_rng \<Rightarrow> nat \<Rightarrow> nat \<Rightarrow> train_buf \<times> 'a \<Rightarrow> py_error + (train_buf \<times> 'a)" where
  "learn_once lrn tg k batch_size (Per b, a) =
     (case per_sample (min batch_size (rb_size b)) (tg_uniform tg k) b of
        Inl e \<Rightarrow> Inl e
      | Inr (bt, b1) \<Rightarrow>
          (case ln_update lrn a (pb_rows bt) (Some (pb_weights bt)) of
             (None, a') \<Rightarrow> Inr (Per b1, a')
           | (Some td, a') \<Rightarrow>
               (case update_priorities (pb_indices bt) td b1 of Inl e \<Rightarrow> Inl e | Inr b2 \<Rightarrow> Inr (Per b2, a'))))"
| "learn_once lrn tg k batch_size (Plain b, a) =
     (case replay_sample (int (min batch_size (rb_size b))) (tg_draw tg k) b of
        Inl e \<Rightarrow> Inl e
      | Inr bt \<Rightarrow> Inr (Plain b, snd (ln_update lrn a bt None)))"

fun learn_times ::
  "nat \<Rightarrow> 'a learner \<Rightarrow> train_rng \<Rightarrow> nat \<Rightarrow> nat \<Rightarrow> train_buf \<times> 'a \<Rightarrow> py_error + (train_buf \<times> 'a)" where
  "learn_times 0 lrn tg k batch_size x = Inr x"
| "learn_times (Suc n) lrn tg k batch_size x =
     (case learn_once lrn tg k batch_size x of
        Inl e \<Rightarrow> Inl e
      | Inr x' \<Rightarrow> learn_times n lrn tg (k + 1) batch_size x')"

section \<open>The loop\<close>

record train_cfg =
  tc_env :: env_cfg
  tc_families :: "string list"
  tc_n_jobs :: int
  tc_max_steps_mult :: nat
  tc_nstep :: nat
  tc_total_steps :: nat
  tc_warmup_steps :: nat
  tc_score_warmup :: bool
  tc_update_every :: nat
  tc_utd_ratio :: nat
  tc_batch_size :: nat
  tc_buf_capacity :: nat
  tc_seed :: int
  tc_use_per :: bool
  tc_normalize :: bool
  tc_stages :: "(int \<times> real) list option"

record episode_log =
  el_step :: nat
  el_episode :: nat
  el_ep_steps :: nat
  el_ep_reward :: real
  el_avg_jct :: "real option"
  el_n_jobs :: int

record 'a train_state =
  ts_env :: env
  ts_obs :: "real list"
  ts_n_jobs :: int
  ts_buf :: train_buf
  ts_deque :: "transition list"
  ts_norm :: reward_norm
  ts_learner :: 'a
  ts_drawn :: nat
  ts_ep_steps :: nat
  ts_ep_reward :: real
  ts_ep_count :: nat
  ts_log :: "episode_log list"

text \<open>The loop's own factory: a family and a seed from the loop's generator, then a filtered trace.\<close>

definition train_jobs :: "train_cfg \<Rightarrow> train_rng \<Rightarrow> (int \<Rightarrow> rng) \<Rightarrow> int \<Rightarrow> nat \<Rightarrow> py_error + job list" where
  "train_jobs tc tg py n_jobs k =
     (case call_factory (\<lambda>_ i h. tg_int tg i h) py
             ((new_factory (tc_families tc) n_jobs (int (ec_nodes (tc_env tc) * ec_gpus (tc_env tc))) 0)\<lparr>ff_drawn := k\<rparr>) of
        Inl e \<Rightarrow> Inl e
      | Inr (jobs, _) \<Rightarrow> Inr jobs)"

definition train_reset ::
  "train_cfg \<Rightarrow> train_rng \<Rightarrow> (int \<Rightarrow> rng) \<Rightarrow> int option \<Rightarrow> 'a train_state \<Rightarrow> py_error + 'a train_state" where
  "train_reset tc tg py seed ts =
     (case train_jobs tc tg py (ts_n_jobs ts) (ts_drawn ts) of
        Inl e \<Rightarrow> Inl e
      | Inr jobs \<Rightarrow>
          (case reset_env seed jobs (ts_env ts) of
             Inl e \<Rightarrow> Inl e
           | Inr (obs, en) \<Rightarrow> Inr (ts\<lparr>ts_env := en, ts_obs := obs, ts_drawn := ts_drawn ts + 2\<rparr>)))"

text \<open>A stage boundary changes the factory and the length of the episodes.\<close>

definition switch_stage :: "train_cfg \<Rightarrow> nat \<Rightarrow> 'a train_state \<Rightarrow> py_error + 'a train_state" where
  "switch_stage tc k ts =
     (case tc_stages tc of
        None \<Rightarrow> Inr ts
      | Some stages \<Rightarrow>
          (case curriculum_jobs stages (of_nat k / of_nat (tc_total_steps tc)) of
             Inl e \<Rightarrow> Inl e
           | Inr n \<Rightarrow>
               if n \<noteq> ts_n_jobs ts
               then Inr (ts\<lparr>ts_n_jobs := n,
                      ts_env := (ts_env ts)\<lparr>en_cfg := (en_cfg (ts_env ts))\<lparr>ec_max_steps := nat (n * 200)\<rparr>\<rparr>\<rparr>)
               else Inr ts))"

text \<open>The warm-up draws its fallback first; without pending jobs, or without the heuristic, it is the choice.\<close>

definition train_action ::
  "train_cfg \<Rightarrow> 'a learner \<Rightarrow> train_rng \<Rightarrow> bool list \<Rightarrow> 'a train_state \<Rightarrow> nat \<times> 'a train_state" where
  "train_action tc lrn tg mk ts =
     (if buf_len (ts_buf ts) < tc_warmup_steps tc then
        (let fallback = tg_choice tg (ts_drawn ts) (flatnonzero mk); ts' = ts\<lparr>ts_drawn := ts_drawn ts + 1\<rparr> in
         case en_state (ts_env ts) of
           Some s \<Rightarrow>
             if tc_score_warmup tc \<and> gs_pending s \<noteq> []
             then (warmup_pick (en_cfg (ts_env ts)) s mk fallback
                     (score_order score_defaults (gs_pending s) (gs_cluster s) (gs_now s)), ts')
             else (fallback, ts')
         | None \<Rightarrow> (fallback, ts'))
      else
        (case ln_select lrn (ts_learner ts) (ts_obs ts) mk of (a, l) \<Rightarrow> (a, ts\<lparr>ts_learner := l\<rparr>)))"

definition note_transition ::
  "train_cfg \<Rightarrow> real \<Rightarrow> nat \<Rightarrow> bool list \<Rightarrow> step_result \<Rightarrow> bool list \<Rightarrow> 'a train_state \<Rightarrow> py_error + 'a train_state" where
  "note_transition tc gamma act mk res next_mk ts =
     (let dn = (sr_terminated res \<or> sr_truncated res);
          (rew, nm) = normalize (tc_normalize tc) (sr_reward res) (ts_norm ts);
          t = \<lparr>tn_obs = ts_obs ts, tn_act = int act, tn_rew = rew, tn_next_obs = sr_obs res, tn_done = dn,
               tn_mask = Some mk, tn_next_mask = Some next_mk\<rparr>;
          (out, q) = nstep_turn (tc_nstep tc) gamma t (ts_deque ts);
          ts' = ts\<lparr>ts_norm := nm, ts_deque := q, ts_obs := sr_obs res, ts_ep_steps := ts_ep_steps ts + 1,
                   ts_ep_reward := ts_ep_reward ts + sr_reward res\<rparr>
      in case out of
           None \<Rightarrow> Inr ts'
         | Some (t', g) \<Rightarrow>
             (case buf_add t' g (ts_buf ts) of Inl e \<Rightarrow> Inl e | Inr b \<Rightarrow> Inr (ts'\<lparr>ts_buf := b\<rparr>)))"

definition end_episode ::
  "train_cfg \<Rightarrow> train_rng \<Rightarrow> (int \<Rightarrow> rng) \<Rightarrow> nat \<Rightarrow> step_result \<Rightarrow> 'a train_state \<Rightarrow> py_error + 'a train_state" where
  "end_episode tc tg py k res ts =
     train_reset tc tg py None
       (ts\<lparr>ts_ep_count := ts_ep_count ts + 1, ts_ep_steps := 0, ts_ep_reward := 0,
           ts_log := ts_log ts @ [\<lparr>el_step = k, el_episode = ts_ep_count ts + 1, el_ep_steps = ts_ep_steps ts,
             el_ep_reward = ts_ep_reward ts, el_avg_jct = sr_avg_jct res, el_n_jobs = ts_n_jobs ts\<rparr>]\<rparr>)"

definition learn_phase :: "train_cfg \<Rightarrow> 'a learner \<Rightarrow> train_rng \<Rightarrow> nat \<Rightarrow> 'a train_state \<Rightarrow> py_error + 'a train_state" where
  "learn_phase tc lrn tg k ts =
     (if buf_len (ts_buf ts) < tc_warmup_steps tc then Inr ts
      else if tc_update_every tc = 0 then Inl ZeroDivisionError
      else if k mod tc_update_every tc \<noteq> 0 then Inr ts
      else
        (case learn_times (tc_utd_ratio tc) lrn tg (ts_drawn ts) (tc_batch_size tc) (ts_buf ts, ts_learner ts) of
           Inl e \<Rightarrow> Inl e
         | Inr (b, l) \<Rightarrow>
             Inr (ts\<lparr>ts_buf := b, ts_learner := l, ts_drawn := ts_drawn ts + tc_utd_ratio tc\<rparr>)))"

definition train_turn ::
  "train_cfg \<Rightarrow> 'a learner \<Rightarrow> train_rng \<Rightarrow> (int \<Rightarrow> rng) \<Rightarrow> (nat \<Rightarrow> noise) \<Rightarrow> nat \<Rightarrow> 'a train_state \<Rightarrow>
   py_error + 'a train_state" where
  "train_turn tc lrn tg py nz k ts0 =
     res_bind (switch_stage tc k ts0) (\<lambda>ts1.
       (let mk = mask_of (ts_env ts1); (act, ts2) = train_action tc lrn tg mk ts1 in
        case step (nz (ts_ep_count ts2)) act (ts_env ts2) of
          Inl e \<Rightarrow> Inl e
        | Inr (res, en) \<Rightarrow>
            res_bind (note_transition tc (ln_gamma lrn) act mk res (mask_of en) (ts2\<lparr>ts_env := en\<rparr>)) (\<lambda>ts3.
            res_bind (if sr_terminated res \<or> sr_truncated res then end_episode tc tg py k res ts3 else Inr ts3) (\<lambda>ts4.
              learn_phase tc lrn tg k ts4))))"

fun train_loop ::
  "train_cfg \<Rightarrow> 'a learner \<Rightarrow> train_rng \<Rightarrow> (int \<Rightarrow> rng) \<Rightarrow> (nat \<Rightarrow> noise) \<Rightarrow> nat list \<Rightarrow> 'a train_state \<Rightarrow>
   py_error + 'a train_state" where
  "train_loop tc lrn tg py nz [] ts = Inr ts"
| "train_loop tc lrn tg py nz (k # ks) ts =
     res_bind (train_turn tc lrn tg py nz k ts) (train_loop tc lrn tg py nz ks)"

definition start_training :: "train_cfg \<Rightarrow> 'a \<Rightarrow> py_error + 'a train_state" where
  "start_training tc l =
     (let (obs_dim, n_actions) = env_dims (ec_nodes (tc_env tc)) (ec_gpus (tc_env tc)) TOP_K (ec_colocation (tc_env tc));
          buf = (if tc_use_per tc then Per (new_prioritized (tc_buf_capacity tc) obs_dim n_actions (3 / 5) (2 / 5) 1 100000)
                 else Plain (new_replay (tc_buf_capacity tc) obs_dim n_actions))
      in case make_env ((tc_env tc)\<lparr>ec_top_k := TOP_K, ec_max_steps := nat (tc_n_jobs tc * int (tc_max_steps_mult tc))\<rparr>) of
           Inl e \<Rightarrow> Inl e
         | Inr en \<Rightarrow>
             Inr \<lparr>ts_env = en, ts_obs = [], ts_n_jobs = tc_n_jobs tc, ts_buf = buf, ts_deque = [], ts_norm = no_rewards,
                  ts_learner = l, ts_drawn = 0, ts_ep_steps = 0, ts_ep_reward = 0, ts_ep_count = 0, ts_log = []\<rparr>)"

definition sim_train ::
  "train_cfg \<Rightarrow> 'a learner \<Rightarrow> train_rng \<Rightarrow> (int \<Rightarrow> rng) \<Rightarrow> (nat \<Rightarrow> noise) \<Rightarrow> 'a \<Rightarrow> py_error + 'a train_state" where
  "sim_train tc lrn tg py nz l =
     res_bind (start_training tc l) (\<lambda>ts.
     res_bind (train_reset tc tg py (Some (tc_seed tc)) ts) (\<lambda>ts'.
       train_loop tc lrn tg py nz [0..<tc_total_steps tc] ts'))"

end
