(* ===== verification/RlBufferFacts.thy ===== *)
theory RlBufferFacts
  imports RlBuffer
begin

text \<open>
  The sum tree keeps every node the sum of its children and samples a leaf with a probability
  proportional to its priority; the locale \<open>priority_index\<close> is what the prioritized buffer relies on.
  Then the ring: both buffers hold the last transitions, in order.
\<close>

section \<open>Trees laid out in a list\<close>

definition tree_ok :: "nat \<Rightarrow> real list \<Rightarrow> bool" where
  "tree_ok c t \<longleftrightarrow> 0 < c \<and> length t = 2 * c \<and> (\<forall>i. 0 < i \<and> i < c \<longrightarrow> t ! i = t ! (2 * i) + t ! (2 * i + 1))"

lemma length_resum [simp]: "length (resum idx t) = length t"
  by (induction idx t rule: resum.induct) (subst resum.simps, simp)

lemma resum_sums:
  assumes "length t = 2 * c" "0 < idx" "idx < 2 * c"
    "\<forall>i. 0 < i \<and> i < c \<and> i \<noteq> idx div 2 \<longrightarrow> t ! i = t ! (2 * i) + t ! (2 * i + 1)"
  shows "(\<forall>i. 0 < i \<and> i < c \<longrightarrow> resum idx t ! i = resum idx t ! (2 * i) + resum idx t ! (2 * i + 1)) \<and>
    (\<forall>j\<ge>c. resum idx t ! j = t ! j)"
  using assms
proof (induction idx t rule: resum.induct)
  case (1 idx t)
  show ?case
  proof (cases "1 < idx")
    case True
    let ?p = "idx div 2"
    let ?t = "t[?p := t ! (2 * ?p) + t ! (2 * ?p + 1)]"
    have p: "0 < ?p" "?p < c"
      using True "1.prems"(3) by simp_all
    then have "2 * ?p + 1 < length t"
      using "1.prems"(1) by linarith
    note p = p this
    have "?t ! i = ?t ! (2 * i) + ?t ! (2 * i + 1)" if "0 < i" "i < c" "i \<noteq> ?p div 2" for i
      using that p "1.prems"(1,4) by (cases "i = ?p") (auto simp: nth_list_update)
    then have sums: "\<forall>i. 0 < i \<and> i < c \<and> i \<noteq> ?p div 2 \<longrightarrow> ?t ! i = ?t ! (2 * i) + ?t ! (2 * i + 1)"
      by blast
    have step: "resum idx t = resum ?p ?t"
      using True by (simp add: resum.simps [of idx t])
    have len: "length ?t = 2 * c" and below: "?p < 2 * c"
      using "1.prems"(1) p by simp_all
    from "1.IH" [OF True len p(1) below sums] p(2) show ?thesis
      unfolding step by (metis nth_list_update_neq not_le)
  next
    case False
    then have "idx = 1"
      using "1.prems"(2) by simp
    moreover from this have "resum idx t = t"
      by (simp add: resum.simps)
    ultimately show ?thesis
      using "1.prems"(4) by simp
  qed
qed

lemma update_ok:
  assumes "tree_ok c t" "d < c"
  shows "tree_ok c (resum (d + c) (t[d + c := p]))"
    "e < c \<Longrightarrow> resum (d + c) (t[d + c := p]) ! (e + c) = (if e = d then p else t ! (e + c))"
proof -
  have "t[d + c := p] ! i = t[d + c := p] ! (2 * i) + t[d + c := p] ! (2 * i + 1)"
    if "0 < i" "i < c" "i \<noteq> (d + c) div 2" for i
  proof -
    have "d + c \<noteq> i" "d + c \<noteq> 2 * i" "d + c \<noteq> 2 * i + 1"
      using that by auto
    then show ?thesis
      using assms(1) that by (simp add: tree_ok_def)
  qed
  then have "\<forall>i. 0 < i \<and> i < c \<and> i \<noteq> (d + c) div 2 \<longrightarrow>
      t[d + c := p] ! i = t[d + c := p] ! (2 * i) + t[d + c := p] ! (2 * i + 1)"
    by blast
  from resum_sums [OF _ _ _ this] assms
  show "tree_ok c (resum (d + c) (t[d + c := p]))"
    "e < c \<Longrightarrow> resum (d + c) (t[d + c := p]) ! (e + c) = (if e = d then p else t ! (e + c))"
    by (simp_all add: tree_ok_def nth_list_update)
qed

text \<open>The leaves below a node, as offsets, in the order in which the search passes them.\<close>

function leaves_below :: "nat \<Rightarrow> nat \<Rightarrow> nat list" where
  "leaves_below c i =
     (if 0 < i \<and> i < c then leaves_below c (2 * i) @ leaves_below c (2 * i + 1) else [i - c])"
  by pat_completeness auto
termination by (relation "measure (\<lambda>(c, i). c - i)") auto

declare leaves_below.simps [simp del]

definition leaf_order :: "nat \<Rightarrow> nat list" where
  "leaf_order c = leaves_below c 1"

text \<open>A function on nodes that adds up like the tree is at the root the sum over the leaves.\<close>

lemma pair_sums:
  fixes f :: "nat \<Rightarrow> 'a::comm_monoid_add"
  assumes "0 < c"
  shows "(\<Sum>i = 1..<c. f (2 * i) + f (2 * i + 1)) = sum f {2..<2 * c}"
  using assms
proof (induction c)
  case (Suc c)
  show ?case
  proof (cases "c = 0")
    case False
    then have "{2..<2 * Suc c} = insert (2 * c + 1) (insert (2 * c) {2..<2 * c})"
      by auto
    then show ?thesis
      using Suc.IH False by (simp add: ac_simps)
  qed simp
qed simp

lemma root_sum:
  fixes f :: "nat \<Rightarrow> 'a::cancel_comm_monoid_add"
  assumes "0 < c" "\<forall>i. 0 < i \<and> i < c \<longrightarrow> f i = f (2 * i) + f (2 * i + 1)"
  shows "f 1 = sum f {c..<2 * c}"
proof -
  have "sum f {1..<c} = sum f {2..<2 * c}"
    using pair_sums [OF assms(1), of f] assms(2) by (simp cong: sum.cong_simp)
  moreover have "sum f {1..<2 * c} = sum f {1..<c} + sum f {c..<2 * c}"
    using assms(1) by (simp add: sum.atLeastLessThan_concat)
  moreover have "sum f {1..<2 * c} = f 1 + sum f {2..<2 * c}"
    using assms(1) by (simp add: sum.atLeast_Suc_lessThan numeral_2_eq_2)
  ultimately show ?thesis
    by (simp add: add.commute)
qed

lemma leaf_order_perm:
  assumes "0 < c"
  shows "mset (leaf_order c) = mset [0..<c]"
proof (rule multiset_eqI)
  fix d
  have leaf: "count (mset (leaves_below c j)) d = (if j = d + c then 1 else 0)" if "c \<le> j" for j
    using that by (subst leaves_below.simps) auto
  have "count (mset (leaves_below c 1)) d = (\<Sum>j = c..<2 * c. count (mset (leaves_below c j)) d)"
    by (rule root_sum [OF assms]) (auto simp: leaves_below.simps [of c "_"])
  also have "\<dots> = (\<Sum>j = c..<2 * c. if j = d + c then 1 else 0)"
    by (rule sum.cong) (simp_all add: leaf)
  also have "\<dots> = count (mset [0..<c]) d"
    by (auto simp: count_mset_0_iff distinct_count_atmost_1 count_mset)
  finally show "count (mset (leaf_order c)) d = count (mset [0..<c]) d"
    by (simp add: leaf_order_def)
qed

lemma node_sum:
  assumes "tree_ok c t" "0 < i" "i < 2 * c"
  shows "t ! i = sum_list (map (\<lambda>d. t ! (d + c)) (leaves_below c i))"
  using assms
proof (induction c i rule: leaves_below.induct)
  case (1 c i)
  then show ?case
    by (subst leaves_below.simps) (auto simp: tree_ok_def)
qed

lemma descend_finds:
  assumes "tree_ok c t" "0 < i" "i < 2 * c" "0 < v" "v \<le> t ! i"
  shows "\<exists>pre post. leaves_below c i = pre @ (descend c t i v - c) # post \<and> c \<le> descend c t i v \<and>
    sum_list (map (\<lambda>d. t ! (d + c)) pre) < v \<and>
    v \<le> sum_list (map (\<lambda>d. t ! (d + c)) pre) + t ! descend c t i v"
  using assms
proof (induction c t i v rule: descend.induct)
  case (1 c t i v)
  consider (leaf) "c \<le> i" | (left) "i < c" "v \<le> t ! (2 * i)" | (right) "i < c" "t ! (2 * i) < v"
    by linarith
  then show ?case
  proof cases
    case leaf
    then have "leaves_below c i = [] @ [i - c]" "descend c t i v = i"
      by (simp_all add: leaves_below.simps [of c i] descend.simps [of c t i v])
    then show ?thesis
      using leaf "1.prems"(4,5) by (intro exI [of _ "[]"]) simp
  next
    case left
    then obtain pre post where "leaves_below c (2 * i) = pre @ (descend c t (2 * i) v - c) # post"
      "c \<le> descend c t (2 * i) v" "sum_list (map (\<lambda>d. t ! (d + c)) pre) < v"
      "v \<le> sum_list (map (\<lambda>d. t ! (d + c)) pre) + t ! descend c t (2 * i) v"
      using "1.IH"(1) "1.prems" by auto
    then show ?thesis
      using left "1.prems"(2)
      by (intro exI [of _ pre] exI [of _ "post @ leaves_below c (2 * i + 1)"])
        (simp add: leaves_below.simps [of c i] descend.simps [of c t i v])
  next
    case right
    let ?v = "v - t ! (2 * i)"
    have "?v \<le> t ! (2 * i + 1)"
      using "1.prems"(1,2,5) right(1) by (simp add: tree_ok_def)
    then obtain pre post where *: "leaves_below c (2 * i + 1) = pre @ (descend c t (2 * i + 1) ?v - c) # post"
      "c \<le> descend c t (2 * i + 1) ?v" "sum_list (map (\<lambda>d. t ! (d + c)) pre) < ?v"
      "?v \<le> sum_list (map (\<lambda>d. t ! (d + c)) pre) + t ! descend c t (2 * i + 1) ?v"
      using "1.IH"(2) "1.prems"(1-3) right by auto
    have "t ! (2 * i) = sum_list (map (\<lambda>d. t ! (d + c)) (leaves_below c (2 * i)))"
      by (rule node_sum) (use "1.prems"(1,2) right(1) in auto)
    with * show ?thesis
      using right "1.prems"(2)
      by (intro exI [of _ "leaves_below c (2 * i) @ pre"] exI [of _ post])
        (simp add: leaves_below.simps [of c i] descend.simps [of c t i v])
  qed
qed


section \<open>The contract of the tree\<close>

text \<open>
  What sampling by priority relies on: a store of priorities that can be updated one at a time, a
  total, and a search that finds the leaf whose interval of the running sum contains a value. The
  leaves are passed in the order \<open>order\<close>.
\<close>

locale priority_index =
  fixes invar :: "'t \<Rightarrow> bool" and cap :: "'t \<Rightarrow> nat" and leaf :: "'t \<Rightarrow> nat \<Rightarrow> real"
    and upd :: "nat \<Rightarrow> real \<Rightarrow> 't \<Rightarrow> py_error + 't" and total :: "'t \<Rightarrow> real" and find :: "'t \<Rightarrow> real \<Rightarrow> nat"
    and order :: "nat \<Rightarrow> nat list"
  assumes order: "invar t \<Longrightarrow> mset (order (cap t)) = mset [0..<cap t]"
    and upd: "invar t \<Longrightarrow> d < cap t \<Longrightarrow> \<exists>t'. upd d p t = Inr t' \<and> invar t' \<and> cap t' = cap t \<and>
      (\<forall>e<cap t. leaf t' e = (if e = d then p else leaf t e))"
    and total: "invar t \<Longrightarrow> total t = sum_list (map (leaf t) (order (cap t)))"
    and found: "invar t \<Longrightarrow> 0 < v \<Longrightarrow> v \<le> total t \<Longrightarrow> \<exists>pre post. order (cap t) = pre @ find t v # post \<and>
      sum_list (map (leaf t) pre) < v \<and> v \<le> sum_list (map (leaf t) pre) + leaf t (find t v)"
begin

lemma order_mem: "invar t \<Longrightarrow> d \<in> set (order (cap t)) \<longleftrightarrow> d < cap t"
  using order [of t] by (metis atLeast0LessThan lessThan_iff mset_eq_setD set_upt)

lemma order_distinct: "invar t \<Longrightarrow> distinct (order (cap t))"
  using order [of t] by (metis distinct_upt mset_eq_imp_distinct_iff)

lemma total_sum: "invar t \<Longrightarrow> total t = (\<Sum>d<cap t. leaf t d)"
  using order [of t] by (simp add: total sum_unfold_sum_mset lessThan_atLeast0 flip: sum_mset_sum_list)

lemma find_lt: "invar t \<Longrightarrow> 0 < v \<Longrightarrow> v \<le> total t \<Longrightarrow> find t v < cap t"
  using found [of t v] order_mem [of t "find t v"] by auto

lemma find_positive: "invar t \<Longrightarrow> 0 < v \<Longrightarrow> v \<le> total t \<Longrightarrow> 0 < leaf t (find t v)"
  using found [of t v] by fastforce

text \<open>A leaf is found exactly for the values of its interval, whose length is its priority.\<close>

definition before :: "'t \<Rightarrow> nat \<Rightarrow> real" where
  "before t d = sum_list (map (leaf t) (takeWhile (\<lambda>e. e \<noteq> d) (order (cap t))))"

lemma find_before:
  assumes "invar t" "0 < v" "v \<le> total t"
  shows "before t (find t v) < v" "v \<le> before t (find t v) + leaf t (find t v)"
proof -
  obtain pre post where o: "order (cap t) = pre @ find t v # post" "sum_list (map (leaf t) pre) < v"
      "v \<le> sum_list (map (leaf t) pre) + leaf t (find t v)"
    using found [OF assms] by blast
  have "find t v \<notin> set pre"
    using order_distinct [OF assms(1)] o(1) by simp
  then have "takeWhile (\<lambda>e. e \<noteq> find t v) (order (cap t)) = pre"
    unfolding o(1) by (subst takeWhile_append2) auto
  then show "before t (find t v) < v" "v \<le> before t (find t v) + leaf t (find t v)"
    using o(2,3) by (simp_all add: before_def)
qed

lemma before_disjoint:
  assumes "invar t" "\<forall>e<cap t. 0 \<le> leaf t e" "d < cap t" "e < cap t" "d \<noteq> e"
  shows "before t d + leaf t d \<le> before t e \<or> before t e + leaf t e \<le> before t d"
proof -
  have split: "before t a + leaf t a \<le> before t b"
    if o: "order (cap t) = xs @ a # ys @ b # zs" for a b xs ys zs
  proof -
    have "distinct (xs @ a # ys @ b # zs)"
      using order_distinct [OF assms(1)] o by simp
    then have "takeWhile (\<lambda>e. e \<noteq> a) (xs @ a # ys @ b # zs) = xs"
      "takeWhile (\<lambda>e. e \<noteq> b) ((xs @ a # ys) @ b # zs) = xs @ a # ys"
      by (subst takeWhile_append2; force)+
    then have "takeWhile (\<lambda>e. e \<noteq> a) (order (cap t)) = xs" "takeWhile (\<lambda>e. e \<noteq> b) (order (cap t)) = xs @ a # ys"
      using o by simp_all
    moreover have "0 \<le> leaf t y" if "y \<in> set ys" for y
      using assms(2) order_mem [OF assms(1), of y] that o by simp
    then have "0 \<le> sum_list (map (leaf t) ys)"
      by (intro sum_list_nonneg) auto
    ultimately show ?thesis
      by (simp add: before_def)
  qed
  obtain xs zs where "order (cap t) = xs @ d # zs"
    using order_mem [OF assms(1), of d] assms(3) by (meson split_list)
  moreover have "e \<in> set (order (cap t))"
    using order_mem [OF assms(1), of e] assms(4) by simp
  ultimately have "e \<in> set xs \<or> e \<in> set zs"
    using assms(5) by auto
  then show ?thesis
  proof
    assume "e \<in> set xs"
    then obtain us vs where "xs = us @ e # vs"
      by (meson split_list)
    with split [of us e vs d zs] show ?thesis
      using \<open>order (cap t) = xs @ d # zs\<close> by simp
  next
    assume "e \<in> set zs"
    then obtain us vs where "zs = us @ e # vs"
      by (meson split_list)
    with split [of xs d us e vs] show ?thesis
      using \<open>order (cap t) = xs @ d # zs\<close> by simp
  qed
qed

lemma find_iff:
  assumes "invar t" "\<forall>e<cap t. 0 \<le> leaf t e" "0 < v" "v \<le> total t" "d < cap t"
  shows "find t v = d \<longleftrightarrow> before t d < v \<and> v \<le> before t d + leaf t d"
  using find_before [OF assms(1,3,4)] before_disjoint [OF assms(1,2,5) find_lt [OF assms(1,3,4)]] by force

end


definition sum_tree_ok :: "sum_tree \<Rightarrow> bool" where
  "sum_tree_ok tr \<longleftrightarrow> tree_ok (tr_capacity tr) (tr_nodes tr)"

definition leaf_of :: "sum_tree \<Rightarrow> nat \<Rightarrow> real" where
  "leaf_of tr d = tr_nodes tr ! (d + tr_capacity tr)"

lemma leaf_of_abs: "leaf_of t = (\<lambda>d. tr_nodes t ! (d + tr_capacity t))"
  by (rule ext) (simp add: leaf_of_def)

interpretation st: priority_index sum_tree_ok tr_capacity leaf_of tree_update tree_total sample_one leaf_order
proof unfold_locales
  fix t :: sum_tree and d :: nat and v p :: real
  show "mset (leaf_order (tr_capacity t)) = mset [0..<tr_capacity t]" if "sum_tree_ok t"
    using that by (simp add: leaf_order_perm sum_tree_ok_def tree_ok_def)
  show "\<exists>t'. tree_update d p t = Inr t' \<and> sum_tree_ok t' \<and> tr_capacity t' = tr_capacity t \<and>
      (\<forall>e<tr_capacity t. leaf_of t' e = (if e = d then p else leaf_of t e))" if "sum_tree_ok t" "d < tr_capacity t"
    using update_ok(1) [of "tr_capacity t" "tr_nodes t" d p] update_ok(2) [of "tr_capacity t" "tr_nodes t" d _ p] that
    by (auto simp: tree_update_def sum_tree_ok_def leaf_of_def tree_ok_def Let_def)
  show "tree_total t = sum_list (map (leaf_of t) (leaf_order (tr_capacity t)))" if "sum_tree_ok t"
    using node_sum [of "tr_capacity t" "tr_nodes t" 1] that
    by (simp add: tree_total_def leaf_of_abs leaf_order_def sum_tree_ok_def tree_ok_def)
  show "\<exists>pre post. leaf_order (tr_capacity t) = pre @ sample_one t v # post \<and>
      sum_list (map (leaf_of t) pre) < v \<and> v \<le> sum_list (map (leaf_of t) pre) + leaf_of t (sample_one t v)"
    if "sum_tree_ok t" "0 < v" "v \<le> tree_total t"
  proof -
    have "tree_ok (tr_capacity t) (tr_nodes t)" "(1::nat) < 2 * tr_capacity t" "v \<le> tr_nodes t ! 1"
      using that by (simp_all add: sum_tree_ok_def tree_ok_def tree_total_def)
    from descend_finds [OF this(1) _ this(2) \<open>0 < v\<close> this(3)] obtain pre post where
      "leaf_order (tr_capacity t) = pre @ sample_one t v # post"
      "sum_list (map (leaf_of t) pre) < v" "v \<le> sum_list (map (leaf_of t) pre) + leaf_of t (sample_one t v)"
      by (auto simp: leaf_of_abs leaf_order_def sample_one_def)
    then show ?thesis
      by blast
  qed
qed

lemma new_tree_ok: "0 < c \<Longrightarrow> sum_tree_ok (new_tree c)"
  by (simp add: new_tree_def sum_tree_ok_def tree_ok_def)

lemma new_tree_leaf: "d < c \<Longrightarrow> leaf_of (new_tree c) d = 0"
  by (simp add: new_tree_def leaf_of_def)

lemma max_priority_pos [simp]: "0 < max_priority tr"
  by (simp add: max_priority_def Let_def)

section \<open>The ring\<close>

definition ring_ok :: "'z replay_scheme \<Rightarrow> bool" where
  "ring_ok b \<longleftrightarrow> 0 < rb_capacity b \<and> rb_idx b < rb_capacity b \<and> rb_size b \<le> rb_capacity b \<and>
     (rb_size b < rb_capacity b \<longrightarrow> rb_idx b = rb_size b) \<and>
     length (rb_obs b) = rb_capacity b \<and> length (rb_acts b) = rb_capacity b \<and> length (rb_rews b) = rb_capacity b \<and>
     length (rb_next_obs b) = rb_capacity b \<and> length (rb_dones b) = rb_capacity b \<and>
     length (rb_masks b) = rb_capacity b \<and> length (rb_next_masks b) = rb_capacity b \<and>
     length (rb_gammas b) = rb_capacity b"

record replay_row =
  rw_obs :: "real list"
  rw_act :: int
  rw_rew :: real
  rw_next_obs :: "real list"
  rw_done :: bool
  rw_mask :: "bool list"
  rw_next_mask :: "bool list"
  rw_gamma :: real

definition row_at :: "'z replay_scheme \<Rightarrow> nat \<Rightarrow> replay_row" where
  "row_at b i = \<lparr>rw_obs = rb_obs b ! i, rw_act = rb_acts b ! i, rw_rew = rb_rews b ! i,
     rw_next_obs = rb_next_obs b ! i, rw_done = rb_dones b ! i, rw_mask = rb_masks b ! i,
     rw_next_mask = rb_next_masks b ! i, rw_gamma = rb_gammas b ! i\<rparr>"

text \<open>The slots in use, oldest first.\<close>

definition slots :: "'z replay_scheme \<Rightarrow> nat list" where
  "slots b = (if rb_size b < rb_capacity b then [0..<rb_size b] else [rb_idx b..<rb_capacity b] @ [0..<rb_idx b])"

definition contents :: "'z replay_scheme \<Rightarrow> replay_row list" where
  "contents b = map (row_at b) (slots b)"

lemma new_ring: "0 < c \<Longrightarrow> ring_ok (new_replay c d n)" "contents (new_replay c d n) = []"
  by (simp_all add: ring_ok_def new_replay_def contents_def slots_def)

lemma length_contents: "ring_ok b \<Longrightarrow> length (contents b) = rb_size b"
  by (auto simp: contents_def slots_def ring_ok_def)

text \<open>A transition whose vectors have the dimensions of the buffer, with both masks.\<close>

definition fits :: "nat \<Rightarrow> nat \<Rightarrow> transition \<Rightarrow> bool" where
  "fits d n t \<longleftrightarrow> length (tn_obs t) = d \<and> length (tn_next_obs t) = d \<and>
     (\<forall>m. tn_mask t = Some m \<longrightarrow> length m = n) \<and> (\<forall>m. tn_next_mask t = Some m \<longrightarrow> length m = n)"

definition opt_or :: "'a option \<Rightarrow> 'a \<Rightarrow> 'a" where
  "opt_or v d = (case v of None \<Rightarrow> d | Some x \<Rightarrow> x)"

definition row_of :: "'z replay_scheme \<Rightarrow> transition \<Rightarrow> real \<Rightarrow> replay_row" where
  \<comment> \<open>a mask that is not given is the one of the overwritten slot\<close>
  "row_of b t g = \<lparr>rw_obs = tn_obs t, rw_act = tn_act t, rw_rew = tn_rew t, rw_next_obs = tn_next_obs t,
     rw_done = tn_done t, rw_mask = opt_or (tn_mask t) (rb_masks b ! rb_idx b),
     rw_next_mask = opt_or (tn_next_mask t) (rb_next_masks b ! rb_idx b), rw_gamma = g\<rparr>"

definition same_shape :: "'z replay_scheme \<Rightarrow> 'y replay_scheme \<Rightarrow> bool" where
  "same_shape b b' \<longleftrightarrow> rb_capacity b' = rb_capacity b \<and> rb_obs_dim b' = rb_obs_dim b \<and> rb_n_actions b' = rb_n_actions b"

lemma store_row:
  assumes "ring_ok b" "fits (rb_obs_dim b) (rb_n_actions b) t"
  shows "\<exists>b'. store t g b = Inr b' \<and> same_shape b b' \<and> rb_size b' = rb_size b \<and> rb_idx b' = rb_idx b \<and>
    replay.more b' = replay.more b \<and> ring_ok b' \<and>
    (\<forall>j<rb_capacity b. row_at b' j = (if j = rb_idx b then row_of b t g else row_at b j))"
proof -
  obtain m1 where m1: "opt_row (rb_n_actions b) (tn_mask t) (rb_masks b ! rb_idx b) = Inr m1"
      "m1 = opt_or (tn_mask t) (rb_masks b ! rb_idx b)"
    using assms(2) by (auto simp: opt_row_def opt_or_def fits_def as_row_def split: option.splits)
  obtain m2 where m2: "opt_row (rb_n_actions b) (tn_next_mask t) (rb_next_masks b ! rb_idx b) = Inr m2"
      "m2 = opt_or (tn_next_mask t) (rb_next_masks b ! rb_idx b)"
    using assms(2) by (auto simp: opt_row_def opt_or_def fits_def as_row_def split: option.splits)
  have rows: "as_row (rb_obs_dim b) (tn_obs t) = Inr (tn_obs t)"
      "as_row (rb_obs_dim b) (tn_next_obs t) = Inr (tn_next_obs t)"
    using assms(2) by (simp_all add: fits_def as_row_def)
  show ?thesis
    using assms(1)
    by (auto simp: store_def res_bind_def rows m1(1) m2(1) Let_def same_shape_def ring_ok_def row_at_def row_of_def
        nth_list_update simp flip: m1(2) m2(2))
qed

lemma move_on_sel [simp]:
  "rb_capacity (move_on b) = rb_capacity b" "rb_idx (move_on b) = (rb_idx b + 1) mod rb_capacity b"
  "rb_size (move_on b) = min (rb_size b + 1) (rb_capacity b)" "row_at (move_on b) = row_at b"
  "rb_masks (move_on b) = rb_masks b" "rb_next_masks (move_on b) = rb_next_masks b"
  "rb_obs_dim (move_on b) = rb_obs_dim b" "rb_n_actions (move_on b) = rb_n_actions b"
  "replay.more (move_on b) = replay.more b" "same_shape a (move_on b) = same_shape a b"
  by (simp_all add: move_on_def row_at_def [abs_def] same_shape_def)

lemma ring_cases:
  assumes "ring_ok b"
  obtains (filling) "rb_size b + 1 < rb_capacity b" "rb_idx b = rb_size b" "(rb_idx b + 1) mod rb_capacity b = rb_idx b + 1"
    | (filled) "rb_size b + 1 = rb_capacity b" "rb_idx b = rb_size b" "(rb_idx b + 1) mod rb_capacity b = 0"
    | (full) "rb_size b = rb_capacity b" "rb_idx b + 1 < rb_capacity b" "(rb_idx b + 1) mod rb_capacity b = rb_idx b + 1"
    | (wrap) "rb_size b = rb_capacity b" "rb_idx b + 1 = rb_capacity b" "(rb_idx b + 1) mod rb_capacity b = 0"
proof -
  have b: "rb_idx b < rb_capacity b" "rb_size b \<le> rb_capacity b" "rb_size b < rb_capacity b \<longrightarrow> rb_idx b = rb_size b"
    using assms by (simp_all add: ring_ok_def)
  show thesis
  proof (cases "rb_idx b + 1 = rb_capacity b")
    case True
    moreover from this have "(rb_idx b + 1) mod rb_capacity b = 0"
      by simp
    ultimately show ?thesis
      using b filled wrap by linarith
  next
    case False
    then have "rb_idx b + 1 < rb_capacity b"
      using b(1) by linarith
    moreover from this have "(rb_idx b + 1) mod rb_capacity b = rb_idx b + 1"
      by (rule mod_less)
    ultimately show ?thesis
      using b filling full by linarith
  qed
qed

lemma move_on_ring:
  assumes "ring_ok b"
  shows "ring_ok (move_on b)"
  by (cases rule: ring_cases [OF assms]) (use assms in \<open>simp_all add: ring_ok_def move_on_def\<close>)

lemma move_on_slots:
  assumes "ring_ok b"
  shows "slots (move_on b) = drop (rb_size b + 1 - rb_capacity b) (slots b) @ [rb_idx b] \<and>
    rb_idx b \<notin> set (drop (rb_size b + 1 - rb_capacity b) (slots b))"
  using assms
proof (cases rule: ring_cases)
  case filled
  then have "[0..<rb_capacity b] = [0..<rb_size b] @ [rb_size b]"
    by (simp flip: filled(1))
  with filled show ?thesis
    by (simp add: slots_def)
next
  case wrap
  then have "[0..<rb_capacity b] = [0..<rb_idx b] @ [rb_idx b]"
    by (simp flip: wrap(2))
  with wrap show ?thesis
    by (simp add: slots_def)
qed (simp_all add: slots_def upt_conv_Cons)

lemma slots_lt: "ring_ok b \<Longrightarrow> set (slots b) \<subseteq> {..<rb_capacity b}"
  by (auto simp: slots_def ring_ok_def)

text \<open>A stored and then counted transition is appended to the contents; the oldest goes when the ring is full.\<close>

lemma stored_contents:
  assumes "ring_ok b" "ring_ok b'" "same_shape b b'" "rb_size b' = rb_size b" "rb_idx b' = rb_idx b"
    "\<forall>j<rb_capacity b. row_at b' j = (if j = rb_idx b then r else row_at b j)"
  shows "contents (move_on b') = drop (rb_size b + 1 - rb_capacity b) (contents b) @ [r]"
proof -
  have s: "slots b' = slots b" "rb_capacity b' = rb_capacity b"
    using assms(3-5) by (simp_all add: slots_def same_shape_def)
  have "row_at b' j = row_at b j" if "j \<in> set (drop (rb_size b + 1 - rb_capacity b) (slots b))" for j
  proof -
    have "j < rb_capacity b" "j \<noteq> rb_idx b"
      using that move_on_slots [OF assms(1)] slots_lt [OF assms(1)] in_set_dropD by (fast, metis)
    then show ?thesis
      using assms(6) by simp
  qed
  moreover have "row_at b' (rb_idx b) = r"
    using assms(1,6) by (simp add: ring_ok_def)
  ultimately show ?thesis
    using move_on_slots [OF assms(2)] by (simp add: contents_def s assms(4,5) drop_map)
qed

lemma replay_add_appends:
  assumes "ring_ok b" "fits (rb_obs_dim b) (rb_n_actions b) t"
  shows "\<exists>b'. replay_add t g b = Inr b' \<and> ring_ok b' \<and> same_shape b b' \<and>
    rb_size b' = min (rb_size b + 1) (rb_capacity b) \<and>
    contents b' = drop (rb_size b + 1 - rb_capacity b) (contents b) @ [row_of b t g]"
proof -
  obtain b' where b': "store t g b = Inr b'" "same_shape b b'" "rb_size b' = rb_size b" "rb_idx b' = rb_idx b"
      "ring_ok b'" "\<forall>j<rb_capacity b. row_at b' j = (if j = rb_idx b then row_of b t g else row_at b j)"
    using store_row [OF assms] by blast
  with stored_contents [OF assms(1) b'(5,2,3,4,6)] move_on_ring [OF b'(5)] show ?thesis
    by (auto simp: replay_add_def res_bind_def same_shape_def)
qed

section \<open>The prioritized buffer\<close>

text \<open>The tree has a positive priority for every slot in use and none for the others.\<close>

definition per_ok :: "prioritized \<Rightarrow> bool" where
  "per_ok b \<longleftrightarrow> ring_ok b \<and> sum_tree_ok (pr_tree b) \<and> tr_capacity (pr_tree b) = rb_capacity b \<and>
     (\<forall>d<rb_size b. 0 < leaf_of (pr_tree b) d) \<and> (\<forall>d. rb_size b \<le> d \<and> d < rb_capacity b \<longrightarrow> leaf_of (pr_tree b) d = 0)"

lemma new_per_ok: "0 < c \<Longrightarrow> per_ok (new_prioritized c d n a b0 b1 k)"
  using new_ring(1) [of c d n] new_tree_ok [of c] new_tree_leaf
  by (simp add: per_ok_def new_prioritized_def ring_ok_def new_replay_def replay.extend_def) (simp add: new_tree_def)

lemma more_tree: "replay.more b' = replay.more b \<Longrightarrow> pr_tree b' = pr_tree b \<and> pr_alpha b' = pr_alpha b \<and>
    pr_beta_step b' = pr_beta_step b \<and> pr_beta_steps b' = pr_beta_steps b \<and>
    pr_beta_start b' = pr_beta_start b \<and> pr_beta_end b' = pr_beta_end b"
  for b b' :: prioritized
  by (cases b; cases b') simp

lemma ring_ok_tree [simp]: "ring_ok (b\<lparr>pr_tree := tr\<rparr>) = ring_ok b" "row_at (b\<lparr>pr_tree := tr\<rparr>) = row_at b"
  "ring_ok (b\<lparr>pr_beta_step := k\<rparr>) = ring_ok b" "contents (b\<lparr>pr_tree := tr\<rparr>) = contents b"
  "contents (b\<lparr>pr_beta_step := k\<rparr>) = contents b" "same_shape a (b\<lparr>pr_tree := tr\<rparr>) = same_shape a b"
  "same_shape a (b\<lparr>pr_beta_step := k\<rparr>) = same_shape a b"
  by (simp_all add: ring_ok_def row_at_def [abs_def] contents_def slots_def same_shape_def)

lemma pr_tree_move_on [simp]: "pr_tree (move_on b) = pr_tree b"
  by (simp add: move_on_def)

lemma per_add_ok:
  assumes "per_ok b" "fits (rb_obs_dim b) (rb_n_actions b) t"
  shows "\<exists>b'. per_add t g b = Inr b' \<and> per_ok b' \<and> same_shape b b' \<and>
    rb_size b' = min (rb_size b + 1) (rb_capacity b) \<and>
    contents b' = drop (rb_size b + 1 - rb_capacity b) (contents b) @ [row_of b t g]"
proof -
  have ring: "ring_ok b" and tree: "sum_tree_ok (pr_tree b)" "tr_capacity (pr_tree b) = rb_capacity b"
    using assms(1) by (simp_all add: per_ok_def)
  let ?p = "max_priority (pr_tree b) powr pr_alpha b"
  obtain b' where b': "store t g b = Inr b'" "same_shape b b'" "rb_size b' = rb_size b" "rb_idx b' = rb_idx b"
      "replay.more b' = replay.more b" "ring_ok b'"
      "\<forall>j<rb_capacity b. row_at b' j = (if j = rb_idx b then row_of b t g else row_at b j)"
    using store_row [OF ring assms(2)] by blast
  have idx: "rb_idx b < tr_capacity (pr_tree b)"
    using ring tree(2) by (simp add: ring_ok_def)
  obtain tr where tr: "tree_update (rb_idx b) ?p (pr_tree b) = Inr tr" "sum_tree_ok tr"
      "tr_capacity tr = rb_capacity b" "\<forall>e<rb_capacity b. leaf_of tr e = (if e = rb_idx b then ?p else leaf_of (pr_tree b) e)"
    using st.upd [OF tree(1) idx, of ?p] tree(2) by auto
  have "0 < ?p"
    using max_priority_pos [of "pr_tree b"] by (simp add: less_imp_neq [symmetric])
  have cap: "rb_capacity b' = rb_capacity b"
    using b'(2) by (simp add: same_shape_def)
  have full: "rb_size b = rb_capacity b \<or> rb_idx b = rb_size b \<and> rb_size b < rb_capacity b"
    using ring by (auto simp: ring_ok_def)
  have "0 < leaf_of tr d" if "d < min (rb_size b + 1) (rb_capacity b)" for d
    using that full tr(4) \<open>0 < ?p\<close> assms(1) by (cases "d = rb_idx b") (auto simp: per_ok_def)
  moreover have "leaf_of tr d = 0" if "min (rb_size b + 1) (rb_capacity b) \<le> d" "d < rb_capacity b" for d
  proof -
    have "d \<noteq> rb_idx b" "rb_size b \<le> d"
      using that full by auto
    then show ?thesis
      using that(2) tr(4) assms(1) by (simp add: per_ok_def)
  qed
  ultimately have "per_ok (move_on (b'\<lparr>pr_tree := tr\<rparr>))"
    using move_on_ring [of "b'\<lparr>pr_tree := tr\<rparr>"] b'(3,6) tr(2,3) cap by (simp add: per_ok_def)
  moreover have "contents (move_on (b'\<lparr>pr_tree := tr\<rparr>)) = drop (rb_size b + 1 - rb_capacity b) (contents b) @ [row_of b t g]"
    by (rule stored_contents) (use ring b'(2-4,6,7) in simp_all)
  ultimately show ?thesis
    using b'(1-3) tr(1) by (auto simp: per_add_def res_bind_def same_shape_def)
qed

lemma sampled_in_use:
  assumes "per_ok b" "0 < v" "v \<le> tree_total (pr_tree b)"
  shows "sample_one (pr_tree b) v < rb_size b" "0 < leaf_of (pr_tree b) (sample_one (pr_tree b) v)"
proof -
  have tree: "sum_tree_ok (pr_tree b)"
    using assms(1) by (simp add: per_ok_def)
  show p: "0 < leaf_of (pr_tree b) (sample_one (pr_tree b) v)"
    by (rule st.find_positive [OF tree assms(2,3)])
  show "sample_one (pr_tree b) v < rb_size b"
  proof (rule ccontr)
    assume "\<not> ?thesis"
    then have "leaf_of (pr_tree b) (sample_one (pr_tree b) v) = 0"
      using st.find_lt [OF tree assms(2,3)] assms(1) by (simp add: per_ok_def)
    with p show False
      by simp
  qed
qed

lemma per_leaf_nonneg: "per_ok b \<Longrightarrow> d < rb_capacity b \<Longrightarrow> 0 \<le> leaf_of (pr_tree b) d"
  by (cases "d < rb_size b") (auto simp: per_ok_def less_imp_le)

lemma per_total_pos:
  assumes "per_ok b" "0 < rb_size b"
  shows "0 < tree_total (pr_tree b)"
proof -
  have "sum_tree_ok (pr_tree b)" "tr_capacity (pr_tree b) = rb_capacity b" "0 < leaf_of (pr_tree b) 0" "0 < rb_capacity b"
    using assms by (auto simp: per_ok_def ring_ok_def)
  then show ?thesis
    using per_leaf_nonneg [OF assms(1)] by (auto simp: st.total_sum intro!: sum_pos2 [of _ 0])
qed

lemma per_indices_lt: "0 < rb_size b \<Longrightarrow> d \<in> set (per_indices n u b) \<Longrightarrow> d < rb_size b"
  by (auto simp: per_indices_def Let_def)

text \<open>The importance weights of rows in use are positive and at most one, which one of them is.\<close>

lemma per_weights_range:
  assumes "per_ok b" "0 < rb_size b" "ix \<noteq> []" "\<forall>d \<in> set ix. d < rb_size b"
  shows "\<forall>w \<in> set (per_weights ix b). 0 < w \<and> w \<le> 1" "1 \<in> set (per_weights ix b)"
proof -
  define ws where "ws = map (\<lambda>d. (of_nat (rb_size b) * (leaf_of (pr_tree b) d / tree_total (pr_tree b))) powr (- per_beta b)) ix"
  have pos: "0 < w" if "w \<in> set ws" for w
    using that assms per_total_pos [OF assms(1,2)] by (auto simp: ws_def per_ok_def)
  have eq: "per_weights ix b = map (\<lambda>w. w / Max (set ws)) ws"
    by (simp only: per_weights_def ws_def leaf_of_def Let_def map_map comp_def)
  have ne: "set ws \<noteq> {}"
    using assms(3) by (simp add: ws_def)
  then have mx: "Max (set ws) \<in> set ws"
    by (intro Max_in) auto
  show "\<forall>w \<in> set (per_weights ix b). 0 < w \<and> w \<le> 1"
    using pos pos [OF mx] by (auto simp: eq)
  show "1 \<in> set (per_weights ix b)"
    using mx pos [OF mx] by (force simp: eq)
qed

lemma update_each_ok:
  assumes "sum_tree_ok tr" "\<forall>x \<in> set ips. fst x < k \<and> 0 < snd x" "k \<le> tr_capacity tr"
    "\<forall>d<k. 0 < leaf_of tr d" "\<forall>d. k \<le> d \<and> d < tr_capacity tr \<longrightarrow> leaf_of tr d = 0"
  shows "\<exists>tr'. update_each ips tr = Inr tr' \<and> sum_tree_ok tr' \<and> tr_capacity tr' = tr_capacity tr \<and>
    (\<forall>d<k. 0 < leaf_of tr' d) \<and> (\<forall>d. k \<le> d \<and> d < tr_capacity tr \<longrightarrow> leaf_of tr' d = 0)"
  using assms
proof (induction ips tr rule: update_each.induct)
  case (2 i p ips tr)
  then have "i < tr_capacity tr" "i < k" "0 < p"
    by auto
  with st.upd [OF "2.prems"(1), of i p] obtain tr1 where tr1: "tree_update i p tr = Inr tr1" "sum_tree_ok tr1"
      "tr_capacity tr1 = tr_capacity tr" "\<forall>e<tr_capacity tr. leaf_of tr1 e = (if e = i then p else leaf_of tr e)"
    by blast
  have "\<forall>d<k. 0 < leaf_of tr1 d" "\<forall>d. k \<le> d \<and> d < tr_capacity tr1 \<longrightarrow> leaf_of tr1 d = 0"
    using tr1(3,4) "2.prems"(3-5) \<open>i < k\<close> \<open>0 < p\<close> by auto
  with "2.IH" [of tr1] tr1 "2.prems"(2,3) show ?case
    by (simp add: res_bind_def)
qed simp

lemma update_priorities_ok:
  assumes "per_ok b" "\<forall>d \<in> set ix. d < rb_size b"
  shows "\<exists>b'. update_priorities ix td b = Inr b' \<and> per_ok b' \<and> same_shape b b' \<and> contents b' = contents b \<and>
    rb_size b' = rb_size b"
proof -
  let ?ips = "zip ix (map (\<lambda>e. (\<bar>e\<bar> + 1 / 1000000) powr pr_alpha b) td)"
  have "fst x < rb_size b \<and> 0 < snd x" if x: "x \<in> set ?ips" for x
  proof -
    obtain d e where "x = (d, (\<bar>e\<bar> + 1 / 1000000) powr pr_alpha b)" "d \<in> set ix"
      using x unfolding zip_map2 by (force dest: set_zip_leftD)
    moreover have "0 < (\<bar>e\<bar> + 1 / 1000000 :: real)" for e
      by (simp add: add_nonneg_pos)
    ultimately show ?thesis
      using assms(2) by (auto simp: less_imp_neq [symmetric])
  qed
  then obtain tr where "update_each ?ips (pr_tree b) = Inr tr" "sum_tree_ok tr" "tr_capacity tr = rb_capacity b"
      "\<forall>d<rb_size b. 0 < leaf_of tr d" "\<forall>d. rb_size b \<le> d \<and> d < rb_capacity b \<longrightarrow> leaf_of tr d = 0"
    using update_each_ok [of "pr_tree b" ?ips "rb_size b"] assms(1) by (auto simp: per_ok_def ring_ok_def)
  with assms(1) show ?thesis
    by (auto simp: update_priorities_def res_bind_def per_ok_def same_shape_def)
qed

end
