(* ===== verification/RlTrainFacts.thy ===== *)
theory RlTrainFacts
  imports RlTrain RlBufferFacts SimVecFacts
begin

text \<open>
  Facts about training: the n-step transitions of a stream of episodes are the windows of each
  episode, the running reward scale is the deviation of the rewards seen, and the loop keeps its
  invariant: a consistent environment, and a buffer of well-formed rows.
\<close>

section \<open>Returns over n steps\<close>

text \<open>What a window stands for: discounted rewards from its first transition to its last.\<close>

definition nstep_ref :: "real \<Rightarrow> transition list \<Rightarrow> transition \<times> real" where
  "nstep_ref gamma w =
     (\<lparr>tn_obs = tn_obs (hd w), tn_act = tn_act (hd w), tn_rew = (\<Sum>h<length w. gamma ^ h * tn_rew (w ! h)),
       tn_next_obs = tn_next_obs (last w), tn_done = tn_done (last w), tn_mask = tn_mask (hd w),
       tn_next_mask = tn_next_mask (last w)\<rparr>, gamma ^ length w)"

definition windows :: "nat \<Rightarrow> 'a list \<Rightarrow> 'a list list" where
  "windows n ts = (if length ts < n then [ts] else map (\<lambda>i. take n (drop i ts)) [0..<length ts - n + 1])"

definition episode :: "transition list \<Rightarrow> bool" where
  "episode ts \<longleftrightarrow> ts \<noteq> [] \<and> tn_done (last ts) \<and> (\<forall>t \<in> set (butlast ts). \<not> tn_done t)"

lemma nstep_return_sum:
  "nstep_return gamma w = (\<Sum>h<length w. gamma ^ h * tn_rew (w ! h), gamma ^ length w)"
proof -
  have "foldl (\<lambda>(r, g) t. (r + g * tn_rew t, g * gamma)) (r, g) w =
      (r + g * (\<Sum>h<length w. gamma ^ h * tn_rew (w ! h)), g * gamma ^ length w)" for r g
  proof (induction w arbitrary: r g)
    case (Cons t w)
    have "(\<Sum>h<length (t # w). gamma ^ h * tn_rew ((t # w) ! h)) =
        tn_rew t + gamma * (\<Sum>h<length w. gamma ^ h * tn_rew (w ! h))"
      by (simp add: sum.lessThan_Suc_shift sum_distrib_left mult.assoc del: sum.lessThan_Suc)
    then show ?case
      by (simp add: Cons algebra_simps)
  qed simp
  from this [of 0 1] show ?thesis
    by (simp add: nstep_return_def)
qed

lemma horizon_whole:
  assumes "w \<noteq> []" "\<forall>t \<in> set (butlast w). \<not> tn_done t"
  shows "nstep_horizon w = length w"
proof -
  have "takeWhile (\<lambda>t. \<not> tn_done t) (butlast w @ [last w]) = butlast w @ takeWhile (\<lambda>t. \<not> tn_done t) [last w]"
    using assms(2) by (intro takeWhile_append2) auto
  then have "length w - 1 \<le> length (takeWhile (\<lambda>t. \<not> tn_done t) w)"
    using assms(1) by simp
  then show ?thesis
    using assms(1) by (simp add: nstep_horizon_def)
qed

lemma flush_whole:
  assumes "w \<noteq> []" "\<forall>t \<in> set (butlast w). \<not> tn_done t"
  shows "flush_nstep gamma w = Some (nstep_ref gamma w)"
  using assms(1) by (simp add: flush_nstep_def horizon_whole [OF assms] nstep_return_sum nstep_ref_def Let_def)

text \<open>After \<open>pre\<close> the deque holds its last \<open>n\<close> transitions; each further one closes at most one window.\<close>

definition closes :: "nat \<Rightarrow> 'a list \<Rightarrow> nat \<Rightarrow> 'a list list" where
  "closes n ts j = (if n \<le> j + 1 then [take n (drop (j + 1 - n) ts)] else if j + 1 = length ts then [ts] else [])"

lemma deque_append_last: "deque_append n x (drop (length xs - n) xs) = drop (length xs + 1 - n) (xs @ [x])"
  by (cases "length xs < n") (auto simp: deque_append_def Let_def Suc_diff_le not_less)

lemma nstep_episode:
  assumes "0 < n" "episode (pre @ ts)" "ts \<noteq> []"
  shows "nstep_stream n gamma (drop (length pre - n) pre) (ts @ later) =
    map (nstep_ref gamma) (concat (map (closes n (pre @ ts)) [length pre..<length (pre @ ts)])) @ nstep_stream n gamma [] later"
  using assms(2,3)
proof (induction ts arbitrary: pre)
  case (Cons t ts)
  let ?ep = "pre @ t # ts" and ?q = "drop (length pre + 1 - n) (pre @ [t])"
  have q: "deque_append n t (drop (length pre - n) pre) = ?q"
    by (rule deque_append_last)
  have dn: "tn_done t \<longleftrightarrow> ts = []" "\<forall>x \<in> set pre. \<not> tn_done x"
    using Cons.prems(1) by (auto simp: episode_def butlast_append)
  have "\<forall>x \<in> set (butlast ?q). \<not> tn_done x"
    using dn(2) by (auto simp: butlast_append drop_butlast [symmetric] dest: in_set_dropD simp flip: butlast_drop)
  then have flush: "flush_nstep gamma ?q = Some (nstep_ref gamma ?q)"
    using assms(1) by (intro flush_whole) simp_all
  have len: "length ?q = n \<longleftrightarrow> n \<le> length pre + 1"
    using assms(1) by auto
  have win: "?q = take n (drop (length pre + 1 - n) ?ep)" if "n \<le> length pre + 1"
    using that assms(1) by (cases n) simp_all
  have turn: "nstep_turn n gamma t (drop (length pre - n) pre) =
      (if closes n ?ep (length pre) = [] then None else Some (nstep_ref gamma (hd (closes n ?ep (length pre)))),
       if ts = [] then [] else ?q)"
  proof (cases "n \<le> length pre + 1")
    case True
    then have "closes n ?ep (length pre) = [?q]"
      using win by (simp add: closes_def)
    then show ?thesis
      unfolding nstep_turn_def Let_def q flush using True len dn(1) by simp
  next
    case False
    then have q': "?q = pre @ [t]"
      by simp
    with False have "closes n ?ep (length pre) = (if ts = [] then [?q] else [])"
      by (simp add: closes_def)
    then show ?thesis
      unfolding nstep_turn_def Let_def q flush using False len dn(1) by (cases "ts = []") (simp_all add: q' closes_def)
  qed
  have split: "[length pre..<length ?ep] = length pre # [length pre + 1..<length ?ep]"
    by (simp add: upt_conv_Cons del: upt_Suc)
  have one: "closes n ?ep (length pre) = [] \<or> (\<exists>w. closes n ?ep (length pre) = [w])"
    by (simp add: closes_def)
  show ?case
  proof (cases "ts = []")
    case True
    with one show ?thesis
      by (auto simp: turn)
  next
    case False
    have "nstep_stream n gamma ?q (ts @ later) =
        map (nstep_ref gamma) (concat (map (closes n ?ep) [length pre + 1..<length ?ep])) @ nstep_stream n gamma [] later"
      using Cons.IH [of "pre @ [t]"] Cons.prems(1) False by simp
    with one show ?thesis
      using False unfolding split by (auto simp: turn)
  qed
qed simp

lemma closes_windows:
  assumes "0 < n" "ts \<noteq> []"
  shows "concat (map (closes n ts) [0..<length ts]) = windows n ts"
proof (cases "length ts < n")
  case True
  moreover have upt: "[0..<length ts] = [0..<length ts - 1] @ [length ts - 1]"
    using assms(2) upt_Suc_append [of 0 "length ts - 1"] by (cases ts) simp_all
  moreover have "concat (map (closes n ts) [0..<length ts - 1]) = []"
    using True by (auto simp: closes_def)
  moreover have "closes n ts (length ts - 1) = [ts]"
    using True assms(2) by (auto simp: closes_def)
  ultimately show ?thesis
    unfolding upt by (simp add: windows_def del: upt_Suc)
next
  case False
  have upt: "[0..<length ts] = [0..<n - 1] @ map (\<lambda>i. i + (n - 1)) [0..<length ts - n + 1]"
  proof -
    have "length ts = (n - 1) + (length ts - n + 1)"
      using False assms(1) by simp
    then have "[0..<length ts] = [0..<n - 1] @ [n - 1..<(n - 1) + (length ts - n + 1)]"
      by (metis upt_add_eq_append le0)
    then show ?thesis
      unfolding map_add_upt by (simp only: add.commute)
  qed
  have first: "concat (map (closes n ts) [0..<n - 1]) = []"
    using False by (auto simp: closes_def)
  have rest: "closes n ts (i + (n - 1)) = [take n (drop i ts)]" for i
    using assms(1) by (simp add: closes_def)
  show ?thesis
    using False by (simp add: upt first rest windows_def comp_def concat_map_singleton del: upt_Suc One_nat_def)
qed

lemma nstep_stream_episodes:
  assumes "0 < n" "\<forall>e \<in> set eps. episode e"
  shows "nstep_stream n gamma [] (concat eps) = map (nstep_ref gamma) (concat (map (windows n) eps))"
  using assms(2)
proof (induction eps)
  case (Cons e eps)
  then have e: "episode ([] @ e)" "e \<noteq> []"
    by (auto simp: episode_def)
  show ?case
    using nstep_episode [OF assms(1) e(1) e(2), of gamma "concat eps"] Cons closes_windows [OF assms(1) e(2)]
    by simp
qed simp

section \<open>The running scale of the rewards\<close>

definition norm_after :: "real list \<Rightarrow> reward_norm" where
  "norm_after rs = foldl (\<lambda>nm r. snd (normalize False r nm)) no_rewards rs"

lemma normalize_state: "snd (normalize b r nm) = snd (normalize b' r nm)"
  by (simp add: normalize_def Let_def)

lemma squares_shift:
  "sum_list (map (\<lambda>x. (x - m)\<^sup>2) xs) = sum_list (map (\<lambda>x. x\<^sup>2) xs) - 2 * m * sum_list xs + real (length xs) * m\<^sup>2"
  by (induction xs) (simp_all add: power2_eq_square algebra_simps)

lemma norm_after_stats:
  "nm_count (norm_after rs) = length rs \<and> real (length rs) * nm_mean (norm_after rs) = sum_list rs \<and>
   nm_m2 (norm_after rs) = sum_list (map (\<lambda>x. (x - nm_mean (norm_after rs))\<^sup>2) rs)"
proof (induction rs rule: rev_induct)
  case (snoc r rs)
  define k where "k = real (length rs)"
  define m where "m = nm_mean (norm_after rs)"
  define m' where "m' = m + (r - m) / (k + 1)"
  have k: "0 \<le> k" "k + 1 \<noteq> 0"
    by (simp_all add: k_def)
  have new: "norm_after (rs @ [r]) = \<lparr>nm_count = length rs + 1, nm_mean = m', nm_m2 = nm_m2 (norm_after rs) + (r - m) * (r - m')\<rparr>"
    using snoc by (simp add: norm_after_def normalize_def Let_def m'_def m_def k_def add.commute)
  have sum: "k * m = sum_list rs"
    using snoc by (simp add: k_def m_def)
  have mean: "(k + 1) * m' = k * m + r"
    using k(2) by (simp add: m'_def field_simps)
  define q where "q = sum_list (map (\<lambda>x. x\<^sup>2) rs)"
  have old: "nm_m2 (norm_after rs) = q - 2 * m * (k * m) + k * m\<^sup>2"
    using snoc squares_shift [of m rs] by (simp add: m_def k_def q_def)
  have "sum_list (map (\<lambda>x. (x - m')\<^sup>2) (rs @ [r])) = q - 2 * m' * (k * m) + k * m'\<^sup>2 + (r - m')\<^sup>2"
    using squares_shift [of m' rs] by (simp add: q_def k_def sum [unfolded k_def])
  also have "\<dots> = q - 2 * m * (k * m) + k * m\<^sup>2 + (r - m) * (r - m')"
  proof -
    have r: "r = (k + 1) * m' - k * m"
      using mean by simp
    show ?thesis
      unfolding r by (simp add: power2_eq_square algebra_simps)
  qed
  finally have "nm_m2 (norm_after rs) + (r - m) * (r - m') = sum_list (map (\<lambda>x. (x - m')\<^sup>2) (rs @ [r]))"
    using old by simp
  then show ?case
    using mean sum by (simp add: new k_def add.commute)
qed (simp add: norm_after_def no_rewards_def)

lemma norm_after_deviation:
  assumes "rs \<noteq> []"
  shows "nm_mean (norm_after rs) = mean rs" "sqrt (nm_m2 (norm_after rs) / real (length rs)) = pstdev rs"
proof -
  show m: "nm_mean (norm_after rs) = mean rs"
    using norm_after_stats [of rs] assms by (simp add: mean_def field_simps)
  show "sqrt (nm_m2 (norm_after rs) / real (length rs)) = pstdev rs"
    using norm_after_stats [of rs] by (simp add: pstdev_def m)
qed

section \<open>The buffer during training\<close>

text \<open>Transitions and rows of the right size whose action their mask allows.\<close>

definition tr_good :: "nat \<Rightarrow> nat \<Rightarrow> transition \<Rightarrow> bool" where
  "tr_good d n t \<longleftrightarrow> length (tn_obs t) = d \<and> length (tn_next_obs t) = d \<and> 0 \<le> tn_act t \<and> nat (tn_act t) < n \<and>
     (\<exists>m m'. tn_mask t = Some m \<and> length m = n \<and> tn_next_mask t = Some m' \<and> length m' = n \<and> m ! nat (tn_act t))"

definition row_good :: "nat \<Rightarrow> nat \<Rightarrow> replay_row \<Rightarrow> bool" where
  "row_good d n r \<longleftrightarrow> length (rw_obs r) = d \<and> length (rw_next_obs r) = d \<and> length (rw_mask r) = n \<and>
     length (rw_next_mask r) = n \<and> 0 \<le> rw_act r \<and> nat (rw_act r) < n \<and> rw_mask r ! nat (rw_act r)"

lemma tr_good_fits: "tr_good d n t \<Longrightarrow> fits d n t"
  by (auto simp: tr_good_def fits_def)

lemma tr_good_row: "tr_good d n t \<Longrightarrow> row_good d n (row_of b t g)"
  by (auto simp: tr_good_def row_good_def row_of_def opt_or_def)

definition ring_good :: "nat \<Rightarrow> nat \<Rightarrow> 'z replay_scheme \<Rightarrow> bool" where
  "ring_good d n b \<longleftrightarrow> rb_obs_dim b = d \<and> rb_n_actions b = n \<and> list_all (row_good d n) (contents b)"

fun buf_good :: "nat \<Rightarrow> nat \<Rightarrow> train_buf \<Rightarrow> bool" where
  "buf_good d n (Per b) \<longleftrightarrow> per_ok b \<and> ring_good d n b"
| "buf_good d n (Plain b) \<longleftrightarrow> ring_ok b \<and> ring_good d n b"

fun buf_rows :: "train_buf \<Rightarrow> replay_row list" where
  "buf_rows (Per b) = contents b"
| "buf_rows (Plain b) = contents b"

lemma ring_good_append:
  assumes "ring_good d n b" "tr_good d n t" "same_shape b b'" "contents b' = drop k (contents b) @ [row_of b t g]"
  shows "ring_good d n b'"
  using assms tr_good_row [OF assms(2), of b g] set_drop_subset [of k "contents b"]
  by (auto simp: ring_good_def same_shape_def list_all_iff)

lemma buf_add_good:
  assumes "buf_good d n tb" "tr_good d n t"
  shows "\<exists>tb'. buf_add t g tb = Inr tb' \<and> buf_good d n tb'"
proof (cases tb)
  case (Per b)
  have f: "fits (rb_obs_dim b) (rb_n_actions b) t"
    using assms Per tr_good_fits by (simp add: ring_good_def)
  show ?thesis
    using per_add_ok [OF _ f, of g] ring_good_append [of d n b t] assms Per by fastforce
next
  case (Plain b)
  have f: "fits (rb_obs_dim b) (rb_n_actions b) t"
    using assms Plain tr_good_fits by (simp add: ring_good_def)
  show ?thesis
    using replay_add_appends [OF _ f, of g] ring_good_append [of d n b t] assms Plain by fastforce
qed

lemma learn_once_good:
  assumes "buf_good d n tb" "0 < buf_len tb" "0 < batch_size"
  shows "\<exists>tb' a'. learn_once lrn tg k batch_size (tb, a) = Inr (tb', a') \<and> buf_good d n tb' \<and> buf_len tb' = buf_len tb"
proof (cases tb)
  case (Per b)
  let ?n = "min batch_size (rb_size b)"
  let ?ix = "per_indices ?n (tg_uniform tg k) b"
  let ?b = "b\<lparr>pr_beta_step := pr_beta_step b + 1\<rparr>"
  have n: "?n \<noteq> 0" and ok: "per_ok ?b"
    using assms Per by (simp_all add: per_ok_def)
  have ix: "\<forall>i \<in> set ?ix. i < rb_size ?b"
    using per_indices_lt [of b] assms(2) Per by simp
  have upd: "\<exists>b'. update_priorities ?ix td ?b = Inr b' \<and> per_ok b' \<and> ring_good d n b' \<and> rb_size b' = rb_size b" for td
    using update_priorities_ok [OF ok ix, of td] assms(1) Per
    by (auto simp: ring_good_def same_shape_def)
  have keep: "ring_good d n ?b"
    using assms(1) Per by (simp add: ring_good_def)
  obtain td a' where u: "ln_update lrn a (rows ?ix b) (Some (per_weights ?ix b)) = (td, a')"
    by (cases "ln_update lrn a (rows ?ix b) (Some (per_weights ?ix b))")
  show ?thesis
  proof (cases td)
    case None
    then show ?thesis
      using n u ok keep Per by (simp add: per_sample_def Let_def)
  next
    case (Some es)
    obtain b' where "update_priorities ?ix es ?b = Inr b'" "per_ok b'" "ring_good d n b'" "rb_size b' = rb_size b"
      using upd by blast
    then show ?thesis
      using n u Some Per by (simp add: per_sample_def Let_def)
  qed
next
  case (Plain b)
  then show ?thesis
    using assms by (simp add: replay_sample_def integers_def res_bind_def)
qed

lemma learn_times_good:
  assumes "buf_good d n tb" "0 < buf_len tb" "0 < batch_size"
  shows "\<exists>tb' a'. learn_times m lrn tg k batch_size (tb, a) = Inr (tb', a') \<and> buf_good d n tb' \<and> buf_len tb' = buf_len tb"
  using assms(1,2)
proof (induction m arbitrary: tb a k)
  case (Suc m)
  obtain tb1 a1 where "learn_once lrn tg k batch_size (tb, a) = Inr (tb1, a1)" "buf_good d n tb1" "buf_len tb1 = buf_len tb"
    using learn_once_good [OF Suc.prems assms(3), of lrn tg k a] by blast
  with Suc.IH [where tb = tb1 and a = a1 and k = "k + 1"] Suc.prems(2) show ?case
    by simp
qed simp

lemma flush_good:
  assumes "list_all (tr_good d n) q" "flush_nstep gamma q = Some (t, g)"
  shows "tr_good d n t"
proof -
  let ?w = "take (nstep_horizon q) q"
  have q: "q \<noteq> []"
    using assms(2) by (auto simp: flush_nstep_def)
  then have "?w \<noteq> []"
    by (cases q) (simp_all add: nstep_horizon_def)
  then have "last ?w \<in> set q"
    by (rule in_set_takeD [OF last_in_set])
  moreover have "hd q \<in> set q"
    using q by simp
  ultimately have "hd q \<in> set q" "last ?w \<in> set q"
    by simp_all
  then have "tr_good d n (hd q)" "tr_good d n (last ?w)"
    using assms(1) by (auto simp: list_all_iff)
  then show ?thesis
    using assms(2) q by (auto simp: flush_nstep_def tr_good_def Let_def split: prod.splits)
qed

lemma nstep_turn_good:
  assumes "list_all (tr_good d n) q" "tr_good d n t" "nstep_turn m gamma t q = (out, q')"
  shows "list_all (tr_good d n) q'" "out = Some (t', g) \<Longrightarrow> tr_good d n t'"
proof -
  have dq: "list_all (tr_good d n) (deque_append m t q)"
    using assms(1,2) by (auto simp: deque_append_def list_all_iff Let_def dest: in_set_dropD)
  then show "list_all (tr_good d n) q'"
    using assms(3) by (auto simp: nstep_turn_def Let_def split: if_splits)
  show "tr_good d n t'" if "out = Some (t', g)"
    using assms(3) that flush_good [OF dq] by (auto simp: nstep_turn_def Let_def split: if_splits)
qed

section \<open>The invariant of the loop\<close>

lemma mask_has_noop: "action_mask cfg s ! no_op cfg"
  by (simp add: action_mask_def restrict_mask_for_ablation_def Let_def base_mask_nth)

lemma warmup_pick_legal:
  "act < length mk \<Longrightarrow> mk ! act \<Longrightarrow> warmup_pick cfg s mk act js < length mk \<and> mk ! warmup_pick cfg s mk act js"
  by (induction cfg s mk act js rule: warmup_pick.induct) (auto simp: Let_def split: option.split)

text \<open>What is asked of the configuration, of the generator and of the learner.\<close>

definition same_but_steps :: "env_cfg \<Rightarrow> env_cfg \<Rightarrow> bool" where
  "same_but_steps a b \<longleftrightarrow> b = a\<lparr>ec_max_steps := ec_max_steps b\<rparr>"

definition base_cfg :: "train_cfg \<Rightarrow> env_cfg" where
  "base_cfg tc = (tc_env tc)\<lparr>ec_top_k := TOP_K\<rparr>"

definition train_ok :: "train_cfg \<Rightarrow> bool" where
  "train_ok tc \<longleftrightarrow> tc_families tc \<noteq> [] \<and> set (tc_families tc) \<subseteq> {''philly'', ''burst'', ''ali'', ''aiserve'', ''aimix''} \<and>
     0 \<le> tc_n_jobs tc \<and> (\<forall>ss. tc_stages tc = Some ss \<longrightarrow> ss \<noteq> [] \<and> (\<forall>x \<in> set ss. 0 \<le> fst x)) \<and>
     0 < tc_buf_capacity tc \<and> 0 < tc_warmup_steps tc \<and> 0 < tc_batch_size tc \<and> 0 < tc_update_every tc \<and>
     0 \<le> ec_cap (tc_env tc) \<and> 0 \<le> ec_overcommit (tc_env tc) \<and>
     ec_reward_mode (tc_env tc) \<in> {''jct_aligned'', ''mo''} \<and>
     ec_ablation (tc_env tc) \<in> {None, Some ''placement_only'', Some ''job_only''} \<and>
     ec_speeds (tc_env tc) \<noteq> Some [] \<and> ec_gpu_types (tc_env tc) \<noteq> Some [] \<and> ec_rams (tc_env tc) \<noteq> Some [] \<and>
     (\<exists>c. make_cluster (ec_nodes (tc_env tc)) (ec_gpus (tc_env tc)) (ec_cap (tc_env tc)) (ec_speeds (tc_env tc))
        (ec_gpu_types (tc_env tc)) (ec_rams (tc_env tc)) (ec_overcommit (tc_env tc)) = Inr c) \<and>
     (\<forall>r \<in> set (or_default (ec_rams (tc_env tc)) (ec_nodes (tc_env tc)) 1000000000). 0 \<le> r)"

definition rng_lawful :: "train_rng \<Rightarrow> bool" where
  "rng_lawful tg \<longleftrightarrow> (\<forall>k l. l \<noteq> [] \<longrightarrow> tg_choice tg k l \<in> set l) \<and> (\<forall>k h. 0 < h \<longrightarrow> tg_int tg k h < h)"

definition learner_lawful :: "'a learner \<Rightarrow> bool" where
  "learner_lawful lrn \<longleftrightarrow> (\<forall>a obs mk. (\<exists>i<length mk. mk ! i) \<longrightarrow>
     fst (ln_select lrn a obs mk) < length mk \<and> mk ! fst (ln_select lrn a obs mk))"

definition obs_dim_of :: "train_cfg \<Rightarrow> nat" where
  "obs_dim_of tc = fst (env_dims (ec_nodes (tc_env tc)) (ec_gpus (tc_env tc)) TOP_K (ec_colocation (tc_env tc)))"

definition n_actions_of :: "train_cfg \<Rightarrow> nat" where
  "n_actions_of tc = snd (env_dims (ec_nodes (tc_env tc)) (ec_gpus (tc_env tc)) TOP_K (ec_colocation (tc_env tc)))"

definition train_inv :: "train_cfg \<Rightarrow> 'a train_state \<Rightarrow> bool" where
  "train_inv tc ts \<longleftrightarrow> same_but_steps (base_cfg tc) (en_cfg (ts_env ts)) \<and>
     (\<exists>jobs c s. en_state (ts_env ts) = Some s \<and> gym_jobs_ok jobs \<and> gym_inv jobs c s \<and> 0 \<le> mps_per_gpu c) \<and>
     0 \<le> ts_n_jobs ts \<and> length (ts_obs ts) = obs_dim_of tc \<and>
     buf_good (obs_dim_of tc) (n_actions_of tc) (ts_buf ts) \<and>
     list_all (tr_good (obs_dim_of tc) (n_actions_of tc)) (ts_deque ts)"

lemma train_invD:
  assumes "train_inv tc ts"
  obtains jobs c s where "en_state (ts_env ts) = Some s" "gym_jobs_ok jobs" "gym_inv jobs c s" "0 \<le> mps_per_gpu c"
    "same_but_steps (base_cfg tc) (en_cfg (ts_env ts))" "0 \<le> ts_n_jobs ts" "length (ts_obs ts) = obs_dim_of tc"
    "buf_good (obs_dim_of tc) (n_actions_of tc) (ts_buf ts)"
    "list_all (tr_good (obs_dim_of tc) (n_actions_of tc)) (ts_deque ts)"
  using assms by (auto simp: train_inv_def)

lemma same_but_steps_sel:
  assumes "same_but_steps a b"
  shows "ec_nodes b = ec_nodes a" "ec_gpus b = ec_gpus a" "ec_top_k b = ec_top_k a" "ec_colocation b = ec_colocation a"
    "ec_cap b = ec_cap a" "ec_speeds b = ec_speeds a" "ec_gpu_types b = ec_gpu_types a" "ec_rams b = ec_rams a"
    "ec_overcommit b = ec_overcommit a"
proof -
  have "b = a\<lparr>ec_max_steps := ec_max_steps b\<rparr>"
    using assms by (simp add: same_but_steps_def)
  then obtain m where "b = a\<lparr>ec_max_steps := m\<rparr>" ..
  then show "ec_nodes b = ec_nodes a" "ec_gpus b = ec_gpus a" "ec_top_k b = ec_top_k a" "ec_colocation b = ec_colocation a"
    "ec_cap b = ec_cap a" "ec_speeds b = ec_speeds a" "ec_gpu_types b = ec_gpu_types a" "ec_rams b = ec_rams a"
    "ec_overcommit b = ec_overcommit a"
    by simp_all
qed

lemma same_but_steps_trans:
  assumes "same_but_steps a b"
  shows "same_but_steps a (b\<lparr>ec_max_steps := m\<rparr>)"
proof -
  have "b = a\<lparr>ec_max_steps := ec_max_steps b\<rparr>"
    using assms by (simp add: same_but_steps_def)
  then obtain m' where "b = a\<lparr>ec_max_steps := m'\<rparr>" ..
  then show ?thesis
    by (simp add: same_but_steps_def)
qed

lemma train_dims:
  assumes "same_but_steps (base_cfg tc) cfg"
  shows "length (build_obs cfg s) = obs_dim_of tc" "n_act cfg = n_actions_of tc"
  using same_but_steps_sel [OF assms]
  by (simp_all add: length_build_obs obs_dim_of_def n_actions_of_def base_cfg_def env_dims_def n_act_def n_modes_def)

lemma train_jobs_ok:
  assumes "train_ok tc" "rng_lawful tg" "\<forall>s. rng_ok (py s)" "0 \<le> n"
  shows "\<exists>jobs. train_jobs tc tg py n k = Inr jobs \<and> gym_jobs_ok jobs"
proof -
  let ?f = "(new_factory (tc_families tc) n (int (ec_nodes (tc_env tc) * ec_gpus (tc_env tc))) 0)\<lparr>ff_drawn := k\<rparr>"
  have "list_all (\<lambda>x. default_args x n \<noteq> None) (tc_families tc)"
    using assms(1) by (auto simp: train_ok_def list_all_iff default_args_def)
  then show ?thesis
    using factory_jobs [of ?f "\<lambda>_ i h. tg_int tg i h" py] assms
    by (auto simp: new_factory_def train_ok_def train_jobs_def ints_ok_def rng_lawful_def)
qed

lemma train_reset_ok:
  assumes "train_ok tc" "rng_lawful tg" "\<forall>s. rng_ok (py s)" "same_but_steps (base_cfg tc) (en_cfg (ts_env ts))"
    "0 \<le> ts_n_jobs ts" "buf_good (obs_dim_of tc) (n_actions_of tc) (ts_buf ts)"
    "list_all (tr_good (obs_dim_of tc) (n_actions_of tc)) (ts_deque ts)"
  shows "\<exists>ts'. train_reset tc tg py seed ts = Inr ts' \<and> train_inv tc ts' \<and> ts_buf ts' = ts_buf ts"
proof -
  let ?cfg = "en_cfg (ts_env ts)"
  obtain jobs where jobs: "train_jobs tc tg py (ts_n_jobs ts) (ts_drawn ts) = Inr jobs" "gym_jobs_ok jobs"
    using train_jobs_ok [OF assms(1-3,5)] by blast
  note sel = same_but_steps_sel [OF assms(4)]
  obtain c where c: "make_cluster (ec_nodes ?cfg) (ec_gpus ?cfg) (ec_cap ?cfg) (ec_speeds ?cfg) (ec_gpu_types ?cfg)
      (ec_rams ?cfg) (ec_overcommit ?cfg) = Inr c"
    using assms(1) unfolding sel by (auto simp: train_ok_def base_cfg_def)
  have pre: "0 \<le> ec_cap ?cfg" "0 \<le> ec_overcommit ?cfg"
    "\<forall>r \<in> set (or_default (ec_rams ?cfg) (ec_nodes ?cfg) 1000000000). 0 \<le> r"
    using assms(1) unfolding sel by (auto simp: train_ok_def base_cfg_def)
  obtain s en' where r: "reset_env seed jobs (ts_env ts) = Inr (build_obs ?cfg s, en')" "en_state en' = Some s"
      "en_cfg en' = ?cfg" "gym_inv jobs c s" "0 \<le> mps_per_gpu c"
    using reset_env_ok [OF c refl jobs(2) pre, of seed] by blast
  then show ?thesis
    using jobs assms(4-7) train_dims(1) [OF assms(4)] by (auto simp: train_reset_def train_inv_def)
qed

lemma switch_stage_ok:
  assumes "train_ok tc" "train_inv tc ts"
  shows "\<exists>ts'. switch_stage tc k ts = Inr ts' \<and> train_inv tc ts'"
proof (cases "tc_stages tc")
  case None
  with assms(2) show ?thesis
    by (simp add: switch_stage_def)
next
  case (Some stages)
  have stages: "stages \<noteq> []" "\<And>x. x \<in> set stages \<Longrightarrow> 0 \<le> fst x"
    using assms(1) Some by (auto simp: train_ok_def)
  have "0 \<le> stage_from cum ss p n" if "0 \<le> n" "list_all (\<lambda>x. 0 \<le> fst x) ss" for cum ss p n
    using that by (induction cum ss p n rule: stage_from.induct) auto
  then obtain n where "curriculum_jobs stages (of_nat k / of_nat (tc_total_steps tc)) = Inr n" "0 \<le> n"
    using stages by (cases stages) (auto simp: curriculum_jobs_def list_all_iff)
  with assms(2) Some show ?thesis
    by (auto simp: switch_stage_def train_inv_def same_but_steps_trans)
qed

lemma train_action_ok:
  assumes "train_ok tc" "rng_lawful tg" "learner_lawful lrn" "train_inv tc ts" "mk = mask_of (ts_env ts)"
    "train_action tc lrn tg mk ts = (act, ts')"
  shows "length mk = n_actions_of tc" "act < length mk" "mk ! act" "train_inv tc ts'" "ts_env ts' = ts_env ts"
    "ts_obs ts' = ts_obs ts" "ts_buf ts' = ts_buf ts" "ts_deque ts' = ts_deque ts"
proof -
  obtain jobs c s where s: "en_state (ts_env ts) = Some s" "same_but_steps (base_cfg tc) (en_cfg (ts_env ts))"
    using train_invD [OF assms(4)] by metis
  have mk: "mk = action_mask (en_cfg (ts_env ts)) s"
    using assms(5) s(1) by (simp add: mask_of_def)
  show len: "length mk = n_actions_of tc"
    using train_dims(2) [OF s(2)] by (simp add: mk)
  have noop: "no_op (en_cfg (ts_env ts)) < length mk" "mk ! no_op (en_cfg (ts_env ts))"
    by (simp_all add: mk mask_has_noop)
  have "flatnonzero mk \<noteq> []"
    using noop set_flatnonzero [of mk] by (metis (mono_tags) empty_iff list.set(1) mem_Collect_eq)
  then have fallback: "tg_choice tg k (flatnonzero mk) < length mk" "mk ! tg_choice tg k (flatnonzero mk)" for k
    using assms(2) set_flatnonzero [of mk] unfolding rng_lawful_def by (metis (mono_tags) mem_Collect_eq)+
  note warm = warmup_pick_legal [OF fallback]
  have chosen: "fst (ln_select lrn a obs mk) < length mk" "mk ! fst (ln_select lrn a obs mk)" for a obs
    using assms(3) noop by (auto simp: learner_lawful_def)
  show same: "ts_env ts' = ts_env ts" "ts_obs ts' = ts_obs ts" "ts_buf ts' = ts_buf ts" "ts_deque ts' = ts_deque ts"
    using assms(6) by (auto simp: train_action_def Let_def split: if_splits option.splits prod.splits)
  have "ts_n_jobs ts' = ts_n_jobs ts"
    using assms(6) by (auto simp: train_action_def Let_def split: if_splits option.splits prod.splits)
  with same assms(4) show "train_inv tc ts'"
    by (simp add: train_inv_def)
  have "act < length mk \<and> mk ! act"
  proof (cases "buf_len (ts_buf ts) < tc_warmup_steps tc")
    case True
    then show ?thesis
      using assms(6) s(1) fallback warm by (auto simp: train_action_def Let_def split: if_splits)
  next
    case False
    then have "act = fst (ln_select lrn (ts_learner ts) (ts_obs ts) mk)"
      using assms(6) by (auto simp: train_action_def split: prod.splits)
    with chosen show ?thesis
      by simp
  qed
  then show "act < length mk" "mk ! act"
    by simp_all
qed

lemma ready_dims:
  assumes "train_inv tc ts"
  shows "length (mask_of (ts_env ts)) = n_actions_of tc"
proof -
  obtain jobs c s where s: "en_state (ts_env ts) = Some s" "same_but_steps (base_cfg tc) (en_cfg (ts_env ts))"
    using train_invD [OF assms] by metis
  then show ?thesis
    using train_dims(2) [OF s(2)] by (simp add: mask_of_def)
qed

lemma train_inv_cong:
  assumes "train_inv tc ts" "ts_env ts' = ts_env ts" "ts_n_jobs ts' = ts_n_jobs ts" "length (ts_obs ts') = obs_dim_of tc"
    "buf_good (obs_dim_of tc) (n_actions_of tc) (ts_buf ts')"
    "list_all (tr_good (obs_dim_of tc) (n_actions_of tc)) (ts_deque ts')"
  shows "train_inv tc ts'"
  using assms by (simp add: train_inv_def)

lemma train_step_ok:
  assumes "train_inv tc ts"
  obtains res en where "step nz act (ts_env ts) = Inr (res, en)" "length (sr_obs res) = obs_dim_of tc"
    "same_but_steps (base_cfg tc) (en_cfg en)" "length (mask_of en) = n_actions_of tc"
    "train_inv tc (ts\<lparr>ts_env := en\<rparr>)"
proof -
  obtain jobs c s where s: "en_state (ts_env ts) = Some s" "gym_jobs_ok jobs" "gym_inv jobs c s" "0 \<le> mps_per_gpu c"
    "same_but_steps (base_cfg tc) (en_cfg (ts_env ts))" "0 \<le> ts_n_jobs ts" "length (ts_obs ts) = obs_dim_of tc"
    "buf_good (obs_dim_of tc) (n_actions_of tc) (ts_buf ts)"
    "list_all (tr_good (obs_dim_of tc) (n_actions_of tc)) (ts_deque ts)"
    by (rule train_invD [OF assms])
  obtain res en s' where r: "step nz act (ts_env ts) = Inr (res, en)" "en_state en = Some s'"
      "en_cfg en = en_cfg (ts_env ts)" "gym_inv jobs c s'" "sr_obs res = build_obs (en_cfg (ts_env ts)) s'"
    by (rule step_cases [OF s(2,1,3,4), of nz act])
  have inv: "train_inv tc (ts\<lparr>ts_env := en\<rparr>)"
    using s r by (auto simp: train_inv_def)
  show ?thesis
    using that r(1) inv ready_dims [OF inv] train_dims(1) [OF s(5), of s'] r(3,5) s(5) by simp
qed

lemma note_transition_ok:
  assumes "train_inv tc ts" "length mk = n_actions_of tc" "act < length mk" "mk ! act"
    "length (sr_obs res) = obs_dim_of tc" "length next_mk = n_actions_of tc"
  shows "\<exists>ts'. note_transition tc gamma act mk res next_mk ts = Inr ts' \<and> train_inv tc ts'"
proof -
  note inv = assms(1)
  obtain rew nm where nm: "normalize (tc_normalize tc) (sr_reward res) (ts_norm ts) = (rew, nm)"
    by fastforce
  define t where "t = \<lparr>tn_obs = ts_obs ts, tn_act = int act, tn_rew = rew, tn_next_obs = sr_obs res,
      tn_done = (sr_terminated res \<or> sr_truncated res), tn_mask = Some mk, tn_next_mask = Some next_mk\<rparr>"
  obtain out q where turn: "nstep_turn (tc_nstep tc) gamma t (ts_deque ts) = (out, q)"
    by fastforce
  have dq: "list_all (tr_good (obs_dim_of tc) (n_actions_of tc)) (ts_deque ts)"
    using inv by (simp add: train_inv_def)
  have t: "tr_good (obs_dim_of tc) (n_actions_of tc) t"
    using assms by (auto simp: train_inv_def t_def tr_good_def)
  note good = nstep_turn_good [OF dq t turn]
  show ?thesis
  proof (cases out)
    case None
    then show ?thesis
      using inv nm turn good(1) assms(5)
      by (auto simp: note_transition_def Let_def t_def [symmetric] train_inv_def)
  next
    case (Some x)
    obtain t' g where x: "x = (t', g)" by fastforce
    obtain b where "buf_add t' g (ts_buf ts) = Inr b" "buf_good (obs_dim_of tc) (n_actions_of tc) b"
      using buf_add_good [OF _ good(2), of "ts_buf ts" t' g g] Some x inv by (auto simp: train_inv_def)
    then show ?thesis
      using inv nm turn good(1) assms(5) Some x
      by (auto simp: note_transition_def Let_def t_def [symmetric] train_inv_def)
  qed
qed

lemma end_episode_ok:
  assumes "train_ok tc" "rng_lawful tg" "\<forall>s. rng_ok (py s)" "train_inv tc ts"
  shows "\<exists>ts'. end_episode tc tg py k res ts = Inr ts' \<and> train_inv tc ts'"
proof -
  obtain jobs c s where s: "same_but_steps (base_cfg tc) (en_cfg (ts_env ts))" "0 \<le> ts_n_jobs ts"
    "buf_good (obs_dim_of tc) (n_actions_of tc) (ts_buf ts)"
    "list_all (tr_good (obs_dim_of tc) (n_actions_of tc)) (ts_deque ts)"
    using train_invD [OF assms(4)] by metis
  show ?thesis
    unfolding end_episode_def
    by (rule exE [OF train_reset_ok [OF assms(1-3), of
      "ts\<lparr>ts_ep_count := ts_ep_count ts + 1, ts_ep_steps := 0, ts_ep_reward := 0,
        ts_log := ts_log ts @ [\<lparr>el_step = k, el_episode = ts_ep_count ts + 1, el_ep_steps = ts_ep_steps ts,
          el_ep_reward = ts_ep_reward ts, el_avg_jct = sr_avg_jct res, el_n_jobs = ts_n_jobs ts\<rparr>]\<rparr>" None]])
      (use s in auto)
qed

lemma learn_phase_ok:
  assumes "train_ok tc" "train_inv tc ts"
  shows "\<exists>ts'. learn_phase tc lrn tg k ts = Inr ts' \<and> train_inv tc ts'"
proof (cases "buf_len (ts_buf ts) < tc_warmup_steps tc \<or> k mod tc_update_every tc \<noteq> 0")
  case True
  then show ?thesis
    using assms by (auto simp: learn_phase_def train_ok_def)
next
  case False
  have good: "buf_good (obs_dim_of tc) (n_actions_of tc) (ts_buf ts)"
    using assms(2) by (simp add: train_inv_def)
  have pos: "0 < buf_len (ts_buf ts)" "0 < tc_batch_size tc" "tc_update_every tc \<noteq> 0"
    using False assms(1) by (auto simp: train_ok_def)
  obtain b l where bl: "learn_times (tc_utd_ratio tc) lrn tg (ts_drawn ts) (tc_batch_size tc) (ts_buf ts, ts_learner ts) =
      Inr (b, l)" "buf_good (obs_dim_of tc) (n_actions_of tc) b"
    using learn_times_good [OF good pos(1,2), where m = "tc_utd_ratio tc" and lrn = lrn and tg = tg and k = "ts_drawn ts"
      and a = "ts_learner ts"] by blast
  then have "learn_phase tc lrn tg k ts =
      Inr (ts\<lparr>ts_buf := b, ts_learner := l, ts_drawn := ts_drawn ts + tc_utd_ratio tc\<rparr>)"
    using False pos(3) by (simp add: learn_phase_def)
  moreover have "train_inv tc (ts\<lparr>ts_buf := b, ts_learner := l, ts_drawn := ts_drawn ts + tc_utd_ratio tc\<rparr>)"
    by (rule train_inv_cong [OF assms(2)]) (use assms(2) bl(2) in \<open>simp_all add: train_inv_def\<close>)
  ultimately show ?thesis
    by blast
qed

lemma train_turn_ok:
  assumes "train_ok tc" "rng_lawful tg" "learner_lawful lrn" "\<forall>s. rng_ok (py s)" "train_inv tc ts"
  shows "\<exists>ts'. train_turn tc lrn tg py nz k ts = Inr ts' \<and> train_inv tc ts'"
proof -
  obtain ts1 where ts1: "switch_stage tc k ts = Inr ts1" "train_inv tc ts1"
    using switch_stage_ok [OF assms(1,5)] by blast
  define mk where "mk = mask_of (ts_env ts1)"
  obtain act ts2 where act: "train_action tc lrn tg mk ts1 = (act, ts2)"
    by fastforce
  note a = train_action_ok [OF assms(1-3) ts1(2) mk_def act]
  obtain res en where st: "step (nz (ts_ep_count ts2)) act (ts_env ts2) = Inr (res, en)"
    "length (sr_obs res) = obs_dim_of tc" "length (mask_of en) = n_actions_of tc" "train_inv tc (ts2\<lparr>ts_env := en\<rparr>)"
    by (rule train_step_ok [OF a(4), of "nz (ts_ep_count ts2)" act])
  obtain ts3 where ts3: "note_transition tc (ln_gamma lrn) act mk res (mask_of en) (ts2\<lparr>ts_env := en\<rparr>) = Inr ts3"
      "train_inv tc ts3"
    using note_transition_ok [OF st(4) a(1-3) st(2,3)] by blast
  obtain ts4 where ts4: "(if sr_terminated res \<or> sr_truncated res then end_episode tc tg py k res ts3 else Inr ts3) = Inr ts4"
      "train_inv tc ts4"
    using end_episode_ok [OF assms(1,2,4) ts3(2), of k res] ts3(2)
    by (cases "sr_terminated res \<or> sr_truncated res") auto
  have "train_turn tc lrn tg py nz k ts = learn_phase tc lrn tg k ts4"
    by (simp only: train_turn_def ts1(1) res_bind_simps Let_def mk_def [symmetric] act prod.case st(1) sum.case ts3(1) ts4(1))
  with learn_phase_ok [OF assms(1) ts4(2)] show ?thesis
    by simp
qed

lemma train_loop_ok:
  assumes "train_ok tc" "rng_lawful tg" "learner_lawful lrn" "\<forall>s. rng_ok (py s)" "train_inv tc ts"
  shows "\<exists>ts'. train_loop tc lrn tg py nz ks ts = Inr ts' \<and> train_inv tc ts'"
  using assms(5)
proof (induction ks arbitrary: ts)
  case (Cons k ks)
  obtain ts1 where "train_turn tc lrn tg py nz k ts = Inr ts1" "train_inv tc ts1"
    using train_turn_ok [OF assms(1-4) Cons.prems] by blast
  with Cons.IH [of ts1] show ?case
    by (simp add: res_bind_def)
qed simp

lemma new_buf_good:
  assumes "0 < c"
  shows "buf_good d n (Per (new_prioritized c d n a b0 b1 k))" "buf_good d n (Plain (new_replay c d n))"
  using new_per_ok [OF assms, of d n a b0 b1 k] new_ring(1) [OF assms, of d n] new_ring(2) [of c d n]
  by (simp_all add: ring_good_def) (simp_all add: new_prioritized_def new_replay_def replay.extend_def contents_def slots_def)

lemma start_training_ok:
  assumes "train_ok tc"
  obtains ts where "start_training tc l = Inr ts" "same_but_steps (base_cfg tc) (en_cfg (ts_env ts))" "0 \<le> ts_n_jobs ts"
    "buf_good (obs_dim_of tc) (n_actions_of tc) (ts_buf ts)" "ts_deque ts = []"
proof -
  let ?cfg = "(tc_env tc)\<lparr>ec_top_k := TOP_K, ec_max_steps := nat (tc_n_jobs tc * int (tc_max_steps_mult tc))\<rparr>"
  have ok: "ec_ablation ?cfg \<in> {None, Some ''placement_only'', Some ''job_only''}"
    "ec_reward_mode ?cfg \<in> {''jct_aligned'', ''mo''}"
    "ec_speeds ?cfg \<noteq> Some []" "ec_gpu_types ?cfg \<noteq> Some []" "ec_rams ?cfg \<noteq> Some []" "0 < tc_buf_capacity tc" "0 \<le> tc_n_jobs tc"
    using assms by (auto simp: train_ok_def)
  have "none_if_empty (ec_speeds ?cfg) = ec_speeds ?cfg" "none_if_empty (ec_gpu_types ?cfg) = ec_gpu_types ?cfg"
    "none_if_empty (ec_rams ?cfg) = ec_rams ?cfg"
    using ok(3-5) by (simp_all add: none_if_empty_def)
  then obtain en where en: "make_env ?cfg = Inr en" "en_cfg en = ?cfg"
    using ok(1,2) by (simp add: make_env_def)
  have same: "same_but_steps (base_cfg tc) (en_cfg en)"
    by (simp add: en(2) same_but_steps_def base_cfg_def)
  obtain d n where dn: "env_dims (ec_nodes (tc_env tc)) (ec_gpus (tc_env tc)) TOP_K (ec_colocation (tc_env tc)) = (d, n)"
    by fastforce
  define buf where "buf = (if tc_use_per tc then Per (new_prioritized (tc_buf_capacity tc) d n (3 / 5) (2 / 5) 1 100000)
    else Plain (new_replay (tc_buf_capacity tc) d n))"
  have good: "buf_good d n buf"
    using new_buf_good [OF ok(6)] by (simp add: buf_def del: buf_good.simps)
  let ?ts = "\<lparr>ts_env = en, ts_obs = [], ts_n_jobs = tc_n_jobs tc, ts_buf = buf, ts_deque = [], ts_norm = no_rewards,
    ts_learner = l, ts_drawn = 0, ts_ep_steps = 0, ts_ep_reward = 0, ts_ep_count = 0, ts_log = []\<rparr>"
  have "start_training tc l = Inr ?ts"
    using en(1) dn by (simp add: start_training_def buf_def)
  then show ?thesis
    by (rule that) (use same ok(7) good dn in \<open>simp_all add: obs_dim_of_def n_actions_of_def del: buf_good.simps\<close>)
qed

lemma sim_train_ok:
  assumes "train_ok tc" "rng_lawful tg" "learner_lawful lrn" "\<forall>s. rng_ok (py s)"
  shows "\<exists>ts. sim_train tc lrn tg py nz l = Inr ts \<and> train_inv tc ts"
proof -
  obtain ts0 where ts0: "start_training tc l = Inr ts0" "same_but_steps (base_cfg tc) (en_cfg (ts_env ts0))"
    "0 \<le> ts_n_jobs ts0" "buf_good (obs_dim_of tc) (n_actions_of tc) (ts_buf ts0)" "ts_deque ts0 = []"
    by (rule start_training_ok [OF assms(1)])
  obtain ts where "train_reset tc tg py (Some (tc_seed tc)) ts0 = Inr ts" "train_inv tc ts"
    using train_reset_ok [OF assms(1,2,4) ts0(2-4)] ts0(5) by auto
  with ts0(1) train_loop_ok [OF assms, of ts] show ?thesis
    by (simp add: sim_train_def)
qed

end
