(* ===== verification/LearnProps.thy ===== *)
theory LearnProps
  imports RlTrainFacts
begin

text \<open>
  The properties of training: what the replay buffers hold, how the prioritized one samples, what
  the n-step transitions and the reward scale are, and that the training loop cannot raise.
\<close>

section \<open>Sampling by priority\<close>

text \<open>The prioritized buffers that the operations can produce.\<close>

inductive buffer_reach :: "nat \<Rightarrow> nat \<Rightarrow> nat \<Rightarrow> prioritized \<Rightarrow> bool" for c d n where
  start: "0 < c \<Longrightarrow> buffer_reach c d n (new_prioritized c d n a b0 b1 k)"
| add: "buffer_reach c d n b \<Longrightarrow> fits d n t \<Longrightarrow> per_add t g b = Inr b' \<Longrightarrow> buffer_reach c d n b'"
| sample: "buffer_reach c d n b \<Longrightarrow> per_sample m u b = Inr (bt, b') \<Longrightarrow> buffer_reach c d n b'"
| update: "buffer_reach c d n b \<Longrightarrow> list_all (\<lambda>i. i < rb_size b) ix \<Longrightarrow> update_priorities ix td b = Inr b' \<Longrightarrow>
    buffer_reach c d n b'"

lemma buffer_reach_ok:
  assumes "buffer_reach c d n b"
  shows "per_ok b \<and> rb_capacity b = c \<and> rb_obs_dim b = d \<and> rb_n_actions b = n"
  using assms
proof (induction rule: buffer_reach.induct)
  case (start a b0 b1 k)
  then show ?case
    using new_per_ok [of c d n a b0 b1 k] by (simp add: new_prioritized_def new_replay_def replay.extend_def)
next
  case (add b t g b')
  then show ?case
    using per_add_ok [of b t g] by (auto simp: same_shape_def)
next
  case (sample b m u bt b')
  then show ?case
    by (auto simp: per_sample_def Let_def per_ok_def split: if_splits)
next
  case (update b ix td b')
  then show ?case
    using update_priorities_ok [of b ix td] by (auto simp: same_shape_def list_all_iff)
qed

text \<open>Where the interval of a slot starts: after the priorities of the leaves the search passes before it.\<close>

definition slot_start :: "prioritized \<Rightarrow> nat \<Rightarrow> real" where
  "slot_start b i =
     sum_list (map (leaf_of (pr_tree b)) (takeWhile (\<lambda>j. j \<noteq> i) (leaf_order (tr_capacity (pr_tree b)))))"

lemma slot_start_before: "slot_start b i = st.before (pr_tree b) i"
  by (simp add: slot_start_def st.before_def)

text \<open>C17. In every prioritized buffer the operations can produce, of any capacity, the total at the root
  of the tree is the sum of the priorities of the transitions held, all positive, and a value drawn
  between nothing and the total finds a given transition exactly when it lies in an interval as long
  as its priority: each is sampled with the share of its priority, and an empty slot never.\<close>

theorem sampling_is_proportional:
  assumes "buffer_reach c d n b" "0 < v" "v \<le> tree_total (pr_tree b)" "i < rb_size b"
  shows "tree_total (pr_tree b) = (\<Sum>j<rb_size b. leaf_of (pr_tree b) j) \<and> 0 < leaf_of (pr_tree b) i \<and>
    sample_one (pr_tree b) v < rb_size b \<and>
    (sample_one (pr_tree b) v = i \<longleftrightarrow> slot_start b i < v \<and> v \<le> slot_start b i + leaf_of (pr_tree b) i)"
proof -
  have ok: "per_ok b"
    using buffer_reach_ok [OF assms(1)] by simp
  then have tree: "sum_tree_ok (pr_tree b)" "tr_capacity (pr_tree b) = rb_capacity b" "rb_size b \<le> rb_capacity b"
    "\<forall>j. rb_size b \<le> j \<and> j < rb_capacity b \<longrightarrow> leaf_of (pr_tree b) j = 0" "0 < leaf_of (pr_tree b) i"
    using assms(4) by (auto simp: per_ok_def ring_ok_def)
  have "(\<Sum>j<rb_capacity b. leaf_of (pr_tree b) j) = (\<Sum>j<rb_size b. leaf_of (pr_tree b) j)"
    using tree(3,4) by (intro sum.mono_neutral_right) auto
  then have total: "tree_total (pr_tree b) = (\<Sum>j<rb_size b. leaf_of (pr_tree b) j)"
    using st.total_sum [OF tree(1)] tree(2) by simp
  have nonneg: "\<forall>e<tr_capacity (pr_tree b). 0 \<le> leaf_of (pr_tree b) e"
    using per_leaf_nonneg [OF ok] tree(2) by simp
  have "i < tr_capacity (pr_tree b)"
    using assms(4) tree(2,3) by simp
  from st.find_iff [OF tree(1) nonneg assms(2,3) this] total sampled_in_use(1) [OF ok assms(2,3)] tree(5) show ?thesis
    by (simp add: slot_start_before)
qed

section \<open>What the buffers hold\<close>

fun buf_add_all :: "(transition \<times> real) list \<Rightarrow> train_buf \<Rightarrow> py_error + train_buf" where
  "buf_add_all [] tb = Inr tb"
| "buf_add_all ((t, g) # tgs) tb = res_bind (buf_add t g tb) (buf_add_all tgs)"

definition last_n :: "nat \<Rightarrow> 'a list \<Rightarrow> 'a list" where
  "last_n c xs = drop (length xs - c) xs"

lemma last_n_append: "last_n c (last_n c xs @ ys) = last_n c (xs @ ys)"
  by (simp add: last_n_def) (metis add.commute diff_diff_left le_add_diff_inverse2 linear diff_is_0_eq drop_drop drop_all drop_append length_drop diff_diff_cancel)

text \<open>The row a transition with both masks becomes.\<close>

definition row_for :: "transition \<times> real \<Rightarrow> replay_row" where
  "row_for = (\<lambda>(t, g). \<lparr>rw_obs = tn_obs t, rw_act = tn_act t, rw_rew = tn_rew t, rw_next_obs = tn_next_obs t,
     rw_done = tn_done t, rw_mask = the (tn_mask t), rw_next_mask = the (tn_next_mask t), rw_gamma = g\<rparr>)"

definition full_transition :: "nat \<Rightarrow> nat \<Rightarrow> transition \<Rightarrow> bool" where
  "full_transition d n t \<longleftrightarrow> fits d n t \<and> tn_mask t \<noteq> None \<and> tn_next_mask t \<noteq> None"

fun buf_shape :: "nat \<Rightarrow> nat \<Rightarrow> nat \<Rightarrow> train_buf \<Rightarrow> bool" where
  "buf_shape c d n (Per b) \<longleftrightarrow> per_ok b \<and> rb_capacity b = c \<and> rb_obs_dim b = d \<and> rb_n_actions b = n"
| "buf_shape c d n (Plain b) \<longleftrightarrow> ring_ok b \<and> rb_capacity b = c \<and> rb_obs_dim b = d \<and> rb_n_actions b = n"

lemma row_of_full: "full_transition d n t \<Longrightarrow> row_of b t g = row_for (t, g)"
  by (auto simp: full_transition_def row_of_def row_for_def opt_or_def)

lemma buf_add_row:
  assumes "buf_shape c d n tb" "full_transition d n t"
  shows "\<exists>tb'. buf_add t g tb = Inr tb' \<and> buf_shape c d n tb' \<and> buf_rows tb' = last_n c (buf_rows tb @ [row_for (t, g)])"
proof (cases tb)
  case (Per b)
  have "length (contents b) = rb_size b"
    using assms(1) Per by (simp add: per_ok_def length_contents)
  moreover have "rb_size b \<le> c" "0 < c"
    using assms(1) Per by (auto simp: per_ok_def ring_ok_def)
  ultimately show ?thesis
    using per_add_ok [of b t g] assms Per row_of_full [OF assms(2), of b g]
    by (auto simp: full_transition_def same_shape_def last_n_def)
next
  case (Plain b)
  have "length (contents b) = rb_size b"
    using assms(1) Plain by (simp add: length_contents)
  moreover have "rb_size b \<le> c" "0 < c"
    using assms(1) Plain by (auto simp: ring_ok_def)
  ultimately show ?thesis
    using replay_add_appends [of b t g] assms Plain row_of_full [OF assms(2), of b g]
    by (auto simp: full_transition_def same_shape_def last_n_def)
qed

lemma buf_add_all_rows:
  assumes "buf_shape c d n tb" "list_all (\<lambda>x. full_transition d n (fst x)) tgs" "length (buf_rows tb) \<le> c"
  shows "\<exists>tb'. buf_add_all tgs tb = Inr tb' \<and> buf_shape c d n tb' \<and> buf_rows tb' = last_n c (buf_rows tb @ map row_for tgs)"
  using assms
proof (induction tgs arbitrary: tb)
  case Nil
  then show ?case
    by (simp add: last_n_def)
next
  case (Cons x tgs)
  obtain t g where x: "x = (t, g)"
    by fastforce
  obtain tb1 where tb1: "buf_add t g tb = Inr tb1" "buf_shape c d n tb1"
      "buf_rows tb1 = last_n c (buf_rows tb @ [row_for (t, g)])"
    using buf_add_row [OF Cons.prems(1), of t g] Cons.prems(2) x by auto
  have "length (buf_rows tb1) \<le> c"
    by (simp add: tb1(3) last_n_def)
  from Cons.IH [OF tb1(2) _ this] Cons.prems(2) tb1(1,3) last_n_append [of c "buf_rows tb @ [row_for (t, g)]"] show ?case
    by (auto simp: x)
qed

text \<open>C18. Whatever is added to an empty buffer, with or without priorities, it then holds the most recent
  transitions up to its capacity, oldest first, each with its own masks and discount.\<close>

theorem replay_keeps_last:
  assumes "0 < c" "list_all (\<lambda>x. full_transition d n (fst x)) tgs"
  shows "\<exists>tb. buf_add_all tgs (if per then Per (new_prioritized c d n a b0 b1 k) else Plain (new_replay c d n)) = Inr tb \<and>
    buf_rows tb = drop (length tgs - c) (map row_for tgs)"
proof -
  let ?tb = "if per then Per (new_prioritized c d n a b0 b1 k) else Plain (new_replay c d n)"
  have "buf_shape c d n ?tb" "buf_rows ?tb = []"
    using new_per_ok [OF assms(1)] new_ring(1) [OF assms(1)]
    by (simp_all add: new_prioritized_def new_replay_def replay.extend_def contents_def slots_def)
  from buf_add_all_rows [OF this(1) assms(2)] this(2) show ?thesis
    by (auto simp: last_n_def)
qed

definition demo_transition :: "int \<Rightarrow> real \<Rightarrow> bool \<Rightarrow> transition" where
  "demo_transition a r e = \<lparr>tn_obs = [0], tn_act = a, tn_rew = r, tn_next_obs = [1], tn_done = e,
     tn_mask = Some [True, False], tn_next_mask = Some [False, True]\<rparr>"

lemma demo_full: "full_transition 1 2 (demo_transition a r e)"
  by (simp add: full_transition_def fits_def demo_transition_def)

theorem replay_keeps_last_witness:
  "\<exists>tb. buf_add_all [(demo_transition 0 1 False, 9 / 10), (demo_transition 1 2 False, 9 / 10), (demo_transition 2 3 True, 8 / 10)]
      (Per (new_prioritized 2 1 2 (3 / 5) (2 / 5) 1 100000)) = Inr tb \<and>
    map rw_act (buf_rows tb) = [1, 2] \<and> map rw_gamma (buf_rows tb) = [9 / 10, 8 / 10]"
proof -
  have "list_all (\<lambda>x. full_transition 1 2 (fst x))
      [(demo_transition 0 1 False, 9 / 10), (demo_transition 1 2 False, 9 / 10), (demo_transition 2 3 True, 8 / 10)]"
    using demo_full by simp
  from replay_keeps_last [where c = 2 and per = True, OF _ this, of "3 / 5" "2 / 5" 1 100000] show ?thesis
    by (auto simp: row_for_def demo_transition_def)
qed

lemma demo_buffer:
  obtains b where "buffer_reach 2 1 2 b" "rb_size b = 1"
proof -
  let ?b = "new_prioritized 2 1 2 (3 / 5) (2 / 5) 1 100000"
  have r: "buffer_reach 2 1 2 ?b" "per_ok ?b"
    by (rule buffer_reach.start new_per_ok, simp)+
  have sel: "rb_size ?b = 0" "rb_obs_dim ?b = 1" "rb_n_actions ?b = 2" "rb_capacity ?b = 2"
    by (simp_all add: new_prioritized_def new_replay_def replay.extend_def)
  have f: "fits 1 2 (demo_transition 0 1 False)"
    using demo_full by (simp add: full_transition_def)
  obtain b where "per_add (demo_transition 0 1 False) 1 ?b = Inr b" "rb_size b = 1"
    using per_add_ok [OF r(2), of "demo_transition 0 1 False" 1] f sel by auto
  with buffer_reach.add [OF r(1) f] that show ?thesis
    by blast
qed

theorem sampling_is_proportional_witness:
  "\<exists>b. buffer_reach 2 1 2 b \<and> rb_size b = 1 \<and> sample_one (pr_tree b) (tree_total (pr_tree b)) = 0 \<and>
    tree_total (pr_tree b) = leaf_of (pr_tree b) 0"
proof -
  obtain b where b: "buffer_reach 2 1 2 b" "rb_size b = 1"
    by (rule demo_buffer)
  then have "0 < tree_total (pr_tree b)"
    using per_total_pos [of b] buffer_reach_ok [of 2 1 2 b] by simp
  from sampling_is_proportional [OF b(1) this order_refl, of 0] b show ?thesis
    by auto
qed

section \<open>What is learned from\<close>

text \<open>C19. The n-step transitions the loop stores for a sequence of whole episodes are the windows of n
  consecutive steps of each episode, never across an episode's end, or the whole episode where it is
  shorter: each starts from the window's first observation, action and mask, has the discounted sum
  of its rewards and the discount to bootstrap with, and ends in the window's last observation.
  The steps within the last n - 1 of a longer episode start no window.\<close>

theorem nstep_windows:
  assumes "0 < n" "list_all episode eps"
  shows "nstep_stream n gamma [] (concat eps) = map (nstep_ref gamma) (concat (map (windows n) eps))"
  by (rule nstep_stream_episodes) (use assms in \<open>simp_all add: list_all_iff\<close>)

theorem nstep_windows_witness:
  "map (\<lambda>(t, g). (tn_act t, tn_rew t, tn_done t, g))
     (nstep_stream 2 (1 / 2) [] [demo_transition 0 1 False, demo_transition 1 2 False, demo_transition 2 4 True,
        demo_transition 3 8 True]) = [(0, 2, False, 1 / 4), (1, 4, True, 1 / 4), (3, 8, True, 1 / 2)]"
proof -
  have ep: "list_all episode [[demo_transition 0 1 False, demo_transition 1 2 False, demo_transition 2 4 True],
      [demo_transition 3 8 True]]"
    by (simp add: episode_def demo_transition_def)
  have upt: "[0..<length [demo_transition 0 1 False, demo_transition 1 2 False, demo_transition 2 4 True] - 2 + 1] = [0, 1]"
    by (simp add: upt_conv_Cons)
  show ?thesis
    using nstep_windows [of 2, OF _ ep, of "1 / 2"]
    by (simp add: windows_def nstep_ref_def demo_transition_def upt_conv_Cons numeral_2_eq_2 lessThan_Suc)
qed

text \<open>The rewards scaled one after another.\<close>

definition scaled :: "real list \<Rightarrow> real \<Rightarrow> real" where
  "scaled rs r = fst (normalize True r (foldl (\<lambda>nm x. snd (normalize True x nm)) no_rewards rs))"

text \<open>C20. The running scale of the rewards is their standard deviation: the reward after any earlier
  ones is divided by the population deviation of all rewards so far, its own included, as computed
  from the list.\<close>

theorem reward_scale_is_deviation:
  assumes "rs \<noteq> []"
  shows "scaled rs r = r / (pstdev (rs @ [r]) + 1 / 1000000)"
proof -
  have "foldl (\<lambda>nm x. snd (normalize True x nm)) no_rewards rs = norm_after rs"
    unfolding norm_after_def by (simp add: normalize_state [of True _ _ False])
  then have "scaled rs r = fst (normalize True r (norm_after rs))"
    by (simp add: scaled_def)
  also have "\<dots> = r / (sqrt (nm_m2 (snd (normalize False r (norm_after rs))) / real (nm_count (norm_after rs) + 1)) + 1 / 1000000)"
    using norm_after_stats [of rs] assms by (simp add: normalize_def Let_def)
  also have "snd (normalize False r (norm_after rs)) = norm_after (rs @ [r])"
    by (simp add: norm_after_def)
  also have "sqrt (nm_m2 (norm_after (rs @ [r])) / real (nm_count (norm_after rs) + 1)) = pstdev (rs @ [r])"
    using norm_after_deviation(2) [of "rs @ [r]"] norm_after_stats [of rs] by simp
  finally show ?thesis .
qed

theorem reward_scale_is_deviation_witness: "scaled [1] 3 = 3 / (1 + 1 / 1000000)"
  using reward_scale_is_deviation [of "[1]" 3] by (simp add: pstdev_def mean_def)

section \<open>The training loop\<close>


definition demo_train :: train_cfg where
  "demo_train = \<lparr>tc_env = \<lparr>ec_nodes = 1, ec_gpus = 1, ec_cap = 100, ec_top_k = 16, ec_max_steps = 0,
       ec_reward_mode = ''jct_aligned'', ec_reward_scale = 20000, ec_placement_scale = 1, ec_potential = True,
       ec_balance = 0, ec_fairness = 0, ec_speeds = None, ec_gpu_types = None, ec_rams = None, ec_sigma = 0,
       ec_interference = 0, ec_oom_sigma = 0, ec_oom_penalty = 0, ec_overcommit = 1, ec_colocation = False,
       ec_slo_penalty = 0, ec_noop_penalty = 0, ec_ablation = None\<rparr>,
     tc_families = [''ali''], tc_n_jobs = 2, tc_max_steps_mult = 200, tc_nstep = 10, tc_total_steps = 1000,
     tc_warmup_steps = 100, tc_score_warmup = True, tc_update_every = 1, tc_utd_ratio = 4, tc_batch_size = 32,
     tc_buf_capacity = 500, tc_seed = 42, tc_use_per = True, tc_normalize = False,
     tc_stages = resolve_stages True None\<rparr>"

definition demo_learner :: "unit learner" where
  "demo_learner = \<lparr>ln_select = (\<lambda>a obs mk. (hd (flatnonzero mk), a)), ln_update = (\<lambda>a b w. (Some [], a)), ln_gamma = 99 / 100\<rparr>"

definition demo_train_rng :: train_rng where
  "demo_train_rng = \<lparr>tg_choice = (\<lambda>k l. hd l), tg_int = (\<lambda>k h. 0), tg_draw = (\<lambda>k n m. replicate m 0), tg_uniform = (\<lambda>k i lo hi. hi)\<rparr>"

lemma demo_lawful: "rng_lawful demo_train_rng" "learner_lawful demo_learner"
proof -
  show "rng_lawful demo_train_rng"
    by (simp add: rng_lawful_def demo_train_rng_def)
  have first: "hd (flatnonzero mk) < length mk \<and> mk ! hd (flatnonzero mk)" if ex: "\<exists>i<length mk. mk ! i" for mk
  proof -
    obtain i where "i < length mk" "mk ! i"
      using ex by blast
    then have "i \<in> set (flatnonzero mk)"
      by (simp add: set_flatnonzero)
    then have "hd (flatnonzero mk) \<in> set (flatnonzero mk)"
      by (cases "flatnonzero mk") simp_all
    then show ?thesis
      by (simp add: set_flatnonzero)
  qed
  show "learner_lawful demo_learner"
    unfolding learner_lawful_def by (simp add: demo_learner_def first)
qed

lemma demo_train_families: "tc_families demo_train \<noteq> []"
    "set (tc_families demo_train) \<subseteq> {''philly'', ''burst'', ''ali'', ''aiserve'', ''aimix''}" "0 \<le> tc_n_jobs demo_train"
  by (simp_all add: demo_train_def)

lemma demo_train_stages: "tc_stages demo_train = Some ss \<longrightarrow> ss \<noteq> [] \<and> (\<forall>x \<in> set ss. 0 \<le> fst x)"
  by (auto simp: demo_train_def resolve_stages_def)

lemma demo_train_sel: "0 < tc_buf_capacity demo_train" "0 < tc_warmup_steps demo_train" "0 < tc_batch_size demo_train"
    "0 < tc_update_every demo_train" "ec_nodes (tc_env demo_train) = 1" "ec_gpus (tc_env demo_train) = 1"
    "ec_rams (tc_env demo_train) = None" "ec_speeds (tc_env demo_train) = None" "ec_gpu_types (tc_env demo_train) = None"
    "ec_overcommit (tc_env demo_train) = 1" "ec_cap (tc_env demo_train) = 100" "ec_ablation (tc_env demo_train) = None"
    "ec_reward_mode (tc_env demo_train) = ''jct_aligned''"
  by (simp_all add: demo_train_def)

lemma demo_train_cluster: "\<exists>c. make_cluster 1 1 100 None None None 1 = Inr c" "\<forall>r \<in> set (or_default None 1 1000000000). 0 \<le> (r::real)"
  by (simp_all add: make_cluster_def or_default_def Let_def)

lemma demo_train_ok: "train_ok demo_train"
  using demo_train_families demo_train_stages demo_train_sel(1-4) demo_train_cluster
  unfolding train_ok_def by (simp add: demo_train_sel(5-))


end
