(* ===== verification/RlCollect.thy ===== *)
theory RlCollect
  imports RlTrain SimRunner
begin

text \<open>
  The rest of \<^verbatim>\<open>services/rl_scheduler/rlpd_finetune.py\<close>: the three sources of transitions (random
  rollouts in the simulator, live traces replayed with the score heuristic, the live collector's log),
  the merge of the last two, and the fine-tuning loop with its evaluation. The agent is a \<open>learner\<close>.
  Loops bounded by the environment's step limit take it as fuel.
\<close>

section \<open>The simulator with its defaults\<close>

text \<open>\<^verbatim>\<open>KubefluxSchedEnv\<close> with the arguments these functions pass; the rest has the constructor's defaults.\<close>

definition plain_env :: "nat \<Rightarrow> nat \<Rightarrow> nat \<Rightarrow> string list option \<Rightarrow> real list option \<Rightarrow> env_cfg" where
  "plain_env n g max_steps types rams =
     \<lparr>ec_nodes = n, ec_gpus = g, ec_cap = MPS_PER_GPU, ec_top_k = TOP_K, ec_max_steps = max_steps,
      ec_reward_mode = ''jct_aligned'', ec_reward_scale = 1000, ec_placement_scale = 1 / 100, ec_potential = False,
      ec_balance = 0, ec_fairness = 0, ec_speeds = None, ec_gpu_types = types, ec_rams = rams, ec_sigma = 0,
      ec_interference = 0, ec_oom_sigma = 0, ec_oom_penalty = 0, ec_overcommit = 1, ec_colocation = False,
      ec_slo_penalty = 0, ec_noop_penalty = 0, ec_ablation = None\<rparr>"

definition family_trace :: "(int \<Rightarrow> rng) \<Rightarrow> string \<Rightarrow> int \<Rightarrow> int \<Rightarrow> int \<Rightarrow> py_error + job list" where
  "family_trace py family n limit seed =
     (case default_args family n of
        None \<Rightarrow> Inl ValueError
      | Some args \<Rightarrow>
          (case fst (generate_by_family (py seed) family args 0) of
             Inl e \<Rightarrow> Inl e
           | Inr jobs \<Rightarrow> Inr (filter (\<lambda>j. gpu_count j \<le> limit) jobs)))"

section \<open>Random rollouts\<close>

record rollout =
  ro_env :: env
  ro_obs :: "real list"
  ro_buf :: replay
  ro_drawn :: nat
  ro_episodes :: nat

definition rollout_reset ::
  "train_rng \<Rightarrow> (int \<Rightarrow> rng) \<Rightarrow> string \<Rightarrow> int \<Rightarrow> int \<Rightarrow> rollout \<Rightarrow> py_error + rollout" where
  "rollout_reset tg py family n limit ro =
     res_bind (family_trace py family n limit (int (tg_int tg (ro_drawn ro) (2 ^ 31 - 1)))) (\<lambda>jobs.
     res_bind (reset_env None jobs (ro_env ro)) (\<lambda>(obs, en).
       Inr (ro\<lparr>ro_env := en, ro_obs := obs, ro_drawn := ro_drawn ro + 1, ro_episodes := ro_episodes ro + 1\<rparr>)))"

definition rollout_turn ::
  "train_rng \<Rightarrow> (int \<Rightarrow> rng) \<Rightarrow> (nat \<Rightarrow> noise) \<Rightarrow> string \<Rightarrow> int \<Rightarrow> int \<Rightarrow> rollout \<Rightarrow> py_error + rollout" where
  "rollout_turn tg py nz family n limit ro =
     (let mk = mask_of (ro_env ro); legal = flatnonzero mk;
          (act, k) = (if legal \<noteq> [] then (tg_choice tg (ro_drawn ro) legal, ro_drawn ro + 1) else (0, ro_drawn ro))
      in case step (nz (ro_episodes ro)) act (ro_env ro) of
           Inl e \<Rightarrow> Inl e
         | Inr (res, en) \<Rightarrow>
             (let dn = (sr_terminated res \<or> sr_truncated res) in
              res_bind (replay_add \<lparr>tn_obs = ro_obs ro, tn_act = int act, tn_rew = sr_reward res, tn_next_obs = sr_obs res,
                  tn_done = dn, tn_mask = Some mk, tn_next_mask = Some (mask_of en)\<rparr> (99 / 100) (ro_buf ro)) (\<lambda>b.
                (let ro' = ro\<lparr>ro_env := en, ro_obs := sr_obs res, ro_buf := b, ro_drawn := k\<rparr> in
                 if dn then rollout_reset tg py family n limit ro' else Inr ro'))))"

fun fill_rollouts ::
  "nat \<Rightarrow> train_rng \<Rightarrow> (int \<Rightarrow> rng) \<Rightarrow> (nat \<Rightarrow> noise) \<Rightarrow> string \<Rightarrow> int \<Rightarrow> int \<Rightarrow> nat \<Rightarrow> rollout \<Rightarrow>
   (py_error + rollout) option" where
  "fill_rollouts fuel tg py nz family n limit wanted ro =
     (if wanted \<le> rb_size (ro_buf ro) then Some (Inr ro)
      else
        (case fuel of
           0 \<Rightarrow> None
         | Suc f \<Rightarrow>
             (case rollout_turn tg py nz family n limit ro of
                Inl e \<Rightarrow> Some (Inl e)
              | Inr ro' \<Rightarrow> fill_rollouts f tg py nz family n limit wanted ro')))"

definition collect_sim_rollouts ::
  "train_rng \<Rightarrow> (int \<Rightarrow> rng) \<Rightarrow> (nat \<Rightarrow> noise) \<Rightarrow> nat \<Rightarrow> string \<Rightarrow> int \<Rightarrow> nat \<Rightarrow> nat \<Rightarrow> string list option \<Rightarrow>
   real list option \<Rightarrow> (py_error + replay) option" where
  "collect_sim_rollouts tg py nz n_transitions family n_jobs n g types rams =
     (let cfg = plain_env n g (nat (n_jobs * 100)) types rams; (obs_dim, n_actions) = env_dims n g TOP_K False in
      case make_env cfg of
        Inl e \<Rightarrow> Some (Inl e)
      | Inr en \<Rightarrow>
          (case rollout_reset tg py family n_jobs (int (n * g))
                  \<lparr>ro_env = en, ro_obs = [], ro_buf = new_replay n_transitions obs_dim n_actions, ro_drawn = 0,
                   ro_episodes = 0\<rparr> of
             Inl e \<Rightarrow> Some (Inl e)
           | Inr ro \<Rightarrow>
               (case fill_rollouts n_transitions tg py nz family n_jobs (int (n * g)) n_transitions ro of
                  None \<Rightarrow> None
                | Some (Inl e) \<Rightarrow> Some (Inl e)
                | Some (Inr ro') \<Rightarrow> Some (Inr (ro_buf ro')))))"

section \<open>Live traces replayed with the score heuristic\<close>

definition demo_value :: "gym_state \<Rightarrow> job \<Rightarrow> nat \<Rightarrow> nat \<Rightarrow> real" where
  "demo_value s j node_j gpu_k =
     (let c = gs_cluster s;
          residual = free_mps (gpus (nodes c ! node_j) ! gpu_k) - mps_req j;
          placement_fit = 1 - max 0 (of_int residual) / of_int (max 1 (mps_per_gpu c))
      in score score_defaults j c + 5 / 100 * placement_fit)"

definition demo_candidates :: "env_cfg \<Rightarrow> gym_state \<Rightarrow> (real \<times> nat) list" where
  "demo_candidates cfg s =
     (let mk = action_mask cfg s; tk = top_k_jobs cfg s in
      map (\<lambda>(job_i, node_j, gpu_k). (demo_value s (tk ! job_i) node_j gpu_k,
             job_i * n_placements cfg + node_j * ec_gpus cfg + gpu_k))
        (filter (\<lambda>(job_i, node_j, gpu_k).
             (let a = job_i * n_placements cfg + node_j * ec_gpus cfg + gpu_k in a < length mk \<and> mk ! a))
          (concat (map (\<lambda>job_i. concat (map (\<lambda>node_j. map (\<lambda>gpu_k. (job_i, node_j, gpu_k)) [0..<ec_gpus cfg])
             [0..<ec_nodes cfg])) [0..<length tk]))))"

fun better :: "(real \<times> nat) option \<Rightarrow> real \<times> nat \<Rightarrow> (real \<times> nat) option" where
  "better None c = Some c"
| "better (Some b) c = (if fst b < fst c then Some c else Some b)"

definition score_demo_action :: "env_cfg \<Rightarrow> gym_state \<Rightarrow> nat" where
  "score_demo_action cfg s =
     (case foldl better None (demo_candidates cfg s) of None \<Rightarrow> no_op cfg | Some b \<Rightarrow> snd b)"

text \<open>An environment without a state fails the assertion; it is never met after a reset.\<close>

fun replay_trace ::
  "nat \<Rightarrow> noise \<Rightarrow> bool \<Rightarrow> env \<Rightarrow> real list \<Rightarrow> replay \<Rightarrow> (py_error + replay) option" where
  "replay_trace fuel nz dn en obs b =
     (if dn \<or> rb_capacity b \<le> rb_size b then Some (Inr b)
      else
        (case fuel of
           0 \<Rightarrow> None
         | Suc f \<Rightarrow>
             (case en_state en of
                None \<Rightarrow> Some (Inl RuntimeError)
              | Some s \<Rightarrow>
                  (let mk = mask_of en; act = score_demo_action (en_cfg en) s in
                   case step nz act en of
                     Inl e \<Rightarrow> Some (Inl e)
                   | Inr (res, en') \<Rightarrow>
                       (let dn' = (sr_terminated res \<or> sr_truncated res) in
                        case add_transition b \<lparr>tn_obs = obs, tn_act = int act, tn_rew = sr_reward res,
                               tn_next_obs = sr_obs res, tn_done = dn', tn_mask = Some mk,
                               tn_next_mask = Some (mask_of en')\<rparr> of
                          Inl e \<Rightarrow> Some (Inl e)
                        | Inr b' \<Rightarrow> replay_trace f nz dn' en' (sr_obs res) b')))))"

definition trace_rollout ::
  "noise \<Rightarrow> nat \<Rightarrow> nat \<Rightarrow> job list \<Rightarrow> replay \<Rightarrow> (py_error + replay) option" where
  "trace_rollout nz n g jobs b =
     (let max_steps = max 1000 (length jobs * 200) in
      case make_env (plain_env n g max_steps None None) of
        Inl e \<Rightarrow> Some (Inl e)
      | Inr en \<Rightarrow>
          if env_dims n g TOP_K False \<noteq> (rb_obs_dim b, rb_n_actions b) then Some (Inl ValueError)
          else
            (case reset_env None jobs en of
               Inl e \<Rightarrow> Some (Inl e)
             | Inr (obs, en') \<Rightarrow> replay_trace max_steps nz False en' obs b))"

fun load_traces ::
  "clock_parsers \<Rightarrow> rng \<Rightarrow> (nat \<Rightarrow> noise) \<Rightarrow> nat \<Rightarrow> nat \<Rightarrow> int \<Rightarrow> json list \<Rightarrow> replay \<Rightarrow> (py_error + replay) option" where
  "load_traces cp py nz n g n_jobs [] b = Some (Inr b)"
| "load_traces cp py nz n g n_jobs (raw # raws) b =
     (case fst (load_auto cp py None (3 / 10) raw 0) of
        Inl e \<Rightarrow> Some (Inl e)
      | Inr all_jobs \<Rightarrow>
          (let jobs = (if 0 < n_jobs then take (nat n_jobs) all_jobs else all_jobs) in
           if jobs = [] then load_traces cp py nz n g n_jobs raws b
           else
             (case trace_rollout (nz (length raws)) n g jobs b of
                None \<Rightarrow> None
              | Some (Inl e) \<Rightarrow> Some (Inl e)
              | Some (Inr b') \<Rightarrow>
                  if rb_capacity b' \<le> rb_size b' then Some (Inr b')
                  else load_traces cp py nz n g n_jobs raws b')))"

definition load_live_trace_rollouts ::
  "clock_parsers \<Rightarrow> rng \<Rightarrow> (nat \<Rightarrow> noise) \<Rightarrow> json list \<Rightarrow> nat \<Rightarrow> nat \<Rightarrow> nat \<Rightarrow> nat \<Rightarrow> nat \<Rightarrow> int \<Rightarrow>
   (py_error + replay) option" where
  \<comment> \<open>the documents of the files that match\<close>
  "load_live_trace_rollouts cp py nz raws obs_dim n_actions capacity n g n_jobs =
     load_traces cp py nz n g n_jobs raws (new_replay capacity obs_dim n_actions)"

section \<open>The live collector's log\<close>

text \<open>\<^verbatim>\<open>np.asarray\<close> of a list of numbers, and of a list of truth values; other shapes are refused here.\<close>

definition as_vector :: "json \<Rightarrow> py_error + real list" where
  "as_vector j = (case j of JList xs \<Rightarrow> res_map py_float xs | _ \<Rightarrow> Inl ValueError)"

definition as_flags :: "json \<Rightarrow> py_error + bool list" where
  "as_flags j = (case j of JList xs \<Rightarrow> Inr (map truthy xs) | _ \<Rightarrow> Inl ValueError)"

definition has_key :: "string \<Rightarrow> json \<Rightarrow> py_error + bool" where
  \<comment> \<open>\<^verbatim>\<open>key in row\<close>\<close>
  "has_key k j =
     (case j of JObj d \<Rightarrow> Inr (dict_has k d) | JList xs \<Rightarrow> Inr (JStr k \<in> set xs)
      | JStr s \<Rightarrow> Inr (str_contains k s) | _ \<Rightarrow> Inl TypeError)"

definition logged_row :: "nat \<Rightarrow> jobj \<Rightarrow> py_error + transition" where
  "logged_row n_actions d =
     res_bind (as_vector (j_get d ''obs'' JNull)) (\<lambda>obs.
     res_bind (py_int (j_get d ''act'' (JInt 0))) (\<lambda>act.
     res_bind (py_float (j_get d ''rew'' (JInt 0))) (\<lambda>rew.
     res_bind (as_vector (j_get d ''next_obs'' JNull)) (\<lambda>next_obs.
     res_bind (as_flags (j_get d ''mask'' (JList (replicate n_actions (JBool True))))) (\<lambda>mk.
       Inr \<lparr>tn_obs = obs, tn_act = act, tn_rew = rew, tn_next_obs = next_obs,
            tn_done = truthy (j_get d ''done'' (JBool False)), tn_mask = Some mk, tn_next_mask = None\<rparr>)))))"

definition add_logged :: "replay \<Rightarrow> json \<Rightarrow> py_error + replay" where
  "add_logged b row =
     res_bind (has_key ''obs'' row) (\<lambda>h1.
       if \<not> h1 then Inr b
       else
         res_bind (has_key ''next_obs'' row) (\<lambda>h2.
           if \<not> h2 then Inr b
           else
             (case row of
                JObj d \<Rightarrow> res_bind (logged_row (rb_n_actions b) d) (\<lambda>t. replay_add t (99 / 100) b)
              | _ \<Rightarrow> Inl TypeError)))"

fun load_log_lines :: "string list \<Rightarrow> replay \<Rightarrow> py_error + replay" where
  "load_log_lines [] b = Inr b"
| "load_log_lines (l # ls) b =
     (let line = str_strip l in
      if line = [] then load_log_lines ls b
      else
        (case json_loads line of
           Inl _ \<Rightarrow> load_log_lines ls b
         | Inr row \<Rightarrow> res_bind (add_logged b row) (load_log_lines ls)))"

definition load_live_shadow_log :: "string list \<Rightarrow> nat \<Rightarrow> nat \<Rightarrow> nat \<Rightarrow> py_error + replay" where
  \<comment> \<open>the lines of the files that match, one after another\<close>
  "load_live_shadow_log lines obs_dim n_actions capacity = load_log_lines lines (new_replay capacity obs_dim n_actions)"

section \<open>The online buffer and the fine-tuning loop\<close>

fun merge_rows :: "nat list \<Rightarrow> replay \<Rightarrow> replay \<Rightarrow> py_error + replay" where
  "merge_rows [] tr online = Inr online"
| "merge_rows (i # is) tr online =
     (if rb_capacity online \<le> rb_size online then Inr online
      else
        res_bind (replay_add \<lparr>tn_obs = rb_obs tr ! i, tn_act = rb_acts tr ! i, tn_rew = rb_rews tr ! i,
            tn_next_obs = rb_next_obs tr ! i, tn_done = rb_dones tr ! i, tn_mask = Some (rb_masks tr ! i),
            tn_next_mask = Some (rb_next_masks tr ! i)\<rparr> (rb_gammas tr ! i) online)
          (merge_rows is tr))"

definition merge_online :: "replay \<Rightarrow> replay \<Rightarrow> py_error + replay" where
  "merge_online tr online = merge_rows [0..<rb_size tr] tr online"

record rlpd_log =
  rg_update :: nat
  rg_online :: nat
  rg_offline :: nat

text \<open>The two draws of the \<open>k\<close>-th batch have the numbers \<open>2 * k\<close> and \<open>2 * k + 1\<close>.\<close>

fun utd_steps ::
  "nat \<Rightarrow> 'a learner \<Rightarrow> train_rng \<Rightarrow> nat \<Rightarrow> replay \<Rightarrow> replay \<Rightarrow> int \<Rightarrow> real \<Rightarrow> 'a \<Rightarrow> py_error + 'a" where
  "utd_steps 0 lrn tg k offline online batch_size online_ratio a = Inr a"
| "utd_steps (Suc m) lrn tg k offline online batch_size online_ratio a =
     res_bind (mixed_batch offline online batch_size online_ratio (tg_draw tg (2 * k)) (tg_draw tg (2 * k + 1))) (\<lambda>bt.
       utd_steps m lrn tg (k + 1) offline online batch_size online_ratio (snd (ln_update lrn a bt None)))"

fun rlpd_updates ::
  "nat list \<Rightarrow> nat \<Rightarrow> 'a learner \<Rightarrow> train_rng \<Rightarrow> replay \<Rightarrow> replay \<Rightarrow> int \<Rightarrow> real \<Rightarrow> 'a \<times> rlpd_log list \<Rightarrow>
   py_error + ('a \<times> rlpd_log list)" where
  "rlpd_updates [] utd lrn tg offline online batch_size online_ratio x = Inr x"
| "rlpd_updates (u # us) utd lrn tg offline online batch_size online_ratio (a, logged) =
     res_bind (utd_steps utd lrn tg (u * utd) offline online batch_size online_ratio a) (\<lambda>a'.
       rlpd_updates us utd lrn tg offline online batch_size online_ratio
         (a', logged @ [\<lparr>rg_update = u, rg_online = rb_size online, rg_offline = rb_size offline\<rparr>]))"

text \<open>One greedy episode: the average completion time it reports at its end, if any job has finished.\<close>

fun greedy_episode ::
  "nat \<Rightarrow> 'a learner \<Rightarrow> noise \<Rightarrow> env \<Rightarrow> real list \<Rightarrow> 'a \<Rightarrow> (py_error + (real option \<times> 'a)) option" where
  "greedy_episode 0 lrn nz en obs a = None"
| "greedy_episode (Suc f) lrn nz en obs a =
     (case ln_select lrn a obs (mask_of en) of
        (act, a') \<Rightarrow>
          (case step nz act en of
             Inl e \<Rightarrow> Some (Inl e)
           | Inr (res, en') \<Rightarrow>
               if sr_terminated res \<or> sr_truncated res then Some (Inr (sr_avg_jct res, a'))
               else greedy_episode f lrn nz en' (sr_obs res) a'))"

definition eval_seed ::
  "'a learner \<Rightarrow> (int \<Rightarrow> rng) \<Rightarrow> (nat \<Rightarrow> noise) \<Rightarrow> string \<Rightarrow> int \<Rightarrow> nat \<Rightarrow> nat \<Rightarrow> string list option \<Rightarrow> real list option \<Rightarrow>
   nat \<Rightarrow> 'a \<Rightarrow> (py_error + ((real option \<times> real) \<times> 'a)) option" where
  \<comment> \<open>the agent's episode and the score baseline on one trace\<close>
  "eval_seed lrn py nz family n_jobs n g types rams seed a =
     (case make_env (plain_env n g (nat (n_jobs * 200)) types rams) of
        Inl e \<Rightarrow> Some (Inl e)
      | Inr en \<Rightarrow>
          (case family_trace py family n_jobs (int (n * g)) (int seed) of
             Inl e \<Rightarrow> Some (Inl e)
           | Inr jobs \<Rightarrow>
               (case reset_env None jobs en of
                  Inl e \<Rightarrow> Some (Inl e)
                | Inr (obs, en') \<Rightarrow>
                    (case greedy_episode (nat (n_jobs * 200) + 1) lrn (nz seed) en' obs a of
                       None \<Rightarrow> None
                     | Some (Inl e) \<Rightarrow> Some (Inl e)
                     | Some (Inr (dsac, a')) \<Rightarrow>
                         (case run_named jobs n g MPS_PER_GPU ''score'' 0 of
                            Inl e \<Rightarrow> Some (Inl e)
                          | Inr (m, _) \<Rightarrow>
                              (case summary_of m of
                                 None \<Rightarrow> Some (Inl KeyError)
                               | Some sm \<Rightarrow> Some (Inr ((dsac, sum_jct_mean sm), a'))))))))"

fun eval_seeds ::
  "(nat \<Rightarrow> 'a \<Rightarrow> (py_error + ((real option \<times> real) \<times> 'a)) option) \<Rightarrow> nat list \<Rightarrow> 'a \<Rightarrow>
   (py_error + (real option \<times> real) list) option" where
  "eval_seeds ev [] a = Some (Inr [])"
| "eval_seeds ev (s # ss) a =
     (case ev s a of
        None \<Rightarrow> None
      | Some (Inl e) \<Rightarrow> Some (Inl e)
      | Some (Inr (x, a')) \<Rightarrow>
          (case eval_seeds ev ss a' of
             None \<Rightarrow> None
           | Some (Inl e) \<Rightarrow> Some (Inl e)
           | Some (Inr xs) \<Rightarrow> Some (Inr (x # xs))))"

definition rlpd_train ::
  "'a learner \<Rightarrow> train_rng \<Rightarrow> (int \<Rightarrow> rng) \<Rightarrow> (nat \<Rightarrow> noise) \<Rightarrow> replay \<Rightarrow> replay \<Rightarrow> nat \<Rightarrow> nat \<Rightarrow> int \<Rightarrow> real \<Rightarrow> string \<Rightarrow> int \<Rightarrow>
   nat \<Rightarrow> nat \<Rightarrow> string list option \<Rightarrow> real list option \<Rightarrow> 'a \<Rightarrow>
   (py_error + ('a \<times> rlpd_log list \<times> (real option \<times> real) list)) option" where
  "rlpd_train lrn tg py nz offline online n_updates utd batch_size online_ratio family n_jobs n g types rams a =
     (case rlpd_updates [0..<n_updates] utd lrn tg offline online batch_size online_ratio (a, []) of
        Inl e \<Rightarrow> Some (Inl e)
      | Inr (a', logged) \<Rightarrow>
          (case eval_seeds (eval_seed lrn py nz family n_jobs n g types rams) [42, 43, 44] a' of
             None \<Rightarrow> None
           | Some (Inl e) \<Rightarrow> Some (Inl e)
           | Some (Inr xs) \<Rightarrow> Some (Inr (a', logged, xs))))"

end
