(* ===== verification/RlCollectFacts.thy ===== *)
theory RlCollectFacts
  imports RlCollect RlTrainFacts
begin

text \<open>
  Facts about the sources of transitions: the score demonstration is a legal action of the greatest
  value, random rollouts fill the buffer and replayed traces end, with well-formed rows only; what
  the loader keeps of the collector's log; and what a mixed batch is made of.
\<close>

section \<open>The score demonstration\<close>

lemma foldl_better:
  "foldl better b cs = None \<longleftrightarrow> b = None \<and> cs = []"
  "foldl better b cs = Some m \<Longrightarrow> (m \<in> set cs \<or> b = Some m) \<and> (\<forall>c \<in> set cs. fst c \<le> fst m) \<and> (\<forall>c. b = Some c \<longrightarrow> fst c \<le> fst m)"
proof -
  show "foldl better b cs = None \<longleftrightarrow> b = None \<and> cs = []"
  proof (induction cs arbitrary: b)
    case (Cons c cs)
    have "better b c \<noteq> None"
      by (cases b) simp_all
    with Cons show ?case
      by simp
  qed simp
  show "foldl better b cs = Some m \<Longrightarrow> (m \<in> set cs \<or> b = Some m) \<and> (\<forall>c \<in> set cs. fst c \<le> fst m) \<and> (\<forall>c. b = Some c \<longrightarrow> fst c \<le> fst m)"
  proof (induction cs arbitrary: b)
    case (Cons c cs)
    have "foldl better (better b c) cs = Some m"
      using Cons.prems by simp
    note ih = Cons.IH [OF this]
    show ?case
    proof (cases b)
      case None
      with ih show ?thesis
        by auto
    next
      case (Some b0)
      then have "better b c = Some c \<and> fst b0 < fst c \<or> better b c = Some b0 \<and> fst c \<le> fst b0"
        by auto
      with ih Some show ?thesis
        by (elim disjE conjE) simp_all
    qed
  qed simp
qed

lemma demo_candidate_legal:
  assumes "(v, a) \<in> set (demo_candidates cfg s)"
  shows "a < length (action_mask cfg s) \<and> action_mask cfg s ! a"
  using assms by (auto simp: demo_candidates_def Let_def)

lemma demo_action_legal: "score_demo_action cfg s < length (action_mask cfg s) \<and> action_mask cfg s ! score_demo_action cfg s"
proof (cases "foldl better None (demo_candidates cfg s)")
  case None
  then show ?thesis
    by (simp add: score_demo_action_def mask_has_noop)
next
  case (Some m)
  with foldl_better(2) [OF Some] have "m \<in> set (demo_candidates cfg s)"
    by simp
  then show ?thesis
    using Some demo_candidate_legal [of "fst m" "snd m" cfg s] by (simp add: score_demo_action_def)
qed

section \<open>An environment in use\<close>

definition env_ready :: "env_cfg \<Rightarrow> env \<Rightarrow> bool" where
  "env_ready cfg en \<longleftrightarrow> en_cfg en = cfg \<and>
     (\<exists>jobs c s. en_state en = Some s \<and> gym_jobs_ok jobs \<and> gym_inv jobs c s \<and> 0 \<le> mps_per_gpu c)"

definition dims_of :: "env_cfg \<Rightarrow> nat \<times> nat" where
  "dims_of cfg = env_dims (ec_nodes cfg) (ec_gpus cfg) (ec_top_k cfg) (ec_colocation cfg)"

lemma dims_sel: "fst (dims_of cfg) = length (build_obs cfg s)" "snd (dims_of cfg) = n_act cfg"
  by (simp_all add: dims_of_def length_build_obs env_dims_def n_act_def n_modes_def)

lemma ready_mask:
  assumes "env_ready cfg en"
  shows "length (mask_of en) = snd (dims_of cfg)" "mask_of en ! no_op cfg" "no_op cfg < length (mask_of en)"
  using assms mask_has_noop [of cfg] by (auto simp: env_ready_def mask_of_def dims_sel)

lemma ready_step:
  assumes "env_ready cfg en"
  obtains res en' where "step nz act en = Inr (res, en')" "env_ready cfg en'" "length (sr_obs res) = fst (dims_of cfg)"
    "en_steps en' = en_steps en + 1" "sr_truncated res \<longleftrightarrow> ec_max_steps cfg \<le> en_steps en'"
proof -
  obtain jobs c s where s: "en_state en = Some s" "gym_jobs_ok jobs" "gym_inv jobs c s" "0 \<le> mps_per_gpu c" "en_cfg en = cfg"
    using assms by (auto simp: env_ready_def)
  obtain res en' s' where "step nz act en = Inr (res, en')" "en_state en' = Some s'" "en_cfg en' = cfg"
      "en_steps en' = en_steps en + 1" "gym_inv jobs c s'" "sr_truncated res \<longleftrightarrow> ec_max_steps cfg \<le> en_steps en'"
      "sr_obs res = build_obs cfg s'"
    using step_cases [OF s(2,1,3,4), of nz act] unfolding s(5) by metis
  then show ?thesis
    using that s(2,4) dims_sel(1) [of cfg s'] by (auto simp: env_ready_def)
qed

text \<open>The given card types and memories cover the nodes.\<close>

definition plain_ok :: "nat \<Rightarrow> string list option \<Rightarrow> real list option \<Rightarrow> bool" where
  "plain_ok n types rams \<longleftrightarrow> (\<forall>xs. types = Some xs \<longrightarrow> xs = [] \<or> n \<le> length xs) \<and>
     (\<forall>xs. rams = Some xs \<longrightarrow> (xs = [] \<or> n \<le> length xs) \<and> (\<forall>r \<in> set xs. 0 \<le> r))"

definition used_env :: "nat \<Rightarrow> nat \<Rightarrow> nat \<Rightarrow> string list option \<Rightarrow> real list option \<Rightarrow> env_cfg" where
  "used_env n g m types rams = plain_env n g m (none_if_empty types) (none_if_empty rams)"

lemma plain_env_made: "\<exists>en. make_env (plain_env n g m types rams) = Inr en \<and> en_cfg en = used_env n g m types rams"
  by (simp add: make_env_def plain_env_def used_env_def none_if_empty_def)

lemma used_dims [simp]: "dims_of (used_env n g m types rams) = env_dims n g TOP_K False"
  by (simp add: dims_of_def used_env_def plain_env_def)

lemma ready_reset:
  assumes "plain_ok n types rams" "en_cfg en = used_env n g m types rams" "gym_jobs_ok jobs"
  obtains obs en' where "reset_env seed jobs en = Inr (obs, en')" "env_ready (used_env n g m types rams) en'"
    "length obs = fst (env_dims n g TOP_K False)" "en_steps en' = 0"
proof -
  let ?cfg = "used_env n g m types rams"
  have sel: "ec_nodes ?cfg = n" "ec_gpus ?cfg = g" "ec_cap ?cfg = 100" "ec_speeds ?cfg = None"
    "ec_gpu_types ?cfg = none_if_empty types" "ec_rams ?cfg = none_if_empty rams" "ec_overcommit ?cfg = 1"
    by (simp_all add: used_env_def plain_env_def MPS_PER_GPU_def)
  have len: "n \<le> length (or_default (none_if_empty types) n ''rtx4070'')"
    "n \<le> length (or_default (none_if_empty rams) n 1000000000)"
    using assms(1) by (auto simp: plain_ok_def or_default_def none_if_empty_def split: option.splits)
  then obtain c where c: "make_cluster (ec_nodes ?cfg) (ec_gpus ?cfg) (ec_cap ?cfg) (ec_speeds ?cfg) (ec_gpu_types ?cfg)
      (ec_rams ?cfg) (ec_overcommit ?cfg) = Inr c"
    unfolding sel make_cluster_def by (simp add: or_default_def [of None] Let_def not_less)
  have pre: "0 \<le> ec_cap ?cfg" "0 \<le> ec_overcommit ?cfg"
    "\<forall>r \<in> set (or_default (ec_rams ?cfg) (ec_nodes ?cfg) 1000000000). 0 \<le> r"
    using assms(1) unfolding sel by (auto simp: plain_ok_def or_default_def none_if_empty_def split: option.splits if_splits)
  obtain s en' where "reset_env seed jobs en = Inr (build_obs ?cfg s, en')" "en_state en' = Some s" "en_cfg en' = ?cfg"
      "en_steps en' = 0" "gym_inv jobs c s" "0 \<le> mps_per_gpu c"
    using reset_env_ok [OF c assms(2,3) pre, of seed] by blast
  then show ?thesis
    using that assms(3) dims_sel(1) [of ?cfg s] by (auto simp: env_ready_def)
qed

lemma family_trace_ok:
  assumes "\<forall>s. rng_ok (py s)" "default_args family n \<noteq> None" "0 \<le> n"
  shows "\<exists>jobs. family_trace py family n limit seed = Inr jobs \<and> gym_jobs_ok jobs"
proof -
  obtain args where "default_args family n = Some args"
    using assms(2) by blast
  from default_trace_jobs [OF this assms(3), of "py seed" limit] this assms(1) show ?thesis
    by (auto simp: family_trace_def)
qed

section \<open>Rollouts\<close>

text \<open>A buffer whose rows have the given dimensions and only actions their mask allows.\<close>

definition rows_ok :: "nat \<times> nat \<Rightarrow> replay \<Rightarrow> bool" where
  "rows_ok dims b \<longleftrightarrow> ring_ok b \<and> ring_good (fst dims) (snd dims) b"

lemma rows_ok_new: "0 < c \<Longrightarrow> rows_ok (d, n) (new_replay c d n)"
  using new_ring [of c d n] by (simp add: rows_ok_def ring_good_def) (simp add: new_replay_def)

lemma rows_ok_add:
  assumes "rows_ok dims b" "tr_good (fst dims) (snd dims) t"
  shows "\<exists>b'. replay_add t g b = Inr b' \<and> rows_ok dims b' \<and> rb_capacity b' = rb_capacity b \<and>
    rb_size b' = min (rb_size b + 1) (rb_capacity b)"
proof -
  have "fits (rb_obs_dim b) (rb_n_actions b) t"
    using assms tr_good_fits by (simp add: rows_ok_def ring_good_def)
  then obtain b' where b': "replay_add t g b = Inr b'" "ring_ok b'" "same_shape b b'"
      "rb_size b' = min (rb_size b + 1) (rb_capacity b)"
      "contents b' = drop (rb_size b + 1 - rb_capacity b) (contents b) @ [row_of b t g]"
    using replay_add_appends [of b t g] assms(1) by (auto simp: rows_ok_def)
  then show ?thesis
    using ring_good_append [OF _ assms(2) b'(3,5)] assms(1) by (auto simp: rows_ok_def same_shape_def)
qed

text \<open>A transition of one step of an environment in use.\<close>

lemma step_row:
  assumes "env_ready cfg en" "step nz act en = Inr (res, en')" "env_ready cfg en'" "length obs = fst (dims_of cfg)"
    "length (sr_obs res) = fst (dims_of cfg)" "act < length (mask_of en)" "mask_of en ! act"
  shows "tr_good (fst (dims_of cfg)) (snd (dims_of cfg)) \<lparr>tn_obs = obs, tn_act = int act, tn_rew = r, tn_next_obs = sr_obs res,
    tn_done = dn, tn_mask = Some (mask_of en), tn_next_mask = Some (mask_of en')\<rparr>"
  using assms ready_mask(1) [OF assms(1)] ready_mask(1) [OF assms(3)] by (auto simp: tr_good_def)

lemma rollout_turn_ok:
  assumes "rng_lawful tg" "\<forall>s. rng_ok (py s)" "default_args family n_jobs \<noteq> None" "0 \<le> n_jobs" "plain_ok n types rams"
    "env_ready (used_env n g m types rams) (ro_env ro)" "length (ro_obs ro) = fst (env_dims n g TOP_K False)"
    "rows_ok (env_dims n g TOP_K False) (ro_buf ro)"
  shows "\<exists>ro'. rollout_turn tg py nz family n_jobs limit ro = Inr ro' \<and> env_ready (used_env n g m types rams) (ro_env ro') \<and>
    length (ro_obs ro') = fst (env_dims n g TOP_K False) \<and> rows_ok (env_dims n g TOP_K False) (ro_buf ro') \<and>
    rb_capacity (ro_buf ro') = rb_capacity (ro_buf ro) \<and>
    rb_size (ro_buf ro') = min (rb_size (ro_buf ro) + 1) (rb_capacity (ro_buf ro))"
proof -
  let ?cfg = "used_env n g m types rams" and ?mk = "mask_of (ro_env ro)"
  note rm = ready_mask [OF assms(6)]
  have legal: "flatnonzero ?mk \<noteq> []"
    using rm(2,3) set_flatnonzero [of ?mk] by (metis (mono_tags) empty_iff list.set(1) mem_Collect_eq)
  define act where "act = tg_choice tg (ro_drawn ro) (flatnonzero ?mk)"
  have act: "act < length ?mk" "?mk ! act"
    using assms(1) legal set_flatnonzero [of ?mk] unfolding rng_lawful_def act_def by (metis (mono_tags) mem_Collect_eq)+
  obtain res en where st: "step (nz (ro_episodes ro)) act (ro_env ro) = Inr (res, en)" "env_ready ?cfg en"
      "length (sr_obs res) = fst (dims_of ?cfg)"
    by (rule ready_step [OF assms(6), of "nz (ro_episodes ro)" act])
  let ?dn = "sr_terminated res \<or> sr_truncated res"
  let ?t = "\<lparr>tn_obs = ro_obs ro, tn_act = int act, tn_rew = sr_reward res, tn_next_obs = sr_obs res, tn_done = ?dn,
    tn_mask = Some ?mk, tn_next_mask = Some (mask_of en)\<rparr>"
  have t: "tr_good (fst (env_dims n g TOP_K False)) (snd (env_dims n g TOP_K False)) ?t"
    using step_row [OF assms(6) st(1,2) _ st(3) act] assms(7) by simp
  obtain b where b: "replay_add ?t (99 / 100) (ro_buf ro) = Inr b" "rows_ok (env_dims n g TOP_K False) b"
      "rb_capacity b = rb_capacity (ro_buf ro)" "rb_size b = min (rb_size (ro_buf ro) + 1) (rb_capacity (ro_buf ro))"
    using rows_ok_add [OF assms(8) t] by blast
  let ?ro = "ro\<lparr>ro_env := en, ro_obs := sr_obs res, ro_buf := b, ro_drawn := ro_drawn ro + 1\<rparr>"
  have turn: "rollout_turn tg py nz family n_jobs limit ro =
      (if ?dn then rollout_reset tg py family n_jobs limit ?ro else Inr ?ro)"
    using legal st(1) b(1) by (simp add: rollout_turn_def Let_def act_def)
  show ?thesis
  proof (cases ?dn)
    case True
    obtain jobs where jobs: "family_trace py family n_jobs limit (int (tg_int tg (ro_drawn ro + 1) (2 ^ 31 - 1))) = Inr jobs"
        "gym_jobs_ok jobs"
      using family_trace_ok [OF assms(2-4)] by blast
    obtain obs en' where "reset_env None jobs en = Inr (obs, en')" "env_ready ?cfg en'"
        "length obs = fst (env_dims n g TOP_K False)"
      by (rule ready_reset [OF assms(5) _ jobs(2), of en g m None]) (use st(2) in \<open>simp_all add: env_ready_def\<close>)
    with jobs(1) b True show ?thesis
      unfolding turn by (auto simp: rollout_reset_def)
  next
    case False
    with st(2,3) b show ?thesis
      unfolding turn by simp
  qed
qed

lemma fill_rollouts_ok:
  assumes "rng_lawful tg" "\<forall>s. rng_ok (py s)" "default_args family n_jobs \<noteq> None" "0 \<le> n_jobs" "plain_ok n types rams"
    "env_ready (used_env n g m types rams) (ro_env ro)" "length (ro_obs ro) = fst (env_dims n g TOP_K False)"
    "rows_ok (env_dims n g TOP_K False) (ro_buf ro)" "wanted \<le> rb_size (ro_buf ro) + fuel" "rb_capacity (ro_buf ro) = wanted"
  shows "\<exists>ro'. fill_rollouts fuel tg py nz family n_jobs limit wanted ro = Some (Inr ro') \<and>
    rb_size (ro_buf ro') = wanted \<and> rows_ok (env_dims n g TOP_K False) (ro_buf ro')"
  using assms(6-)
proof (induction fuel arbitrary: ro)
  case 0
  then show ?case
    by (auto simp: rows_ok_def ring_ok_def)
next
  case (Suc fuel)
  show ?case
  proof (cases "wanted \<le> rb_size (ro_buf ro)")
    case True
    with Suc.prems show ?thesis
      by (auto simp: rows_ok_def ring_ok_def)
  next
    case False
    obtain ro' where ro': "rollout_turn tg py nz family n_jobs limit ro = Inr ro'"
        "env_ready (used_env n g m types rams) (ro_env ro')" "length (ro_obs ro') = fst (env_dims n g TOP_K False)"
        "rows_ok (env_dims n g TOP_K False) (ro_buf ro')" "rb_capacity (ro_buf ro') = rb_capacity (ro_buf ro)"
        "rb_size (ro_buf ro') = min (rb_size (ro_buf ro) + 1) (rb_capacity (ro_buf ro))"
      using rollout_turn_ok [OF assms(1-5) Suc.prems(1-3)] by blast
    with Suc.IH [OF ro'(2-4)] Suc.prems(4,5) False show ?thesis
      by simp
  qed
qed

end
