(* ===== verification/CollectProps.thy ===== *)
theory CollectProps
  imports RlCollectFacts LearnProps SimTraceFacts
begin

text \<open>
  The properties of the sources of transitions: random rollouts fill the offline buffer, replayed
  traces end, the loader keeps of the collector's log all but the next mask, and a mixed batch has
  its share of live rows.
\<close>

section \<open>Random rollouts\<close>

text \<open>C21. Collecting random rollouts returns: for every lawful generator, known family and cluster whose
  card types and memories cover its nodes, within as many steps as transitions are wanted, the
  offline buffer is full, and each of its rows has vectors of the right sizes and an action the
  row's mask allows.\<close>

theorem rollouts_fill_buffer:
  assumes "rng_lawful tg" "\<forall>s. rng_ok (py s)" "default_args family n_jobs \<noteq> None" "0 \<le> n_jobs" "plain_ok n types rams"
    "0 < wanted"
  shows "\<exists>b. collect_sim_rollouts tg py nz wanted family n_jobs n g types rams = Some (Inr b) \<and> rb_size b = wanted \<and>
    list_all (row_good (fst (env_dims n g TOP_K False)) (snd (env_dims n g TOP_K False))) (contents b)"
proof -
  obtain d a where dims: "env_dims n g TOP_K False = (d, a)"
    by fastforce
  obtain en where en: "make_env (plain_env n g (nat (n_jobs * 100)) types rams) = Inr en"
      "en_cfg en = used_env n g (nat (n_jobs * 100)) types rams"
    using plain_env_made by blast
  let ?ro = "\<lparr>ro_env = en, ro_obs = [], ro_buf = new_replay wanted d a, ro_drawn = 0, ro_episodes = 0\<rparr>"
  obtain jobs where jobs: "family_trace py family n_jobs (int (n * g)) (int (tg_int tg 0 (2 ^ 31 - 1))) = Inr jobs" "gym_jobs_ok jobs"
    using family_trace_ok [OF assms(2-4)] by blast
  obtain obs en' where r: "reset_env None jobs en = Inr (obs, en')" "env_ready (used_env n g (nat (n_jobs * 100)) types rams) en'"
      "length obs = fst (env_dims n g TOP_K False)"
    by (rule ready_reset [OF assms(5) en(2) jobs(2), of None])
  let ?ro' = "?ro\<lparr>ro_env := en', ro_obs := obs, ro_drawn := 1, ro_episodes := 1\<rparr>"
  have reset: "rollout_reset tg py family n_jobs (int (n * g)) ?ro = Inr ?ro'"
    using jobs(1) r(1) by (simp add: rollout_reset_def)
  have buf: "rows_ok (env_dims n g TOP_K False) (new_replay wanted d a)" "rb_capacity (new_replay wanted d a) = wanted"
    using rows_ok_new [OF assms(6)] by (simp_all add: dims) (simp add: new_replay_def)
  obtain ro where "fill_rollouts wanted tg py nz family n_jobs (int (n * g)) wanted ?ro' = Some (Inr ro)"
      "rb_size (ro_buf ro) = wanted" "rows_ok (env_dims n g TOP_K False) (ro_buf ro)"
    using fill_rollouts_ok [OF assms(1-5), of g _ ?ro' wanted wanted nz "int (n * g)"] r(2,3) buf by auto
  then show ?thesis
    using en(1) reset by (auto simp: collect_sim_rollouts_def dims Let_def rows_ok_def ring_good_def)
qed

theorem rollouts_fill_buffer_witness:
  "\<exists>b. collect_sim_rollouts demo_train_rng (\<lambda>_. demo_rng) (\<lambda>_. no_noise) 5 ''ali'' 3 2 1 (Some [''rtx4070'', ''rtx3080'']) (Some [62, 5]) =
     Some (Inr b) \<and> rb_size b = 5"
proof -
  have "plain_ok 2 (Some [''rtx4070'', ''rtx3080'']) (Some [62, 5])"
    by (simp add: plain_ok_def)
  from rollouts_fill_buffer [OF demo_lawful(1) _ _ _ this, of "\<lambda>_. demo_rng" "''ali''" 3 5 "\<lambda>_. no_noise" 1] demo_rng_ok
  show ?thesis
    by (auto simp: default_args_def)
qed

section \<open>Live traces\<close>

lemma replay_trace_ok:
  assumes "env_ready (used_env n g m types rams) en" "length obs = fst (env_dims n g TOP_K False)"
    "rows_ok (env_dims n g TOP_K False) b" "dn \<or> (m \<le> en_steps en + fuel \<and> 0 < fuel)"
  shows "\<exists>b'. replay_trace fuel nz dn en obs b = Some (Inr b') \<and> rows_ok (env_dims n g TOP_K False) b' \<and>
    rb_capacity b' = rb_capacity b"
  using assms
proof (induction fuel arbitrary: dn en obs b)
  case (Suc fuel)
  let ?cfg = "used_env n g m types rams"
  show ?case
  proof (cases "dn \<or> rb_capacity b \<le> rb_size b")
    case False
    obtain s where s: "en_state en = Some s" "en_cfg en = ?cfg"
      using Suc.prems(1) by (auto simp: env_ready_def)
    let ?a = "score_demo_action ?cfg s"
    have a: "?a < length (mask_of en)" "mask_of en ! ?a"
      using demo_action_legal [of ?cfg s] s by (simp_all add: mask_of_def)
    obtain res en' where st: "step nz ?a en = Inr (res, en')" "env_ready ?cfg en'" "length (sr_obs res) = fst (dims_of ?cfg)"
        "en_steps en' = en_steps en + 1" "sr_truncated res \<longleftrightarrow> ec_max_steps ?cfg \<le> en_steps en'"
      by (rule ready_step [OF Suc.prems(1), of nz ?a])
    let ?dn = "sr_terminated res \<or> sr_truncated res"
    let ?t = "\<lparr>tn_obs = obs, tn_act = int ?a, tn_rew = sr_reward res, tn_next_obs = sr_obs res, tn_done = ?dn,
      tn_mask = Some (mask_of en), tn_next_mask = Some (mask_of en')\<rparr>"
    have "tr_good (fst (env_dims n g TOP_K False)) (snd (env_dims n g TOP_K False)) ?t"
      using step_row [OF Suc.prems(1) st(1,2) _ st(3) a] Suc.prems(2) by simp
    then obtain b' where b': "add_transition b ?t = Inr b'" "rows_ok (env_dims n g TOP_K False) b'" "rb_capacity b' = rb_capacity b"
      using rows_ok_add [OF Suc.prems(3)] False by (auto simp: add_transition_def)
    have m: "ec_max_steps ?cfg = m"
      by (simp add: used_env_def plain_env_def)
    have "?dn \<or> (m \<le> en_steps en' + fuel \<and> 0 < fuel)"
      using Suc.prems(4) False st(4,5) m by auto
    from Suc.IH [OF st(2) _ b'(2) this] st(1,3) s b'(1,3) False show ?thesis
      by (simp add: Let_def)
  qed (use Suc.prems in simp)
qed simp

lemma trace_rollout_ok:
  assumes "gym_jobs_ok jobs" "rows_ok (env_dims n g TOP_K False) b"
  shows "\<exists>b'. trace_rollout nz n g jobs b = Some (Inr b') \<and> rows_ok (env_dims n g TOP_K False) b' \<and> rb_capacity b' = rb_capacity b"
proof -
  let ?m = "max 1000 (length jobs * 200)"
  obtain en where en: "make_env (plain_env n g ?m None None) = Inr en" "en_cfg en = used_env n g ?m None None"
    using plain_env_made by blast
  have dims: "env_dims n g TOP_K False = (rb_obs_dim b, rb_n_actions b)"
    using assms(2) by (simp add: rows_ok_def ring_good_def prod_eq_iff)
  have ok: "plain_ok n None None"
    by (simp add: plain_ok_def)
  obtain obs en' where r: "reset_env None jobs en = Inr (obs, en')" "env_ready (used_env n g ?m None None) en'"
      "length obs = fst (env_dims n g TOP_K False)" "en_steps en' = 0"
    by (rule ready_reset [OF ok en(2) assms(1), of None])
  have "False \<or> (?m \<le> en_steps en' + ?m \<and> 0 < ?m)"
    by simp
  from replay_trace_ok [OF r(2,3) assms(2) this, of nz] show ?thesis
    using en(1) dims r(1) by (simp add: trace_rollout_def Let_def)
qed

text \<open>A document whose loading gives jobs the simulator accepts, of which any first ones are taken.\<close>

definition doc_ok :: "clock_parsers \<Rightarrow> rng \<Rightarrow> json \<Rightarrow> bool" where
  "doc_ok cp py raw \<longleftrightarrow> (\<exists>jobs. fst (load_auto cp py None (3 / 10) raw 0) = Inr jobs \<and> gym_jobs_ok jobs)"

lemma gym_jobs_ok_take: "gym_jobs_ok jobs \<Longrightarrow> gym_jobs_ok (take k jobs)"
  by (auto simp: gym_jobs_ok_def take_map [symmetric] dest: in_set_takeD)

lemma load_traces_ok:
  assumes "list_all (doc_ok cp py) raws" "rows_ok (env_dims n g TOP_K False) b"
  shows "\<exists>b'. load_traces cp py nz n g n_jobs raws b = Some (Inr b') \<and> rows_ok (env_dims n g TOP_K False) b'"
  using assms
proof (induction raws arbitrary: b)
  case (Cons raw raws)
  obtain jobs where jobs: "fst (load_auto cp py None (3 / 10) raw 0) = Inr jobs" "gym_jobs_ok jobs"
    using Cons.prems(1) by (auto simp: doc_ok_def)
  define used where "used = (if 0 < n_jobs then take (nat n_jobs) jobs else jobs)"
  have "gym_jobs_ok used"
    using jobs(2) gym_jobs_ok_take by (simp add: used_def)
  from trace_rollout_ok [OF this Cons.prems(2), of "nz (length raws)"] obtain b' where
    "trace_rollout (nz (length raws)) n g used b = Some (Inr b')" "rows_ok (env_dims n g TOP_K False) b'"
    by blast
  with Cons.IH [of b] Cons.IH [of b'] Cons.prems jobs(1) show ?case
    by (simp add: used_def [symmetric] Let_def)
qed simp

text \<open>C22. Replaying live traces returns: whatever traces the converter has written, with distinct jobs the
  simulator accepts, each replay ends by the environment's step limit, and every row of the online
  buffer has vectors of the right sizes and the action of the score heuristic, which its mask allows.\<close>

theorem replayed_traces_end:
  assumes "list_all (\<lambda>jobs. gym_jobs_ok (map live_as_job jobs)) traces" "0 < capacity"
  shows "\<exists>b. load_live_trace_rollouts cp py nz (map (write_trace shown) traces) (fst (env_dims n g TOP_K False))
      (snd (env_dims n g TOP_K False)) capacity n g n_jobs = Some (Inr b) \<and>
    list_all (row_good (fst (env_dims n g TOP_K False)) (snd (env_dims n g TOP_K False))) (contents b)"
proof -
  have "list_all (doc_ok cp py) (map (write_trace shown) traces)"
    using assms(1) by (simp add: list_all_iff doc_ok_def load_live)
  moreover have "rows_ok (env_dims n g TOP_K False) (new_replay capacity (fst (env_dims n g TOP_K False)) (snd (env_dims n g TOP_K False)))"
    using rows_ok_new [OF assms(2), of "fst (env_dims n g TOP_K False)" "snd (env_dims n g TOP_K False)"] by simp
  ultimately show ?thesis
    using load_traces_ok [of cp py "map (write_trace shown) traces" n g _ nz n_jobs]
    by (auto simp: load_live_trace_rollouts_def rows_ok_def ring_good_def)
qed

definition demo_parsers :: clock_parsers where
  "demo_parsers = \<lparr>cp_iso = (\<lambda>_. None), cp_strp = (\<lambda>_. None), cp_strp_t = (\<lambda>_. None)\<rparr>"

definition demo_trace_job :: trace_job where
  "demo_trace_job = \<lparr>lj_id = ''7'', lj_user = ''ann'', lj_gpu_count = 1, lj_gpu_type = ''rtx4070'', lj_submit = 0,
     lj_runtime = 60, lj_mem = 0, lj_mps = 50, lj_start = 5, lj_end = Some 65, lj_wait = 5, lj_state = ''COMPLETED'',
     lj_partition = ''gpu'', lj_nodes = ''g0'', lj_alloc = [], lj_req = ''gres/mps=50'', lj_latency = ''train''\<rparr>"

theorem replayed_traces_end_witness:
  "\<exists>b. load_live_trace_rollouts demo_parsers demo_rng (\<lambda>_. no_noise) (map (write_trace (\<lambda>x. ''0.0'')) [[demo_trace_job]])
      (fst (env_dims 2 1 TOP_K False)) (snd (env_dims 2 1 TOP_K False)) 100 2 1 0 = Some (Inr b) \<and>
    list_all (row_good (fst (env_dims 2 1 TOP_K False)) (snd (env_dims 2 1 TOP_K False))) (contents b)"
proof -
  have "list_all (\<lambda>jobs. gym_jobs_ok (map live_as_job jobs)) [[demo_trace_job]]"
    by (simp add: gym_jobs_ok_def live_as_job_def demo_trace_job_def job_ok_def)
  from replayed_traces_end [OF this, of 100 demo_parsers demo_rng "\<lambda>_. no_noise" "\<lambda>x. ''0.0''" 2 1 0] show ?thesis
    by simp
qed

section \<open>The collector's log\<close>

text \<open>What the loader makes of a logged transition.\<close>

definition loaded_row :: "nat \<Rightarrow> live_transition \<Rightarrow> replay_row" where
  "loaded_row n t = \<lparr>rw_obs = lt_obs t, rw_act = int (lt_act t), rw_rew = lt_rew t, rw_next_obs = lt_next_obs t,
     rw_done = lt_done t, rw_mask = lt_mask t, rw_next_mask = replicate n True, rw_gamma = 99 / 100\<rparr>"

definition live_sized :: "nat \<Rightarrow> nat \<Rightarrow> live_transition \<Rightarrow> bool" where
  "live_sized d n t \<longleftrightarrow> length (lt_obs t) = d \<and> length (lt_next_obs t) = d \<and> length (lt_mask t) = n"

text \<open>A line whose text Python reads as the row of a logged transition.\<close>

definition line_of :: "(real \<Rightarrow> string) \<Rightarrow> string \<Rightarrow> live_transition \<Rightarrow> bool" where
  "line_of shown l t \<longleftrightarrow> str_strip l \<noteq> [] \<and> json_loads (str_strip l) = Inr (JObj (logged_json shown t))"

definition open_masks :: "replay \<Rightarrow> bool" where
  "open_masks b \<longleftrightarrow> rb_next_masks b = replicate (rb_capacity b) (replicate (rb_n_actions b) True)"

lemma res_map_total: "(\<And>x. f (g x) = Inr x) \<Longrightarrow> res_map f (map g xs) = Inr xs"
  by (induction xs) simp_all

lemma logged_row_reads:
  "logged_row n (logged_json shown t) = Inr \<lparr>tn_obs = lt_obs t, tn_act = int (lt_act t), tn_rew = lt_rew t,
     tn_next_obs = lt_next_obs t, tn_done = lt_done t, tn_mask = Some (lt_mask t), tn_next_mask = None\<rparr>"
  by (simp add: logged_row_def logged_json_def j_get_def as_vector_def as_flags_def py_int_def py_float_def Let_def dict_get_def
      res_map_total comp_def)

lemma add_logged_row:
  assumes "ring_ok b" "open_masks b" "live_sized (rb_obs_dim b) (rb_n_actions b) t"
  shows "\<exists>b'. add_logged b (JObj (logged_json shown t)) = Inr b' \<and> ring_ok b' \<and> open_masks b' \<and> same_shape b b' \<and>
    contents b' = last_n (rb_capacity b) (contents b @ [loaded_row (rb_n_actions b) t])"
proof -
  let ?t = "\<lparr>tn_obs = lt_obs t, tn_act = int (lt_act t), tn_rew = lt_rew t, tn_next_obs = lt_next_obs t,
    tn_done = lt_done t, tn_mask = Some (lt_mask t), tn_next_mask = None\<rparr>"
  have "fits (rb_obs_dim b) (rb_n_actions b) ?t"
    using assms(3) by (simp add: fits_def live_sized_def)
  from replay_add_appends [OF assms(1) this, of "99 / 100"] obtain b' where b': "replay_add ?t (99 / 100) b = Inr b'" "ring_ok b'"
      "same_shape b b'" "contents b' = drop (rb_size b + 1 - rb_capacity b) (contents b) @ [row_of b ?t (99 / 100)]"
    by blast
  have idx: "rb_idx b < rb_capacity b" "rb_size b \<le> rb_capacity b" "0 < rb_capacity b"
    using assms(1) by (auto simp: ring_ok_def)
  have "row_of b ?t (99 / 100) = loaded_row (rb_n_actions b) t"
    using assms(2) idx(1) by (simp add: row_of_def loaded_row_def opt_or_def open_masks_def)
  moreover have "rb_next_masks b' = rb_next_masks b"
    using b'(1) by (auto simp: replay_add_def store_def move_on_def opt_row_def res_bind_def Let_def split: sum.splits if_splits)
  moreover have "drop (rb_size b + 1 - rb_capacity b) (contents b) @ [r] = last_n (rb_capacity b) (contents b @ [r])" for r
    using idx length_contents [OF assms(1)] by (simp add: last_n_def)
  moreover have "add_logged b (JObj (logged_json shown t)) = replay_add ?t (99 / 100) b"
    by (simp add: add_logged_def has_key_def logged_row_reads) (simp add: logged_json_def dict_has_def Let_def)
  ultimately show ?thesis
    using b' assms(2) by (auto simp: open_masks_def same_shape_def)
qed

lemma load_log_rows:
  assumes "list_all2 (line_of shown) lines ts" "ring_ok b" "open_masks b" "list_all (live_sized (rb_obs_dim b) (rb_n_actions b)) ts"
  shows "\<exists>b'. load_log_lines lines b = Inr b' \<and>
    contents b' = last_n (rb_capacity b) (contents b @ map (loaded_row (rb_n_actions b)) ts)"
  using assms
proof (induction lines ts arbitrary: b rule: list_all2_induct)
  case Nil
  then show ?case
    by (auto simp: last_n_def length_contents ring_ok_def)
next
  case (Cons l lines t ts)
  obtain b1 where b1: "add_logged b (JObj (logged_json shown t)) = Inr b1" "ring_ok b1" "open_masks b1" "same_shape b b1"
      "contents b1 = last_n (rb_capacity b) (contents b @ [loaded_row (rb_n_actions b) t])"
    using add_logged_row [OF Cons.prems(1,2), of t shown] Cons.prems(3) by auto
  have "list_all (live_sized (rb_obs_dim b1) (rb_n_actions b1)) ts"
    using Cons.prems(3) b1(4) by (simp add: same_shape_def)
  from Cons.IH [OF b1(2,3) this] b1(1,4,5) Cons.hyps(1) show ?case
    using last_n_append [of "rb_capacity b" "contents b @ [loaded_row (rb_n_actions b) t]" "map (loaded_row (rb_n_actions b)) ts"]
    by (auto simp: line_of_def same_shape_def Let_def)
qed

text \<open>C23. The log the live collector writes comes back from the loader: of any number of logged
  transitions the online buffer holds the last ones up to its capacity, oldest first, each with its
  observations, action, reward, end flag and mask. The next mask is not read back: every row has the
  one that allows all actions, whatever was logged.\<close>

theorem logged_transitions_loaded:
  assumes "list_all2 (line_of shown) lines ts" "list_all (live_sized d n) ts" "0 < capacity"
  shows "\<exists>b. load_live_shadow_log lines d n capacity = Inr b \<and>
    contents b = drop (length ts - capacity) (map (loaded_row n) ts)"
proof -
  let ?b = "new_replay capacity d n"
  have b: "ring_ok ?b" "contents ?b = []"
    using new_ring(1) [OF assms(3)] new_ring(2) by blast+
  have sel: "rb_capacity ?b = capacity" "rb_obs_dim ?b = d" "rb_n_actions ?b = n" "open_masks ?b"
    by (simp_all add: new_replay_def open_masks_def)
  from load_log_rows [OF assms(1) b(1) sel(4)] assms(2) show ?thesis
    by (auto simp: load_live_shadow_log_def sel b(2) last_n_def)
qed

definition demo_shown :: "real \<Rightarrow> string" where
  "demo_shown x = (if x = 1 / 2 then ''0.5'' else if x = - 1 / 4 then ''-0.25'' else ''2.0'')"

definition demo_logged :: live_transition where
  "demo_logged = \<lparr>lt_obs = [1 / 2], lt_act = 1, lt_rew = - 1 / 4, lt_next_obs = [1 / 2], lt_done = False,
     lt_mask = [False, True], lt_next_mask = [False, True], lt_jct = 2\<rparr>"

definition demo_line :: string where
  "demo_line = '' {\"obs\":[0.5],\"act\":1,\"rew\":-0.25,\"next_obs\":[0.5],\"done\":false,\"mask\":[false,true],\"next_mask\":[false,true],\"jct_s\":2.0}''"

lemma demo_line_text: "json_loads (str_strip demo_line) = Inr (JObj [(''obs'', JList [JFloat ''0.5'' (1/2)]), (''act'', JInt 1),
    (''rew'', JFloat ''-0.25'' (-1/4)), (''next_obs'', JList [JFloat ''0.5'' (1/2)]), (''done'', JBool False),
    (''mask'', JList [JBool False, JBool True]), (''next_mask'', JList [JBool False, JBool True]), (''jct_s'', JFloat ''2.0'' 2)])"
  by code_simp

lemma demo_line_of: "line_of demo_shown demo_line demo_logged"
proof -
  have "json_loads (str_strip demo_line) = Inr (JObj (logged_json demo_shown demo_logged))"
    unfolding demo_line_text by (simp add: logged_json_def demo_shown_def demo_logged_def Let_def)
  moreover have "str_strip demo_line \<noteq> []"
    by code_simp
  ultimately show ?thesis
    by (simp add: line_of_def)
qed

theorem logged_transitions_loaded_witness:
  "\<exists>b. load_live_shadow_log [demo_line, demo_line] 1 2 5 = Inr b \<and> map rw_mask (contents b) = [[False, True], [False, True]] \<and>
    map rw_next_mask (contents b) = [[True, True], [True, True]]"
proof -
  have "list_all2 (line_of demo_shown) [demo_line, demo_line] [demo_logged, demo_logged]"
    using demo_line_of by simp
  moreover have "list_all (live_sized 1 2) [demo_logged, demo_logged]"
    by (simp add: live_sized_def demo_logged_def)
  ultimately show ?thesis
    using logged_transitions_loaded [of demo_shown "[demo_line, demo_line]" "[demo_logged, demo_logged]" 1 2 5]
    by (auto simp: loaded_row_def demo_logged_def numeral_2_eq_2)
qed

section \<open>Mixed batches\<close>

definition draw_lawful :: "(nat \<Rightarrow> nat \<Rightarrow> nat list) \<Rightarrow> bool" where
  "draw_lawful dr \<longleftrightarrow> (\<forall>h m. (0 < h \<or> m = 0) \<longrightarrow> length (dr h m) = m \<and> list_all (\<lambda>i. i < h) (dr h m))"

text \<open>A mixed batch never raises and has the size asked for: with an empty online buffer all its rows
  are offline rows, otherwise the share of live rows, rounded down but at least one, comes first and
  the rest are offline rows, every one a row in use of its buffer.\<close>

lemma mixed_batch_share:
  assumes "draw_lawful draw1" "draw_lawful draw2" "0 < rb_size offline" "0 < batch_size" "0 \<le> ratio" "ratio \<le> 1"
  shows "\<exists>ix jx. mixed_batch offline online batch_size ratio draw1 draw2 =
      Inr (if rb_size online = 0 then rows jx offline else join_batches (rows ix online) (rows jx offline)) \<and>
    int (length ix) = (if rb_size online = 0 then 0 else max 1 \<lfloor>of_int batch_size * ratio\<rfloor>) \<and>
    int (length ix + length jx) = batch_size \<and> list_all (\<lambda>i. i < rb_size online) ix \<and> list_all (\<lambda>i. i < rb_size offline) jx"
proof (cases "rb_size online = 0")
  case True
  have "length (draw1 (rb_size offline) (nat batch_size)) = nat batch_size"
    "list_all (\<lambda>i. i < rb_size offline) (draw1 (rb_size offline) (nat batch_size))"
    using assms(1,3) by (simp_all add: draw_lawful_def)
  with True assms(3,4) show ?thesis
    by (intro exI [of _ "[]"] exI [of _ "draw1 (rb_size offline) (nat batch_size)"])
      (simp add: mixed_batch_def replay_sample_def integers_def)
next
  case False
  define k where "k = max 1 \<lfloor>of_int batch_size * ratio\<rfloor>"
  have "of_int batch_size * ratio \<le> of_int batch_size"
    using assms(4,6) by (simp add: mult_left_le)
  then have "\<lfloor>of_int batch_size * ratio\<rfloor> \<le> batch_size"
    by linarith
  then have k: "1 \<le> k" "k \<le> batch_size"
    using assms(4) by (simp_all add: k_def)
  have trunc: "max 1 (int_trunc (of_int batch_size * ratio)) = k"
    using assms(4,5) by (simp add: int_trunc_def k_def)
  have d1: "length (draw1 (rb_size online) (nat k)) = nat k" "list_all (\<lambda>i. i < rb_size online) (draw1 (rb_size online) (nat k))"
    using assms(1) False by (simp_all add: draw_lawful_def)
  have d2: "length (draw2 (rb_size offline) (nat (batch_size - k))) = nat (batch_size - k)"
    "list_all (\<lambda>i. i < rb_size offline) (draw2 (rb_size offline) (nat (batch_size - k)))"
    using assms(2,3) by (simp_all add: draw_lawful_def)
  show ?thesis
    by (rule exI [of _ "draw1 (rb_size online) (nat k)"], rule exI [of _ "draw2 (rb_size offline) (nat (batch_size - k))"])
      (use False k d1 d2 trunc assms(3) in \<open>simp add: mixed_batch_def replay_sample_def integers_def Let_def k_def [symmetric]\<close>)
qed

section \<open>Fine-tuning\<close>

text \<open>The updates never raise and log one line per update.\<close>

lemma utd_steps_ok:
  assumes "\<forall>k. draw_lawful (tg_draw tg k)" "0 < rb_size offline" "0 < batch_size" "0 \<le> ratio" "ratio \<le> 1"
  shows "\<exists>a'. utd_steps m lrn tg k offline online batch_size ratio a = Inr a'"
proof (induction m arbitrary: k a)
  case (Suc m)
  obtain bt where "mixed_batch offline online batch_size ratio (tg_draw tg (2 * k)) (tg_draw tg (2 * k + 1)) = Inr bt"
    using mixed_batch_share [of "tg_draw tg (2 * k)" "tg_draw tg (2 * k + 1)"] assms by blast
  with Suc.IH show ?case
    by simp
qed simp

lemma rlpd_updates_ok:
  assumes "\<forall>k. draw_lawful (tg_draw tg k)" "0 < rb_size offline" "0 < batch_size" "0 \<le> ratio" "ratio \<le> 1"
  shows "\<exists>a'. rlpd_updates us utd lrn tg offline online batch_size ratio (a, logged) =
    Inr (a', logged @ map (\<lambda>u. \<lparr>rg_update = u, rg_online = rb_size online, rg_offline = rb_size offline\<rparr>) us)"
proof (induction us arbitrary: a logged)
  case (Cons u us)
  obtain a1 where "utd_steps utd lrn tg (u * utd) offline online batch_size ratio a = Inr a1"
    using utd_steps_ok [OF assms, where m = utd and lrn = lrn and k = "u * utd" and online = online and a = a] by auto
  with Cons.IH [of a1 "logged @ [\<lparr>rg_update = u, rg_online = rb_size online, rg_offline = rb_size offline\<rparr>]"] show ?case
    by simp
qed simp

text \<open>A greedy episode ends by the environment's step limit, whatever the agent chooses.\<close>

lemma greedy_episode_ends:
  assumes "env_ready cfg en" "ec_max_steps cfg \<le> en_steps en + fuel" "0 < fuel"
  shows "\<exists>x. greedy_episode fuel lrn nz en obs a = Some (Inr x)"
  using assms
proof (induction fuel arbitrary: en obs a)
  case (Suc fuel)
  obtain act a' where sel: "ln_select lrn a obs (mask_of en) = (act, a')"
    by fastforce
  obtain res en' where st: "step nz act en = Inr (res, en')" "env_ready cfg en'" "en_steps en' = en_steps en + 1"
      "sr_truncated res \<longleftrightarrow> ec_max_steps cfg \<le> en_steps en'"
    by (rule ready_step [OF Suc.prems(1), of nz act])
  show ?case
  proof (cases "sr_terminated res \<or> sr_truncated res")
    case False
    then have "ec_max_steps cfg \<le> en_steps en' + fuel" "0 < fuel"
      using Suc.prems(2) st(3,4) by auto
    from Suc.IH [OF st(2) this, of "sr_obs res" a'] False st(1) sel show ?thesis
      by simp
  qed (use st(1) sel in simp)
qed simp

end
