(* ===== verification/Spec2Isabelle.thy ===== *)
theory Spec2Isabelle
  imports SimProps GymProps VecProps TraceProps OpProps WatchProps RlProps LiveProps LearnProps CollectProps
begin

text \<open>
  A model of Kelpflux, a Slurm-on-Kubernetes GPU cluster with an autoscaling operator, a
  discrete-event simulator of its scheduler and a learned placement policy.

  \<^bold>\<open>The program.\<close> It has three parts that meet in Slurm's job table. The operator (\<^verbatim>\<open>operator/\<close>)
  watches the pools of worker pods: a collector turns Slurm's answers into one state per pool, a
  policy turns a state into a scaling decision, a reconciler carries the decision out by draining
  Slurm nodes and patching StatefulSets, and a separate loop requeues jobs that keep GPUs
  fragmented. The simulator (\<^verbatim>\<open>sim/\<close>) replays a job trace on a model of the same cluster, under
  classical schedulers (\<^verbatim>\<open>runner.py\<close>) or as the environment a placement policy is trained in
  (\<^verbatim>\<open>gym_env.py\<close>). The live services (\<^verbatim>\<open>services/rl_scheduler/\<close>) put the trained policy to work:
  a snapshot agent shows the policy server the cluster, the server answers what the policy would
  place next, a placement controller pins held jobs to nodes accordingly, and a reorder daemon
  turns repeated answers into Slurm priorities. A collector logs what the live cluster did, and two
  trainers learn the policy, one from the simulator and one from simulated, replayed and logged
  transitions.

  \<^bold>\<open>The theories.\<close> The order is that of the imports; each opens with its own description.
  \<^item> \<open>Prelude\<close>, \<open>PyText\<close>, \<open>PyStats\<close>, \<open>PyJson\<close>: what the source uses of Python. A dict is an
    association list in insertion order, a set a duplicate-free list, an exception a value of
    \<open>py_error\<close>, \<^verbatim>\<open>sorted\<close> is \<open>sort_key\<close>, a regular expression a scanner, decoded JSON a datatype.
  \<^item> \<open>SimJob\<close>, \<open>SimCluster\<close>: \<^verbatim>\<open>Job\<close> of \<^verbatim>\<open>sim/loader.py\<close> and the whole class \<^verbatim>\<open>Cluster\<close> of
    \<^verbatim>\<open>sim/cluster.py\<close>. \<open>SimLedger\<close> has the ledger invariant \<open>wf_cluster\<close> and its preservation,
    \<open>SimPlanner\<close> the planners and the locale \<open>planner\<close>, \<open>SimReach\<close> the step relation over all
    operations with what holds of every reachable cluster.
  \<^item> \<open>SimLoader\<close>: the readers, the writer and the random generators of \<^verbatim>\<open>sim/loader.py\<close>, with what
    they produce in \<open>SimLoaderFacts\<close>; \<open>SimTrace\<close> and \<open>SimTraceFacts\<close>: the conversion of \<^verbatim>\<open>sacct\<close> output
    (\<^verbatim>\<open>sim/live_trace.py\<close>), with the automaton of Python's \<^verbatim>\<open>csv\<close> reader.
  \<^item> \<open>SimSched\<close> (\<^verbatim>\<open>sim/scheduler/\<close>), \<open>SimLatency\<close> (\<^verbatim>\<open>latency.py\<close>), \<open>SimMetrics\<close> (\<^verbatim>\<open>metrics.py\<close>)
    and \<open>SimRunner\<close> (\<^verbatim>\<open>runner.py\<close>), with the invariant of the event loop in \<open>SimRunnerFacts\<close>.
  \<^item> \<open>SimGym\<close> (\<^verbatim>\<open>gym_env.py\<close>), with its codec, mask and episode invariant in \<open>SimGymFacts\<close>;
    \<open>SimVec\<close> (\<^verbatim>\<open>vec_env.py\<close>: the in-process backend, and the one with worker processes as a step relation
    on its pipes) and \<open>SimVecFacts\<close>.
  \<^item> \<open>OpPolicy\<close> (\<^verbatim>\<open>models.py\<close>, \<^verbatim>\<open>policy.py\<close>, \<^verbatim>\<open>validate_config\<close> of \<^verbatim>\<open>main.py\<close>), \<open>OpMonad\<close> and
    \<open>OpReconciler\<close> (\<^verbatim>\<open>reconciler.py\<close>, \<^verbatim>\<open>scale_actions.py\<close>) with \<open>OpReconcilerFacts\<close>, \<open>OpQueue\<close> and
    \<open>OpApp\<close> (\<^verbatim>\<open>app.py\<close>), \<open>OpCollector\<close> (\<^verbatim>\<open>collector.py\<close>, the parsing half of \<^verbatim>\<open>slurm.py\<close>) with
    \<open>OpCollectorFacts\<close>, \<open>OpFragmentation\<close>, \<open>OpFragmentationFacts\<close>, \<open>OpFragmentationRest\<close>
    (\<^verbatim>\<open>fragmentation.py\<close>, \<^verbatim>\<open>fragmentation_loop.py\<close>).
  \<^item> \<open>OpWatchers\<close> (\<^verbatim>\<open>watchers.py\<close> and the loop of \<^verbatim>\<open>app.py\<close> that consumes what they put) with
    \<open>OpWatcherFacts\<close>, and \<open>OpK8s\<close> (\<^verbatim>\<open>k8s.py\<close>), with what makes it an implementation of the store the
    reconciler is modelled over.
  \<^item> \<open>PyLoads\<close> (\<^verbatim>\<open>json.loads\<close>), \<open>RlSnapshot\<close> (\<^verbatim>\<open>snapshot_agent.py\<close>), \<open>RlSchema\<close> (the request and
    response models of \<^verbatim>\<open>serve.py\<close> and the clients' world), \<open>RlPlacement\<close>
    (\<^verbatim>\<open>placement_controller.py\<close>), \<open>RlReorder\<close> and \<open>RlCycle\<close> (\<^verbatim>\<open>reorder_daemon.py\<close>), \<open>RlServe\<close>
    (\<^verbatim>\<open>serve.py\<close>). \<open>RlServeFacts\<close> has the server's mask and choice, \<open>RlEquiv\<close> its agreement with the
    training environment, \<open>RlRankFacts\<close>, \<open>RlCycleFacts\<close> and \<open>RlPlaceFacts\<close> the clients' proofs, \<open>RlDemo\<close>
    the small cluster of the witnesses. \<open>RlLive\<close> (\<^verbatim>\<open>live_daemon.py\<close>) and \<open>RlLiveFacts\<close>: the collector
    that logs live transitions for later training.
  \<^item> \<open>RlBuffer\<close> (the sum tree, the replay buffers and the mixed batch of \<^verbatim>\<open>rlpd_finetune.py\<close>), \<open>RlTrain\<close>
    (the training loop of \<^verbatim>\<open>sim_train.py\<close>) and \<open>RlCollect\<close> (the sources of transitions and the fine-tuning
    loop of \<^verbatim>\<open>rlpd_finetune.py\<close>). \<open>RlBufferFacts\<close> has the locale \<open>priority_index\<close>, interpreted on the sum
    tree, and the ring; \<open>RlTrainFacts\<close> the n-step windows, the reward scale and the loop's invariant;
    \<open>RlCollectFacts\<close> the environment in use and the rollouts. The agent is the parameter \<open>learner\<close>, numpy's
    generator the parameter \<open>train_rng\<close>, a function of the number of the draw per method.
  \<^item> \<open>SimProps\<close>, \<open>GymProps\<close>, \<open>VecProps\<close>, \<open>TraceProps\<close>, \<open>OpProps\<close>, \<open>WatchProps\<close>, \<open>RlProps\<close>, \<open>LiveProps\<close>,
    \<open>LearnProps\<close>, \<open>CollectProps\<close>: the properties, with their witnesses.

  \<^bold>\<open>Correspondence.\<close> Definitions carry the source's names where HOL leaves them free. Objects with
  attributes are records passed through and returned updated. The operator's effects are the
  computations of \<open>OpMonad\<close>: a state, an exception or a value, and a recorded list of calls; what
  the world answers is the environment \<open>op_env\<close>, indexed by the number of calls made so far, so a
  theorem for every environment covers every order of answers and failures. Event heaps are lists
  kept in the heap's order. Numpy's generators are the parameter \<open>noise\<close>, Python's \<^verbatim>\<open>random.Random\<close> is
  the parameter \<open>rng\<close>, one function of the number of the draw per method, and the readings of time
  stamps that depend on the time zone are \<open>clock_parsers\<close>. The live clients are
  computations of the same monad over \<open>rl_env\<close>, where every answer of slurmrestd, of the server and
  of the clocks depends on the number of the call, and every update sent to Slurm is recorded. The
  policy network is an \<open>agent\<close>; \<open>softmax_agent\<close> is what its library documents of a policy head, one
  non-negative probability per action, and \<open>served\<close> says that a request reaches the modelled server
  or fails.

  \<^bold>\<open>What the lemmas show.\<close> The ledger of the cluster is exact in every reachable state and the
  planners are complete; every simulation run terminates, never raises and ends idle; an episode of
  the environment keeps its invariant under arbitrary actions, its mask is exact and its steps make
  progress. A reconcile touches its own pool only, patches replicas only for a reason, drains
  before it shrinks and respects its gates; a restart loses no scale-up; the event queue loses no
  event in any interleaving, and a change the poller sees is reconciled within as many turns of the
  main loop as there are items in the queue; a job Slurm reports as running keeps its pool from shrinking; the
  defragmentation loop names only legitimate victims and respects its rate limits. The policy
  server sees what the policy was trained on and boosts only a job it would place; the placement
  controller pins jobs only where their constraints allow; a reorder cycle writes exactly the order
  it computed, in its own band of priorities, or rolls back. The collector logs
  transitions of the shape and the observations the policy is trained on. The environments in worker
  processes compute what those in the trainer's process compute, under every schedule, and never
  block when every one is given an action. Training never raises and learns only from well-formed
  rows whose action their mask allows; the prioritized buffer samples in proportion to priority, both
  buffers hold the latest transitions, n-step transitions are the windows of their episode, and each
  source of transitions ends with rows of that kind. Where the code
  does not do what it means to, a theorem about a concrete input says so.

  \<^bold>\<open>Bounds and termination.\<close> The JSON parser uses fuel, twice the length of the text
  and two more, because a character is consumed at least at every second call. Rollouts have as
  fuel the number of transitions wanted, as each step adds one, and the replay of a trace and a greedy
  episode the environment's step limit, at which it truncates; that this is enough is proved. The
  loops of the sum tree are total by the distance of the node from the root or the leaves. The event loop of the runner and
  \<open>advance_to_decision\<close> are total by measures: an event to be submitted weighs more than what
  processing it can add (\<open>event_weight\<close>), and the environment's loop consumes its heap. The ranking
  loop makes its dictionary smaller with every pick. The evaluation's \<open>reorder_loop\<close> may run forever
  and is a partial function; the daemon is run for a given number of iterations.

  \<^bold>\<open>Idealisations.\<close> Floats are exact reals and division is total, with positive denominators among
  the hypotheses where it matters. Integers are unbounded as in Python. Strings are lists of
  characters, with the ASCII part of case mapping and of white space.

  \<^bold>\<open>Not modelled.\<close> HTTP in \<^verbatim>\<open>slurm.py\<close>, the scheduling of threads (the queue's lock
  steps interleave, the watches are runs over what their streams deliver), Prometheus and OpenTelemetry, logging beyond the pairs of event and reason, command
  lines, file output, the neural networks with their losses and optimisers, the training rollout over
  several environments, tokens and HTTP of the live services, the runtime predictor, the web front end,
  the exporter, and the evaluation scripts.
\<close>

end
